(* ===== verification/Prelude.thy ===== *)
theory Prelude
  imports Main "HOL-Library.List_Lexorder" "HOL-Library.Char_ord" "HOL-Library.Multiset"
begin

text \<open>
  The part of Go and of its standard library that the LittleRed operator uses, and the generic
  lemmas the components share.

  \<^item> A Go \<open>string\<close> is a list of bytes (\<open>string\<close>, a char list); \<open><\<close> on it is the bytewise
    lexicographic order of Go, which HOL-Library.List_Lexorder and Char_ord give.
  \<^item> The functions of the packages \<open>strings\<close>, \<open>strconv\<close> and \<open>sort\<close> appear under their Go names.
    White space is the ASCII white space: the replies of Redis that are parsed are ASCII.
  \<^item> A Go \<open>int\<close> or \<open>int64\<close> is an \<open>int\<close>; the only place where 64-bit overflow is observable
    in the modelled code is the parsing of decimal numbers, where \<open>ParseInt64\<close> writes the
    range error and the clipped value out, and \<open>time.Time.Sub\<close>, which saturates.
  \<^item> A time is the number of nanoseconds since Go's zero time, so \<open>IsZero t\<close> is \<open>t = 0\<close>;
    a duration is a number of nanoseconds.
  \<^item> A Go map that the code ranges over is an association list whose order is the (unspecified)
    order of that iteration; a map used as a set is a \<open>set\<close>.
\<close>

named_theorems go_defs "unfoldings of the modelled Go library functions"

section \<open>Types\<close>

type_synonym time = int
type_synonym duration = int

datatype num_error = ErrSyntax | ErrRange

text \<open>The run-time panics that the modelled code can raise.\<close>

datatype go_panic = IndexOutOfRange | NilDereference

text \<open>The phase in the status of an instance; unset is the empty string.\<close>

datatype LittleRedPhase =
  PhaseUnset | PhasePending | PhaseInitializing | PhaseRunning | PhaseFailed | PhaseTerminating

abbreviation second :: duration where
  "second \<equiv> 1000000000"

section \<open>Package strings\<close>

definition HasPrefix :: "string \<Rightarrow> string \<Rightarrow> bool" where
  "HasPrefix s p \<longleftrightarrow> take (length p) s = p"

fun Contains :: "string \<Rightarrow> string \<Rightarrow> bool" where
  "Contains [] sub \<longleftrightarrow> sub = []"
| "Contains (c # cs) sub \<longleftrightarrow> HasPrefix (c # cs) sub \<or> Contains cs sub"

text \<open>\<open>strings.Split\<close> for a separator of one byte; the result is never empty.\<close>

fun Split :: "char \<Rightarrow> string \<Rightarrow> string list" where
  "Split sep [] = [[]]"
| "Split sep (c # cs) =
     (if c = sep then [] # Split sep cs
      else (c # hd (Split sep cs)) # tl (Split sep cs))"

text \<open>\<open>strings.SplitN (_, sep, 2)\<close> and \<open>strings.Cut\<close> for a separator of one byte.\<close>

fun cut_at :: "char \<Rightarrow> string \<Rightarrow> (string \<times> string) option" where
  "cut_at sep [] = None"
| "cut_at sep (c # cs) =
     (if c = sep then Some ([], cs)
      else map_option (\<lambda>(a, b). (c # a, b)) (cut_at sep cs))"

text \<open>\<open>strings.Cut\<close> for a longer separator, as used on \<open>keys=\<close>.\<close>

fun Cut :: "string \<Rightarrow> string \<Rightarrow> (string \<times> string) option" where
  "Cut sep [] = (if sep = [] then Some ([], []) else None)"
| "Cut sep (c # cs) =
     (if HasPrefix (c # cs) sep then Some ([], drop (length sep) (c # cs))
      else map_option (\<lambda>(a, b). (c # a, b)) (Cut sep cs))"

definition is_space :: "char \<Rightarrow> bool" where
  "is_space c \<longleftrightarrow> c = CHR '' '' \<or> c = CHR 0x09 \<or> c = CHR 0x0A \<or> c = CHR 0x0B \<or>
     c = CHR 0x0C \<or> c = CHR 0x0D"

definition TrimSpace :: "string \<Rightarrow> string" where
  "TrimSpace s = rev (dropWhile is_space (rev (dropWhile is_space s)))"

fun Fields_acc :: "string \<Rightarrow> string \<Rightarrow> string list" where
  "Fields_acc [] acc = (if acc = [] then [] else [rev acc])"
| "Fields_acc (c # cs) acc =
     (if is_space c then (if acc = [] then Fields_acc cs [] else rev acc # Fields_acc cs [])
      else Fields_acc cs (c # acc))"

definition Fields :: "string \<Rightarrow> string list" where
  "Fields s = Fields_acc s []"

fun Join :: "string list \<Rightarrow> string \<Rightarrow> string" where
  "Join [] sep = []"
| "Join [x] sep = x"
| "Join (x # y # ys) sep = x @ sep @ Join (y # ys) sep"

definition to_lower_char :: "char \<Rightarrow> char" where
  "to_lower_char c =
     (let n = of_char c :: nat in if 65 \<le> n \<and> n \<le> 90 then char_of (n + 32) else c)"

definition ToLower :: "string \<Rightarrow> string" where
  "ToLower s = map to_lower_char s"

section \<open>Package strconv\<close>

definition is_digit :: "char \<Rightarrow> bool" where
  "is_digit c \<longleftrightarrow> (48::nat) \<le> of_char c \<and> of_char c \<le> (57::nat)"

definition digit_val :: "char \<Rightarrow> nat" where
  "digit_val c = of_char c - 48"

definition digit_char :: "nat \<Rightarrow> char" where
  "digit_char d = char_of (48 + d)"

fun nat_digits :: "nat \<Rightarrow> string" where
  "nat_digits n =
     (if n < 10 then [digit_char n] else nat_digits (n div 10) @ [digit_char (n mod 10)])"

declare nat_digits.simps [simp del]

definition Itoa :: "int \<Rightarrow> string" where
  "Itoa i = (if i < 0 then CHR ''-'' # nat_digits (nat (- i)) else nat_digits (nat i))"

definition max_uint64 :: nat where
  "max_uint64 = 2 ^ 64 - 1"

definition max_int64 :: int where
  "max_int64 = 2 ^ 63 - 1"

definition min_int64 :: int where
  "min_int64 = - (2 ^ 63)"

text \<open>
  The digit loop of \<open>strconv.ParseUint\<close>: it stops at the first byte that is not a digit
  (syntax error) or at the first overflow of 64 bits (range error, the value is clipped).
\<close>

fun parse_uint :: "nat \<Rightarrow> string \<Rightarrow> nat \<times> num_error option" where
  "parse_uint n [] = (n, None)"
| "parse_uint n (c # cs) =
     (if \<not> is_digit c then (0, Some ErrSyntax)
      else if n * 10 + digit_val c > max_uint64 then (max_uint64, Some ErrRange)
      else parse_uint (n * 10 + digit_val c) cs)"

definition ParseUint64 :: "string \<Rightarrow> nat \<times> num_error option" where
  "ParseUint64 s = (if s = [] then (0, Some ErrSyntax) else parse_uint 0 s)"

definition strip_sign :: "string \<Rightarrow> bool \<times> string" where
  "strip_sign s =
     (case s of
        [] \<Rightarrow> (False, [])
      | c # cs \<Rightarrow> if c = CHR ''+'' then (False, cs)
                  else if c = CHR ''-'' then (True, cs) else (False, s))"

text \<open>\<open>strconv.ParseInt (s, 10, 64)\<close>: the value (clipped or 0 on an error) and the error.\<close>

definition ParseInt64 :: "string \<Rightarrow> int \<times> num_error option" where
  "ParseInt64 s =
     (let (neg, ds) = strip_sign s; (un, err) = ParseUint64 ds in
      if err = Some ErrSyntax then (0, err)
      else if \<not> neg \<and> int un > max_int64 then (max_int64, Some ErrRange)
      else if neg \<and> int un > - min_int64 then (min_int64, Some ErrRange)
      else (if neg then - int un else int un, None))"

text \<open>\<open>strconv.Atoi\<close>, as a result that is either the error or the number.\<close>

definition Atoi :: "string \<Rightarrow> num_error + int" where
  "Atoi s = (case ParseInt64 s of (v, Some e) \<Rightarrow> Inl e | (v, None) \<Rightarrow> Inr v)"

definition hex_digit :: "nat \<Rightarrow> char" where
  "hex_digit n = (if n < 10 then char_of (48 + n) else char_of (87 + n))"

text \<open>
  \<open>strconv.Quote\<close> (the verb \<open>%q\<close>) on ASCII: printable bytes stay, the named escapes and
  \<open>\xNN\<close> for the rest; a byte of a printable UTF-8 sequence stays as it is.
\<close>

definition quote_char :: "char \<Rightarrow> string" where
  "quote_char c =
     (let n = of_char c :: nat in
      if n = 34 then [CHR 0x5C, CHR 0x22]
      else if n = 92 then [CHR 0x5C, CHR 0x5C]
      else if n \<ge> 128 \<or> (32 \<le> n \<and> n < 127) then [c]
      else if n = 7 then [CHR 0x5C, CHR ''a'']
      else if n = 8 then [CHR 0x5C, CHR ''b'']
      else if n = 12 then [CHR 0x5C, CHR ''f'']
      else if n = 10 then [CHR 0x5C, CHR ''n'']
      else if n = 13 then [CHR 0x5C, CHR ''r'']
      else if n = 9 then [CHR 0x5C, CHR ''t'']
      else if n = 11 then [CHR 0x5C, CHR ''v'']
      else [CHR 0x5C, CHR ''x'', hex_digit (n div 16), hex_digit (n mod 16)])"

definition Quote :: "string \<Rightarrow> string" where
  "Quote s = [CHR 0x22] @ concat (map quote_char s) @ [CHR 0x22]"

text \<open>The UTF-8 bytes of the em dash that some of the operator's messages contain.\<close>

definition em_dash :: string where
  "em_dash = [CHR 0xE2, CHR 0x80, CHR 0x94]"

text \<open>Equations that evaluate quickly.\<close>

lemma Split_code [code]:
  "Split sep [] = [[]]"
  "Split sep (c # cs) =
     (let xs = Split sep cs in if c = sep then [] # xs else case xs of [] \<Rightarrow> [[c]] | y # ys \<Rightarrow> (c # y) # ys)"
proof -
  have "Split sep cs \<noteq> []" by (cases cs) auto
  then show "Split sep (c # cs) = (let xs = Split sep cs in if c = sep then [] # xs else case xs of [] \<Rightarrow> [[c]] | y # ys \<Rightarrow> (c # y) # ys)"
    by (auto simp: Let_def split: list.split)
qed simp

lemma parse_uint_code [code]:
  "parse_uint n [] = (n, None)"
  "parse_uint n (c # cs) =
     (if \<not> is_digit c then (0, Some ErrSyntax)
      else if int n * 10 + int (digit_val c) > 18446744073709551615 then (max_uint64, Some ErrRange)
      else parse_uint (n * 10 + digit_val c) cs)"
  by (auto simp: max_uint64_def)

section \<open>Package time\<close>

text \<open>\<open>t.Sub (u)\<close> saturates at the bounds of a 64-bit duration.\<close>

definition Sub :: "time \<Rightarrow> time \<Rightarrow> duration" where
  "Sub t u = max min_int64 (min max_int64 (t - u))"

text \<open>A \<open>*metav1.Time\<close> is set when it is neither nil nor the zero time.\<close>

definition time_set :: "time option \<Rightarrow> bool" where
  "time_set t \<longleftrightarrow> (case t of None \<Rightarrow> False | Some u \<Rightarrow> u \<noteq> 0)"

section \<open>Maps used as sets\<close>

text \<open>The sorted keys of a \<open>map[string]bool\<close> filled with the elements of a list.\<close>

definition sortedKeys :: "string list \<Rightarrow> string list" where
  "sortedKeys xs = sort (remdups xs)"

section \<open>Lemmas on strings\<close>

lemma Split_nonempty [simp]: "Split sep s \<noteq> []"
  by (cases s) auto

lemma Split_no_sep [simp]: "sep \<notin> set s \<Longrightarrow> Split sep s = [s]"
  by (induction s) auto

lemma Split_append:
  "sep \<notin> set a \<Longrightarrow> Split sep (a @ sep # b) = a # Split sep b"
  by (induction a) auto

lemma Split_parts_no_sep: "p \<in> set (Split sep s) \<Longrightarrow> sep \<notin> set p"
proof (induction s arbitrary: p)
  case (Cons c cs)
  then show ?case
    by (cases "Split sep cs") (auto split: if_splits)
qed simp

lemma HasPrefix_append [simp]: "HasPrefix (p @ s) p"
  by (simp add: HasPrefix_def)

lemma Contains_iff: "Contains s sub \<longleftrightarrow> (\<exists>a b. s = a @ sub @ b)"
proof (induction s)
  case Nil
  show ?case by simp
next
  case (Cons c cs)
  have "HasPrefix (c # cs) sub \<longleftrightarrow> (\<exists>b. c # cs = sub @ b)"
    by (auto simp: HasPrefix_def) (metis append_take_drop_id)
  moreover have "(\<exists>a b. c # cs = a @ sub @ b) \<longleftrightarrow>
      (\<exists>b. c # cs = sub @ b) \<or> (\<exists>a b. cs = a @ sub @ b)" (is "?L = ?R")
  proof
    assume ?L
    then obtain a b where ab: "c # cs = a @ sub @ b" by blast
    then show ?R by (cases a) auto
  next
    assume ?R
    then show ?L by (metis append_Cons append_Nil)
  qed
  ultimately show ?case using Cons.IH by simp
qed

section \<open>Lemmas on decimal numbers\<close>

lemma digit_char_simps [simp]:
  "digit_char 0 = CHR ''0''" "digit_char 1 = CHR ''1''" "digit_char (Suc 0) = CHR ''1''"
  "digit_char 2 = CHR ''2''" "digit_char 3 = CHR ''3''" "digit_char 4 = CHR ''4''"
  "digit_char 5 = CHR ''5''" "digit_char 6 = CHR ''6''" "digit_char 7 = CHR ''7''"
  "digit_char 8 = CHR ''8''" "digit_char 9 = CHR ''9''"
  by code_simp+

lemma digit_char_inverse:
  assumes "d < 10"
  shows "is_digit (digit_char d)" and "digit_val (digit_char d) = d"
  using assms by (simp_all add: is_digit_def digit_val_def digit_char_def)

lemma digit_char_neq:
  assumes "d < 10"
  shows "digit_char d \<noteq> CHR ''-''" and "digit_char d \<noteq> CHR ''+''"
  using digit_char_inverse(1) [OF assms] by (auto simp: is_digit_def)

lemma nat_digits_nonempty [simp]: "nat_digits n \<noteq> []"
  by (subst nat_digits.simps) simp

lemma nat_digits_are_digits: "c \<in> set (nat_digits n) \<Longrightarrow> \<exists>d < 10. c = digit_char d"
proof (induction n rule: nat_digits.induct)
  case (1 n)
  then show ?case
    by (cases "n < 10")
      (auto simp: nat_digits.simps [of n] intro: exI [of _ n] exI [of _ "n mod 10"])
qed

lemma nat_digits_no_sign [simp]:
  "CHR ''-'' \<notin> set (nat_digits n)" "CHR ''+'' \<notin> set (nat_digits n)"
  using nat_digits_are_digits digit_char_neq by metis+

lemma parse_uint_append:
  "parse_uint m ds = (n, None) \<Longrightarrow> parse_uint m (ds @ es) = parse_uint n es"
  by (induction ds arbitrary: m) (auto split: if_splits)

lemma parse_uint_nat_digits:
  "n \<le> max_uint64 \<Longrightarrow> parse_uint 0 (nat_digits n) = (n, None)"
proof (induction n rule: nat_digits.induct)
  case (1 n)
  show ?case
  proof (cases "n < 10")
    case True
    with "1.prems" show ?thesis
      by (simp add: nat_digits.simps [of n] digit_char_inverse)
  next
    case False
    with "1" have "parse_uint 0 (nat_digits (n div 10)) = (n div 10, None)"
      by simp
    from parse_uint_append [OF this] False "1.prems" show ?thesis
      by (simp add: nat_digits.simps [of n] digit_char_inverse)
  qed
qed

lemma nat_digits_value: "foldl (\<lambda>n c. 10 * n + digit_val c) 0 (nat_digits n) = n"
proof (induction n rule: nat_digits.induct)
  case (1 n)
  then show ?case
    by (cases "n < 10") (simp_all add: nat_digits.simps [of n] digit_char_inverse)
qed

lemma Itoa_nat_inj [simp]: "Itoa (int i) = Itoa (int j) \<longleftrightarrow> i = j"
proof
  assume "Itoa (int i) = Itoa (int j)"
  then have "nat_digits i = nat_digits j" by (simp add: Itoa_def)
  then show "i = j" using nat_digits_value [of i] nat_digits_value [of j] by argo
qed simp

lemma strip_sign_nat_digits [simp]: "strip_sign (nat_digits n) = (False, nat_digits n)"
proof -
  obtain c cs where c: "nat_digits n = c # cs"
    by (cases "nat_digits n") auto
  then have "c \<in> set (nat_digits n)" by simp
  then have "c \<noteq> CHR ''-''" "c \<noteq> CHR ''+''"
    using nat_digits_no_sign [of n] by auto
  with c show ?thesis by (simp add: strip_sign_def)
qed

lemma strip_sign_minus [simp]: "strip_sign (CHR ''-'' # ds) = (True, ds)"
  by (simp add: strip_sign_def)

lemma ParseInt64_Itoa:
  assumes "min_int64 \<le> i" and "i \<le> max_int64"
  shows "ParseInt64 (Itoa i) = (i, None)"
proof (cases "i < 0")
  case True
  then have "nat (- i) \<le> max_uint64"
    using assms by (simp add: max_uint64_def min_int64_def)
  with True assms show ?thesis
    by (simp add: Itoa_def ParseInt64_def ParseUint64_def parse_uint_nat_digits)
next
  case False
  then have "nat i \<le> max_uint64"
    using assms by (simp add: max_uint64_def max_int64_def)
  with False assms show ?thesis
    by (simp add: Itoa_def ParseInt64_def ParseUint64_def parse_uint_nat_digits)
qed

lemma Atoi_Itoa: "min_int64 \<le> i \<Longrightarrow> i \<le> max_int64 \<Longrightarrow> Atoi (Itoa i) = Inr i"
  by (simp add: Atoi_def ParseInt64_Itoa)

lemma Itoa_inj:
  assumes "Itoa i = Itoa j" and "min_int64 \<le> i" "i \<le> max_int64" "min_int64 \<le> j" "j \<le> max_int64"
  shows "i = j"
  using assms Atoi_Itoa by (metis sum.inject(2))

section \<open>Lemmas on sorting and searching\<close>

lemma sort_key_mset_eq:
  assumes "mset xs = mset ys" and "inj_on f (set xs)"
  shows "sort_key f xs = sort_key f ys"
proof -
  let ?a = "sort_key f xs" and ?b = "sort_key f ys"
  have "mset (map f ?b) = mset (map f ?a)" using assms(1) by simp
  then have "sort (map f ?a) = map f ?b" by (rule properties_for_sort) simp
  then have "map f ?a = map f ?b" by (simp add: sorted_sort_id)
  moreover have "inj_on f (set ?a \<union> set ?b)"
    using assms mset_eq_setD [OF assms(1)] by simp
  ultimately show ?thesis by (rule map_inj_on)
qed

lemma set_sortedKeys [simp]: "set (sortedKeys xs) = set xs"
  by (simp add: sortedKeys_def)

lemma sortedKeys_sorted [simp]: "sorted (sortedKeys xs)" "distinct (sortedKeys xs)"
  by (simp_all add: sortedKeys_def)

lemma sortedKeys_cong: "set xs = set ys \<Longrightarrow> sortedKeys xs = sortedKeys ys"
  by (metis set_sortedKeys sorted_distinct_set_unique sortedKeys_sorted)

lemma Sub_ge_iff:
  assumes "min_int64 < d" and "d \<le> max_int64"
  shows "d \<le> Sub t u \<longleftrightarrow> d \<le> t - u"
  using assms by (auto simp: Sub_def min_int64_def max_int64_def)

lemma Sub_less_iff:
  assumes "min_int64 < d" and "d \<le> max_int64"
  shows "Sub t u < d \<longleftrightarrow> t - u < d"
  using Sub_ge_iff [OF assms, of t u] by linarith

end
