(* ===== verification/Slots.thy ===== *)
theory Slots
  imports Prelude
begin

text \<open>
  The pure part of the cluster client (\<open>src/internal/redis/cluster_client.go\<close>): the slot
  ranges of the shards, the textual form of a slot range, and the parsers of the replies to
  CLUSTER NODES and CLUSTER INFO.

  The lemmas show that the ranges partition the 16384 slots whatever the number of shards,
  that the sizes of two shards differ by at most one, that a formatted range parses back and
  expands to its slots, and that the parser of CLUSTER NODES inverts the documented line format.
\<close>

section \<open>Slot ranges\<close>

record slot_range =
  Start :: int
  End :: int

definition totalClusterSlots :: int where
  "totalClusterSlots = 16384"

text \<open>The loop of \<open>GenerateSlotRanges\<close>, from shard index \<open>i\<close> and first free slot \<open>start\<close>.\<close>

function slot_loop :: "int \<Rightarrow> int \<Rightarrow> int \<Rightarrow> int \<Rightarrow> int \<Rightarrow> slot_range list" where
  "slot_loop shards slotsPerShard remainder i start =
     (if i < shards then
        (let count = (if i < remainder then slotsPerShard + 1 else slotsPerShard)
         in \<lparr>Start = start, End = start + count - 1\<rparr>
            # slot_loop shards slotsPerShard remainder (i + 1) (start + count))
      else [])"
  by pat_completeness auto
termination
  by (relation "measure (\<lambda>(shards, _, _, i, _). nat (shards - i))") auto

declare slot_loop.simps [simp del]

definition GenerateSlotRanges :: "int \<Rightarrow> slot_range list" where
  "GenerateSlotRanges shards =
     (if shards \<le> 0 then []
      else slot_loop shards (16384 div shards) (16384 mod shards) 0 0)"

definition FormatSlotRange :: "int \<Rightarrow> int \<Rightarrow> string" where
  "FormatSlotRange start end =
     (if start = end then Itoa start else Itoa start @ ''-'' @ Itoa end)"

datatype slot_error =
    NotANumber num_error
  | InvalidSlotRange string
  | PanicMakeSlice

definition ParseSlotRange :: "string \<Rightarrow> slot_error + int \<times> int" where
  "ParseSlotRange s =
     (case Split (CHR ''-'') s of
        [p] \<Rightarrow> (case Atoi p of Inl e \<Rightarrow> Inl (NotANumber e) | Inr v \<Rightarrow> Inr (v, v))
      | [p, q] \<Rightarrow>
          (case Atoi p of
             Inl e \<Rightarrow> Inl (NotANumber e)
           | Inr v \<Rightarrow> (case Atoi q of Inl e \<Rightarrow> Inl (NotANumber e) | Inr w \<Rightarrow> Inr (v, w)))
      | _ \<Rightarrow> Inl (InvalidSlotRange s))"

text \<open>
  \<open>make ([]int, end - start + 1)\<close> panics when the length is negative, also when the 64-bit
  subtraction wraps around; the panic is an error value of the model.
\<close>

definition ExpandSlotRange :: "string \<Rightarrow> slot_error + int list" where
  "ExpandSlotRange s =
     (case ParseSlotRange s of
        Inl e \<Rightarrow> Inl e
      | Inr (start, end) \<Rightarrow>
          (if end - start + 1 < 0 \<or> end - start + 1 > max_int64 then Inl PanicMakeSlice
           else Inr [start..end]))"

section \<open>Parsing CLUSTER NODES\<close>

record cluster_node_info =
  ni_NodeID :: string
  ni_Addr :: string
  ni_Hostname :: string
  ni_Flags :: "string list"
  ni_MasterID :: string
  ni_PingSent :: int
  ni_PongRecv :: int
  ni_ConfigEpoch :: int
  ni_LinkState :: string
  ni_Slots :: "string list"

definition IsMaster :: "cluster_node_info \<Rightarrow> bool" where
  "IsMaster n \<longleftrightarrow> ''master'' \<in> set (ni_Flags n)"

definition IsReplica :: "cluster_node_info \<Rightarrow> bool" where
  "IsReplica n \<longleftrightarrow> ''slave'' \<in> set (ni_Flags n)"

text \<open>The body of the loop over the lines: \<open>None\<close> where the loop continues without a node.\<close>

definition parse_node_line :: "string \<Rightarrow> cluster_node_info option" where
  "parse_node_line line =
     (if line = [] then None
      else let parts = Fields line in
      if length parts < 8 then None
      else let addrParts = Split (CHR '','') (parts ! 1);
               ipPort = hd addrParts in
      Some \<lparr>ni_NodeID = parts ! 0,
            ni_Addr = (case cut_at (CHR ''@'') ipPort of None \<Rightarrow> ipPort | Some (a, _) \<Rightarrow> a),
            ni_Hostname = (if length addrParts \<ge> 2 then addrParts ! 1 else []),
            ni_Flags = Split (CHR '','') (parts ! 2),
            ni_MasterID = parts ! 3,
            ni_PingSent = fst (ParseInt64 (parts ! 4)),
            ni_PongRecv = fst (ParseInt64 (parts ! 5)),
            ni_ConfigEpoch = fst (ParseInt64 (parts ! 6)),
            ni_LinkState = parts ! 7,
            ni_Slots = filter (\<lambda>s. \<not> HasPrefix s ''['') (drop 8 parts)\<rparr>)"

definition ParseClusterNodes :: "string \<Rightarrow> cluster_node_info list" where
  "ParseClusterNodes output = List.map_filter parse_node_line (Split (CHR 0x0A) (TrimSpace output))"

section \<open>Parsing CLUSTER INFO\<close>

record cluster_info =
  ci_State :: string
  ci_SlotsAssigned :: int
  ci_SlotsOk :: int
  ci_SlotsPfail :: int
  ci_SlotsFail :: int
  ci_KnownNodes :: int
  ci_Size :: int
  ci_CurrentEpoch :: int
  ci_MyEpoch :: int
  ci_StatsMessagesSent :: int
  ci_StatsMessagesReceived :: int
  ci_TotalLinksBufferLimitExc :: int
  ci_AtomicSlotMigration :: bool

definition empty_cluster_info :: cluster_info where
  "empty_cluster_info =
     \<lparr>ci_State = [], ci_SlotsAssigned = 0, ci_SlotsOk = 0, ci_SlotsPfail = 0, ci_SlotsFail = 0,
      ci_KnownNodes = 0, ci_Size = 0, ci_CurrentEpoch = 0, ci_MyEpoch = 0,
      ci_StatsMessagesSent = 0, ci_StatsMessagesReceived = 0, ci_TotalLinksBufferLimitExc = 0,
      ci_AtomicSlotMigration = False\<rparr>"

definition set_info_field :: "string \<Rightarrow> string \<Rightarrow> cluster_info \<Rightarrow> cluster_info" where
  "set_info_field key value info =
     (let n = fst (ParseInt64 value) in
      if key = ''cluster_state'' then info\<lparr>ci_State := value\<rparr>
      else if key = ''cluster_slots_assigned'' then info\<lparr>ci_SlotsAssigned := n\<rparr>
      else if key = ''cluster_slots_ok'' then info\<lparr>ci_SlotsOk := n\<rparr>
      else if key = ''cluster_slots_pfail'' then info\<lparr>ci_SlotsPfail := n\<rparr>
      else if key = ''cluster_slots_fail'' then info\<lparr>ci_SlotsFail := n\<rparr>
      else if key = ''cluster_known_nodes'' then info\<lparr>ci_KnownNodes := n\<rparr>
      else if key = ''cluster_size'' then info\<lparr>ci_Size := n\<rparr>
      else if key = ''cluster_current_epoch'' then info\<lparr>ci_CurrentEpoch := n\<rparr>
      else if key = ''cluster_my_epoch'' then info\<lparr>ci_MyEpoch := n\<rparr>
      else if key = ''cluster_stats_messages_sent'' then info\<lparr>ci_StatsMessagesSent := n\<rparr>
      else if key = ''cluster_stats_messages_received'' then info\<lparr>ci_StatsMessagesReceived := n\<rparr>
      else if key = ''total_cluster_links_buffer_limit_exceeded''
        then info\<lparr>ci_TotalLinksBufferLimitExc := n\<rparr>
      else info)"

definition parse_info_line :: "string \<Rightarrow> cluster_info \<Rightarrow> cluster_info" where
  "parse_info_line line info =
     (case cut_at (CHR '':'') (TrimSpace line) of
        None \<Rightarrow> info
      | Some (key, v) \<Rightarrow>
          set_info_field key (TrimSpace v)
            (if HasPrefix key ''cluster_slot_migration''
             then info\<lparr>ci_AtomicSlotMigration := True\<rparr> else info))"

definition ParseClusterInfo :: "string \<Rightarrow> cluster_info" where
  "ParseClusterInfo output =
     fold parse_info_line (Split (CHR 0x0A) (TrimSpace output)) empty_cluster_info"

section \<open>The slot ranges partition the slots\<close>

definition slots_of :: "slot_range \<Rightarrow> int list" where
  "slots_of r = [Start r..End r]"

lemma slots_of_simp [simp]: "slots_of \<lparr>Start = a, End = b\<rparr> = [a..b]"
  by (simp add: slots_of_def)

lemma upto_join: "a \<le> b \<Longrightarrow> b \<le> c + 1 \<Longrightarrow> [a..b - 1] @ [b..c] = [a..c]"
proof (induction "nat (b - a)" arbitrary: a)
  case 0
  then show ?case by simp
next
  case (Suc n)
  then have "a < b" by simp
  with Suc.hyps(1) [of "a + 1"] Suc.hyps(2) Suc.prems show ?case
    by (simp add: upto_rec1)
qed

lemma slot_loop_done [simp]: "shards \<le> i \<Longrightarrow> slot_loop shards per r i start = []"
  by (simp add: slot_loop.simps)

lemma slot_loop_Cons:
  assumes "i < shards" and "c = (if i < r then per + 1 else per)"
  shows "slot_loop shards per r i start
    = \<lparr>Start = start, End = start + c - 1\<rparr> # slot_loop shards per r (i + 1) (start + c)"
  using assms by (simp add: slot_loop.simps [of shards per r i start])

lemma slot_loop_slots:
  assumes "0 \<le> i" "i \<le> shards" "0 \<le> per" "0 \<le> r" "r \<le> shards" "start = i * per + min i r"
  shows "concat (map slots_of (slot_loop shards per r i start)) = [start..shards * per + r - 1]"
  using assms
proof (induction shards per r i start rule: slot_loop.induct)
  case (1 shards per r i start)
  obtain c where c: "c = (if i < r then per + 1 else per)" by simp
  have next_start: "start + c = (i + 1) * per + min (i + 1) r"
    using "1.prems" c by (auto simp: algebra_simps min_def)
  show ?case
  proof (cases "i < shards")
    case True
    have "(i + 1) * per \<le> shards * per"
      using True "1.prems" by (intro mult_right_mono) auto
    then have "start + c \<le> (shards * per + r - 1) + 1"
      using next_start "1.prems" by (simp add: min_def split: if_splits)
    moreover have "start \<le> start + c" using "1.prems" c by simp
    moreover have "concat (map slots_of (slot_loop shards per r (i + 1) (start + c)))
        = [start + c..shards * per + r - 1]"
      using "1.IH" [of c] True "1.prems" next_start c by simp
    ultimately show ?thesis
      using upto_join [of start "start + c" "shards * per + r - 1"]
      by (simp add: slot_loop_Cons [OF True c])
  next
    case False
    with "1.prems" show ?thesis by (simp add: min_def)
  qed
qed

lemma slot_loop_length:
  "i \<le> shards \<Longrightarrow> length (slot_loop shards per r i start) = nat (shards - i)"
proof (induction shards per r i start rule: slot_loop.induct)
  case (1 shards per r i start)
  then show ?case
    by (cases "i < shards") (auto simp: slot_loop_Cons)
qed

lemma slot_loop_sizes:
  "rg \<in> set (slot_loop shards per r i start) \<Longrightarrow> End rg - Start rg + 1 \<in> {per, per + 1}"
proof (induction shards per r i start rule: slot_loop.induct)
  case (1 shards per r i start)
  then show ?case
    by (auto simp: slot_loop.simps [of shards per r i start] Let_def split: if_splits)
qed

lemma GenerateSlotRanges_length: "0 \<le> shards \<Longrightarrow> length (GenerateSlotRanges shards) = nat shards"
  by (auto simp: GenerateSlotRanges_def slot_loop_length)

lemma ranges_cover:
  assumes "0 < shards"
  shows "concat (map slots_of (GenerateSlotRanges shards)) = [0..16383]"
proof -
  have "shards * (16384 div shards) + 16384 mod shards = 16384"
    by (rule mult_div_mod_eq)
  moreover have "0 \<le> 16384 div shards" "0 \<le> 16384 mod shards" "16384 mod shards \<le> shards"
    using assms by (simp_all add: pos_imp_zdiv_nonneg_iff less_imp_le)
  ultimately show ?thesis
    using assms slot_loop_slots [of 0 shards "16384 div shards" "16384 mod shards" 0]
    by (simp add: GenerateSlotRanges_def)
qed

text \<open>C24: whatever the number of shards, the generated ranges cover the slots 0 to 16383, each
  exactly once and in order, there is one range per shard, and the sizes of the shards differ
  by at most one.\<close>

theorem slot_ranges_partition:
  assumes "0 < shards"
  shows "concat (map slots_of (GenerateSlotRanges shards)) = [0..totalClusterSlots - 1]
    \<and> int (length (GenerateSlotRanges shards)) = shards
    \<and> list_all (\<lambda>r. End r - Start r + 1 \<in> {16384 div shards, 16384 div shards + 1})
         (GenerateSlotRanges shards)"
proof -
  note ranges_cover [OF assms]
  moreover have "End r - Start r + 1 \<in> {16384 div shards, 16384 div shards + 1}"
    if "r \<in> set (GenerateSlotRanges shards)" for r
    using that assms slot_loop_sizes unfolding GenerateSlotRanges_def by fastforce
  ultimately show ?thesis
    using assms by (simp add: totalClusterSlots_def GenerateSlotRanges_length list_all_iff)
qed

theorem slot_ranges_partition_witness:
  "(0::int) < 3 \<and> concat (map slots_of (GenerateSlotRanges 3)) = [0..totalClusterSlots - 1]
    \<and> int (length (GenerateSlotRanges 3)) = 3
    \<and> list_all (\<lambda>r. End r - Start r + 1 \<in> {5461, 5462}) (GenerateSlotRanges 3)"
  using slot_ranges_partition [of 3] by simp

section \<open>Formatted ranges parse back\<close>

lemma Itoa_no_minus: "0 \<le> i \<Longrightarrow> CHR ''-'' \<notin> set (Itoa i)"
  by (simp add: Itoa_def)

lemma ParseSlotRange_Format:
  assumes "0 \<le> s" "s \<le> max_int64" "0 \<le> e" "e \<le> max_int64"
  shows "ParseSlotRange (FormatSlotRange s e) = Inr (s, e)"
proof -
  have bounds: "min_int64 \<le> s" "min_int64 \<le> e"
    using assms by (simp_all add: min_int64_def)
  show ?thesis
    using assms bounds Split_append [OF Itoa_no_minus, of s "Itoa e"]
    by (simp add: ParseSlotRange_def FormatSlotRange_def Itoa_no_minus Atoi_Itoa)
qed

text \<open>a slot range written by \<open>FormatSlotRange\<close> is read back by \<open>ParseSlotRange\<close> and expanded
  by \<open>ExpandSlotRange\<close> to exactly its slots, for every range of 64-bit integers in order.\<close>

lemma slot_range_roundtrip:
  assumes "0 \<le> s" "s \<le> e" "e < max_int64"
  shows "ParseSlotRange (FormatSlotRange s e) = Inr (s, e)
    \<and> ExpandSlotRange (FormatSlotRange s e) = Inr [s..e]"
proof -
  have "ParseSlotRange (FormatSlotRange s e) = Inr (s, e)"
    using assms by (intro ParseSlotRange_Format) auto
  with assms show ?thesis by (simp add: ExpandSlotRange_def)
qed

lemma slot_range_roundtrip_witness:
  "(0::int) \<le> 5461 \<and> (5461::int) \<le> 5463 \<and> 5463 < max_int64
    \<and> FormatSlotRange 5461 5463 = ''5461-5463''
    \<and> ParseSlotRange (FormatSlotRange 5461 5463) = Inr (5461, 5463)
    \<and> ExpandSlotRange (FormatSlotRange 5461 5463) = Inr [5461..5463]"
proof -
  have b: "(0::int) \<le> 5461" "(5461::int) \<le> 5463" "5463 < max_int64"
    by (simp_all add: max_int64_def)
  have f: "FormatSlotRange 5461 5463 = ''5461-5463''"
    by (simp add: FormatSlotRange_def Itoa_def nat_digits.simps)
  show ?thesis using b f slot_range_roundtrip [OF b] by simp
qed

section \<open>The line format of CLUSTER NODES\<close>

definition token :: "string \<Rightarrow> bool" where
  "token t \<longleftrightarrow> t \<noteq> [] \<and> (\<forall>c \<in> set t. \<not> is_space c)"

text \<open>
  The documented format of a line: \<open><id> <ip:port@cport[,hostname]> <flags> <master> <ping-sent>
  <pong-recv> <config-epoch> <link-state> <slot> ...\<close>, where \<open>markers\<close> are the importing and
  migrating notations \<open>[slot-<-id]\<close> and \<open>[slot->-id]\<close> that follow the slots.
\<close>

definition node_tokens :: "string \<Rightarrow> string list \<Rightarrow> cluster_node_info \<Rightarrow> string list" where
  "node_tokens cport markers n =
     [ni_NodeID n,
      ni_Addr n @ ''@'' @ cport @ (if ni_Hostname n = [] then [] else '','' @ ni_Hostname n),
      Join (ni_Flags n) '','', ni_MasterID n, Itoa (ni_PingSent n), Itoa (ni_PongRecv n),
      Itoa (ni_ConfigEpoch n), ni_LinkState n] @ ni_Slots n @ markers"

definition node_line :: "string \<times> string list \<times> cluster_node_info \<Rightarrow> string" where
  "node_line = (\<lambda>(cport, markers, n). Join (node_tokens cport markers n) '' '')"

definition int64 :: "int \<Rightarrow> bool" where
  "int64 i \<longleftrightarrow> min_int64 \<le> i \<and> i \<le> max_int64"

definition wf_node :: "string \<times> string list \<times> cluster_node_info \<Rightarrow> bool" where
  "wf_node = (\<lambda>(cport, markers, n).
     list_all token (node_tokens cport markers n) \<and>
     CHR '','' \<notin> set (ni_Addr n) \<and> CHR ''@'' \<notin> set (ni_Addr n) \<and> CHR '','' \<notin> set cport \<and>
     CHR '','' \<notin> set (ni_Hostname n) \<and>
     ni_Flags n \<noteq> [] \<and> list_all (\<lambda>f. CHR '','' \<notin> set f) (ni_Flags n) \<and>
     int64 (ni_PingSent n) \<and> int64 (ni_PongRecv n) \<and> int64 (ni_ConfigEpoch n) \<and>
     list_all (\<lambda>s. \<not> HasPrefix s ''['') (ni_Slots n) \<and>
     list_all (\<lambda>m. HasPrefix m ''['') markers)"

lemma Fields_acc_word:
  "\<forall>c \<in> set t. \<not> is_space c \<Longrightarrow> Fields_acc (t @ rest) acc = Fields_acc rest (rev t @ acc)"
  by (induction t arbitrary: acc) auto

lemma Fields_Join: "list_all token ts \<Longrightarrow> Fields (Join ts '' '') = ts"
  unfolding Fields_def
proof (induction ts rule: induct_list012)
  case (2 t)
  then show ?case using Fields_acc_word [of t "[]" "[]"] by (simp add: token_def)
next
  case (3 t u us)
  then show ?case
    using Fields_acc_word [of t "'' '' @ Join (u # us) '' ''" "[]"]
    by (simp add: token_def is_space_def)
qed simp

lemma Split_Join:
  "list_all (\<lambda>x. sep \<notin> set x) xs \<Longrightarrow> xs \<noteq> [] \<Longrightarrow> Split sep (Join xs [sep]) = xs"
  by (induction xs rule: induct_list012) (auto simp: Split_append)

lemma set_Join: "set (Join xs sep) \<subseteq> \<Union> (set ` set xs) \<union> set sep"
  by (induction xs rule: induct_list012) auto

definition solid :: "string \<Rightarrow> bool" where
  "solid s \<longleftrightarrow> s \<noteq> [] \<and> \<not> is_space (hd s) \<and> \<not> is_space (last s)"

lemma solid_token: "token t \<Longrightarrow> solid t"
  by (simp add: token_def solid_def)

lemma solid_Join: "list_all solid xs \<Longrightarrow> xs \<noteq> [] \<Longrightarrow> solid (Join xs sep)"
  by (induction xs rule: induct_list012) (auto simp: solid_def)

lemma TrimSpace_solid: "solid s \<Longrightarrow> TrimSpace s = s"
proof -
  assume s: "solid s"
  then obtain c cs where c: "s = c # cs" "\<not> is_space c" by (cases s) (auto simp: solid_def)
  obtain d ds where d: "rev s = d # ds" "\<not> is_space d"
    using s by (cases "rev s") (auto simp: solid_def hd_rev [symmetric])
  have "dropWhile is_space s = s" using c by simp
  moreover have "dropWhile is_space (rev s) = rev s" using d by simp
  ultimately show ?thesis by (simp add: TrimSpace_def)
qed

lemma cut_at_append: "sep \<notin> set a \<Longrightarrow> cut_at sep (a @ sep # b) = Some (a, b)"
  by (induction a) auto

lemma parse_node_line_tokens:
  assumes "wf_node (cport, markers, n)"
  shows "parse_node_line (node_line (cport, markers, n)) = Some n"
proof -
  let ?ts = "node_tokens cport markers n"
  have ts: "list_all token ?ts" using assms by (simp add: wf_node_def)
  then have fields: "Fields (node_line (cport, markers, n)) = ?ts"
    by (simp add: node_line_def Fields_Join)
  have ne: "node_line (cport, markers, n) \<noteq> []"
    using fields by (auto simp: Fields_def node_tokens_def)
  have flags: "Split (CHR '','') (Join (ni_Flags n) '','') = ni_Flags n"
    using assms by (intro Split_Join) (simp_all add: wf_node_def)
  have ints: "fst (ParseInt64 (Itoa (ni_PingSent n))) = ni_PingSent n"
    "fst (ParseInt64 (Itoa (ni_PongRecv n))) = ni_PongRecv n"
    "fst (ParseInt64 (Itoa (ni_ConfigEpoch n))) = ni_ConfigEpoch n"
    using assms by (simp_all add: wf_node_def int64_def ParseInt64_Itoa)
  have host: "Split (CHR '','') (?ts ! 1) =
      (if ni_Hostname n = [] then [ni_Addr n @ ''@'' @ cport]
       else [ni_Addr n @ ''@'' @ cport, ni_Hostname n])"
    using assms Split_append [of "CHR '',''" "ni_Addr n @ ''@'' @ cport" "ni_Hostname n"]
    by (simp add: wf_node_def node_tokens_def)
  have addr: "cut_at (CHR ''@'') (ni_Addr n @ ''@'' @ cport) = Some (ni_Addr n, cport)"
    using assms by (simp add: wf_node_def cut_at_append)
  have slots: "filter (\<lambda>s. \<not> HasPrefix s ''['') (drop 8 ?ts) = ni_Slots n"
    using assms by (simp add: wf_node_def node_tokens_def list_all_iff filter_empty_conv)
  have "length ?ts \<ge> 8" by (simp add: node_tokens_def)
  then show ?thesis
    using ne fields flags ints host addr slots
    by (simp add: parse_node_line_def Let_def) (simp add: node_tokens_def)
qed

lemma node_line_solid:
  assumes "wf_node x"
  shows "solid (node_line x)"
proof -
  obtain cport markers n where x: "x = (cport, markers, n)" by (cases x)
  have "list_all solid (node_tokens cport markers n)"
    using assms x by (auto simp: wf_node_def list_all_iff solid_token)
  then show ?thesis
    unfolding x node_line_def prod.case by (rule solid_Join) (simp add: node_tokens_def)
qed

lemma token_no_newline: "token t \<Longrightarrow> CHR 0x0A \<notin> set t"
  unfolding token_def is_space_def by blast

lemma node_line_no_newline:
  assumes "wf_node x"
  shows "CHR 0x0A \<notin> set (node_line x)"
proof -
  obtain cport markers n where x: "x = (cport, markers, n)" by (cases x)
  have "\<forall>t \<in> set (node_tokens cport markers n). CHR 0x0A \<notin> set t"
    using assms x token_no_newline by (simp add: wf_node_def list_all_iff)
  moreover have "set (node_line x) \<subseteq> \<Union> (set ` set (node_tokens cport markers n)) \<union> set '' ''"
    unfolding x node_line_def prod.case by (rule set_Join)
  ultimately show ?thesis by fastforce
qed

text \<open>the parser of CLUSTER NODES inverts the documented line format: a reply whose lines are
  written from well-formed nodes is parsed to exactly these nodes, and the importing and
  migrating markers never appear among the slots of a node.\<close>

lemma ParseClusterNodes_roundtrip:
  assumes "list_all wf_node xs"
  shows "ParseClusterNodes (Join (map node_line xs) [CHR 0x0A]) = map (\<lambda>(_, _, n). n) xs"
proof (cases "xs = []")
  case True
  then show ?thesis
    by (simp add: ParseClusterNodes_def TrimSpace_def parse_node_line_def List.map_filter_def)
next
  case False
  let ?lines = "map node_line xs"
  have "solid (Join ?lines [CHR 0x0A])"
    using assms False by (intro solid_Join) (auto simp: list_all_iff node_line_solid)
  moreover have "Split (CHR 0x0A) (Join ?lines [CHR 0x0A]) = ?lines"
    using assms False by (intro Split_Join) (auto simp: list_all_iff node_line_no_newline)
  moreover have "List.map_filter parse_node_line (map node_line ys) = map (\<lambda>(_, _, n). n) ys"
    if "list_all wf_node ys" for ys
    using that by (induction ys) (auto simp: List.map_filter_def parse_node_line_tokens)
  ultimately show ?thesis
    using assms by (simp add: ParseClusterNodes_def TrimSpace_solid)
qed

definition example_node :: cluster_node_info where
  "example_node =
     \<lparr>ni_NodeID = ''07c3'', ni_Addr = ''10.0.0.1:6379'', ni_Hostname = [],
      ni_Flags = [''myself'', ''master''], ni_MasterID = ''-'', ni_PingSent = 0, ni_PongRecv = 15,
      ni_ConfigEpoch = 2, ni_LinkState = ''connected'', ni_Slots = [''0-5460'']\<rparr>"

lemma example_node_wf: "wf_node (''16379'', [''[77->-e7d1]''], example_node)"
  by code_simp

lemma ParseClusterNodes_roundtrip_witness:
  "list_all wf_node [(''16379'', [''[77->-e7d1]''], example_node)] \<and>
   ParseClusterNodes (Join (map node_line [(''16379'', [''[77->-e7d1]''], example_node)]) [CHR 0x0A])
     = [example_node]"
  using ParseClusterNodes_roundtrip [of "[(''16379'', [''[77->-e7d1]''], example_node)]"]
    example_node_wf by simp

end
