(* ===== verification/Client.thy ===== *)
theory Client
  imports Prelude
begin

text \<open>
  The Redis and Sentinel clients of the operator (\<open>internal/redis/client.go\<close>,
  \<open>internal/redis/probe_failure.go\<close>): the error values a probe returns and their classification,
  the parsers of the INFO and SENTINEL replies, and the loops over the Sentinel addresses.

  A command sent over the network is a parameter: a function from the address (and the name) to
  an error or to the reply that go-redis delivers. A Go \<open>error\<close> is a record of what the code
  asks of it: its text and the answers of \<open>errors.Is\<close> and \<open>errors.As\<close>.
\<close>

section \<open>Errors and their classification\<close>

record go_error =
  er_msg :: string
  er_deadline :: bool
  er_net_timeout :: bool
  er_errno :: bool
  er_dns :: bool
  er_redis :: bool

text \<open>\<open>fmt.Errorf\<close> without and with a wrapped error (\<open>%w\<close> keeps the chain).\<close>

definition Errorf :: "string \<Rightarrow> go_error" where
  "Errorf m = \<lparr>er_msg = m, er_deadline = False, er_net_timeout = False, er_errno = False,
     er_dns = False, er_redis = False\<rparr>"

definition wrapf :: "string \<Rightarrow> go_error \<Rightarrow> go_error" where
  "wrapf pre e = e\<lparr>er_msg := pre @ '': '' @ er_msg e\<rparr>"

datatype ProbeFailure =
  ProbeOK | ProbeUnroutable | ProbeTimedOut | ProbeAuthFailed | ProbeProtocolError | ProbeUnknown

definition authFailureMarkers :: "string list" where
  "authFailureMarkers =
     [''noauth'', ''wrongpass'', ''client sent auth, but no password is set'',
      ''invalid password'']"

definition unroutableMarkers :: "string list" where
  "unroutableMarkers =
     [''connection refused'', ''no route to host'', ''network is unreachable'', ''no such host'']"

definition ClassifyProbeError :: "go_error option \<Rightarrow> ProbeFailure" where
  "ClassifyProbeError err =
     (case err of
        None \<Rightarrow> ProbeOK
      | Some e \<Rightarrow>
          let msg = ToLower (er_msg e) in
          if list_ex (Contains msg) authFailureMarkers then ProbeAuthFailed
          else if er_deadline e then ProbeTimedOut
          else if er_net_timeout e then ProbeTimedOut
          else if er_errno e then ProbeUnroutable
          else if er_dns e then ProbeUnroutable
          else if Contains msg ''i/o timeout'' \<or> Contains msg ''context deadline exceeded''
          then ProbeTimedOut
          else if list_ex (Contains msg) unroutableMarkers then ProbeUnroutable
          else if er_redis e then ProbeProtocolError
          else ProbeUnknown)"

text \<open>The bound of 160 bytes and the three UTF-8 bytes of the ellipsis.\<close>

definition DescribeProbeError :: "go_error option \<Rightarrow> string" where
  "DescribeProbeError err =
     (case err of
        None \<Rightarrow> []
      | Some e \<Rightarrow>
          let msg = TrimSpace (er_msg e) in
          if length msg > 160 then take 160 msg @ [CHR 0xE2, CHR 0x80, CHR 0xA6] else msg)"

section \<open>INFO\<close>

text \<open>
  The scan of \<open>ParseInfoField\<close>: at the start of a line (the flag \<open>bol\<close>) the prefix is compared,
  and the value runs to the next CR or LF.
\<close>

fun info_scan :: "string \<Rightarrow> bool \<Rightarrow> string \<Rightarrow> string" where
  "info_scan pre bol [] = []"
| "info_scan pre bol (c # cs) =
     (if bol \<and> length (c # cs) > length pre \<and> take (length pre) (c # cs) = pre
      then takeWhile (\<lambda>x. x \<noteq> CHR 0x0D \<and> x \<noteq> CHR 0x0A) (drop (length pre) (c # cs))
      else info_scan pre (c = CHR 0x0A) cs)"

definition ParseInfoField :: "string \<Rightarrow> string \<Rightarrow> string" where
  "ParseInfoField info field = info_scan (field @ '':'') True info"

text \<open>The sum is a Go \<open>int64\<close>, which wraps around.\<close>

definition wrap_int64 :: "int \<Rightarrow> int" where
  "wrap_int64 i = (i + 2 ^ 63) mod 2 ^ 64 - 2 ^ 63"

lemma wrap_int64_code [code]:
  "wrap_int64 i = (if - 9223372036854775808 \<le> i \<and> i \<le> 9223372036854775807 then i else (i + 2 ^ 63) mod 2 ^ 64 - 2 ^ 63)"
  by (simp add: wrap_int64_def)

definition keyspace_line :: "string \<Rightarrow> int \<Rightarrow> int" where
  "keyspace_line raw tot =
     (let line = TrimSpace raw in
      if \<not> HasPrefix line ''db'' then tot
      else case Cut ''keys='' line of
             None \<Rightarrow> tot
           | Some (_, after) \<Rightarrow>
               let after' = (case Cut '','' after of Some (before, _) \<Rightarrow> before | None \<Rightarrow> after) in
               case ParseInt64 (TrimSpace after') of
                 (n, None) \<Rightarrow> wrap_int64 (tot + n)
               | (n, Some _) \<Rightarrow> tot)"

definition ParseKeyspaceKeys :: "string \<Rightarrow> int" where
  "ParseKeyspaceKeys info = fold keyspace_line (Split (CHR 0x0A) info) 0"

definition roleMaster :: string where
  "roleMaster = ''master''"

definition roleReplica :: string where
  "roleReplica = ''replica''"

record ReplicationSnapshot =
  sp_Role :: string
  sp_MasterHost :: string
  sp_MasterLinkStatus :: string
  sp_Offset :: int
  sp_Keys :: int
  sp_Replid :: string
  sp_Replid2 :: string

text \<open>\<open>GetReplicationInfo\<close>: the argument is the reply to INFO.\<close>

definition GetReplicationInfo :: "go_error + string \<Rightarrow> go_error + ReplicationSnapshot" where
  "GetReplicationInfo reply =
     (case reply of
        Inl e \<Rightarrow> Inl (wrapf ''failed to get info'' e)
      | Inr info \<Rightarrow>
          let role = ParseInfoField info ''role'';
              offsetField = (if role = roleMaster then ''master_repl_offset''
                             else ''slave_repl_offset'');
              offsetStr = ParseInfoField info offsetField
          in Inr \<lparr>sp_Role = role,
               sp_MasterHost = ParseInfoField info ''master_host'',
               sp_MasterLinkStatus = ParseInfoField info ''master_link_status'',
               sp_Offset = (if offsetStr \<noteq> [] then fst (ParseInt64 offsetStr) else 0),
               sp_Keys = ParseKeyspaceKeys info,
               sp_Replid = ParseInfoField info ''master_replid'',
               sp_Replid2 = ParseInfoField info ''master_replid2''\<rparr>)"

definition atoiOrZero :: "string \<Rightarrow> int" where
  "atoiOrZero s = (case Atoi (TrimSpace s) of Inl _ \<Rightarrow> 0 | Inr n \<Rightarrow> n)"

section \<open>SENTINEL replies\<close>

record MasterInfo =
  mi_IP :: string
  mi_Port :: string
  mi_Name :: string
  mi_Flags :: string
  mi_FailoverState :: string
  mi_NumOtherSentinels :: int
  mi_NumSlaves :: int

record ReplicaInfo =
  ri_IP :: string
  ri_Port :: string
  ri_Flags :: string

record MonitoredMaster =
  mm_Name :: string
  mm_IP :: string
  mm_Flags :: string
  mm_FailoverState :: string

definition failoverStateNone :: string where
  "failoverStateNone = ''none''"

definition failoverStateReconfSlaves :: string where
  "failoverStateReconfSlaves = ''reconf_slaves''"

definition idleFailoverStates :: "string set" where
  "idleFailoverStates = {'''', failoverStateNone}"

definition failoverInProgress :: "string \<Rightarrow> string \<Rightarrow> bool" where
  "failoverInProgress flags state =
     (if Contains flags ''failover_in_progress'' then True
      else TrimSpace state \<notin> idleFailoverStates)"

definition MonitoredMaster_FailoverInProgress :: "MonitoredMaster \<Rightarrow> bool" where
  "MonitoredMaster_FailoverInProgress m = failoverInProgress (mm_Flags m) (mm_FailoverState m)"

definition MasterInfo_FailoverInProgress :: "MasterInfo option \<Rightarrow> bool" where
  "MasterInfo_FailoverInProgress m =
     (case m of None \<Rightarrow> False | Some mi \<Rightarrow> failoverInProgress (mi_Flags mi) (mi_FailoverState mi))"

text \<open>
  A generic RESP value as go-redis delivers it (\<open>any\<close>): a string, an array, a map, or a value of
  another type. A \<open>map[string]string\<close> that is built entry by entry is a list with the latest
  entry first; a missing key reads as the empty string.
\<close>

datatype resp = RString string | RArray "resp list" | RMap "(resp \<times> resp) list" | ROther

type_synonym fields = "(string \<times> string) list"

definition field :: "fields \<Rightarrow> string \<Rightarrow> string" where
  "field m k = (case map_of m k of Some v \<Rightarrow> v | None \<Rightarrow> [])"

definition add_field :: "resp \<times> resp \<Rightarrow> fields \<Rightarrow> fields" where
  "add_field kv m =
     (case kv of (RString k, RString v) \<Rightarrow> (k, v) # m | _ \<Rightarrow> m)"

fun pair_up :: "'a list \<Rightarrow> ('a \<times> 'a) list" where
  "pair_up (k # v # rest) = (k, v) # pair_up rest"
| "pair_up _ = []"

definition recordFields :: "resp \<Rightarrow> fields option" where
  "recordFields entry =
     (case entry of
        RMap e \<Rightarrow> Some (fold add_field e [])
      | RArray e \<Rightarrow> Some (fold add_field (pair_up e) [])
      | _ \<Rightarrow> None)"

definition monitored_master :: "resp \<Rightarrow> MonitoredMaster list" where
  "monitored_master entry =
     (case recordFields entry of
        None \<Rightarrow> []
      | Some m \<Rightarrow>
          (case map_of m ''name'' of
             None \<Rightarrow> []
           | Some name \<Rightarrow>
               if name = [] then []
               else [\<lparr>mm_Name = name, mm_IP = field m ''ip'', mm_Flags = field m ''flags'',
                      mm_FailoverState = field m ''failover-state''\<rparr>]))"

definition parseMonitoredMasters :: "resp list \<Rightarrow> MonitoredMaster list" where
  "parseMonitoredMasters reply = concat (map monitored_master reply)"

section \<open>Loops over the Sentinel addresses\<close>

text \<open>
  The shape of \<open>GetMaster\<close>, \<open>GetMasterState\<close> and \<open>GetReplicas\<close>: the first address that answers
  wins, otherwise the last error is wrapped.
\<close>

fun first_answer ::
  "string \<Rightarrow> ('addr \<Rightarrow> go_error + 'r) \<Rightarrow> 'addr list \<Rightarrow> go_error option \<Rightarrow> go_error + 'r" where
  "first_answer pre ask [] lastErr =
     (case lastErr of
        Some e \<Rightarrow> Inl (wrapf pre e)
      | None \<Rightarrow> Inl (Errorf ''no sentinels available''))"
| "first_answer pre ask (a # as) lastErr =
     (case ask a of Inl e \<Rightarrow> first_answer pre ask as (Some e) | Inr r \<Rightarrow> Inr r)"

definition getMasterFromSentinel ::
  "('addr \<Rightarrow> string \<Rightarrow> go_error + string list) \<Rightarrow> 'addr \<Rightarrow> string \<Rightarrow> go_error + MasterInfo" where
  "getMasterFromSentinel addrByName addr masterName =
     (case addrByName addr masterName of
        Inl e \<Rightarrow> Inl (wrapf ''failed to get master addr'' e)
      | Inr [ip, port] \<Rightarrow>
          Inr \<lparr>mi_IP = ip, mi_Port = port, mi_Name = [], mi_Flags = [], mi_FailoverState = [],
            mi_NumOtherSentinels = 0, mi_NumSlaves = 0\<rparr>
      | Inr r \<Rightarrow> Inl (Errorf (''unexpected result length: '' @ Itoa (int (length r)))))"

definition GetMaster ::
  "('addr \<Rightarrow> string \<Rightarrow> go_error + string list) \<Rightarrow> 'addr list \<Rightarrow> string \<Rightarrow> go_error + MasterInfo" where
  "GetMaster addrByName addresses masterName =
     first_answer ''failed to get master from any sentinel''
       (\<lambda>a. getMasterFromSentinel addrByName a masterName) addresses None"

definition master_info_of :: "fields \<Rightarrow> MasterInfo" where
  "master_info_of m =
     \<lparr>mi_IP = field m ''ip'', mi_Port = field m ''port'', mi_Name = field m ''name'',
      mi_Flags = field m ''flags'', mi_FailoverState = field m ''failover-state'',
      mi_NumOtherSentinels = atoiOrZero (field m ''num-other-sentinels''),
      mi_NumSlaves = atoiOrZero (field m ''num-slaves'')\<rparr>"

definition GetMasterState ::
  "('addr \<Rightarrow> string \<Rightarrow> go_error + fields) \<Rightarrow> 'addr list \<Rightarrow> string \<Rightarrow> go_error + MasterInfo" where
  "GetMasterState masterCmd addresses name =
     first_answer ''failed to get master state''
       (\<lambda>a. map_sum id master_info_of (masterCmd a name)) addresses None"

fun failover_scan ::
  "('addr \<Rightarrow> go_error + fields) \<Rightarrow> 'addr list \<Rightarrow> bool \<Rightarrow> go_error + bool" where
  "failover_scan ask [] reachable =
     (if reachable then Inr False
      else Inl (Errorf ''no sentinels reachable to check failover status''))"
| "failover_scan ask (a # as) reachable =
     (case ask a of
        Inl _ \<Rightarrow> failover_scan ask as reachable
      | Inr m \<Rightarrow> if failoverInProgress (field m ''flags'') (field m ''failover-state'')
                 then Inr True else failover_scan ask as True)"

definition IsFailoverInProgress ::
  "('addr \<Rightarrow> string \<Rightarrow> go_error + fields) \<Rightarrow> 'addr list \<Rightarrow> string \<Rightarrow> go_error + bool" where
  "IsFailoverInProgress masterCmd addresses name =
     failover_scan (\<lambda>a. masterCmd a name) addresses False"

text \<open>The counts of \<open>GetMasterAcrossAll\<close>, as a map from the master's IP.\<close>

fun count_masters ::
  "('addr \<Rightarrow> go_error + MasterInfo) \<Rightarrow> 'addr list \<Rightarrow> (string \<rightharpoonup> nat) \<Rightarrow> nat \<Rightarrow>
   (string \<rightharpoonup> nat) \<times> nat" where
  "count_masters ask [] counts reachable = (counts, reachable)"
| "count_masters ask (a # as) counts reachable =
     (case ask a of
        Inl _ \<Rightarrow> count_masters ask as counts reachable
      | Inr m \<Rightarrow>
          let c = (case counts (mi_IP m) of None \<Rightarrow> 0 | Some n \<Rightarrow> n) in
          count_masters ask as (counts(mi_IP m \<mapsto> c + 1)) (reachable + 1))"

definition GetMasterAcrossAll ::
  "('addr \<Rightarrow> string \<Rightarrow> go_error + string list) \<Rightarrow> 'addr list \<Rightarrow> string \<Rightarrow>
   go_error + (string \<rightharpoonup> nat)" where
  "GetMasterAcrossAll addrByName addresses masterName =
     (case count_masters (\<lambda>a. getMasterFromSentinel addrByName a masterName) addresses
             Map.empty 0 of
        (counts, reachable) \<Rightarrow>
          if reachable = 0 then Inl (Errorf ''no sentinels reachable'') else Inr counts)"

definition replica_info_of :: "fields \<Rightarrow> ReplicaInfo" where
  "replica_info_of m = \<lparr>ri_IP = field m ''ip'', ri_Port = field m ''port'', ri_Flags = field m ''flags''\<rparr>"

definition getReplicasFromSentinel ::
  "('addr \<Rightarrow> string \<Rightarrow> go_error + fields list) \<Rightarrow> 'addr \<Rightarrow> string \<Rightarrow> go_error + ReplicaInfo list" where
  "getReplicasFromSentinel replicasCmd addr masterName =
     map_sum (wrapf ''failed to get replicas'') (map replica_info_of) (replicasCmd addr masterName)"

definition GetReplicas ::
  "('addr \<Rightarrow> string \<Rightarrow> go_error + fields list) \<Rightarrow> 'addr list \<Rightarrow> string \<Rightarrow>
   go_error + ReplicaInfo list" where
  "GetReplicas replicasCmd addresses masterName =
     first_answer ''failed to get replicas from any sentinel''
       (\<lambda>a. getReplicasFromSentinel replicasCmd a masterName) addresses None"

section \<open>The INFO reply as Redis prints it\<close>

text \<open>
  The documented form of the reply, used only to state the round trip: \<open>field:value\<close> lines ended
  by CR LF, and the keyspace section with a line per database.
\<close>

definition info_line :: "string \<times> string \<Rightarrow> string" where
  "info_line kv = fst kv @ CHR '':'' # snd kv @ [CHR 0x0D, CHR 0x0A]"

definition db_line :: "int \<times> int \<Rightarrow> string" where
  "db_line db = ''db'' @ Itoa (fst db) @ '':keys='' @ Itoa (snd db) @ '',expires=0,avg_ttl=0'' @
     [CHR 0x0D, CHR 0x0A]"

definition info_text :: "(string \<times> string) list \<Rightarrow> (int \<times> int) list \<Rightarrow> string" where
  "info_text kvs dbs = concat (map info_line kvs) @ concat (map db_line dbs)"

definition db_field :: "int \<times> int \<Rightarrow> string \<times> string" where
  "db_field db = (''db'' @ Itoa (fst db), ''keys='' @ Itoa (snd db) @ '',expires=0,avg_ttl=0'')"

definition line_key :: "string \<Rightarrow> bool" where
  "line_key k \<longleftrightarrow> CHR '':'' \<notin> set k \<and> list_all (\<lambda>c. \<not> is_space c) k"

definition info_key :: "string \<Rightarrow> bool" where
  "info_key k \<longleftrightarrow> line_key k \<and> \<not> HasPrefix k ''db''"

definition info_value :: "string \<Rightarrow> bool" where
  "info_value v \<longleftrightarrow> CHR 0x0D \<notin> set v \<and> CHR 0x0A \<notin> set v"

lemma info_scan_rest:
  "CHR 0x0A \<notin> set s \<Longrightarrow> info_scan pre False (s @ CHR 0x0A # rest) = info_scan pre True rest"
  by (induction s) auto

lemma takeWhile_sep: "sep \<notin> set a \<Longrightarrow> takeWhile (\<lambda>c. c \<noteq> sep) (a @ sep # b) = a"
  by (induction a) auto

lemma prefix_colon_eq:
  assumes "CHR '':'' \<notin> set k" and "CHR '':'' \<notin> set f"
    and "take (Suc (length f)) (k @ CHR '':'' # w) = f @ '':''"
  shows "k = f"
proof -
  have "f @ CHR '':'' # drop (Suc (length f)) (k @ CHR '':'' # w) = k @ CHR '':'' # w"
    using append_take_drop_id [of "Suc (length f)" "k @ CHR '':'' # w"] unfolding assms(3) by simp
  then obtain u where u: "k @ CHR '':'' # w = f @ CHR '':'' # u"
    by metis
  show ?thesis
    using takeWhile_sep [OF assms(1), of w] takeWhile_sep [OF assms(2), of u] u by simp
qed

lemma takeWhile_value: "info_value v \<Longrightarrow>
  takeWhile (\<lambda>x. x \<noteq> CHR 0x0D \<and> x \<noteq> CHR 0x0A) (v @ CHR 0x0D # r) = v"
  by (induction v) (auto simp: info_value_def)

lemma line_key_no_LF: "line_key k \<Longrightarrow> CHR 0x0A \<notin> set k"
  by (auto simp: line_key_def is_space_def list_all_iff)

lemma info_scan_line:
  assumes "line_key k" and "info_value v" and "line_key f"
  shows "info_scan (f @ '':'') True (info_line (k, v) @ rest) =
    (if k = f then v else info_scan (f @ '':'') True rest)"
proof -
  have line: "info_line (k, v) @ rest = k @ CHR '':'' # v @ CHR 0x0D # CHR 0x0A # rest"
    by (simp add: info_line_def)
  show ?thesis
  proof (cases "k = f")
    case True
    obtain c cs where cs: "info_line (k, v) @ rest = c # cs"
      by (cases "info_line (k, v) @ rest") (auto simp: info_line_def)
    have "take (Suc (length f)) (info_line (k, v) @ rest) = f @ '':''"
      "length (info_line (k, v) @ rest) > Suc (length f)"
      "drop (Suc (length f)) (info_line (k, v) @ rest) = v @ CHR 0x0D # CHR 0x0A # rest"
      using True unfolding line by simp_all
    then show ?thesis
      using True takeWhile_value [OF assms(2)] unfolding cs by simp
  next
    case False
    obtain c cs where cs: "info_line (k, v) @ rest = c # cs"
      by (cases "info_line (k, v) @ rest") (auto simp: info_line_def)
    have ne: "take (Suc (length f)) (c # cs) \<noteq> f @ '':''"
      using prefix_colon_eq [of k f] False assms unfolding cs [symmetric] line
      by (auto simp: line_key_def)
    define body where "body = k @ CHR '':'' # v @ [CHR 0x0D]"
    have body: "c # cs = body @ CHR 0x0A # rest" "CHR 0x0A \<notin> set body"
      using line_key_no_LF [OF assms(1)] assms(2) unfolding cs [symmetric] line body_def
      by (auto simp: info_value_def)
    moreover have "body \<noteq> []" by (simp add: body_def)
    ultimately obtain b where b: "body = c # b" "cs = b @ CHR 0x0A # rest"
      by (cases body) auto
    with body have "c \<noteq> CHR 0x0A" "CHR 0x0A \<notin> set b" by auto
    then show ?thesis
      using ne False info_scan_rest [of b] unfolding cs b(2) by auto
  qed
qed

lemma info_scan_lines:
  assumes "line_key f" and "list_all (\<lambda>(k, v). line_key k \<and> info_value v) kvs"
  shows "info_scan (f @ '':'') True (concat (map info_line kvs) @ rest) =
    (case map_of kvs f of Some v \<Rightarrow> v | None \<Rightarrow> info_scan (f @ '':'') True rest)"
  using assms(2)
  by (induction kvs) (auto simp: info_scan_line [OF _ _ assms(1)] split: prod.splits)

lemma db_line_info_line: "db_line db = info_line (db_field db)"
  by (simp add: db_line_def info_line_def db_field_def)

lemma Itoa_plain: "c \<in> set (Itoa i) \<Longrightarrow> is_digit c \<or> c = CHR ''-''"
  by (auto simp: Itoa_def split: if_splits dest!: nat_digits_are_digits simp: digit_char_inverse)

lemma digit_not_special: "is_digit c \<Longrightarrow> \<not> is_space c \<and> c \<noteq> CHR '','' \<and> c \<noteq> CHR ''k'' \<and> c \<noteq> CHR '':''"
  by (auto simp: is_digit_def is_space_def)

lemma Itoa_not_special [simp]:
  "c \<in> set (Itoa i) \<Longrightarrow> \<not> is_space c" "CHR '','' \<notin> set (Itoa i)" "CHR ''k'' \<notin> set (Itoa i)"
  "CHR '':'' \<notin> set (Itoa i)"
  using Itoa_plain digit_not_special by (fastforce simp: is_space_def)+

lemma HasPrefix_iff: "HasPrefix s p \<longleftrightarrow> (\<exists>r. s = p @ r)"
  by (auto simp: HasPrefix_def) (metis append_take_drop_id)

lemma dropWhile_solid: "list_all (\<lambda>c. \<not> is_space c) p \<Longrightarrow> p \<noteq> [] \<Longrightarrow> dropWhile is_space (p @ w) = p @ w"
  by (cases p) auto

lemma TrimSpace_solid_prefix:
  assumes "list_all (\<lambda>c. \<not> is_space c) p" and "p \<noteq> []"
  shows "TrimSpace (p @ w) = p @ rev (dropWhile is_space (rev w))"
proof -
  have "dropWhile is_space (rev w @ rev p) = dropWhile is_space (rev w) @ rev p"
    using dropWhile_solid [of "rev p" "[]"] assms by (auto simp: dropWhile_append list_all_iff)
  then show ?thesis
    using dropWhile_solid [OF assms] by (simp add: TrimSpace_def)
qed

lemma Cut_first: "c \<notin> set a \<Longrightarrow> Cut (c # sep) (a @ (c # sep) @ b) = Some (a, b)"
proof (induction a)
  case Nil
  then show ?case by (simp add: HasPrefix_def)
next
  case (Cons x a)
  then have "\<not> HasPrefix (x # a @ (c # sep) @ b) (c # sep)"
    by (auto simp: HasPrefix_def)
  with Cons show ?case by simp
qed

lemma wrap_int64_id: "min_int64 \<le> i \<Longrightarrow> i \<le> max_int64 \<Longrightarrow> wrap_int64 i = i"
  by (simp add: wrap_int64_def min_int64_def max_int64_def)

lemma info_line_body: "info_line (k, v) = (k @ CHR '':'' # v @ [CHR 0x0D]) @ [CHR 0x0A]"
  by (simp add: info_line_def)

lemma Split_info_line:
  "line_key k \<Longrightarrow> info_value v \<Longrightarrow>
   Split (CHR 0x0A) (info_line (k, v) @ rest) = (k @ CHR '':'' # v @ [CHR 0x0D]) # Split (CHR 0x0A) rest"
  unfolding info_line_body append.assoc append_Cons append_Nil
  by (subst Split_append [symmetric]) (auto dest: line_key_no_LF simp: info_value_def)

lemma keyspace_info_line:
  assumes "info_key k"
  shows "keyspace_line (k @ CHR '':'' # w) t = t"
proof -
  have "list_all (\<lambda>c. \<not> is_space c) (k @ '':'')"
    using assms by (auto simp: info_key_def line_key_def is_space_def)
  then have "\<exists>w'. TrimSpace (k @ CHR '':'' # w) = k @ CHR '':'' # w'"
    using TrimSpace_solid_prefix [of "k @ '':''" w] by auto
  then obtain w' where w': "TrimSpace (k @ CHR '':'' # w) = k @ CHR '':'' # w'" by blast
  have "\<not> HasPrefix (k @ CHR '':'' # w') ''db''"
    using assms by (cases k; cases "tl k") (auto simp: info_key_def HasPrefix_def)
  with w' show ?thesis by (simp add: keyspace_line_def)
qed

lemma keyspace_db_line:
  assumes "min_int64 \<le> n" and "n \<le> max_int64"
  shows "keyspace_line ((''db'' @ Itoa i) @ CHR '':'' # (''keys='' @ Itoa n @ '',expires=0,avg_ttl=0'') @
    [CHR 0x0D]) t = wrap_int64 (t + n)"
proof -
  let ?b = "''db'' @ Itoa i @ '':keys='' @ Itoa n @ '',expires=0,avg_ttl=0''"
  have "list_all (\<lambda>c. \<not> is_space c) ?b"
    by (auto simp: list_all_iff is_space_def dest: Itoa_not_special(1))
  then have trim: "TrimSpace (?b @ [CHR 0x0D]) = ?b"
    using TrimSpace_solid_prefix [of ?b "[CHR 0x0D]"] by (simp add: is_space_def)
  have cut: "Cut ''keys='' ?b = Some (''db'' @ Itoa i @ '':'', Itoa n @ '',expires=0,avg_ttl=0'')"
    using Cut_first [of "CHR ''k''" "''db'' @ Itoa i @ '':''" "''eys=''" "Itoa n @ '',expires=0,avg_ttl=0''"]
    by simp
  have cut2: "Cut '','' (Itoa n @ '',expires=0,avg_ttl=0'') = Some (Itoa n, ''expires=0,avg_ttl=0'')"
    using Cut_first [of "CHR '',''" "Itoa n" "[]" "''expires=0,avg_ttl=0''"] by simp
  have "TrimSpace (Itoa n) = Itoa n"
    using TrimSpace_solid_prefix [of "Itoa n" "[]"] Itoa_not_special(1)
    by (auto simp: list_all_iff Itoa_def)
  moreover have "HasPrefix ?b ''db''" by (simp add: HasPrefix_def)
  ultimately show ?thesis
    using trim cut cut2 ParseInt64_Itoa [OF assms] by (simp add: keyspace_line_def)
qed

lemma info_text_lines:
  "info_text kvs dbs = concat (map info_line kvs) @ concat (map info_line (map db_field dbs))"
  by (induction dbs) (simp_all add: info_text_def db_line_info_line)

lemma line_key_db: "line_key (''db'' @ Itoa i)"
  by (auto simp: line_key_def list_all_iff is_space_def dest: Itoa_not_special(1))

lemma info_value_db: "info_value (''keys='' @ Itoa n @ '',expires=0,avg_ttl=0'')"
  using Itoa_not_special(1) [of "CHR 0x0D" n] Itoa_not_special(1) [of "CHR 0x0A" n]
  by (auto simp: info_value_def is_space_def)

lemma db_fields_ok: "list_all (\<lambda>(k, v). line_key k \<and> info_value v) (map db_field dbs)"
  by (induction dbs) (simp_all only: list.map list.pred_inject db_field_def prod.case
      line_key_db info_value_db simp_thms)

lemma info_fields_not_db: "info_key f \<Longrightarrow> map_of (map db_field dbs) f = None"
  by (auto simp: map_of_eq_None_iff info_key_def HasPrefix_def db_field_def)

lemma ParseInfoField_info_text:
  assumes "info_key f" and "list_all (\<lambda>(k, v). info_key k \<and> info_value v) kvs"
  shows "ParseInfoField (info_text kvs dbs) f = field kvs f"
proof -
  have f: "line_key f" and kvs: "list_all (\<lambda>(k, v). line_key k \<and> info_value v) kvs"
    using assms by (auto simp: list_all_iff info_key_def)
  have "info_scan (f @ '':'') True (concat (map info_line (map db_field dbs))) = []"
    using info_scan_lines [OF f db_fields_ok [of dbs], of "[]"] info_fields_not_db [OF assms(1), of dbs]
    by (simp del: map_map)
  then show ?thesis
    using info_scan_lines [OF f kvs, of "concat (map info_line (map db_field dbs))"]
    by (simp add: ParseInfoField_def info_text_lines field_def del: map_map split: option.splits)
qed

lemma keyspace_fields:
  assumes "list_all (\<lambda>(k, v). info_key k \<and> info_value v) kvs"
  shows "fold keyspace_line (Split (CHR 0x0A) (concat (map info_line kvs) @ rest)) t =
    fold keyspace_line (Split (CHR 0x0A) rest) t"
  using assms
  by (induction kvs) (auto simp: Split_info_line keyspace_info_line info_key_def
      simp del: append_assoc simp: append.assoc [of _ _ rest])

lemma keyspace_dbs:
  assumes "list_all (\<lambda>(i, n). 0 \<le> n) dbs" and "0 \<le> t" and "t + sum_list (map snd dbs) \<le> max_int64"
  shows "fold keyspace_line (Split (CHR 0x0A) (concat (map db_line dbs))) t =
    t + sum_list (map snd dbs)"
  using assms
proof (induction dbs arbitrary: t)
  case Nil
  show ?case by (simp add: keyspace_line_def TrimSpace_def HasPrefix_def)
next
  case (Cons db dbs)
  obtain i n where db: "db = (i, n)" by (cases db)
  have "0 \<le> sum_list (map snd dbs)"
    using Cons.prems(1) by (intro sum_list_nonneg) (auto simp: list_all_iff)
  then have range: "min_int64 \<le> n" "n \<le> max_int64" "min_int64 \<le> t + n" "t + n \<le> max_int64"
    using Cons.prems by (auto simp: db min_int64_def)
  have "Split (CHR 0x0A) (concat (map db_line (db # dbs))) =
      ((''db'' @ Itoa i) @ CHR '':'' # (''keys='' @ Itoa n @ '',expires=0,avg_ttl=0'') @ [CHR 0x0D]) #
      Split (CHR 0x0A) (concat (map db_line dbs))"
    using Split_info_line [OF line_key_db info_value_db] by (simp only: db db_line_info_line db_field_def fst_conv snd_conv list.map concat.simps)
  then show ?case
    using keyspace_db_line [OF range(1,2)] range Cons.IH [of "t + n"] Cons.prems
    by (simp add: db wrap_int64_id del: append_Cons append_assoc)
qed

text \<open>
  \<open>ParseInfoField\<close> and \<open>ParseKeyspaceKeys\<close> read an INFO reply back: every field has the value
  that was printed for it (a missing field reads as the empty string), and the number of keys is
  the sum over the databases, as long as that sum fits into 64 bits.
\<close>

lemma INFO_roundtrip:
  assumes "list_all (\<lambda>(k, v). info_key k \<and> info_value v) kvs"
    and "list_all (\<lambda>(i, n). 0 \<le> n) dbs" and "sum_list (map snd dbs) \<le> max_int64"
    and "info_key f"
  shows "ParseInfoField (info_text kvs dbs) f = field kvs f \<and>
    ParseKeyspaceKeys (info_text kvs dbs) = sum_list (map snd dbs)"
  using ParseInfoField_info_text [OF assms(4,1)] keyspace_fields [OF assms(1)]
    keyspace_dbs [OF assms(2), of 0] assms(3)
  by (simp add: ParseKeyspaceKeys_def info_text_def)

lemma INFO_roundtrip_witness:
  "ParseInfoField (info_text [(''role'', ''slave''), (''master_host'', ''10.0.0.1'')]
       [(0, 3), (4, 5)]) ''master_host'' = ''10.0.0.1'' \<and>
   ParseKeyspaceKeys (info_text [(''role'', ''slave''), (''master_host'', ''10.0.0.1'')]
       [(0, 3), (4, 5)]) = 8"
  using INFO_roundtrip [of "[(''role'', ''slave''), (''master_host'', ''10.0.0.1'')]"
      "[(0, 3), (4, 5)]" "''master_host''"]
  by (simp add: info_key_def line_key_def info_value_def is_space_def HasPrefix_def max_int64_def
      field_def)

section \<open>Classification of probe errors\<close>

lemma Contains_append: "Contains s sub \<Longrightarrow> Contains (a @ s) sub"
  unfolding Contains_iff by (metis append.assoc)

lemma ToLower_append [simp]: "ToLower (a @ b) = ToLower a @ ToLower b"
  by (simp add: ToLower_def)

lemma auth_failed_iff:
  "ClassifyProbeError (Some e) = ProbeAuthFailed \<longleftrightarrow>
   list_ex (Contains (ToLower (er_msg e))) authFailureMarkers"
  by (simp add: ClassifyProbeError_def Let_def)

text \<open>
  The classification of an authentication failure does not depend on the layers between
  the server and the operator: an error that a server refused the credential with stays
  \<open>ProbeAuthFailed\<close> however it is wrapped and whatever else is true of it (a deadline, an errno),
  and no error is classified as \<open>ProbeOK\<close>.
\<close>

lemma auth_failure_survives_wrapping:
  assumes "ClassifyProbeError (Some e) = ProbeAuthFailed"
  shows "ClassifyProbeError (Some (wrapf pre (e\<lparr>er_deadline := d, er_net_timeout := n,
      er_errno := u, er_dns := s, er_redis := r\<rparr>))) = ProbeAuthFailed \<and>
    ClassifyProbeError (Some e') \<noteq> ProbeOK"
proof -
  have "list_ex (Contains (ToLower (pre @ '': '' @ er_msg e))) authFailureMarkers"
    using assms Contains_append [of "ToLower (er_msg e)" _ "ToLower (pre @ '': '')"]
    unfolding auth_failed_iff by (auto simp: list_ex_iff ToLower_def)
  then show ?thesis
    unfolding auth_failed_iff by (simp add: wrapf_def ClassifyProbeError_def Let_def)
qed

lemma auth_failure_survives_wrapping_witness:
  "ClassifyProbeError (Some (Errorf ''WRONGPASS invalid username-password pair'')) =
     ProbeAuthFailed \<and>
   ClassifyProbeError (Some (wrapf ''failed to get info''
     (Errorf ''WRONGPASS invalid username-password pair''\<lparr>er_deadline := True,
        er_net_timeout := True, er_errno := False, er_dns := False, er_redis := True\<rparr>))) =
     ProbeAuthFailed"
proof -
  have "ClassifyProbeError (Some (Errorf ''WRONGPASS invalid username-password pair'')) =
     ProbeAuthFailed" by code_simp
  with auth_failure_survives_wrapping [OF this] show ?thesis by blast
qed

lemma DescribeProbeError_bounded: "length (DescribeProbeError err) \<le> 163"
  by (auto simp: DescribeProbeError_def Let_def split: option.splits)

section \<open>The two wire shapes of a record\<close>

lemma pair_up_flat: "pair_up (concat (map (\<lambda>(k, v). [k, v]) kvs)) = kvs"
  by (induction kvs) auto

text \<open>
  \<open>parseMonitoredMasters\<close> does not depend on the negotiated protocol: the flat array of RESP2
  and the map of RESP3 with the same entries give the same masters.
\<close>

lemma monitored_masters_protocol_independent:
  "parseMonitoredMasters (map (\<lambda>kvs. RArray (concat (map (\<lambda>(k, v). [k, v]) kvs))) records) =
   parseMonitoredMasters (map RMap records)"
  by (simp add: parseMonitoredMasters_def monitored_master_def recordFields_def pair_up_flat o_def)

end
