(* ===== verification/Lineage.thy ===== *)
theory Lineage
  imports Replication_State
begin

text \<open>
  The replication lineages of \<open>holdersDiverged\<close> (\<open>internal/redis/replication_state.go\<close>). The locale
  \<open>union_find\<close> is the interface the two passes rely on: what \<open>find\<close> and \<open>union\<close> do to the
  representatives. Its client lemma turns a union into one more generator of the equivalence
  closure. The parent map with path compression is an instance, so the number of components the
  code counts is the number of classes of the connection \<open>replid ~ replid2\<close>.
\<close>

section \<open>The interface\<close>

definition joined :: "('a \<Rightarrow> 'a \<Rightarrow> bool) \<Rightarrow> 'a \<Rightarrow> 'a \<Rightarrow> 'a \<Rightarrow> 'a \<Rightarrow> bool" where
  "joined R a b x y \<longleftrightarrow> R x y \<or> x = a \<and> y = b"

lemma equivclp_joined:
  "equivclp (joined R a b) x y \<longleftrightarrow>
     equivclp R x y \<or> equivclp R x a \<and> equivclp R b y \<or> equivclp R x b \<and> equivclp R a y"
    (is "?L x y \<longleftrightarrow> ?R x y")
proof
  assume "?L x y"
  then show "?R x y"
  proof (induction rule: equivclp_induct)
    case base
    show ?case by simp
  next
    case (step y z)
    from step(2) consider "R y z \<or> R z y" | "y = a" "z = b" | "y = b" "z = a"
      by (auto simp: joined_def)
    then show ?case
    proof cases
      case 1
      then have "equivclp R y z" by (meson equivclp_sym r_into_equivclp)
      with step.IH show ?thesis by (meson equivclp_trans)
    next
      case 2
      with step.IH show ?thesis by (meson equivclp_refl equivclp_sym equivclp_trans)
    next
      case 3
      with step.IH show ?thesis by (meson equivclp_refl equivclp_sym equivclp_trans)
    qed
  qed
next
  have mono: "equivclp R u v \<Longrightarrow> ?L u v" for u v
  proof (induction rule: equivclp_induct)
    case (step y z)
    have "?L y z"
      using step(2) by (meson equivclp_sym joined_def r_into_equivclp)
    with step.IH show ?case by (rule equivclp_trans)
  qed simp
  have ab: "?L a b" by (rule r_into_equivclp) (simp add: joined_def)
  assume "?R x y"
  then show "?L x y"
    using mono ab by (meson equivclp_sym equivclp_trans)
qed

locale union_find =
  fixes find :: "'x \<Rightarrow> 's \<Rightarrow> ('x \<times> 's) option"
    and union :: "'x \<Rightarrow> 'x \<Rightarrow> 's \<Rightarrow> 's option"
    and invar :: "'s \<Rightarrow> bool"
    and rep :: "'s \<Rightarrow> 'x \<Rightarrow> 'x"
  assumes find_spec: "invar s \<Longrightarrow> \<exists>s'. find x s = Some (rep s x, s') \<and> invar s' \<and> rep s' = rep s"
    and union_spec: "invar s \<Longrightarrow> \<exists>s'. union a b s = Some s' \<and> invar s' \<and>
      rep s' = (\<lambda>x. if rep s x = rep s a then rep s b else rep s x)"
begin

definition classes :: "'s \<Rightarrow> ('x \<Rightarrow> 'x \<Rightarrow> bool) \<Rightarrow> bool" where
  "classes s R \<longleftrightarrow> invar s \<and> (\<forall>x y. rep s x = rep s y \<longleftrightarrow> equivclp R x y)"

lemma find_classes:
  assumes "classes s R"
  shows "\<exists>s'. find x s = Some (rep s x, s') \<and> classes s' R \<and> rep s' = rep s"
  using find_spec [of s x] assms by (auto simp: classes_def)

lemma union_classes:
  assumes "classes s R"
  shows "\<exists>s'. union a b s = Some s' \<and> classes s' (joined R a b)"
proof -
  obtain s' where s': "union a b s = Some s'" "invar s'"
    "rep s' = (\<lambda>x. if rep s x = rep s a then rep s b else rep s x)"
    using union_spec [of s a b] assms by (auto simp: classes_def)
  have eq: "rep s x = rep s y \<longleftrightarrow> equivclp R x y" for x y
    using assms by (simp add: classes_def)
  have "rep s' x = rep s' y \<longleftrightarrow> equivclp (joined R a b) x y" for x y
    unfolding equivclp_joined s'(3) eq [symmetric] by auto
  with s' show ?thesis by (auto simp: classes_def)
qed

end

section \<open>The parent map\<close>

text \<open>The root of an element: an element without an entry is its own root.\<close>

inductive uf_root :: "parents \<Rightarrow> string \<Rightarrow> string \<Rightarrow> bool" for parent where
  unseen: "parent x = None \<Longrightarrow> uf_root parent x x"
| self: "parent x = Some x \<Longrightarrow> uf_root parent x x"
| step: "parent x = Some p \<Longrightarrow> p \<noteq> x \<Longrightarrow> uf_root parent p r \<Longrightarrow> uf_root parent x r"

definition forest :: "parents \<Rightarrow> bool" where
  "forest parent \<longleftrightarrow> (\<forall>x. \<exists>r. uf_root parent x r)"

definition uf_rep :: "parents \<Rightarrow> string \<Rightarrow> string" where
  "uf_rep parent x = (THE r. uf_root parent x r)"

lemma uf_root_det: "uf_root parent x r \<Longrightarrow> uf_root parent x r' \<Longrightarrow> r' = r"
proof (induction rule: uf_root.induct)
  case (unseen x)
  from unseen.prems unseen.hyps show ?case by cases auto
next
  case (self x)
  from self.prems self.hyps show ?case by cases auto
next
  case (step x p r)
  from step.prems step.hyps step.IH show ?case by cases auto
qed

lemma uf_root_is_root: "uf_root parent x r \<Longrightarrow> parent r = None \<or> parent r = Some r"
  by (induction rule: uf_root.induct) auto

lemma uf_rep_eq: "uf_root parent x r \<Longrightarrow> uf_rep parent x = r"
  unfolding uf_rep_def by (rule the_equality) (auto dest: uf_root_det)

lemma forest_root: "forest parent \<Longrightarrow> uf_root parent x (uf_rep parent x)"
  by (auto simp: forest_def dest!: spec [of _ x] simp: uf_rep_eq)

lemma root_of_root: "uf_root parent x r \<Longrightarrow> uf_root parent r r"
  using uf_root_is_root uf_root.intros by blast

text \<open>Redirecting an element to the root of another tree, and path compression as a special case.\<close>

lemma redirect_root:
  assumes "uf_root parent y s" and "uf_root parent x x" and "uf_root parent r r" and "x \<noteq> r"
  shows "uf_root (parent(x \<mapsto> r)) y (if s = x then r else s)"
proof -
  define q where "q = parent(x \<mapsto> r)"
  have q: "q x = Some r" "\<And>y. y \<noteq> x \<Longrightarrow> q y = parent y" by (simp_all add: q_def)
  have x: "uf_root q x r"
    using uf_root_is_root [OF assms(3)] assms(4) q by (metis uf_root.intros)
  show ?thesis
    using assms(1) unfolding q_def [symmetric]
  proof (induction rule: uf_root.induct)
    case (step y p s)
    have "y \<noteq> x" using uf_root_is_root [OF assms(2)] step by auto
    then show ?case using step q by (auto intro: uf_root.step)
  qed (use x q in \<open>auto intro: uf_root.intros\<close>)
qed

lemma compress_root:
  assumes "uf_root parent y s" and "uf_root parent x r" and "x \<noteq> r"
  shows "uf_root (parent(x \<mapsto> r)) y s"
proof -
  define q where "q = parent(x \<mapsto> r)"
  have q: "q x = Some r" "\<And>y. y \<noteq> x \<Longrightarrow> q y = parent y" by (simp_all add: q_def)
  have x: "uf_root q x r"
    using uf_root_is_root [OF assms(2)] assms(3) q by (metis uf_root.intros)
  have inner: "parent x \<noteq> None" "parent x \<noteq> Some x"
    using assms(2,3) by (auto elim: uf_root.cases)
  show ?thesis
    using assms(1) unfolding q_def [symmetric]
  proof (induction rule: uf_root.induct)
    case (unseen y)
    with inner q(2) [of y] show ?case by (metis uf_root.unseen)
  next
    case (self y)
    with inner q(2) [of y] show ?case by (metis uf_root.self)
  next
    case (step y p s)
    show ?case
    proof (cases "y = x")
      case True
      with step.hyps have "uf_root parent x s" by (auto intro: uf_root.step)
      with assms(2) have "s = r" by (blast dest: uf_root_det)
      with x True show ?thesis by simp
    next
      case False
      with step q(2) [of y] show ?thesis by (auto intro: uf_root.step)
    qed
  qed
qed

lemma register_root:
  assumes "uf_root parent y s" and "parent x = None \<or> parent x = Some x"
  shows "uf_root (parent(x \<mapsto> x)) y s"
proof -
  define q where "q = parent(x \<mapsto> x)"
  have q: "q x = Some x" "\<And>y. y \<noteq> x \<Longrightarrow> q y = parent y" by (simp_all add: q_def)
  show ?thesis
    using assms(1) unfolding q_def [symmetric]
  proof (induction rule: uf_root.induct)
    case (unseen y)
    with q show ?case by (metis uf_root.unseen uf_root.self)
  next
    case (self y)
    with q show ?case by (metis uf_root.self)
  next
    case (step y p s)
    then have "y \<noteq> x" using assms(2) by auto
    with step q(2) [of y] show ?case by (auto intro: uf_root.step)
  qed
qed

lemma forest_update:
  assumes "forest parent" and "\<And>y s. uf_root parent y s \<Longrightarrow> uf_root parent' y (f s)"
  shows "forest parent' \<and> uf_rep parent' = (\<lambda>x. f (uf_rep parent x))"
proof -
  have root: "uf_root parent' y (f (uf_rep parent y))" for y
    using assms(2) forest_root [OF assms(1)] by blast
  then have "uf_rep parent' y = f (uf_rep parent y)" for y
    by (rule uf_rep_eq)
  with root show ?thesis by (auto simp: forest_def)
qed

lemma uf_find_root:
  assumes "uf_root parent x r" and "forest parent"
  shows "\<exists>parent'. uf_find x parent = Some (r, parent') \<and> forest parent' \<and>
    uf_rep parent' = uf_rep parent"
  using assms(1)
proof (induction rule: uf_root.induct)
  case (unseen x)
  then show ?case
    using forest_update [OF assms(2), of "parent(x \<mapsto> x)" id] register_root [of parent _ _ x]
    by (subst uf_find.simps) auto
next
  case (self x)
  then show ?case using assms(2) by (subst uf_find.simps) auto
next
  case (step x p r)
  then obtain q where q: "uf_find p parent = Some (r, q)" "forest q" "uf_rep q = uf_rep parent"
    by blast
  have px: "uf_root parent x r" using step.hyps by (auto intro: uf_root.intros)
  have "uf_root q x r"
    using forest_root [OF q(2), of x] uf_rep_eq [OF px] by (simp add: q(3))
  moreover have "x \<noteq> r" using uf_root_is_root [OF px] step.hyps by auto
  ultimately have "forest (q(x \<mapsto> r)) \<and> uf_rep (q(x \<mapsto> r)) = uf_rep q"
    using forest_update [OF q(2), of "q(x \<mapsto> r)" id] compress_root [of q _ _ x r] by auto
  with step.hyps q show ?case by (subst uf_find.simps) auto
qed

lemma uf_find_spec:
  assumes "forest parent"
  shows "\<exists>parent'. uf_find x parent = Some (uf_rep parent x, parent') \<and> forest parent' \<and>
    uf_rep parent' = uf_rep parent"
  using uf_find_root [OF forest_root [OF assms] assms] .

lemma uf_union_spec:
  assumes "forest parent"
  shows "\<exists>parent'. uf_union a b parent = Some parent' \<and> forest parent' \<and>
    uf_rep parent' = (\<lambda>x. if uf_rep parent x = uf_rep parent a then uf_rep parent b
                          else uf_rep parent x)"
proof -
  obtain p1 where p1: "uf_find a parent = Some (uf_rep parent a, p1)" "forest p1"
    "uf_rep p1 = uf_rep parent"
    using uf_find_spec [OF assms, of a] by blast
  obtain p2 where p2: "uf_find b p1 = Some (uf_rep p1 b, p2)" "forest p2" "uf_rep p2 = uf_rep p1"
    using uf_find_spec [OF p1(2), of b] by blast
  let ?ra = "uf_rep parent a" and ?rb = "uf_rep parent b"
  have ra: "uf_root p2 ?ra ?ra" and rb: "uf_root p2 ?rb ?rb"
    using root_of_root [OF forest_root [OF p2(2), of a]] root_of_root [OF forest_root [OF p2(2), of b]]
    by (simp_all add: p1(3) p2(3))
  have "forest (p2(?ra \<mapsto> ?rb)) \<and>
    uf_rep (p2(?ra \<mapsto> ?rb)) = (\<lambda>x. if uf_rep p2 x = ?ra then ?rb else uf_rep p2 x)"
  proof (cases "?ra = ?rb")
    case True
    then show ?thesis
      using forest_update [OF p2(2), of "p2(?ra \<mapsto> ?rb)" id] register_root [of p2 _ _ ?ra]
        uf_root_is_root [OF ra] by auto
  next
    case False
    then show ?thesis
      using forest_update [OF p2(2), of "p2(?ra \<mapsto> ?rb)" "\<lambda>s. if s = ?ra then ?rb else s"]
        redirect_root [OF _ ra rb] by auto
  qed
  with p1 p2 show ?thesis by (auto simp: uf_union_def)
qed

interpretation uf: union_find uf_find uf_union forest uf_rep
  by unfold_locales (rule uf_find_spec, assumption, rule uf_union_spec, assumption)

lemma empty_classes: "uf.classes Map.empty (\<lambda>_ _. False)"
proof -
  have root: "uf_root Map.empty x x" for x by (rule uf_root.unseen) simp
  then have "uf_rep Map.empty x = x" for x by (rule uf_rep_eq)
  moreover have "x = y" if "equivclp (\<lambda>_ _. False) x y" for x y :: string
    using that by (induction rule: equivclp_induct) auto
  moreover have "forest Map.empty" using root unfolding forest_def by blast
  ultimately show ?thesis by (auto simp: uf.classes_def)
qed

section \<open>The two passes\<close>

text \<open>
  What the code means by a lineage: the replid of a holder, or its replid2 when the replid is
  unset. Two lineages are one when a chain of holders connects them through their replid pairs.
\<close>

definition lineage_of :: "RedisNodeState \<Rightarrow> string option" where
  "lineage_of h =
     (if valid_replid (rn_Replid h) then Some (rn_Replid h)
      else if valid_replid (rn_Replid2 h) then Some (rn_Replid2 h) else None)"

definition promotion :: "RedisNodeState list \<Rightarrow> string \<Rightarrow> string \<Rightarrow> bool" where
  "promotion hs x y \<longleftrightarrow> (\<exists>h \<in> set hs. valid_replid (rn_Replid h) \<and> valid_replid (rn_Replid2 h) \<and>
     x = rn_Replid h \<and> y = rn_Replid2 h)"

definition one_lineage :: "RedisNodeState list \<Rightarrow> bool" where
  "one_lineage hs \<longleftrightarrow> (\<forall>i < length hs. \<forall>j < length hs. i \<noteq> j \<longrightarrow>
     (\<exists>a b. lineage_of (hs ! i) = Some a \<and> lineage_of (hs ! j) = Some b \<and>
        equivclp (promotion hs) a b))"

definition proper_replids :: "RedisNodeState \<Rightarrow> bool" where
  "proper_replids h \<longleftrightarrow> \<not> HasPrefix (rn_Replid h) ''__noreplid_'' \<and>
     \<not> HasPrefix (rn_Replid2 h) ''__noreplid_''"

definition component :: "(string \<Rightarrow> string) \<Rightarrow> nat \<times> RedisNodeState \<Rightarrow> string" where
  "component rep ih =
     (case lineage_of (snd ih) of Some r \<Rightarrow> rep r | None \<Rightarrow> ''__noreplid_'' @ Itoa (int (fst ih)))"

definition holder_example :: "string \<Rightarrow> string \<Rightarrow> RedisNodeState" where
  "holder_example replid replid2 =
     \<lparr>rn_PodName = ''r-0'', rn_IP = ''10.0.0.1'', rn_Role = ''slave'', rn_MasterHost = '''',
      rn_LinkStatus = ''down'', rn_Offset = 10, rn_Keys = 3, rn_Replid = replid,
      rn_Replid2 = replid2, rn_Reachable = True, rn_ProbeFailure = ProbeOK, rn_ProbeError = ''''\<rparr>"

lemma connect_lineages_Cons:
  "connect_lineages (h # hs) parent =
     Option.bind (connect_lineages [h] parent) (connect_lineages hs)"
proof -
  have "connect_lineages [] = Some" by (rule ext) simp
  then show ?thesis by simp
qed

lemma connect_lineages_classes:
  assumes "uf.classes parent R"
  shows "\<exists>parent'. connect_lineages hs parent = Some parent' \<and>
    uf.classes parent' (\<lambda>x y. R x y \<or> promotion hs x y)"
  using assms
proof (induction hs arbitrary: parent R)
  case Nil
  then show ?case by (simp add: promotion_def)
next
  case (Cons h hs)
  let ?R' = "\<lambda>x y. R x y \<or> promotion [h] x y"
  have "\<exists>q. connect_lineages [h] parent = Some q \<and> uf.classes q ?R'"
  proof (cases "valid_replid (rn_Replid h) \<and> valid_replid (rn_Replid2 h)")
    case True
    then have "?R' = joined R (rn_Replid h) (rn_Replid2 h)"
      by (auto simp: promotion_def joined_def fun_eq_iff)
    with True uf.union_classes [OF Cons.prems, of "rn_Replid h" "rn_Replid2 h"]
    show ?thesis by auto
  next
    case False
    then have "?R' = R" by (auto simp: promotion_def)
    with False uf.find_classes [OF Cons.prems, of "rn_Replid h"]
      uf.find_classes [OF Cons.prems, of "rn_Replid2 h"] Cons.prems
    show ?thesis by auto
  qed
  then obtain q where q: "connect_lineages [h] parent = Some q" "uf.classes q ?R'" by blast
  then have "connect_lineages (h # hs) parent = connect_lineages hs q"
    unfolding connect_lineages_Cons [of h hs] by (simp only: Option.bind.simps)
  moreover have "(\<lambda>x y. ?R' x y \<or> promotion hs x y) = (\<lambda>x y. R x y \<or> promotion (h # hs) x y)"
    by (auto simp: promotion_def fun_eq_iff)
  ultimately show ?case using Cons.IH [OF q(2)] by simp
qed

lemma count_lineages_components:
  assumes "uf.classes parent R"
  shows "count_lineages i hs parent comps =
    Some (comps \<union> component (uf_rep parent) ` set (enumerate i hs))"
  using assms
proof (induction hs arbitrary: i parent comps)
  case Nil
  show ?case by simp
next
  case (Cons h hs)
  have "\<exists>q. (if valid_replid (rn_Replid h) then uf_find (rn_Replid h) parent
        else if valid_replid (rn_Replid2 h) then uf_find (rn_Replid2 h) parent
        else Some (''__noreplid_'' @ Itoa (int i), parent)) =
      Some (component (uf_rep parent) (i, h), q) \<and> uf.classes q R \<and> uf_rep q = uf_rep parent"
    using uf.find_classes [OF Cons.prems, of "rn_Replid h"]
      uf.find_classes [OF Cons.prems, of "rn_Replid2 h"] Cons.prems
    by (auto simp: component_def lineage_of_def)
  then show ?case using Cons.IH by (auto simp del: append_Cons)
qed

lemma lineages_components:
  "\<exists>parent. lineages hs = Some (component (uf_rep parent) ` set (enumerate 0 hs)) \<and>
     uf.classes parent (promotion hs)"
  using connect_lineages_classes [OF empty_classes, of hs] count_lineages_components
  by (auto simp: lineages_def)

lemma lineages_return: "lineages hs \<noteq> None"
  using lineages_components [of hs] by auto

lemma promotion_connected:
  assumes "equivclp (promotion hs) a r"
  shows "r = a \<or> (\<exists>h \<in> set hs. r = rn_Replid h \<or> r = rn_Replid2 h)"
  using assms by (induction rule: equivclp_induct) (auto simp: promotion_def)

lemma representative_proper:
  assumes "uf.classes parent (promotion hs)" and "list_all proper_replids hs"
    and "h \<in> set hs" and "lineage_of h = Some a"
  shows "\<not> HasPrefix (uf_rep parent a) ''__noreplid_''"
proof -
  have "forest parent" using assms(1) by (simp add: uf.classes_def)
  then have "uf_rep parent (uf_rep parent a) = uf_rep parent a"
    by (metis forest_root root_of_root uf_rep_eq)
  then have "equivclp (promotion hs) a (uf_rep parent a)"
    using assms(1) by (metis uf.classes_def)
  then have "uf_rep parent a = a \<or> (\<exists>h \<in> set hs. uf_rep parent a = rn_Replid h \<or>
      uf_rep parent a = rn_Replid2 h)"
    by (rule promotion_connected)
  with assms(2-4) show ?thesis
    by (auto simp: list_all_iff proper_replids_def lineage_of_def split: if_splits)
qed

lemma same_component:
  assumes "uf.classes parent (promotion hs)" and "list_all proper_replids hs"
    and "i < length hs" and "j < length hs" and "i \<noteq> j"
  shows "component (uf_rep parent) (i, hs ! i) = component (uf_rep parent) (j, hs ! j) \<longleftrightarrow>
    (\<exists>a b. lineage_of (hs ! i) = Some a \<and> lineage_of (hs ! j) = Some b \<and>
        equivclp (promotion hs) a b)"
proof -
  have "uf_rep parent a \<noteq> ''__noreplid_'' @ w" "''__noreplid_'' @ w \<noteq> uf_rep parent a"
    if "lineage_of (hs ! k) = Some a" "k < length hs" for a k w
    using representative_proper [OF assms(1,2) _ that(1)] that(2) HasPrefix_append [of "''__noreplid_''" w]
    by (metis nth_mem)+
  moreover have "Itoa (int i) \<noteq> Itoa (int j)"
    using assms(5) by simp
  ultimately show ?thesis
    using assms(1,3,4)
    by (auto simp: component_def uf.classes_def split: option.splits simp del: append_Cons)
qed

lemma card_gt_1_iff: "finite A \<Longrightarrow> card A > 1 \<longleftrightarrow> (\<exists>x \<in> A. \<exists>y \<in> A. x \<noteq> y)"
  by (metis card_le_Suc0_iff_eq One_nat_def not_less)

lemma holdersDiverged_lineage:
  assumes "list_all proper_replids hs"
  shows "holdersDiverged hs \<longleftrightarrow> \<not> one_lineage hs"
proof -
  obtain parent where p: "lineages hs = Some (component (uf_rep parent) ` set (enumerate 0 hs))"
    "uf.classes parent (promotion hs)"
    using lineages_components [of hs] by blast
  have enum: "set (enumerate 0 hs) = {(i, hs ! i) | i. i < length hs}"
    by (auto simp: in_set_enumerate_eq)
  have "holdersDiverged hs \<longleftrightarrow> (\<exists>i < length hs. \<exists>j < length hs.
      component (uf_rep parent) (i, hs ! i) \<noteq> component (uf_rep parent) (j, hs ! j))"
    by (auto simp: holdersDiverged_def p(1) card_gt_1_iff [unfolded One_nat_def] enum)
  moreover have "component (uf_rep parent) (i, hs ! i) = component (uf_rep parent) (j, hs ! j) \<longleftrightarrow>
      (i \<noteq> j \<longrightarrow> (\<exists>a b. lineage_of (hs ! i) = Some a \<and> lineage_of (hs ! j) = Some b \<and>
        equivclp (promotion hs) a b))" if "i < length hs" "j < length hs" for i j
    using same_component [OF p(2) assms that] by (cases "i = j") simp_all
  then have "one_lineage hs \<longleftrightarrow> (\<forall>i < length hs. \<forall>j < length hs.
      component (uf_rep parent) (i, hs ! i) = component (uf_rep parent) (j, hs ! j))"
    unfolding one_lineage_def by simp
  ultimately show ?thesis by simp
qed

text \<open>
  C17. \<open>holdersDiverged\<close> always returns, and it reports divergence exactly when the data holders do
  not form one lineage: when some two holders are not connected by a chain of promotions
  \<open>replid ~ replid2\<close>, or one of several holders has no lineage information. The replids are not
  of the form the code reserves for holders without one.
\<close>

theorem holdersDiverged_iff:
  assumes "list_all proper_replids hs"
  shows "lineages hs \<noteq> None \<and> (holdersDiverged hs \<longleftrightarrow> \<not> one_lineage hs)"
  using lineages_return holdersDiverged_lineage [OF assms] by blast

text \<open>A promotion chain is one lineage; a holder with an unrelated replid is not of it.\<close>

theorem holdersDiverged_iff_witness:
  "one_lineage [holder_example ''d1'' ''0000'', holder_example ''a2'' ''d1'', holder_example ''b3'' ''a2''] \<and>
   \<not> one_lineage [holder_example ''d1'' ''0000'', holder_example ''e5'' ''0000'']"
proof -
  have "list_all proper_replids [holder_example ''d1'' ''0000'', holder_example ''a2'' ''d1'',
      holder_example ''b3'' ''a2'']"
    and "\<not> holdersDiverged [holder_example ''d1'' ''0000'', holder_example ''a2'' ''d1'',
      holder_example ''b3'' ''a2'']"
    and "list_all proper_replids [holder_example ''d1'' ''0000'', holder_example ''e5'' ''0000'']"
    and "holdersDiverged [holder_example ''d1'' ''0000'', holder_example ''e5'' ''0000'']"
    by code_simp+
  with holdersDiverged_iff show ?thesis by blast
qed

end
