(* ===== verification/Cluster_State.thy ===== *)
theory Cluster_State
  imports Slots Client
begin

text \<open>
  The ground truth of a Redis Cluster instance and its predicates
  (\<open>internal/redis/cluster_state.go\<close>), the plan of the CLUSTER MEETs that heal a partition, and the
  colocation of a shard in its StatefulSet (\<open>internal/redis/shard_colocation.go\<close>).

  The map \<open>Nodes\<close> is an association list from the pod name in the order of iteration. An index out
  of range is the error value \<open>IndexOutOfRange\<close>.
\<close>

section \<open>Data\<close>


record ClusterNodeState =
  cn_PodName :: string
  cn_PodIP :: string
  cn_NodeID :: string
  cn_Slots :: "string list"
  cn_Role :: string
  cn_MasterNodeID :: string
  cn_LinkStatus :: string
  cn_Reachable :: bool
  cn_ProbeFailure :: ProbeFailure
  cn_ProbeError :: string

record ClusterGroundTruth =
  Nodes :: "(string \<times> ClusterNodeState) list"
  Partitions :: "string list list"
  GhostNodes :: "string list"
  ClusterState :: string
  TotalSlots :: int
  AllNodeIDs :: "string list"
  KnownNodes :: "string \<rightharpoonup> string list"
  AtomicSlotMigration :: bool

abbreviation cluster_nodes :: "ClusterGroundTruth \<Rightarrow> ClusterNodeState list" where
  "cluster_nodes gt \<equiv> map snd (Nodes gt)"

definition NewClusterGroundTruth :: ClusterGroundTruth where
  "NewClusterGroundTruth =
     \<lparr>Nodes = [], Partitions = [], GhostNodes = [], ClusterState = [], TotalSlots = 0,
      AllNodeIDs = [], KnownNodes = Map.empty, AtomicSlotMigration = False\<rparr>"

section \<open>Predicates\<close>

definition AuthFailedNodes :: "ClusterGroundTruth \<Rightarrow> ClusterNodeState list" where
  "AuthFailedNodes gt =
     sort_key cn_PodName
       (filter (\<lambda>n. \<not> cn_Reachable n \<and> cn_ProbeFailure n = ProbeAuthFailed) (cluster_nodes gt))"

definition HasPartitions :: "ClusterGroundTruth \<Rightarrow> bool" where
  "HasPartitions gt \<longleftrightarrow> length (Partitions gt) > 1"

definition HasGhostNodes :: "ClusterGroundTruth \<Rightarrow> bool" where
  "HasGhostNodes gt \<longleftrightarrow> length (GhostNodes gt) > 0"

definition HasOrphanedSlots :: "ClusterGroundTruth \<Rightarrow> bool" where
  "HasOrphanedSlots gt \<longleftrightarrow> TotalSlots gt < 16384"

definition CountMasters :: "ClusterGroundTruth \<Rightarrow> int" where
  "CountMasters gt =
     int (length (filter (\<lambda>n. cn_Role n = roleMaster \<and> length (cn_Slots n) > 0) (cluster_nodes gt)))"

definition GetEmptyMasters :: "ClusterGroundTruth \<Rightarrow> ClusterNodeState list" where
  "GetEmptyMasters gt =
     filter (\<lambda>n. cn_Role n = roleMaster \<and> length (cn_Slots n) = 0) (cluster_nodes gt)"

definition HasEmptyMasters :: "ClusterGroundTruth \<Rightarrow> bool" where
  "HasEmptyMasters gt \<longleftrightarrow>
     list_ex (\<lambda>n. cn_Role n = roleMaster \<and> length (cn_Slots n) = 0) (cluster_nodes gt)"

definition IsHealthy :: "ClusterGroundTruth \<Rightarrow> int \<Rightarrow> int \<Rightarrow> bool" where
  "IsHealthy gt expectedNodes expectedShards =
     (if int (length (Nodes gt)) < expectedNodes then False
      else if int (length (AllNodeIDs gt)) \<noteq> expectedNodes then False
      else if HasPartitions gt then False
      else if CountMasters gt \<noteq> expectedShards then False
      else if HasEmptyMasters gt then False
      else ClusterState gt = ''ok'' \<and> TotalSlots gt = 16384)"

text \<open>
  The index of the first longest partition, as the loop of \<open>GetLargestPartitionSeed\<close> finds it.
\<close>

fun largest_index :: "nat \<Rightarrow> string list list \<Rightarrow> nat \<Rightarrow> nat \<Rightarrow> nat" where
  "largest_index i [] maxIdx maxLen = maxIdx"
| "largest_index i (p # ps) maxIdx maxLen =
     (if length p > maxLen then largest_index (i + 1) ps i (length p)
      else largest_index (i + 1) ps maxIdx maxLen)"

definition GetLargestPartitionSeed :: "ClusterGroundTruth \<Rightarrow> go_panic + ClusterNodeState option" where
  "GetLargestPartitionSeed gt =
     (if length (Partitions gt) = 0
      then Inr (case cluster_nodes gt of [] \<Rightarrow> None | n # _ \<Rightarrow> Some n)
      else case Partitions gt ! largest_index 0 (Partitions gt) 0 0 of
             [] \<Rightarrow> Inl IndexOutOfRange
           | targetID # _ \<Rightarrow> Inr (find (\<lambda>n. cn_NodeID n = targetID) (cluster_nodes gt)))"

definition NodeKnows :: "ClusterGroundTruth \<Rightarrow> string \<Rightarrow> string \<Rightarrow> bool" where
  "NodeKnows gt observerID targetID \<longleftrightarrow>
     (case KnownNodes gt observerID of None \<Rightarrow> False | Some ids \<Rightarrow> targetID \<in> set ids)"

definition GetMastersWithReplicas :: "ClusterGroundTruth \<Rightarrow> (string \<rightharpoonup> string list)" where
  "GetMastersWithReplicas gt =
     fold (\<lambda>n m. if cn_Role n = roleReplica \<and> cn_MasterNodeID n \<noteq> ''-''
                 then m(cn_MasterNodeID n \<mapsto>
                   (case m (cn_MasterNodeID n) of None \<Rightarrow> [] | Some ids \<Rightarrow> ids) @ [cn_NodeID n])
                 else m) (cluster_nodes gt) Map.empty"

section \<open>Attribution of a CLUSTER MEET\<close>

datatype MeetVerdict =
  MeetAllowMember | MeetAllowFresh | MeetDenyNoAddress | MeetDenyUnidentified | MeetDenyNoView
| MeetDenyUnattributed

definition Allowed :: "MeetVerdict \<Rightarrow> bool" where
  "Allowed v \<longleftrightarrow> v = MeetAllowMember \<or> v = MeetAllowFresh"

definition AdmissibleWhenConfirmed :: "MeetVerdict \<Rightarrow> bool" where
  "AdmissibleWhenConfirmed v \<longleftrightarrow> Allowed v \<or> v = MeetDenyUnattributed"

record MeetCandidate =
  mc_PodName :: string
  mc_PodIP :: string
  mc_NodeID :: string
  mc_Identified :: bool
  mc_ViewKnown :: bool
  mc_KnownIDs :: "string list"
  mc_Slots :: "string list"

text \<open>The loop over the known IDs, with the number of peers seen so far.\<close>

fun meet_scan :: "string \<Rightarrow> string set \<Rightarrow> string list \<Rightarrow> nat \<Rightarrow> MeetVerdict" where
  "meet_scan self ours [] peers = (if peers > 0 then MeetDenyUnattributed else MeetAllowFresh)"
| "meet_scan self ours (k # ids) peers =
     (if k = [] \<or> k = self then meet_scan self ours ids peers
      else if k \<in> ours then MeetAllowMember
      else meet_scan self ours ids (peers + 1))"

definition AttributeMeetTarget :: "MeetCandidate \<Rightarrow> string set \<Rightarrow> MeetVerdict" where
  "AttributeMeetTarget c ourNodeIDs =
     (if mc_PodIP c = [] then MeetDenyNoAddress
      else if \<not> mc_Identified c \<or> mc_NodeID c = [] then MeetDenyUnidentified
      else if \<not> mc_ViewKnown c then MeetDenyNoView
      else meet_scan (mc_NodeID c) ourNodeIDs (mc_KnownIDs c) 0)"

definition flagFail :: string where
  "flagFail = ''fail''"

definition nodeFlagsFailed :: "string list \<Rightarrow> bool" where
  "nodeFlagsFailed flags \<longleftrightarrow>
     list_ex (\<lambda>f. f = flagFail \<or> f = ''noaddr'' \<or> f = ''handshake'') flags"

definition MeetCandidateFromNodes ::
  "string \<Rightarrow> string \<Rightarrow> string \<Rightarrow> cluster_node_info list \<Rightarrow> MeetCandidate" where
  "MeetCandidateFromNodes podName podIP nodeID0 view =
     (let nodeID = (if nodeID0 = []
                    then case find (\<lambda>v. ''myself'' \<in> set (ni_Flags v)) view of
                           Some v \<Rightarrow> ni_NodeID v | None \<Rightarrow> []
                    else nodeID0)
      in \<lparr>mc_PodName = podName, mc_PodIP = podIP, mc_NodeID = nodeID,
          mc_Identified = (nodeID \<noteq> []), mc_ViewKnown = (nodeID \<noteq> []),
          mc_KnownIDs = map ni_NodeID (filter (\<lambda>v. \<not> nodeFlagsFailed (ni_Flags v)) view),
          mc_Slots = fold (\<lambda>v slots. if ni_NodeID v = nodeID then ni_Slots v else slots) view []\<rparr>)"

record MeetSkip =
  ms_PodName :: string
  ms_PodIP :: string
  ms_NodeID :: string
  ms_Verdict :: MeetVerdict

record MeetPlan =
  mp_Seed :: "ClusterNodeState option"
  mp_SeedVerdict :: MeetVerdict
  mp_Targets :: "ClusterNodeState list"
  mp_Skipped :: "MeetSkip list"
  mp_Unattributed :: "MeetSkip list"

definition meetCandidate :: "ClusterGroundTruth \<Rightarrow> ClusterNodeState \<Rightarrow> MeetCandidate" where
  "meetCandidate gt n =
     \<lparr>mc_PodName = cn_PodName n, mc_PodIP = cn_PodIP n, mc_NodeID = cn_NodeID n,
      mc_Identified = (cn_Reachable n \<and> cn_NodeID n \<noteq> []),
      mc_ViewKnown = (cn_NodeID n \<noteq> [] \<and> KnownNodes gt (cn_NodeID n) \<noteq> None),
      mc_KnownIDs = (case KnownNodes gt (cn_NodeID n) of None \<Rightarrow> [] | Some view \<Rightarrow> view),
      mc_Slots = cn_Slots n\<rparr>"

definition our_ids :: "ClusterGroundTruth \<Rightarrow> string set" where
  "our_ids gt = set (map cn_NodeID
     (filter (\<lambda>n. cn_Reachable n \<and> cn_NodeID n \<noteq> []) (cluster_nodes gt)))"

text \<open>
  The body of the loop over the sorted pod names; \<open>gt.Nodes[podName]\<close> is not nil, since the names
  are the keys of the map.
\<close>

definition plan_meet :: "ClusterGroundTruth \<Rightarrow> ClusterNodeState \<Rightarrow> string \<Rightarrow> MeetPlan \<Rightarrow> MeetPlan" where
  "plan_meet gt seed podName plan =
     (case map_of (Nodes gt) podName of
        None \<Rightarrow> plan
      | Some n \<Rightarrow>
          if cn_NodeID n \<noteq> [] \<and> cn_NodeID n = cn_NodeID seed then plan
          else
            let v = AttributeMeetTarget (meetCandidate gt n) (our_ids gt);
                skip = \<lparr>ms_PodName = cn_PodName n, ms_PodIP = cn_PodIP n, ms_NodeID = cn_NodeID n,
                        ms_Verdict = v\<rparr>
            in if AdmissibleWhenConfirmed v
               then let plan' = plan\<lparr>mp_Targets := mp_Targets plan @ [n]\<rparr> in
                    if \<not> Allowed v
                    then plan'\<lparr>mp_Unattributed := mp_Unattributed plan' @ [skip]\<rparr> else plan'
               else plan\<lparr>mp_Skipped := mp_Skipped plan @ [skip]\<rparr>)"

text \<open>The zero value of \<open>SeedVerdict\<close> is overwritten on every path.\<close>

definition PlanPartitionMeets :: "ClusterGroundTruth \<Rightarrow> go_panic + MeetPlan" where
  "PlanPartitionMeets gt =
     (case GetLargestPartitionSeed gt of
        Inl e \<Rightarrow> Inl e
      | Inr None \<Rightarrow> Inr \<lparr>mp_Seed = None, mp_SeedVerdict = MeetDenyUnidentified, mp_Targets = [],
            mp_Skipped = [], mp_Unattributed = []\<rparr>
      | Inr (Some seed) \<Rightarrow>
          let v = AttributeMeetTarget (meetCandidate gt seed) (our_ids gt);
              plan = \<lparr>mp_Seed = None, mp_SeedVerdict = v, mp_Targets = [], mp_Skipped = [],
                      mp_Unattributed = []\<rparr>
          in if \<not> AdmissibleWhenConfirmed v then Inr plan
             else Inr (fold (plan_meet gt seed) (sort (map fst (Nodes gt))) (plan\<lparr>mp_Seed := Some seed\<rparr>)))"

section \<open>Shard colocation\<close>

text \<open>
  The regular expression \<open>-shard-(\d+)-\d+$\<close>: the leftmost suffix of this form, and its first group.
\<close>

definition shard_suffix :: "string \<Rightarrow> string option" where
  "shard_suffix s =
     (if HasPrefix s ''-shard-''
      then let r = drop (length ''-shard-'') s; k = takeWhile is_digit r; t = dropWhile is_digit r
           in case t of
                c # o' \<Rightarrow> if k \<noteq> [] \<and> c = CHR ''-'' \<and> o' \<noteq> [] \<and> list_all is_digit o' then Some k else None
              | [] \<Rightarrow> None
      else None)"

fun shard_group :: "string \<Rightarrow> string option" where
  "shard_group [] = None"
| "shard_group (c # cs) = (case shard_suffix (c # cs) of Some k \<Rightarrow> Some k | None \<Rightarrow> shard_group cs)"

definition ShardIndexFromPodName :: "string \<Rightarrow> int" where
  "ShardIndexFromPodName podName =
     (case shard_group podName of
        None \<Rightarrow> -1
      | Some m \<Rightarrow> (case Atoi m of Inl _ \<Rightarrow> -1 | Inr k \<Rightarrow> k))"

record ShardColocationViolation =
  sv_ReplicaPod :: string
  sv_ReplicaShard :: int
  sv_MasterPod :: string
  sv_MasterShard :: int

definition by_id :: "ClusterGroundTruth \<Rightarrow> (string \<rightharpoonup> ClusterNodeState)" where
  "by_id gt = fold (\<lambda>n m. m(cn_NodeID n \<mapsto> n)) (cluster_nodes gt) Map.empty"

definition colocation_violation ::
  "(string \<rightharpoonup> ClusterNodeState) \<Rightarrow> ClusterNodeState \<Rightarrow> ShardColocationViolation list" where
  "colocation_violation byID n =
     (if cn_Role n \<noteq> roleReplica then []
      else case byID (cn_MasterNodeID n) of
             None \<Rightarrow> []
           | Some m \<Rightarrow>
               let rShard = ShardIndexFromPodName (cn_PodName n);
                   mShard = ShardIndexFromPodName (cn_PodName m)
               in if rShard < 0 \<or> mShard < 0 then []
                  else if rShard \<noteq> mShard
                  then [\<lparr>sv_ReplicaPod = cn_PodName n, sv_ReplicaShard = rShard,
                         sv_MasterPod = cn_PodName m, sv_MasterShard = mShard\<rparr>]
                  else [])"

definition CheckShardColocation :: "ClusterGroundTruth \<Rightarrow> ShardColocationViolation list" where
  "CheckShardColocation gt =
     sort_key sv_ReplicaPod (concat (map (colocation_violation (by_id gt)) (cluster_nodes gt)))"

section \<open>Attribution\<close>

text \<open>The peers a candidate names: the other nodes of its live view.\<close>

definition peers_of :: "MeetCandidate \<Rightarrow> string set" where
  "peers_of c = set (mc_KnownIDs c) - {[], mc_NodeID c}"

definition has_evidence :: "MeetCandidate \<Rightarrow> bool" where
  "has_evidence c \<longleftrightarrow> mc_PodIP c \<noteq> [] \<and> mc_Identified c \<and> mc_NodeID c \<noteq> [] \<and> mc_ViewKnown c"

lemma meet_scan_cases:
  "meet_scan self ours ids peers =
     (if (set ids - {[], self}) \<inter> ours \<noteq> {} then MeetAllowMember
      else if peers > 0 \<or> set ids - {[], self} \<noteq> {} then MeetDenyUnattributed
      else MeetAllowFresh)"
  by (induction ids arbitrary: peers) auto

lemma AttributeMeetTarget_cases:
  "AttributeMeetTarget c ours =
     (if \<not> has_evidence c then AttributeMeetTarget c ours
      else if peers_of c \<inter> ours \<noteq> {} then MeetAllowMember
      else if peers_of c \<noteq> {} then MeetDenyUnattributed else MeetAllowFresh)"
  by (auto simp: AttributeMeetTarget_def has_evidence_def peers_of_def meet_scan_cases)

lemma no_evidence_denied:
  "\<not> has_evidence c \<Longrightarrow> AttributeMeetTarget c ours \<in>
     {MeetDenyNoAddress, MeetDenyUnidentified, MeetDenyNoView}"
  by (auto simp: AttributeMeetTarget_def has_evidence_def)

lemma admissible_iff: "AdmissibleWhenConfirmed (AttributeMeetTarget c ours) \<longleftrightarrow> has_evidence c"
  using AttributeMeetTarget_cases [of c ours] no_evidence_denied [of c ours]
  by (cases "has_evidence c") (auto simp: AdmissibleWhenConfirmed_def Allowed_def)

lemma unattributed_iff:
  "AttributeMeetTarget c ours = MeetDenyUnattributed \<longleftrightarrow>
     has_evidence c \<and> peers_of c \<noteq> {} \<and> peers_of c \<inter> ours = {}"
  using AttributeMeetTarget_cases [of c ours] no_evidence_denied [of c ours]
  by (cases "has_evidence c") auto

section \<open>The MEET plan\<close>

definition wf_nodes :: "ClusterGroundTruth \<Rightarrow> bool" where
  "wf_nodes gt \<longleftrightarrow> distinct (map fst (Nodes gt)) \<and> list_all (\<lambda>(k, n). cn_PodName n = k) (Nodes gt)"

definition verdict :: "ClusterGroundTruth \<Rightarrow> ClusterNodeState \<Rightarrow> MeetVerdict" where
  "verdict gt n = AttributeMeetTarget (meetCandidate gt n) (our_ids gt)"

definition skip_of :: "ClusterGroundTruth \<Rightarrow> ClusterNodeState \<Rightarrow> MeetSkip" where
  "skip_of gt n = \<lparr>ms_PodName = cn_PodName n, ms_PodIP = cn_PodIP n, ms_NodeID = cn_NodeID n,
     ms_Verdict = verdict gt n\<rparr>"

definition meet_candidates :: "ClusterGroundTruth \<Rightarrow> ClusterNodeState \<Rightarrow> ClusterNodeState list" where
  "meet_candidates gt seed =
     filter (\<lambda>n. \<not> (cn_NodeID n \<noteq> [] \<and> cn_NodeID n = cn_NodeID seed))
       (sort_key cn_PodName (cluster_nodes gt))"

lemma plan_meet_fold:
  assumes "list_all (\<lambda>n. map_of (Nodes gt) (cn_PodName n) = Some n) ns"
  shows "fold (plan_meet gt seed) (map cn_PodName ns) plan =
    (let cs = filter (\<lambda>n. \<not> (cn_NodeID n \<noteq> [] \<and> cn_NodeID n = cn_NodeID seed)) ns in
     plan\<lparr>mp_Targets := mp_Targets plan @ filter (\<lambda>n. AdmissibleWhenConfirmed (verdict gt n)) cs,
       mp_Skipped := mp_Skipped plan @
         map (skip_of gt) (filter (\<lambda>n. \<not> AdmissibleWhenConfirmed (verdict gt n)) cs),
       mp_Unattributed := mp_Unattributed plan @
         map (skip_of gt) (filter (\<lambda>n. verdict gt n = MeetDenyUnattributed) cs)\<rparr>)" (is "_ = ?res ns plan")
  using assms
proof (induction ns arbitrary: plan)
  case (Cons n ns)
  have n: "map_of (Nodes gt) (cn_PodName n) = Some n"
    and IH: "fold (plan_meet gt seed) (map cn_PodName ns) p = ?res ns p" for p
    using Cons by simp_all
  consider "cn_NodeID n \<noteq> [] \<and> cn_NodeID n = cn_NodeID seed"
    | "\<not> (cn_NodeID n \<noteq> [] \<and> cn_NodeID n = cn_NodeID seed)" "verdict gt n = MeetDenyUnattributed"
    | "\<not> (cn_NodeID n \<noteq> [] \<and> cn_NodeID n = cn_NodeID seed)" "Allowed (verdict gt n)"
        "verdict gt n \<noteq> MeetDenyUnattributed"
    | "\<not> (cn_NodeID n \<noteq> [] \<and> cn_NodeID n = cn_NodeID seed)" "\<not> Allowed (verdict gt n)"
        "verdict gt n \<noteq> MeetDenyUnattributed"
    by blast
  then show ?case
    by cases (simp_all only: list.map fold_simps IH,
      simp_all add: n Let_def plan_meet_def verdict_def [symmetric] skip_of_def
        AdmissibleWhenConfirmed_def Allowed_def)
qed simp

lemma sort_names:
  assumes "wf_nodes gt"
  shows "sort (map fst (Nodes gt)) = map cn_PodName (sort_key cn_PodName (cluster_nodes gt))"
proof -
  have "map fst (Nodes gt) = map cn_PodName (cluster_nodes gt)"
    using assms by (auto simp: wf_nodes_def list_all_iff)
  moreover have "sort (map cn_PodName (cluster_nodes gt)) =
      map cn_PodName (sort_key cn_PodName (cluster_nodes gt))"
    by (rule properties_for_sort) (simp_all only: mset_map mset_sort sorted_sort_key)
  ultimately show ?thesis by argo
qed

lemma sorted_nodes_lookup:
  assumes "wf_nodes gt"
  shows "list_all (\<lambda>n. map_of (Nodes gt) (cn_PodName n) = Some n)
    (sort_key cn_PodName (cluster_nodes gt))"
  using assms by (auto simp: wf_nodes_def list_all_iff)

lemma PlanPartitionMeets_eq:
  assumes "wf_nodes gt" and "GetLargestPartitionSeed gt = Inr (Some seed)"
    and "AdmissibleWhenConfirmed (verdict gt seed)"
  shows "PlanPartitionMeets gt = Inr
    \<lparr>mp_Seed = Some seed, mp_SeedVerdict = verdict gt seed,
     mp_Targets = filter (\<lambda>n. AdmissibleWhenConfirmed (verdict gt n)) (meet_candidates gt seed),
     mp_Skipped = map (skip_of gt)
       (filter (\<lambda>n. \<not> AdmissibleWhenConfirmed (verdict gt n)) (meet_candidates gt seed)),
     mp_Unattributed = map (skip_of gt)
       (filter (\<lambda>n. verdict gt n = MeetDenyUnattributed) (meet_candidates gt seed))\<rparr>"
  using assms(2,3) plan_meet_fold [OF sorted_nodes_lookup [OF assms(1)]]
  by (simp add: PlanPartitionMeets_def sort_names [OF assms(1)] verdict_def [symmetric] Let_def
      meet_candidates_def)

lemma evidence_of_node:
  "has_evidence (meetCandidate gt n) \<longleftrightarrow>
     cn_PodIP n \<noteq> [] \<and> cn_Reachable n \<and> cn_NodeID n \<noteq> [] \<and> KnownNodes gt (cn_NodeID n) \<noteq> None"
  by (auto simp: has_evidence_def meetCandidate_def)

lemma seed_is_node:
  "GetLargestPartitionSeed gt = Inr (Some seed) \<Longrightarrow> seed \<in> set (cluster_nodes gt)"
  by (auto simp: GetLargestPartitionSeed_def find_Some_iff split: if_splits list.splits)

lemma fold_plan_meet_seed [simp]: "mp_Seed (fold (plan_meet gt seed) names plan) = mp_Seed plan"
  by (induction names arbitrary: plan) (simp_all add: plan_meet_def Let_def split: option.splits)

lemma PlanPartitionMeets_seed:
  assumes "PlanPartitionMeets gt = Inr plan"
  shows "mp_Seed plan = None \<and> mp_Targets plan = [] \<or>
    (\<exists>seed. mp_Seed plan = Some seed \<and> GetLargestPartitionSeed gt = Inr (Some seed) \<and>
       AdmissibleWhenConfirmed (verdict gt seed))"
  using assms
  by (auto simp: PlanPartitionMeets_def Let_def verdict_def split: sum.splits option.splits if_splits)

lemma names_sorted: "sorted (map cn_PodName (filter P (sort_key cn_PodName ns)))"
  by (rule sorted_filter) (rule sorted_sort_key)

definition node_example :: "string \<Rightarrow> string \<Rightarrow> string \<Rightarrow> ClusterNodeState" where
  "node_example pod ip nid =
     \<lparr>cn_PodName = pod, cn_PodIP = ip, cn_NodeID = nid, cn_Slots = [], cn_Role = ''master'',
      cn_MasterNodeID = ''-'', cn_LinkStatus = [], cn_Reachable = nid \<noteq> [], cn_ProbeFailure = ProbeOK,
      cn_ProbeError = []\<rparr>"

definition meet_example :: ClusterGroundTruth where
  "meet_example = NewClusterGroundTruth
     \<lparr>Nodes := [(''c-2'', node_example ''c-2'' ''10.0.0.3'' ''z''), (''c-0'', node_example ''c-0'' ''10.0.0.1'' ''x''),
        (''c-3'', node_example ''c-3'' ''10.0.0.4'' []), (''c-1'', node_example ''c-1'' ''10.0.0.2'' ''y'')],
      Partitions := [[''x''], [''y''], [''z'']],
      KnownNodes := [''x'' \<mapsto> [''x''], ''y'' \<mapsto> [''y'', ''w''], ''z'' \<mapsto> [''z'', ''x'']]\<rparr>"

text \<open>
  The plan that heals a partition admits no address without evidence: the seed and every
  target are pods of the instance with an address, that answered, with a node ID and a gathered
  view; no target is the seed; the targets come in the order of their pod names; every other pod
  is skipped with a no-evidence verdict; and a target is listed as unattributed exactly when its
  view names peers and none of them is ours.
\<close>

lemma PlanPartitionMeets_safe:
  assumes "wf_nodes gt" and "PlanPartitionMeets gt = Inr plan" and "mp_Seed plan = Some seed"
  shows "list_all (\<lambda>n. n \<in> set (cluster_nodes gt) \<and> cn_PodIP n \<noteq> [] \<and> cn_Reachable n \<and>
      cn_NodeID n \<noteq> [] \<and> KnownNodes gt (cn_NodeID n) \<noteq> None) (seed # mp_Targets plan) \<and>
    list_all (\<lambda>n. cn_NodeID n \<noteq> cn_NodeID seed) (mp_Targets plan) \<and>
    sorted (map cn_PodName (mp_Targets plan)) \<and>
    list_all (\<lambda>n. cn_NodeID n = cn_NodeID seed \<or> n \<in> set (mp_Targets plan) \<or>
      skip_of gt n \<in> set (mp_Skipped plan)) (cluster_nodes gt) \<and>
    list_all (\<lambda>k. ms_Verdict k \<in> {MeetDenyNoAddress, MeetDenyUnidentified, MeetDenyNoView})
      (mp_Skipped plan) \<and>
    mp_Unattributed plan = map (skip_of gt) (filter (\<lambda>n. peers_of (meetCandidate gt n) \<noteq> {} \<and>
      peers_of (meetCandidate gt n) \<inter> our_ids gt = {}) (mp_Targets plan))"
proof -
  have seed: "GetLargestPartitionSeed gt = Inr (Some seed)" "AdmissibleWhenConfirmed (verdict gt seed)"
    using PlanPartitionMeets_seed [OF assms(2)] assms(3) by auto
  have adm: "AdmissibleWhenConfirmed (verdict gt n) \<longleftrightarrow> has_evidence (meetCandidate gt n)" for n
    by (simp add: verdict_def admissible_iff)
  have unat: "verdict gt n = MeetDenyUnattributed \<longleftrightarrow> has_evidence (meetCandidate gt n) \<and>
      peers_of (meetCandidate gt n) \<noteq> {} \<and> peers_of (meetCandidate gt n) \<inter> our_ids gt = {}" for n
    by (simp add: verdict_def unattributed_iff)
  have skip: "\<not> has_evidence (meetCandidate gt n) \<Longrightarrow>
      verdict gt n \<in> {MeetDenyNoAddress, MeetDenyUnidentified, MeetDenyNoView}" for n
    unfolding verdict_def by (rule no_evidence_denied)
  have plan: "mp_Targets plan = filter (\<lambda>n. has_evidence (meetCandidate gt n)) (meet_candidates gt seed)"
    "mp_Skipped plan = map (skip_of gt)
       (filter (\<lambda>n. \<not> has_evidence (meetCandidate gt n)) (meet_candidates gt seed))"
    "mp_Unattributed plan = map (skip_of gt) (filter (\<lambda>n. verdict gt n = MeetDenyUnattributed)
       (meet_candidates gt seed))"
    using PlanPartitionMeets_eq [OF assms(1) seed] assms(2) by (simp_all add: adm)
  have "sorted (map cn_PodName (mp_Targets plan))"
    unfolding plan meet_candidates_def filter_filter by (rule names_sorted)
  moreover have "seed \<in> set (cluster_nodes gt)" by (rule seed_is_node [OF seed(1)])
  ultimately show ?thesis
    using seed(2) skip unfolding plan adm unat evidence_of_node
    by (auto simp: meet_candidates_def list_all_iff skip_of_def filter_filter intro!: arg_cong [of _ _ "map _"] filter_cong)
qed

lemma PlanPartitionMeets_safe_witness:
  "\<exists>plan. PlanPartitionMeets meet_example = Inr plan \<and>
     map cn_PodName (mp_Targets plan) = [''c-1'', ''c-2''] \<and>
     map ms_PodName (mp_Unattributed plan) = [''c-1''] \<and> sorted (map cn_PodName (mp_Targets plan))"
proof -
  have "case PlanPartitionMeets meet_example of Inl _ \<Rightarrow> False | Inr plan \<Rightarrow>
    map cn_PodName (mp_Targets plan) = [''c-1'', ''c-2''] \<and>
    map ms_PodName (mp_Unattributed plan) = [''c-1''] \<and>
    mp_Seed plan = Some (node_example ''c-0'' ''10.0.0.1'' ''x'')"
    by code_simp
  then obtain plan where plan: "PlanPartitionMeets meet_example = Inr plan"
    "map cn_PodName (mp_Targets plan) = [''c-1'', ''c-2'']"
    "map ms_PodName (mp_Unattributed plan) = [''c-1'']"
    "mp_Seed plan = Some (node_example ''c-0'' ''10.0.0.1'' ''x'')"
    by (auto split: sum.splits)
  have "wf_nodes meet_example" by code_simp
  from PlanPartitionMeets_safe [OF this plan(1,4)]
  have "sorted (map cn_PodName (mp_Targets plan))" by (elim conjE)
  with plan show ?thesis by (intro exI [of _ plan] conjI)
qed

section \<open>Colocation\<close>

definition shard_pod :: "string \<Rightarrow> nat \<Rightarrow> nat \<Rightarrow> string" where
  "shard_pod inst k i = inst @ ''-shard-'' @ Itoa (int k) @ ''-'' @ Itoa (int i)"

definition distinct_ids :: "ClusterGroundTruth \<Rightarrow> bool" where
  "distinct_ids gt \<longleftrightarrow> distinct (map cn_NodeID (filter (\<lambda>n. cn_NodeID n \<noteq> []) (cluster_nodes gt))) \<and>
     list_all (\<lambda>n. cn_Role n = roleReplica \<longrightarrow> cn_MasterNodeID n \<noteq> []) (cluster_nodes gt)"

lemma Itoa_digits: "list_all is_digit (Itoa (int k))" "Itoa (int k) \<noteq> []"
  using nat_digits_are_digits [of _ k] digit_char_inverse(1) by (fastforce simp: Itoa_def list_all_iff)+

lemma shard_suffix_pod: "shard_suffix (''-shard-'' @ Itoa (int k) @ ''-'' @ Itoa (int i)) = Some (Itoa (int k))"
proof -
  have d: "is_digit c" if "c \<in> set (Itoa (int j))" for c j
    using that Itoa_digits(1) [of j] by (auto simp: list_all_iff)
  have dash: "\<not> is_digit (CHR ''-'')" by (simp add: is_digit_def)
  have "takeWhile is_digit (Itoa (int k) @ CHR ''-'' # Itoa (int i)) = Itoa (int k)"
    "dropWhile is_digit (Itoa (int k) @ CHR ''-'' # Itoa (int i)) = CHR ''-'' # Itoa (int i)"
    using d dash by (simp_all add: takeWhile_tail dropWhile_append3)
  then show ?thesis
    using Itoa_digits by (simp add: shard_suffix_def HasPrefix_def Let_def)
qed

lemma shard_suffix_only_digits:
  assumes "shard_suffix s = Some k" and "c \<in> set (drop (length ''-shard-'') s)"
  shows "is_digit c \<or> c = CHR ''-''"
proof -
  let ?r = "drop (length ''-shard-'') s"
  obtain o' where t: "dropWhile is_digit ?r = CHR ''-'' # o'" "list_all is_digit o'"
    using assms(1) by (auto simp: shard_suffix_def Let_def split: if_splits list.splits)
  have "c \<in> set (takeWhile is_digit ?r) \<union> set (dropWhile is_digit ?r)"
    using assms(2) by (metis set_append takeWhile_dropWhile_id)
  then show ?thesis
    using t by (auto simp: list_all_iff dest: set_takeWhileD)
qed

lemma in_set_drop_append: "n \<le> length p \<Longrightarrow> x \<in> set (drop n (p @ x # q))"
  by simp

lemma shard_suffix_earlier: "t \<noteq> [] \<Longrightarrow> shard_suffix (t @ ''-shard-'' @ w) = None"
proof (rule ccontr)
  assume t: "t \<noteq> []" and "shard_suffix (t @ ''-shard-'' @ w) \<noteq> None"
  then obtain k where k: "shard_suffix (t @ ''-shard-'' @ w) = Some k" by blast
  obtain a t' where a: "t = a # t'" using t by (cases t) auto
  show False
  proof (cases t')
    case Nil
    with k show False
      by (auto simp: a shard_suffix_def HasPrefix_def Let_def split: if_splits)
  next
    case (Cons b u)
    have "t @ ''-shard-'' @ w = (a # b # u @ ''-shar'') @ CHR ''d'' # CHR ''-'' # w"
      by (simp add: a Cons)
    moreover have "CHR ''d'' \<in> set (drop (length ''-shard-'') ((a # b # u @ ''-shar'') @ CHR ''d'' # CHR ''-'' # w))"
      by (rule in_set_drop_append) simp
    ultimately have "is_digit (CHR ''d'') \<or> CHR ''d'' = CHR ''-''"
      using shard_suffix_only_digits [OF k, of "CHR ''d''"] by argo
    then show False by (simp add: is_digit_def)
  qed
qed

lemma shard_group_pod: "shard_group (inst @ ''-shard-'' @ Itoa (int k) @ ''-'' @ Itoa (int i)) = Some (Itoa (int k))"
proof (induction inst)
  case Nil
  show ?case using shard_suffix_pod [of k i] by simp
next
  case (Cons c inst)
  then show ?case using shard_suffix_earlier [of "c # inst" "Itoa (int k) @ ''-'' @ Itoa (int i)"] by simp
qed

lemma ShardIndexFromPodName_pod:
  "int k \<le> max_int64 \<Longrightarrow> ShardIndexFromPodName (shard_pod inst k i) = int k"
  using shard_group_pod [of inst k i] Atoi_Itoa [of "int k"]
  by (simp add: ShardIndexFromPodName_def shard_pod_def min_int64_def)

lemma by_id_fold:
  "fold (\<lambda>n m. m(cn_NodeID n \<mapsto> n)) ns m k = Some x \<Longrightarrow>
   m k = Some x \<or> x \<in> set ns \<and> cn_NodeID x = k"
  by (induction ns arbitrary: m) (fastforce split: if_splits)+

lemma by_id_defined:
  "k \<in> cn_NodeID ` set ns \<or> m k \<noteq> None \<Longrightarrow> fold (\<lambda>n m. m(cn_NodeID n \<mapsto> n)) ns m k \<noteq> None"
  by (induction ns arbitrary: m) auto

lemma by_id_iff:
  assumes "distinct_ids gt" and "k \<noteq> []"
  shows "by_id gt k = Some x \<longleftrightarrow> x \<in> set (cluster_nodes gt) \<and> cn_NodeID x = k"
proof
  assume "by_id gt k = Some x"
  then show "x \<in> set (cluster_nodes gt) \<and> cn_NodeID x = k"
    using by_id_fold unfolding by_id_def by fastforce
next
  assume x: "x \<in> set (cluster_nodes gt) \<and> cn_NodeID x = k"
  then obtain y where y: "by_id gt k = Some y"
    using by_id_defined [of k "cluster_nodes gt" Map.empty] unfolding by_id_def by blast
  then have "y \<in> set (cluster_nodes gt) \<and> cn_NodeID y = k"
    using by_id_fold unfolding by_id_def by fastforce
  with x assms y show "by_id gt k = Some x"
    unfolding distinct_ids_def distinct_map by (auto dest!: inj_onD)
qed

definition violation :: "ClusterNodeState \<times> ClusterNodeState \<Rightarrow> ShardColocationViolation" where
  "violation nm =
     \<lparr>sv_ReplicaPod = cn_PodName (fst nm), sv_ReplicaShard = ShardIndexFromPodName (cn_PodName (fst nm)),
      sv_MasterPod = cn_PodName (snd nm), sv_MasterShard = ShardIndexFromPodName (cn_PodName (snd nm))\<rparr>"

definition misplaced :: "ClusterNodeState \<Rightarrow> ClusterNodeState \<Rightarrow> bool" where
  "misplaced n m \<longleftrightarrow> cn_Role n = roleReplica \<and> cn_MasterNodeID n = cn_NodeID m \<and>
     0 \<le> ShardIndexFromPodName (cn_PodName n) \<and> 0 \<le> ShardIndexFromPodName (cn_PodName m) \<and>
     ShardIndexFromPodName (cn_PodName n) \<noteq> ShardIndexFromPodName (cn_PodName m)"

definition replica_example :: "nat \<Rightarrow> nat \<Rightarrow> string \<Rightarrow> ClusterNodeState" where
  "replica_example k i nid = (node_example (shard_pod ''lr'' k i) ''10.0.0.1'' nid)
     \<lparr>cn_Role := ''replica'', cn_MasterNodeID := ''a''\<rparr>"

definition colocation_example :: ClusterGroundTruth where
  "colocation_example = NewClusterGroundTruth
     \<lparr>Nodes := map (\<lambda>n. (cn_PodName n, n))
        [node_example (shard_pod ''lr'' 0 0) ''10.0.0.2'' ''a'', replica_example 1 1 ''c'',
         replica_example 0 1 ''d'']\<rparr>"

text \<open>
  \<open>CheckShardColocation\<close> reports exactly the replicas whose gathered master runs in the
  StatefulSet of another shard, in the order of their pod names, and the shard of a pod is the one
  its name was built from.
\<close>

lemma CheckShardColocation_exact:
  assumes "distinct_ids gt" and "int k \<le> max_int64"
  shows "set (CheckShardColocation gt) = violation ` {(n, m). n \<in> set (cluster_nodes gt) \<and>
      m \<in> set (cluster_nodes gt) \<and> misplaced n m} \<and>
    sorted (map sv_ReplicaPod (CheckShardColocation gt)) \<and>
    ShardIndexFromPodName (shard_pod inst k i) = int k"
proof -
  have "set (colocation_violation (by_id gt) n) =
      violation ` {(n', m). n' = n \<and> m \<in> set (cluster_nodes gt) \<and> misplaced n m}"
    if "n \<in> set (cluster_nodes gt)" for n
  proof (cases "cn_Role n = roleReplica")
    case True
    with that assms(1) have "cn_MasterNodeID n \<noteq> []"
      by (auto simp: distinct_ids_def list_all_iff)
    note iff = by_id_iff [OF assms(1) this]
    show ?thesis
    proof (cases "by_id gt (cn_MasterNodeID n)")
      case None
      with iff have "m \<notin> set (cluster_nodes gt) \<or> cn_NodeID m \<noteq> cn_MasterNodeID n" for m
        by (metis option.distinct(1))
      with None have "\<not> (m \<in> set (cluster_nodes gt) \<and> misplaced n m)" for m
        unfolding misplaced_def by metis
      with None True show ?thesis by (simp add: colocation_violation_def del: set_map)
    next
      case (Some m)
      with iff have "m' \<in> set (cluster_nodes gt) \<and> cn_NodeID m' = cn_MasterNodeID n \<longleftrightarrow> m' = m" for m'
        by (metis option.inject)
      then have "m' \<in> set (cluster_nodes gt) \<and> misplaced n m' \<longleftrightarrow> m' = m \<and> misplaced n m" for m'
        unfolding misplaced_def by metis
      then have eq: "{(n', m'). n' = n \<and> m' \<in> set (cluster_nodes gt) \<and> misplaced n m'} =
          (if misplaced n m then {(n, m)} else {})"
        by (simp del: set_map)
      have "cn_MasterNodeID n = cn_NodeID m" using Some iff by simp
      with Some True show ?thesis
        unfolding eq by (simp add: colocation_violation_def misplaced_def violation_def Let_def)
    qed
  qed (auto simp: colocation_violation_def misplaced_def)
  then have "(\<Union>n \<in> set (cluster_nodes gt). set (colocation_violation (by_id gt) n)) =
      (\<Union>n \<in> set (cluster_nodes gt).
         violation ` {(n', m). n' = n \<and> m \<in> set (cluster_nodes gt) \<and> misplaced n m})"
    by (rule SUP_cong [OF refl])
  also have "\<dots> = violation ` {(n, m). n \<in> set (cluster_nodes gt) \<and>
      m \<in> set (cluster_nodes gt) \<and> misplaced n m}"
    by blast
  finally have "set (CheckShardColocation gt) = violation ` {(n, m). n \<in> set (cluster_nodes gt) \<and>
      m \<in> set (cluster_nodes gt) \<and> misplaced n m}"
    unfolding CheckShardColocation_def set_sort set_concat set_map image_image by simp
  then show ?thesis
    using assms(2) sorted_sort_key by (simp add: ShardIndexFromPodName_pod CheckShardColocation_def)
qed

lemma CheckShardColocation_exact_witness:
  "violation (replica_example 1 1 ''c'', node_example (shard_pod ''lr'' 0 0) ''10.0.0.2'' ''a'') \<in>
     set (CheckShardColocation colocation_example)"
proof -
  have d: "distinct_ids colocation_example"
    by (simp add: distinct_ids_def colocation_example_def replica_example_def node_example_def)
  have "int 1 \<le> max_int64" by (simp add: max_int64_def)
  note exact = CheckShardColocation_exact [OF d this, THEN conjunct1]
  have "misplaced (replica_example 1 1 ''c'') (node_example (shard_pod ''lr'' 0 0) ''10.0.0.2'' ''a'')"
    by (simp add: misplaced_def replica_example_def node_example_def ShardIndexFromPodName_pod
        max_int64_def roleReplica_def)
  then show ?thesis
    unfolding exact by (intro imageI) (simp add: colocation_example_def)
qed

end
