(* ===== verification/Cluster_Gather.thy ===== *)
theory Cluster_Gather
  imports Cluster_State Replication_State "HOL-Library.AList"
begin

text \<open>
  How the ground truth of a cluster is gathered (\<open>GatherClusterGroundTruth\<close> and its helpers in
  \<open>internal/redis/gather.go\<close>), down to the partition detection.

  The probes of the gatherer are parameters: functions from the pod name and the IP to an error or
  an answer. They run concurrently in the code, each on its own node, and are merged after the
  barrier in the order of the slice; the model merges the answers in that order. A node that a
  probe updates in place is returned updated.
\<close>

section \<open>Identities\<close>

type_synonym id_probe = "string \<Rightarrow> string \<Rightarrow> go_error + string"
type_synonym info_probe = "string \<Rightarrow> string \<Rightarrow> go_error + cluster_info"
type_synonym nodes_probe = "string \<Rightarrow> string \<Rightarrow> go_error + cluster_node_info list"

definition node_identity :: "id_probe \<Rightarrow> redis_probe \<Rightarrow> string \<times> string \<Rightarrow> ClusterNodeState" where
  "node_identity getID getRedis p =
     (case p of (ip, name) \<Rightarrow>
        let base = \<lparr>cn_PodName = name, cn_PodIP = ip, cn_NodeID = [], cn_Slots = [], cn_Role = [],
                    cn_MasterNodeID = [], cn_LinkStatus = [], cn_Reachable = False,
                    cn_ProbeFailure = ProbeOK, cn_ProbeError = []\<rparr>
        in case getID name ip of
             Inl e \<Rightarrow> base\<lparr>cn_ProbeFailure := ClassifyProbeError (Some e),
                          cn_ProbeError := DescribeProbeError (Some e)\<rparr>
           | Inr nid \<Rightarrow>
               let ns = base\<lparr>cn_NodeID := nid, cn_Reachable := True\<rparr> in
               (case getRedis name ip of
                  Inl _ \<Rightarrow> ns
                | Inr rs \<Rightarrow> ns\<lparr>cn_LinkStatus := rn_LinkStatus rs\<rparr>))"

definition gatherNodeIdentities ::
  "id_probe \<Rightarrow> redis_probe \<Rightarrow> (string \<times> string) list \<Rightarrow> ClusterNodeState list" where
  "gatherNodeIdentities getID getRedis clusterPods = map (node_identity getID getRedis) clusterPods"

section \<open>Topology\<close>

record topoView =
  tv_state :: string
  tv_haveState :: bool
  tv_slotsAssigned :: int
  tv_seenIDs :: "string list"
  tv_known :: "string list"
  tv_hasNodes :: bool
  tv_asm :: bool

text \<open>The node's own entry in its view fills in its slots, role and master.\<close>

definition own_entry :: "cluster_node_info \<Rightarrow> ClusterNodeState \<Rightarrow> ClusterNodeState" where
  "own_entry k n =
     (if ni_NodeID k = cn_NodeID n
      then n\<lparr>cn_Slots := ni_Slots k, cn_Role := (if IsReplica k then roleReplica else roleMaster),
             cn_MasterNodeID := ni_MasterID k\<rparr>
      else n)"

definition probeNodeTopology ::
  "info_probe \<Rightarrow> nodes_probe \<Rightarrow> ClusterNodeState \<Rightarrow> topoView \<times> ClusterNodeState" where
  "probeNodeTopology getInfo getNodes n =
     (let v0 = \<lparr>tv_state = [], tv_haveState = False, tv_slotsAssigned = 0, tv_seenIDs = [],
                tv_known = [], tv_hasNodes = False, tv_asm = False\<rparr>;
          v1 = (case getInfo (cn_PodName n) (cn_PodIP n) of
                  Inl _ \<Rightarrow> v0
                | Inr info \<Rightarrow> v0\<lparr>tv_haveState := True, tv_state := ci_State info,
                    tv_slotsAssigned := ci_SlotsAssigned info, tv_asm := ci_AtomicSlotMigration info\<rparr>)
      in case getNodes (cn_PodName n) (cn_PodIP n) of
           Inl _ \<Rightarrow> (v1, n)
         | Inr nodes \<Rightarrow>
             (v1\<lparr>tv_hasNodes := True, tv_seenIDs := map ni_NodeID nodes,
                 tv_known := map ni_NodeID (filter (\<lambda>k. \<not> nodeFlagsFailed (ni_Flags k)) nodes)\<rparr>,
              fold own_entry nodes n))"

definition add_id :: "string \<Rightarrow> string list \<Rightarrow> string list" where
  "add_id k ids = (if k \<in> set ids then ids else ids @ [k])"

text \<open>The merge of one view into the ground truth, the adjacency and the ASM verdict.\<close>

definition merge_view ::
  "topoView \<times> ClusterNodeState \<Rightarrow> ClusterGroundTruth \<times> (string \<rightharpoonup> string list) \<times> bool \<Rightarrow>
   ClusterGroundTruth \<times> (string \<rightharpoonup> string list) \<times> bool" where
  "merge_view vn acc =
     (case vn of (v, n) \<Rightarrow> case acc of (gt, adj, asmAll) \<Rightarrow>
        let asmAll' = (if \<not> tv_haveState v \<or> \<not> tv_asm v then False else asmAll);
            gt1 = (if tv_haveState v
                   then let g = (if tv_state v = ''ok'' then gt\<lparr>ClusterState := ''ok''\<rparr>
                                 else if ClusterState gt = [] \<or> ClusterState gt = ''unknown''
                                 then gt\<lparr>ClusterState := tv_state v\<rparr> else gt)
                        in if tv_slotsAssigned v > TotalSlots g
                           then g\<lparr>TotalSlots := tv_slotsAssigned v\<rparr> else g
                   else gt);
            gt2 = gt1\<lparr>AllNodeIDs := fold add_id (tv_seenIDs v) (AllNodeIDs gt1)\<rparr>
        in (gt2, if tv_hasNodes v then adj(cn_NodeID n \<mapsto> tv_known v) else adj, asmAll'))"

definition gatherTopology ::
  "info_probe \<Rightarrow> nodes_probe \<Rightarrow> ClusterGroundTruth \<Rightarrow> ClusterGroundTruth \<times> (string \<rightharpoonup> string list)" where
  "gatherTopology getInfo getNodes gt =
     (let reachable = filter cn_Reachable (cluster_nodes gt);
          views = map (probeNodeTopology getInfo getNodes) reachable;
          gt0 = gt\<lparr>Nodes := map (\<lambda>(k, n). (k, if cn_Reachable n
                     then snd (probeNodeTopology getInfo getNodes n) else n)) (Nodes gt)\<rparr>
      in case fold merge_view views (gt0, Map.empty, length reachable > 0) of
           (gt1, adj, asmAll) \<Rightarrow> (gt1\<lparr>AtomicSlotMigration := asmAll\<rparr>, adj))"

section \<open>Partitions\<close>

definition neighbors :: "(string \<rightharpoonup> string list) \<Rightarrow> string \<Rightarrow> string list" where
  "neighbors adj c = (case adj c of None \<Rightarrow> [] | Some ns \<Rightarrow> ns)"

fun enqueue :: "string set \<Rightarrow> string list \<Rightarrow> string set \<Rightarrow> string list \<Rightarrow> string set \<times> string list" where
  "enqueue valid [] visited queue = (visited, queue)"
| "enqueue valid (n # ns) visited queue =
     (if n \<in> valid \<and> n \<notin> visited then enqueue valid ns (insert n visited) (queue @ [n])
      else enqueue valid ns visited queue)"

lemma enqueue_size:
  "finite valid \<Longrightarrow> enqueue valid ns visited queue = (visited', queue') \<Longrightarrow>
   length queue' + card (valid - visited') = length queue + card (valid - visited)"
proof (induction ns arbitrary: visited queue)
  case (Cons n ns)
  have "card (valid - visited) = Suc (card (valid - insert n visited))"
    if "n \<in> valid" "n \<notin> visited"
    using that Cons.prems(1) card_Suc_Diff1 [of "valid - visited" n]
    by (simp add: Diff_insert [symmetric] insert_commute)
  with Cons show ?case by (fastforce split: if_splits)
qed simp

text \<open>
  The inner loop of \<open>computePartitions\<close>. Every iteration takes a node off the queue, and a node is
  queued at most once, so the length of the queue plus the number of unvisited nodes decreases.
\<close>

function bfs ::
  "string list \<Rightarrow> (string \<rightharpoonup> string list) \<Rightarrow> string list \<Rightarrow> string set \<Rightarrow> string list \<Rightarrow>
   string list \<times> string set" where
  "bfs ids adj [] visited part = (part, visited)"
| "bfs ids adj (cur # queue) visited part =
     (case enqueue (set ids) (neighbors adj cur) visited queue of
        (visited', queue') \<Rightarrow> bfs ids adj queue' visited' (part @ [cur]))"
  by pat_completeness auto
termination
proof (relation "measure (\<lambda>(ids, adj, queue, visited, part).
    length queue + card (set ids - visited))", goal_cases)
  case (2 ids adj cur queue visited part visited' queue')
  then show ?case
    using enqueue_size [of "set ids" "neighbors adj cur" visited queue visited' queue'] by simp
qed simp

fun partitions_from ::
  "string list \<Rightarrow> (string \<rightharpoonup> string list) \<Rightarrow> string list \<Rightarrow> string set \<Rightarrow> string list list" where
  "partitions_from ids adj [] visited = []"
| "partitions_from ids adj (k # ks) visited =
     (if k \<in> visited then partitions_from ids adj ks visited
      else case bfs ids adj [k] (insert k visited) [] of
             (part, visited') \<Rightarrow> part # partitions_from ids adj ks visited')"

text \<open>The map \<open>nodeIDtoPod\<close> is an association list; only its keys matter.\<close>

definition computePartitions ::
  "(string \<times> string) list \<Rightarrow> (string \<rightharpoonup> string list) \<Rightarrow> string list list" where
  "computePartitions nodeIDtoPod adj =
     partitions_from (map fst nodeIDtoPod) adj (map fst nodeIDtoPod) {}"

section \<open>The gather\<close>

definition GatherClusterGroundTruth ::
  "id_probe \<Rightarrow> redis_probe \<Rightarrow> info_probe \<Rightarrow> nodes_probe \<Rightarrow> (string \<times> string) list \<Rightarrow>
   ClusterGroundTruth" where
  "GatherClusterGroundTruth getID getRedis getInfo getNodes clusterPods =
     (let idents = gatherNodeIdentities getID getRedis clusterPods;
          gt0 = NewClusterGroundTruth\<lparr>Nodes := fold (\<lambda>ns. AList.update (cn_PodName ns) ns) idents []\<rparr>;
          nodeIDtoPod = fold (\<lambda>ns m. if cn_Reachable ns
                                     then AList.update (cn_NodeID ns) (cn_PodName ns) m else m) idents []
      in case gatherTopology getInfo getNodes gt0 of
           (gt1, adj) \<Rightarrow>
             let gt2 = gt1\<lparr>KnownNodes := adj,
                   GhostNodes := filter (\<lambda>k. map_of nodeIDtoPod k = None) (AllNodeIDs gt1)\<rparr>;
                 gt3 = (if ClusterState gt2 = [] then gt2\<lparr>ClusterState := ''unknown''\<rparr> else gt2)
             in gt3\<lparr>Partitions := computePartitions nodeIDtoPod adj\<rparr>)"

section \<open>The partitions are the components\<close>

definition live_edge :: "string list \<Rightarrow> (string \<rightharpoonup> string list) \<Rightarrow> string \<Rightarrow> string \<Rightarrow> bool" where
  "live_edge ids adj x y \<longleftrightarrow> y \<in> set ids \<and> y \<in> set (neighbors adj x)"

definition mutual :: "string list \<Rightarrow> (string \<rightharpoonup> string list) \<Rightarrow> bool" where
  "mutual ids adj \<longleftrightarrow>
     list_all (\<lambda>x. list_all (\<lambda>y. y \<in> set ids \<longrightarrow> x \<in> set (neighbors adj y)) (neighbors adj x)) ids"

lemma enqueue_spec:
  "enqueue V ns visited queue = (visited', queue') \<Longrightarrow>
   visited' = visited \<union> (set ns \<inter> V) \<and>
   (\<exists>new. queue' = queue @ new \<and> distinct new \<and> set new = (set ns \<inter> V) - visited)"
proof (induction ns arbitrary: visited queue)
  case (Cons n ns)
  show ?case
  proof (cases "n \<in> V \<and> n \<notin> visited")
    case True
    with Cons.prems have "enqueue V ns (insert n visited) (queue @ [n]) = (visited', queue')" by simp
    from Cons.IH [OF this] obtain new where new: "visited' = insert n visited \<union> (set ns \<inter> V)"
      "queue' = (queue @ [n]) @ new" "distinct new" "set new = (set ns \<inter> V) - insert n visited"
      by blast
    with True show ?thesis by (auto intro!: exI [of _ "n # new"])
  next
    case False
    with Cons.prems have "enqueue V ns visited queue = (visited', queue')" by auto
    from Cons.IH [OF this] False show ?thesis by auto
  qed
qed simp

text \<open>What one breadth-first search adds, and that it is closed and reachable.\<close>

lemma bfs_spec:
  assumes "bfs ids adj queue visited part = (part', visited')"
    and "distinct (part @ queue)" and "set (part @ queue) \<subseteq> visited"
  shows "visited \<subseteq> visited' \<and> visited' \<subseteq> visited \<union> set ids \<and>
    distinct part' \<and> set part' = set part \<union> set queue \<union> (visited' - visited) \<and>
    (\<forall>x \<in> set part' - set part. \<forall>y. live_edge ids adj x y \<longrightarrow> y \<in> visited') \<and>
    (\<forall>y \<in> visited' - visited. \<exists>x \<in> set queue. (live_edge ids adj)\<^sup>*\<^sup>* x y)"
  using assms
proof (induction ids adj queue visited part rule: bfs.induct)
  case (1 ids adj visited part)
  then show ?case by auto
next
  case (2 ids adj cur queue visited part)
  obtain visited1 queue1 where e: "enqueue (set ids) (neighbors adj cur) visited queue = (visited1, queue1)"
    by (cases "enqueue (set ids) (neighbors adj cur) visited queue")
  from enqueue_spec [OF e] obtain new where new:
    "visited1 = visited \<union> (set (neighbors adj cur) \<inter> set ids)" "queue1 = queue @ new" "distinct new"
    "set new = (set (neighbors adj cur) \<inter> set ids) - visited"
    by blast
  have b: "bfs ids adj queue1 visited1 (part @ [cur]) = (part', visited')"
    using "2.prems"(1) e by simp
  have "distinct ((part @ [cur]) @ queue1)" "set ((part @ [cur]) @ queue1) \<subseteq> visited1"
    using "2.prems"(2,3) new by auto
  note IH = "2.IH" [OF e [symmetric] b this]
  have IH_sub: "visited1 \<subseteq> visited'" "visited' \<subseteq> visited1 \<union> set ids" "distinct part'"
    and IH_part: "set part' = set (part @ [cur]) \<union> set queue1 \<union> (visited' - visited1)"
    using IH by blast+
  have edge: "live_edge ids adj cur y \<longleftrightarrow> y \<in> visited1 - visited \<or> y \<in> visited \<and> live_edge ids adj cur y" for y
    using new(1) by (auto simp: live_edge_def)
  have reach: "\<exists>x \<in> set (cur # queue). (live_edge ids adj)\<^sup>*\<^sup>* x y" if "y \<in> visited' - visited" for y
  proof (cases "y \<in> visited1")
    case True
    with that new(1) have "live_edge ids adj cur y" by (auto simp: live_edge_def)
    then show ?thesis by auto
  next
    case False
    with IH that obtain x where x: "x \<in> set queue1" "(live_edge ids adj)\<^sup>*\<^sup>* x y" by blast
    show ?thesis
    proof (cases "x \<in> set queue")
      case True with x show ?thesis by auto
    next
      case False
      with x(1) new(2,4) have "live_edge ids adj cur x" by (auto simp: live_edge_def)
      with x(2) have "(live_edge ids adj)\<^sup>*\<^sup>* cur y" by (simp add: converse_rtranclp_into_rtranclp)
      then show ?thesis by auto
    qed
  qed
  have closed: "y \<in> visited'" if "x \<in> set part' - set part" "live_edge ids adj x y" for x y
  proof (cases "x = cur")
    case True
    with that(2) new(1) have "y \<in> visited1" by (auto simp: live_edge_def)
    with IH_sub(1) show ?thesis by blast
  next
    case False
    with that(1) have "x \<in> set part' - set (part @ [cur])" by auto
    with IH that(2) show ?thesis by blast
  qed
  have "set part' = set part \<union> set (cur # queue) \<union> (visited' - visited)"
    unfolding IH_part new(2) using IH_sub(1) new(1,4) by auto
  moreover have "visited \<subseteq> visited'" "visited' \<subseteq> visited \<union> set ids" "distinct part'"
    using IH_sub new(1) by auto
  ultimately show ?case using closed reach by blast
qed

lemma bfs_start:
  assumes "bfs ids adj [k] (insert k visited) [] = (part, visited')" and "k \<notin> visited" and "k \<in> set ids"
  shows "distinct part" and "set part = visited' - visited" and "visited \<subseteq> visited'"
    and "visited' \<subseteq> visited \<union> set ids" and "k \<in> set part"
    and "\<forall>x \<in> set part. \<forall>y. live_edge ids adj x y \<longrightarrow> y \<in> visited'"
    and "\<forall>y \<in> set part. (live_edge ids adj)\<^sup>*\<^sup>* k y"
  using bfs_spec [OF assms(1)] assms(2,3) by auto

lemma partitions_cover:
  assumes "set ks \<subseteq> set ids" and "visited \<subseteq> set ids"
  shows "distinct (concat (partitions_from ids adj ks visited)) \<and>
    set (concat (partitions_from ids adj ks visited)) \<inter> visited = {} \<and>
    set ks - visited \<subseteq> set (concat (partitions_from ids adj ks visited)) \<and>
    set (concat (partitions_from ids adj ks visited)) \<subseteq> set ids \<and>
    [] \<notin> set (partitions_from ids adj ks visited)"
  using assms
proof (induction ks arbitrary: visited)
  case (Cons k ks)
  show ?case
  proof (cases "k \<in> visited")
    case True
    with Cons show ?thesis by auto
  next
    case False
    obtain part visited' where b: "bfs ids adj [k] (insert k visited) [] = (part, visited')"
      by (cases "bfs ids adj [k] (insert k visited) []")
    have k: "k \<in> set ids" using Cons.prems by simp
    note part = bfs_start [OF b False k]
    have "visited' \<subseteq> set ids" using part(4) Cons.prems(2) by blast
    with Cons.IH [of visited'] Cons.prems(1) False b part show ?thesis
      by auto
  qed
qed simp

lemma mutual_sym:
  "mutual ids adj \<Longrightarrow> x \<in> set ids \<Longrightarrow> live_edge ids adj x y \<Longrightarrow> live_edge ids adj y x"
  by (auto simp: mutual_def live_edge_def list_all_iff)

lemma mutual_reach_sym:
  assumes "mutual ids adj" and "(live_edge ids adj)\<^sup>*\<^sup>* x y" and "x \<in> set ids"
  shows "(live_edge ids adj)\<^sup>*\<^sup>* y x \<and> y \<in> set ids"
  using assms(2)
proof (induction rule: rtranclp_induct)
  case base
  with assms(3) show ?case by simp
next
  case (step y z)
  with mutual_sym [OF assms(1)] have "live_edge ids adj z y" "z \<in> set ids"
    by (auto simp: live_edge_def)
  with step.IH show ?case by (blast intro: converse_rtranclp_into_rtranclp)
qed

lemma component_of_start:
  assumes "mutual ids adj" and "visited \<subseteq> set ids"
    and closed: "\<forall>x \<in> visited. \<forall>y. live_edge ids adj x y \<longrightarrow> y \<in> visited"
    and b: "bfs ids adj [k] (insert k visited) [] = (part, visited')" and k: "k \<notin> visited" "k \<in> set ids"
    and x: "x \<in> set part"
  shows "set part = {y \<in> set ids. (live_edge ids adj)\<^sup>*\<^sup>* x y}"
proof -
  note part = bfs_start [OF b k]
  have "y \<in> set part" if "(live_edge ids adj)\<^sup>*\<^sup>* k y" for y
    using that
  proof (induction rule: rtranclp_induct)
    case base
    show ?case by (rule part(5))
  next
    case (step z y)
    have "z \<in> set ids" using mutual_reach_sym [OF assms(1) step(1) k(2)] by simp
    then have "live_edge ids adj y z" using mutual_sym [OF assms(1)] step(2) by blast
    then have "y \<notin> visited" using closed step.IH part(2) by blast
    then show ?case using part(2,6) step by blast
  qed
  then have from_k: "set part = {y \<in> set ids. (live_edge ids adj)\<^sup>*\<^sup>* k y}"
    using part(2,4,7) assms(2) by blast
  have "(live_edge ids adj)\<^sup>*\<^sup>* k x" using x part(7) by blast
  moreover from mutual_reach_sym [OF assms(1) this k(2)] have "(live_edge ids adj)\<^sup>*\<^sup>* x k" by simp
  ultimately show ?thesis
    unfolding from_k by (meson rtranclp_trans)
qed

lemma partitions_components:
  assumes "mutual ids adj" and "set ks \<subseteq> set ids" and "visited \<subseteq> set ids"
    and "\<forall>x \<in> visited. \<forall>y. live_edge ids adj x y \<longrightarrow> y \<in> visited"
    and "p \<in> set (partitions_from ids adj ks visited)" and "x \<in> set p"
  shows "set p = {y \<in> set ids. (live_edge ids adj)\<^sup>*\<^sup>* x y}"
  using assms(2-6)
proof (induction ks arbitrary: visited)
  case (Cons k ks)
  show ?case
  proof (cases "k \<in> visited")
    case True
    with Cons show ?thesis by auto
  next
    case False
    obtain part visited' where b: "bfs ids adj [k] (insert k visited) [] = (part, visited')"
      by (cases "bfs ids adj [k] (insert k visited) []")
    have k: "k \<in> set ids" using Cons.prems by simp
    note part = bfs_start [OF b False k]
    show ?thesis
    proof (cases "p = part")
      case True
      with Cons.prems component_of_start [OF assms(1) _ _ b False k] show ?thesis by simp
    next
      case p: False
      have "visited' \<subseteq> set ids" using part(4) Cons.prems(2) by blast
      moreover have "\<forall>x \<in> visited'. \<forall>y. live_edge ids adj x y \<longrightarrow> y \<in> visited'"
        using part(2,3,6) Cons.prems(3) by blast
      ultimately show ?thesis
        using Cons.IH [of visited'] Cons.prems False b p by simp
    qed
  qed
qed simp

text \<open>
  \<open>computePartitions\<close> divides the live nodes: every node is in exactly one partition and no
  partition is empty. When the nodes know each other mutually, the partitions are the connected
  components of the live nodes' views.
\<close>

lemma computePartitions_components:
  assumes "distinct (map fst nodeIDtoPod)"
  shows "mset (concat (computePartitions nodeIDtoPod adj)) = mset (map fst nodeIDtoPod) \<and>
    [] \<notin> set (computePartitions nodeIDtoPod adj) \<and>
    (mutual (map fst nodeIDtoPod) adj \<and> p \<in> set (computePartitions nodeIDtoPod adj) \<and> x \<in> set p \<longrightarrow>
       set p = {y \<in> set (map fst nodeIDtoPod). (live_edge (map fst nodeIDtoPod) adj)\<^sup>*\<^sup>* x y})"
proof -
  let ?ids = "map fst nodeIDtoPod"
  have cover: "distinct (concat (computePartitions nodeIDtoPod adj))"
    "set (concat (computePartitions nodeIDtoPod adj)) = set ?ids"
    "[] \<notin> set (computePartitions nodeIDtoPod adj)"
    using partitions_cover [of ?ids ?ids "{}" adj] unfolding computePartitions_def by auto
  then have "mset (concat (computePartitions nodeIDtoPod adj)) = mset ?ids"
    using assms set_eq_iff_mset_eq_distinct by blast
  with cover(3) show ?thesis
    using partitions_components [of ?ids adj ?ids "{}" p x] unfolding computePartitions_def by blast
qed

definition adj_example :: "string \<rightharpoonup> string list" where
  "adj_example = [''a'' \<mapsto> [''a'', ''b'', ''ghost''], ''b'' \<mapsto> [''b'', ''a''], ''c'' \<mapsto> [''c'']]"

lemma computePartitions_components_witness:
  "{y \<in> {''a'', ''b'', ''c''}. (live_edge [''a'', ''b'', ''c''] adj_example)\<^sup>*\<^sup>* ''a'' y} = {''a'', ''b''}"
proof -
  have "computePartitions [(''a'', ''p0''), (''b'', ''p1''), (''c'', ''p2'')] adj_example =
      [[''a'', ''b''], [''c'']]"
    by code_simp
  moreover have "mutual [''a'', ''b'', ''c''] adj_example" by code_simp
  ultimately show ?thesis
    using computePartitions_components [of "[(''a'', ''p0''), (''b'', ''p1''), (''c'', ''p2'')]"
        adj_example "[''a'', ''b'']" "''a''"] by simp
qed

text \<open>
  Without mutual views the result depends on the order in which Go iterates over the map of
  the live nodes: a node that knows a peer which does not know it back is in the peer's partition
  or in one of its own, depending on which of the two comes first.
\<close>

lemma computePartitions_order_dependent:
  "computePartitions [(''a'', ''p0''), (''b'', ''p1'')] [''a'' \<mapsto> [''a'', ''b''], ''b'' \<mapsto> [''b'']] =
     [[''a'', ''b'']] \<and>
   computePartitions [(''b'', ''p1''), (''a'', ''p0'')] [''a'' \<mapsto> [''a'', ''b''], ''b'' \<mapsto> [''b'']] =
     [[''b''], [''a'']]"
  by code_simp

section \<open>The gathered ground truth\<close>

lemma largest_index_bound:
  "largest_index i ps m l = m \<or> largest_index i ps m l \<in> {i ..< i + length ps}"
  by (induction i ps m l rule: largest_index.induct) fastforce+

lemma seed_no_panic:
  assumes "[] \<notin> set (Partitions gt)"
  shows "\<exists>seed. GetLargestPartitionSeed gt = Inr seed"
proof (cases "Partitions gt = []")
  case False
  then have "largest_index 0 (Partitions gt) 0 0 < length (Partitions gt)"
    using largest_index_bound [of 0 "Partitions gt" 0 0] by auto
  then have "Partitions gt ! largest_index 0 (Partitions gt) 0 0 \<noteq> []"
    using assms by (metis nth_mem)
  with False show ?thesis
    by (auto simp: GetLargestPartitionSeed_def split: list.splits)
qed (simp add: GetLargestPartitionSeed_def)

lemma fold_own_entry [simp]:
  "cn_PodName (fold own_entry nodes n) = cn_PodName n"
  "cn_NodeID (fold own_entry nodes n) = cn_NodeID n"
  "cn_Reachable (fold own_entry nodes n) = cn_Reachable n"
  by (induction nodes arbitrary: n) (simp_all add: own_entry_def)

lemma probeNodeTopology_keeps [simp]:
  "cn_PodName (snd (probeNodeTopology getInfo getNodes n)) = cn_PodName n"
  "cn_NodeID (snd (probeNodeTopology getInfo getNodes n)) = cn_NodeID n"
  "cn_Reachable (snd (probeNodeTopology getInfo getNodes n)) = cn_Reachable n"
  by (simp_all add: probeNodeTopology_def Let_def split: sum.splits)

lemma merge_view_Nodes [simp]: "Nodes (fst (merge_view vn acc)) = Nodes (fst acc)"
  by (simp add: merge_view_def Let_def split: prod.splits)

lemma fold_merge_view_Nodes [simp]: "Nodes (fst (fold merge_view vs acc)) = Nodes (fst acc)"
  by (induction vs arbitrary: acc) simp_all

lemma gatherTopology_Nodes:
  "Nodes (fst (gatherTopology getInfo getNodes gt)) =
     map (\<lambda>(k, n). (k, if cn_Reachable n then snd (probeNodeTopology getInfo getNodes n) else n)) (Nodes gt)"
proof -
  let ?vs = "map (probeNodeTopology getInfo getNodes) (filter cn_Reachable (cluster_nodes gt))"
  let ?acc = "(gt\<lparr>Nodes := map (\<lambda>(k, n). (k, if cn_Reachable n
         then snd (probeNodeTopology getInfo getNodes n) else n)) (Nodes gt)\<rparr>, Map.empty,
       length (filter cn_Reachable (cluster_nodes gt)) > 0)"
  obtain gt1 adj asm where f: "fold merge_view ?vs ?acc = (gt1, adj, asm)"
    by (cases "fold merge_view ?vs ?acc") auto
  then show ?thesis
    using fold_merge_view_Nodes [of ?vs ?acc] unfolding gatherTopology_def Let_def f by simp
qed

lemma fold_update_wf:
  assumes "distinct (map fst m)" and "list_all (\<lambda>(k, n). cn_PodName n = k) m"
  shows "distinct (map fst (fold (\<lambda>ns. AList.update (cn_PodName ns) ns) idents m)) \<and>
    list_all (\<lambda>(k, n). cn_PodName n = k) (fold (\<lambda>ns. AList.update (cn_PodName ns) ns) idents m)"
  using assms
proof (induction idents arbitrary: m)
  case (Cons ns idents)
  have "list_all (\<lambda>(k, n). cn_PodName n = k) (AList.update (cn_PodName ns) ns m)"
    using Cons.prems(2) by (induction m) auto
  moreover have "distinct (map fst (AList.update (cn_PodName ns) ns m))"
    using Cons.prems(1) by (rule distinct_update)
  ultimately show ?case using Cons.IH by simp
qed simp

definition id_map :: "ClusterNodeState list \<Rightarrow> (string \<times> string) list" where
  "id_map idents = fold (\<lambda>ns m. if cn_Reachable ns
     then AList.update (cn_NodeID ns) (cn_PodName ns) m else m) idents []"

lemma id_map_distinct: "distinct (map fst (id_map idents))"
proof -
  have "distinct (map fst m) \<Longrightarrow> distinct (map fst (fold (\<lambda>ns m. if cn_Reachable ns
     then AList.update (cn_NodeID ns) (cn_PodName ns) m else m) idents m))" for m
    by (induction idents arbitrary: m) (simp_all add: distinct_update)
  then show ?thesis by (simp add: id_map_def)
qed

lemma Gather_fields:
  fixes pods getID getRedis getInfo getNodes
  defines "gt \<equiv> GatherClusterGroundTruth getID getRedis getInfo getNodes pods"
    and "idents \<equiv> gatherNodeIdentities getID getRedis pods"
  defines "gt0 \<equiv> NewClusterGroundTruth\<lparr>Nodes := fold (\<lambda>ns. AList.update (cn_PodName ns) ns) idents []\<rparr>"
  shows "Nodes gt = Nodes (fst (gatherTopology getInfo getNodes gt0))"
    and "Partitions gt = computePartitions (id_map idents) (snd (gatherTopology getInfo getNodes gt0))"
    and "KnownNodes gt = snd (gatherTopology getInfo getNodes gt0)"
  by (simp_all add: gt_def gt0_def idents_def id_map_def GatherClusterGroundTruth_def Let_def split: prod.splits)

lemma gathered_cluster_wf: "wf_nodes (GatherClusterGroundTruth getID getRedis getInfo getNodes pods)"
proof -
  show ?thesis
    using fold_update_wf [of "[]" "gatherNodeIdentities getID getRedis pods"]
    unfolding wf_nodes_def Gather_fields(1) gatherTopology_Nodes
    by (auto simp: list_all_iff split_def o_def)
qed

text \<open>
  The plan of the MEETs on a gathered ground truth never panics: the pods are recorded under
  their own names, the partitions have a first element, and \<open>PlanPartitionMeets\<close> returns a plan.
\<close>

lemma gathered_meets_return:
  "wf_nodes (GatherClusterGroundTruth getID getRedis getInfo getNodes pods) \<and>
   (\<exists>plan. PlanPartitionMeets (GatherClusterGroundTruth getID getRedis getInfo getNodes pods) = Inr plan)"
proof -
  let ?gt = "GatherClusterGroundTruth getID getRedis getInfo getNodes pods"
  have "[] \<notin> set (Partitions ?gt)"
    unfolding Gather_fields(2) computePartitions_def
    using partitions_cover [of _ _ "{}"] by blast
  then obtain seed where "GetLargestPartitionSeed ?gt = Inr seed"
    using seed_no_panic by blast
  then have "\<exists>plan. PlanPartitionMeets ?gt = Inr plan"
    by (cases seed) (simp_all add: PlanPartitionMeets_def Let_def)
  with gathered_cluster_wf show ?thesis by blast
qed

end
