(* ===== verification/Cooldown.thy ===== *)
theory Cooldown
  imports Prelude
begin

text \<open>
  The contract that the recoveries with a persistence gate share: Rule L and the ghost-master
  recovery (\<open>LeaderlessSince\<close>, \<open>GhostMasterStuckSince\<close>) and the wipe recovery of a cluster
  (\<open>WipeDeadlockSince\<close>). A pass that does not see the signature clears the marker and does nothing;
  the first pass that sees it only sets the marker to its own time; a later one keeps or clears
  the marker, and acts only when the cooldown has elapsed since.

  The client lemma of the locale is about sequences of passes: an action is preceded by an
  unbroken run of passes that all saw the signature and that spans the cooldown.
\<close>

text \<open>
  The passes over a list of observations: the state after each pass and whether it acted. A panic
  ends the sequence.
\<close>

fun passes :: "('obs \<Rightarrow> 's \<Rightarrow> 'p + 's \<times> bool) \<Rightarrow> 's \<Rightarrow> 'obs list \<Rightarrow> ('s \<times> bool) list" where
  "passes step s [] = []"
| "passes step s (ob # obs) =
     (case step ob s of Inl p \<Rightarrow> [] | Inr (s', acted) \<Rightarrow> (s', acted) # passes step s' obs)"

locale cooldown_gate =
  fixes step :: "'obs \<Rightarrow> 's \<Rightarrow> 'p + 's \<times> bool"
    and clock :: "'obs \<Rightarrow> time"
    and ok :: "'obs \<Rightarrow> bool"
    and detect :: "'obs \<Rightarrow> bool"
    and since :: "'s \<Rightarrow> time option"
    and cooldown :: duration
  assumes undetected:
      "ok ob \<Longrightarrow> \<not> detect ob \<Longrightarrow> step ob s = Inr (s', acted) \<Longrightarrow> \<not> acted \<and> since s' = None"
    and first: "ok ob \<Longrightarrow> since s = None \<Longrightarrow> step ob s = Inr (s', acted) \<Longrightarrow>
      \<not> acted \<and> (since s' = None \<or> since s' = Some (clock ob))"
    and later: "ok ob \<Longrightarrow> since s = Some u \<Longrightarrow> step ob s = Inr (s', acted) \<Longrightarrow>
      (since s' = None \<or> since s' = Some u) \<and> (acted \<longrightarrow> cooldown \<le> Sub (clock ob) u)"
begin

definition armed_since :: "'obs list \<Rightarrow> 's \<Rightarrow> bool" where
  "armed_since pre s \<longleftrightarrow> (\<forall>u. since s = Some u \<longrightarrow>
     (\<exists>j < length pre. clock (pre ! j) = u \<and> (\<forall>k. j \<le> k \<and> k < length pre \<longrightarrow> detect (pre ! k))))"

lemma armed_step:
  assumes "armed_since pre s" and "ok ob" and "step ob s = Inr (s', acted)"
  shows "armed_since (pre @ [ob]) s'"
proof (cases "since s")
  case None
  have "detect ob \<or> since s' = None" using undetected [OF assms(2) _ assms(3)] by metis
  with None first [OF assms(2) None assms(3)] show ?thesis
    by (auto simp: armed_since_def nth_append intro!: exI [of _ "length pre"])
next
  case (Some u)
  show ?thesis
    unfolding armed_since_def
  proof (intro allI impI)
    fix v assume v: "since s' = Some v"
    with later [OF assms(2) Some assms(3)] have "v = u" by auto
    moreover have "detect ob" using undetected [OF assms(2) _ assms(3)] v by auto
    moreover obtain j where "j < length pre" "clock (pre ! j) = u"
      "\<forall>k. j \<le> k \<and> k < length pre \<longrightarrow> detect (pre ! k)"
      using assms(1) Some by (auto simp: armed_since_def)
    ultimately show "\<exists>j < length (pre @ [ob]). clock ((pre @ [ob]) ! j) = v \<and>
        (\<forall>k. j \<le> k \<and> k < length (pre @ [ob]) \<longrightarrow> detect ((pre @ [ob]) ! k))"
      by (intro exI [of _ j]) (auto simp: nth_append less_Suc_eq)
  qed
qed

lemma passes_act:
  assumes "armed_since pre s" and "list_all ok obs" and "i < length (passes step s obs)"
    and "snd (passes step s obs ! i)"
  shows "\<exists>j < length pre + i. (\<forall>k. j \<le> k \<and> k \<le> length pre + i \<longrightarrow> detect ((pre @ obs) ! k)) \<and>
    cooldown \<le> Sub (clock (obs ! i)) (clock ((pre @ obs) ! j))"
  using assms
proof (induction obs arbitrary: pre s i)
  case (Cons ob obs)
  obtain s' acted where st: "step ob s = Inr (s', acted)"
    using Cons.prems(3) by (cases "step ob s") auto
  have ok: "ok ob" using Cons.prems(2) by simp
  show ?case
  proof (cases i)
    case 0
    then have acted using Cons.prems(4) st by simp
    with first [OF ok _ st] obtain u where u: "since s = Some u" by (cases "since s") auto
    obtain j where j: "j < length pre" "clock (pre ! j) = u"
      "\<forall>k. j \<le> k \<and> k < length pre \<longrightarrow> detect (pre ! k)"
      using Cons.prems(1) u by (auto simp: armed_since_def)
    have "detect ob" using undetected [OF ok _ st] \<open>acted\<close> by blast
    moreover have "cooldown \<le> Sub (clock ob) u" using later [OF ok u st] \<open>acted\<close> by blast
    ultimately show ?thesis
      using j 0 by (intro exI [of _ j]) (auto simp: nth_append less_Suc_eq)
  next
    case (Suc n)
    have "armed_since (pre @ [ob]) s'" by (rule armed_step [OF Cons.prems(1) ok st])
    then show ?thesis
      using Cons.IH [of "pre @ [ob]" s' n] Cons.prems(2-4) Suc st by auto
  qed
qed simp

text \<open>From a state without a marker, an action is preceded by the signature for the whole cooldown.\<close>

lemma act_after_cooldown:
  assumes "since s = None" and "list_all ok obs" and "i < length (passes step s obs)"
    and "snd (passes step s obs ! i)"
  shows "\<exists>j < i. (\<forall>k. j \<le> k \<and> k \<le> i \<longrightarrow> detect (obs ! k)) \<and>
    cooldown \<le> Sub (clock (obs ! i)) (clock (obs ! j))"
  using passes_act [of "[]" s obs i] assms by (auto simp: armed_since_def)

end

end
