(* ===== verification/Recovery.thy ===== *)
theory Recovery
  imports Replication_State Lineage Cooldown
begin

text \<open>
  The two recoveries of an instance without a living master: Rule L for the bare-Sentinel bootstrap
  deadlock (\<open>internal/controller/leaderless_recovery.go\<close> and its executor in
  \<open>littlered_controller.go\<close>) and the ghost-master failover deadlock
  (\<open>internal/controller/ghost_master_recovery.go\<close>).

  The planners are pure. An executor is a function of the spec, the stored status, the gathered
  state and an environment: the outcome of every call it makes to Kubernetes and to the pods. It
  returns the error, the status it leaves stored, and the commands it sent. A write of the status
  is a read and an update that both succeed or fail; the retry on conflict is part of the outcome.
\<close>

section \<open>Plans\<close>

datatype recoveryAction =
  recoveryClearMarker | recoveryStartCooldown | recoveryWait | recoverySeedNoData
| recoveryPromoteSurvivor | recoveryRefuse | recoveryUnsafeElect | recoveryRefuseUnverified

record leaderlessPlan =
  lp_action :: recoveryAction
  lp_masterIP :: string
  lp_diverged :: bool
  lp_forked :: bool
  lp_holders :: nat
  lp_unverified :: "RedisNodeState list"

definition plan_action :: "recoveryAction \<Rightarrow> leaderlessPlan" where
  "plan_action a = \<lparr>lp_action = a, lp_masterIP = [], lp_diverged = False, lp_forked = False,
     lp_holders = 0, lp_unverified = []\<rparr>"

definition unprovablyEmptyVeto :: "ReplicationState \<Rightarrow> leaderlessPlan option" where
  "unprovablyEmptyVeto state =
     (let unverified = AuthFailedRedisNodes state in
      if length unverified = 0 then None
      else Some ((plan_action recoveryRefuseUnverified)\<lparr>lp_unverified := unverified\<rparr>))"

definition planLeaderlessRecovery ::
  "ReplicationState \<Rightarrow> int \<Rightarrow> bool \<Rightarrow> string \<Rightarrow> time option \<Rightarrow> time \<Rightarrow> duration \<Rightarrow> leaderlessPlan" where
  "planLeaderlessRecovery state quorum allowUnsafe bootstrapMasterIP leaderlessSince now cooldown =
     (let (bare, reachable) = AllSentinelsBare state in
      if \<not> bare \<or> int reachable < quorum then plan_action recoveryClearMarker
      else case leaderlessSince of
        None \<Rightarrow> plan_action recoveryStartCooldown
      | Some since \<Rightarrow>
          if Sub now since < cooldown then plan_action recoveryWait
          else case unprovablyEmptyVeto state of
            Some plan \<Rightarrow> plan
          | None \<Rightarrow>
              (case DataHolders state of
                 [] \<Rightarrow> if bootstrapMasterIP = [] then plan_action recoveryWait
                       else (plan_action recoverySeedNoData)\<lparr>lp_masterIP := bootstrapMasterIP\<rparr>
               | [h] \<Rightarrow> (plan_action recoveryPromoteSurvivor)\<lparr>lp_masterIP := rn_IP h, lp_holders := 1\<rparr>
               | holders \<Rightarrow>
                   if \<not> allowUnsafe
                   then (plan_action recoveryRefuse)\<lparr>lp_holders := length holders\<rparr>
                   else case BestDataHolder state of
                          (None, _, _) \<Rightarrow> (plan_action recoveryWait)\<lparr>lp_holders := length holders\<rparr>
                        | (Some best, diverged, forked) \<Rightarrow>
                            (plan_action recoveryUnsafeElect)\<lparr>lp_masterIP := rn_IP best,
                               lp_diverged := diverged, lp_forked := forked,
                               lp_holders := length holders\<rparr>))"

definition needsPromotion :: "ReplicationState \<Rightarrow> string \<Rightarrow> bool" where
  "needsPromotion state masterIP \<longleftrightarrow>
     (case map_of (RedisNodes state) masterIP of
        None \<Rightarrow> False
      | Some rn \<Rightarrow> rn_Reachable rn \<and> rn_Role rn \<noteq> roleMaster)"

definition planGhostMasterRecovery ::
  "ReplicationState \<Rightarrow> int \<Rightarrow> bool \<Rightarrow> string \<Rightarrow> time option \<Rightarrow> time \<Rightarrow> duration \<Rightarrow> leaderlessPlan" where
  "planGhostMasterRecovery state quorum allowUnsafe bootstrapMasterIP stuckSince now cooldown =
     (if \<not> SentinelsMonitorGhostMaster state \<or> HasHealthyKnownReplica state
      then plan_action recoveryClearMarker
      else if int (ReachableSentinels state) < quorum then plan_action recoveryClearMarker
      else case stuckSince of
        None \<Rightarrow> plan_action recoveryStartCooldown
      | Some since \<Rightarrow>
          if Sub now since < cooldown then plan_action recoveryWait
          else case unprovablyEmptyVeto state of
            Some plan \<Rightarrow> plan
          | None \<Rightarrow>
              let holders = DataHolders state in
              if length holders = 0
              then (if bootstrapMasterIP = [] then plan_action recoveryWait
                    else (plan_action recoverySeedNoData)\<lparr>lp_masterIP := bootstrapMasterIP\<rparr>)
              else case BestDataHolder state of
                     (None, _, _) \<Rightarrow> (plan_action recoveryWait)\<lparr>lp_holders := length holders\<rparr>
                   | (Some best, diverged, forked) \<Rightarrow>
                       if diverged \<or> forked
                       then (if \<not> allowUnsafe
                             then (plan_action recoveryRefuse)\<lparr>lp_forked := forked,
                                    lp_holders := length holders\<rparr>
                             else (plan_action recoveryUnsafeElect)\<lparr>lp_masterIP := rn_IP best,
                                    lp_diverged := diverged, lp_forked := forked,
                                    lp_holders := length holders\<rparr>)
                       else (plan_action recoveryPromoteSurvivor)\<lparr>lp_masterIP := rn_IP best,
                              lp_holders := length holders\<rparr>)"

section \<open>Electing a master\<close>

text \<open>The commands sent to the pods, and the pods of the Sentinel StatefulSet.\<close>

datatype redis_cmd =
  ReplicaOfNoOne string
| SentinelRemove string
| SentinelMonitor string string int
| SentinelSet string string string

record SentinelSpec =
  ss_Quorum :: int
  ss_DownAfterMilliseconds :: int
  ss_FailoverTimeout :: int
  ss_ParallelSyncs :: int
  ss_AllowUnsafeRebootstrapOnDeadlock :: bool

record sentinel_pod =
  pd_Name :: string
  pd_PodIP :: string
  pd_Deleting :: bool

text \<open>
  The outcomes: the list of the Sentinel pods, the master that a Sentinel at an IP reports, the
  results of MONITOR and of REPLICAOF NO ONE by IP, and the result of a write of the status.
\<close>

record recovery_env =
  en_sentinelPods :: "go_error + sentinel_pod list"
  en_getMaster :: "string \<Rightarrow> go_error + MasterInfo"
  en_monitor :: "string \<Rightarrow> go_error option"
  en_slaveOf :: "string \<Rightarrow> go_error option"
  en_statusWrite :: "go_error option"

definition pickBootstrapMasterIP :: "string \<Rightarrow> (string \<times> string) list \<Rightarrow> string" where
  "pickBootstrapMasterIP lrName redisMap =
     (case find (\<lambda>(ip, name). name = lrName @ ''-redis-0'') redisMap of
        Some (ip, name) \<Rightarrow> ip
      | None \<Rightarrow>
          fst (fold (\<lambda>(ip, name) (fallbackIP, fallbackName).
                 if fallbackName = [] \<or> name < fallbackName then (ip, name)
                 else (fallbackIP, fallbackName)) redisMap ([], [])))"

definition applySentinelSettings :: "string \<Rightarrow> SentinelSpec option \<Rightarrow> redis_cmd list" where
  "applySentinelSettings ip spec =
     (case spec of
        None \<Rightarrow> []
      | Some sp \<Rightarrow>
          (if ss_DownAfterMilliseconds sp > 0
           then [SentinelSet ip ''down-after-milliseconds'' (Itoa (ss_DownAfterMilliseconds sp))] else []) @
          (if ss_FailoverTimeout sp > 0
           then [SentinelSet ip ''failover-timeout'' (Itoa (ss_FailoverTimeout sp))] else []) @
          (if ss_ParallelSyncs sp > 0
           then [SentinelSet ip ''parallel-syncs'' (Itoa (ss_ParallelSyncs sp))] else []))"

text \<open>The body of the loop over the pods: the commands, and what is added to the counts.\<close>

definition seed_pod ::
  "recovery_env \<Rightarrow> SentinelSpec option \<Rightarrow> string \<Rightarrow> string \<Rightarrow> int \<Rightarrow> sentinel_pod \<Rightarrow>
   redis_cmd list \<times> nat \<times> nat" where
  "seed_pod env spec masterIP password quorum pod =
     (if pd_PodIP pod = [] \<or> pd_Deleting pod then ([], 0, 0)
      else
        let ip = pd_PodIP pod;
            monitor = (\<lambda>pre. let cs = pre @ [SentinelMonitor ip masterIP quorum] in
               case en_monitor env ip of
                 Some _ \<Rightarrow> (cs, 0, 1)
               | None \<Rightarrow> (cs @ (if password \<noteq> [] then [SentinelSet ip ''auth-pass'' password] else []) @
                           applySentinelSettings ip spec, 1, 1))
        in case en_getMaster env ip of
             Inr info \<Rightarrow> if mi_IP info = masterIP then ([], 1, 1) else monitor [SentinelRemove ip]
           | Inl _ \<Rightarrow> monitor [])"

definition seedSentinelsWithMaster ::
  "recovery_env \<Rightarrow> SentinelSpec option \<Rightarrow> string \<Rightarrow> string \<Rightarrow> int \<Rightarrow>
   go_error option \<times> redis_cmd list \<times> nat \<times> nat" where
  "seedSentinelsWithMaster env spec masterIP password quorum =
     (case en_sentinelPods env of
        Inl e \<Rightarrow> (Some (wrapf ''failed to list sentinel pods'' e), [], 0, 0)
      | Inr pods \<Rightarrow>
          let rs = map (seed_pod env spec masterIP password quorum) pods in
          (None, concat (map fst rs), sum_list (map (fst \<circ> snd) rs), sum_list (map (snd \<circ> snd) rs)))"

definition electMaster ::
  "recovery_env \<Rightarrow> SentinelSpec option \<Rightarrow> ReplicationState \<Rightarrow> string \<Rightarrow> string \<Rightarrow> int \<Rightarrow>
   go_error option \<times> redis_cmd list" where
  "electMaster env spec state masterIP password quorum =
     (let seed = (\<lambda>pre. case seedSentinelsWithMaster env spec masterIP password quorum of
                    (err, cs, _, _) \<Rightarrow> (err, pre @ cs))
      in if needsPromotion state masterIP
         then (case en_slaveOf env masterIP of
                 Some e \<Rightarrow> (Some (wrapf (''promote elected master '' @ masterIP) e),
                            [ReplicaOfNoOne masterIP])
               | None \<Rightarrow> seed [ReplicaOfNoOne masterIP])
         else seed [])"

section \<open>The markers\<close>

text \<open>
  The part of the status that a recovery owns: its marker (\<open>LeaderlessSince\<close>,
  \<open>GhostMasterStuckSince\<close>) and its condition, as status, reason and message.
\<close>

record recovery_status =
  rs_since :: "time option"
  rs_condition :: "(bool \<times> string \<times> string) option"

definition setSince ::
  "recovery_env \<Rightarrow> string \<Rightarrow> time \<Rightarrow> recovery_status \<Rightarrow> go_error option \<times> recovery_status" where
  "setSince env message t st =
     (case en_statusWrite env of
        Some e \<Rightarrow> (Some e, st)
      | None \<Rightarrow>
          if rs_since st \<noteq> None then (None, st)
          else (None, st\<lparr>rs_since := Some t,
                         rs_condition := Some (True, ''DeadlockDetected'', message)\<rparr>))"

definition setCondition ::
  "recovery_env \<Rightarrow> bool \<Rightarrow> string \<Rightarrow> string \<Rightarrow> recovery_status \<Rightarrow> go_error option \<times> recovery_status" where
  "setCondition env status reason message st =
     (case en_statusWrite env of
        Some e \<Rightarrow> (Some e, st)
      | None \<Rightarrow> (None, st\<lparr>rs_condition := Some (status, reason, message)\<rparr>))"

definition clearSince ::
  "recovery_env \<Rightarrow> string \<Rightarrow> string \<Rightarrow> recovery_status \<Rightarrow> go_error option \<times> recovery_status" where
  "clearSince env reason message st =
     (if rs_since st = None then (None, st)
      else case en_statusWrite env of
        Some e \<Rightarrow> (Some e, st)
      | None \<Rightarrow> (None, st\<lparr>rs_since := None, rs_condition := Some (False, reason, message)\<rparr>))"

definition unverifiedPodSummary :: "RedisNodeState list \<Rightarrow> string" where
  "unverifiedPodSummary nodes =
     (if length nodes = 0 then ''a pod could not be proven empty''
      else
        let names = map rn_PodName nodes;
            distinctReplies = sortedKeys (filter (\<lambda>r. r \<noteq> []) (map rn_ProbeError nodes));
            s = Itoa (int (length names)) @ '' Redis pod(s) refused the operator's credential ('' @
                Join names '', '' @ '')''
        in if length distinctReplies > 0
           then s @ '', server said: '' @ Join distinctReplies ''; '' else s)"

section \<open>The executors\<close>

definition spec_quorum :: "SentinelSpec option \<Rightarrow> int" where
  "spec_quorum spec =
     (case spec of None \<Rightarrow> 2 | Some sp \<Rightarrow> if ss_Quorum sp > 0 then ss_Quorum sp else 2)"

definition spec_allowUnsafe :: "SentinelSpec option \<Rightarrow> bool" where
  "spec_allowUnsafe spec =
     (case spec of None \<Rightarrow> False | Some sp \<Rightarrow> ss_AllowUnsafeRebootstrapOnDeadlock sp)"

definition leaderlessRecoveryCooldown :: duration where
  "leaderlessRecoveryCooldown = 30 * second"

definition ghostMasterRecoveryCooldown :: duration where
  "ghostMasterRecoveryCooldown = 30 * second"

text \<open>What an executor is called with: the instance's name, spec, password and pods.\<close>

record recovery_ctx =
  cx_name :: string
  cx_spec :: "SentinelSpec option"
  cx_password :: string
  cx_redisMap :: "(string \<times> string) list"
  cx_now :: time

type_synonym outcome = "go_panic + (go_error option \<times> recovery_status \<times> redis_cmd list)"

text \<open>
  Electing a master and, when that succeeded, clearing the marker. The event in between has no
  effect on the state.
\<close>

definition elect_and_clear ::
  "recovery_env \<Rightarrow> recovery_ctx \<Rightarrow> ReplicationState \<Rightarrow> string \<Rightarrow> string \<Rightarrow> string \<Rightarrow> recovery_status \<Rightarrow>
   outcome" where
  "elect_and_clear env cx state masterIP reason msg st =
     (case electMaster env (cx_spec cx) state masterIP (cx_password cx) (spec_quorum (cx_spec cx)) of
        (Some e, cs) \<Rightarrow> Inr (Some e, st, cs)
      | (None, cs) \<Rightarrow> (case clearSince env reason msg st of (err, st') \<Rightarrow> Inr (err, st', cs)))"

definition no_cmds :: "go_error option \<times> recovery_status \<Rightarrow> outcome" where
  "no_cmds r = Inr (fst r, snd r, [])"

definition pod_of :: "recovery_ctx \<Rightarrow> string \<Rightarrow> string" where
  "pod_of cx ip = (case map_of (cx_redisMap cx) ip of None \<Rightarrow> [] | Some name \<Rightarrow> name)"

definition recoverLeaderlessDeadlock ::
  "recovery_env \<Rightarrow> recovery_ctx \<Rightarrow> ReplicationState \<Rightarrow> recovery_status \<Rightarrow> outcome" where
  "recoverLeaderlessDeadlock env cx state st =
     (let plan = planLeaderlessRecovery state (spec_quorum (cx_spec cx)) (spec_allowUnsafe (cx_spec cx))
                   (pickBootstrapMasterIP (cx_name cx) (cx_redisMap cx)) (rs_since st) (cx_now cx)
                   leaderlessRecoveryCooldown;
          ip = lp_masterIP plan
      in case lp_action plan of
           recoveryClearMarker \<Rightarrow>
             no_cmds (clearSince env ''Recovered'' ''No longer in a bare-Sentinel deadlock.'' st)
         | recoveryStartCooldown \<Rightarrow>
             no_cmds (setSince env
               ''All Sentinels are bare and no master is known; waiting out the recovery cooldown.''
               (cx_now cx) st)
         | recoveryWait \<Rightarrow> Inr (None, st, [])
         | recoverySeedNoData \<Rightarrow>
             elect_and_clear env cx state ip ''Reseeded''
               (''Leaderless recovery: no data present, seeded '' @ pod_of cx ip @ '' as master'') st
         | recoveryPromoteSurvivor \<Rightarrow>
             (case map_of (RedisNodes state) ip of
                None \<Rightarrow> Inl NilDereference
              | Some h \<Rightarrow>
                  elect_and_clear env cx state (rn_IP h) ''ReseededFromSurvivor''
                    (''Leaderless recovery: '' @ rn_PodName h @ '' is the only pod with data (keys='' @
                     Itoa (rn_Keys h) @ ''); promoting it as master '' @ em_dash @
                     '' no data discarded'') st)
         | recoveryRefuse \<Rightarrow>
             no_cmds (setCondition env True ''RefusedDataPresent''
               (''Bootstrap deadlock: '' @ Itoa (int (lp_holders plan)) @
                '' Redis pods hold data. Refusing to rebootstrap (would discard data on all but one). Set sentinel.allowUnsafeRebootstrapOnDeadlock=true to authorize, or intervene manually.'') st)
         | recoveryRefuseUnverified \<Rightarrow>
             no_cmds (setCondition env True ''RefusedDataUnverified''
               (''Bootstrap deadlock: '' @ unverifiedPodSummary (lp_unverified plan) @
                ''. Refusing to rebootstrap '' @ em_dash @ '' a pod that refuses the operator's credential is a live server whose keyspace cannot be read, so it cannot be shown to be empty and seeding a master over it may discard the entire dataset. Fix the credential (see the OperatorCannotAuthenticate condition); allowUnsafeRebootstrapOnDeadlock deliberately does NOT override this.'') st)
         | recoveryUnsafeElect \<Rightarrow>
             (case map_of (RedisNodes state) ip of
                None \<Rightarrow> Inl NilDereference
              | Some best \<Rightarrow>
                  elect_and_clear env cx state (rn_IP best) ''UnsafeRebootstrap''
                    (''UNSAFE rebootstrap: force-elected '' @ rn_PodName best @ '' (keys='' @
                     Itoa (rn_Keys best) @ '', offset='' @ Itoa (rn_Offset best) @
                     '') as master; data on '' @ Itoa (int (lp_holders plan) - 1) @
                     '' other pod(s) will be DISCARDED via full resync'' @
                     (if lp_diverged plan
                      then ''. WARNING: data-holding pods span multiple replication lineages '' @ em_dash @
                           '' offsets are not comparable and genuinely independent writes will be lost''
                      else [])) st))"

definition recoverGhostMasterDeadlock ::
  "recovery_env \<Rightarrow> recovery_ctx \<Rightarrow> ReplicationState \<Rightarrow> recovery_status \<Rightarrow> outcome" where
  "recoverGhostMasterDeadlock env cx state st =
     (let plan = planGhostMasterRecovery state (spec_quorum (cx_spec cx)) (spec_allowUnsafe (cx_spec cx))
                   (pickBootstrapMasterIP (cx_name cx) (cx_redisMap cx)) (rs_since st) (cx_now cx)
                   ghostMasterRecoveryCooldown;
          ip = lp_masterIP plan
      in case lp_action plan of
           recoveryClearMarker \<Rightarrow>
             no_cmds (clearSince env ''Recovered'' ''No longer stuck on a ghost master.'' st)
         | recoveryStartCooldown \<Rightarrow>
             no_cmds (setSince env
               ''A majority of Sentinels are pinned to a dead master with no promotable replica; waiting out the recovery cooldown.''
               (cx_now cx) st)
         | recoveryWait \<Rightarrow> Inr (None, st, [])
         | recoverySeedNoData \<Rightarrow>
             elect_and_clear env cx state ip ''Reseeded''
               (''Ghost-master recovery: no data present, seeded '' @ pod_of cx ip @ '' as master'') st
         | recoveryPromoteSurvivor \<Rightarrow>
             (case map_of (RedisNodes state) ip of
                None \<Rightarrow> Inl NilDereference
              | Some h \<Rightarrow>
                  elect_and_clear env cx state (rn_IP h) ''ReseededFromSurvivor''
                    (''Ghost-master recovery: Sentinel stuck on a dead master with no promotable replica; electing survivor '' @
                     rn_PodName h @ '' (keys='' @ Itoa (rn_Keys h) @ '', offset='' @ Itoa (rn_Offset h) @
                     '') via REMOVE+MONITOR '' @ em_dash @ '' no data discarded'') st)
         | recoveryRefuse \<Rightarrow>
             no_cmds (setCondition env True ''RefusedDataPresent''
               (''Ghost-master deadlock: '' @ Itoa (int (lp_holders plan)) @
                (if lp_forked plan
                 then '' survivors hold data and MORE THAN ONE of them is a master, so each has accepted writes independently since they parted. Their replication offsets are not comparable, so electing the highest would silently discard the other's acknowledged writes. Refusing to elect. Identify which pod holds the writes you need, or set sentinel.allowUnsafeRebootstrapOnDeadlock=true to authorize discarding the rest.''
                 else '' survivors hold data across divergent replication lineages. Refusing to elect (would discard independent writes). Set sentinel.allowUnsafeRebootstrapOnDeadlock=true to authorize, or intervene manually.'')) st)
         | recoveryRefuseUnverified \<Rightarrow>
             no_cmds (setCondition env True ''RefusedDataUnverified''
               (''Ghost-master deadlock: '' @ unverifiedPodSummary (lp_unverified plan) @
                ''. Refusing to elect '' @ em_dash @ '' a pod that refuses the operator's credential is a live server whose keyspace cannot be read, so it cannot be shown to be empty and electing around it may discard the entire dataset. Fix the credential (see the OperatorCannotAuthenticate condition); allowUnsafeRebootstrapOnDeadlock deliberately does NOT override this.'') st)
         | recoveryUnsafeElect \<Rightarrow>
             (case map_of (RedisNodes state) ip of
                None \<Rightarrow> Inl NilDereference
              | Some best \<Rightarrow>
                  elect_and_clear env cx state (rn_IP best) ''UnsafeRebootstrap''
                    (''UNSAFE ghost-master recovery: force-elected '' @ rn_PodName best @ '' (keys='' @
                     Itoa (rn_Keys best) @ '', offset='' @ Itoa (rn_Offset best) @
                     ''); divergent data on '' @ Itoa (int (lp_holders plan) - 1) @
                     '' other survivor(s) will be DISCARDED via full resync'') st))"

text \<open>
  The leaderless branch of the healing pass (\<open>reconcileSentinelCluster\<close>): both recoveries run while
  no master is known, their errors are only logged, and both markers are cleared otherwise. The
  status holds the two recoveries' parts.
\<close>

definition leaderless_pass ::
  "recovery_env \<Rightarrow> recovery_ctx \<Rightarrow> ReplicationState \<Rightarrow> recovery_status \<Rightarrow> outcome" where
  "leaderless_pass env cx state st =
     (if RealMasterIP state = [] then recoverLeaderlessDeadlock env cx state st
      else no_cmds (clearSince env ''Recovered'' ''A consensus master is known again.'' st))"

definition ghost_pass ::
  "recovery_env \<Rightarrow> recovery_ctx \<Rightarrow> ReplicationState \<Rightarrow> recovery_status \<Rightarrow> outcome" where
  "ghost_pass env cx state st =
     (if RealMasterIP state = [] then recoverGhostMasterDeadlock env cx state st
      else no_cmds (clearSince env ''Recovered'' ''A consensus master is known again.'' st))"

definition recoverNoMaster ::
  "recovery_env \<Rightarrow> recovery_ctx \<Rightarrow> ReplicationState \<Rightarrow> recovery_status \<times> recovery_status \<Rightarrow>
   go_panic + (recovery_status \<times> recovery_status \<times> redis_cmd list)" where
  "recoverNoMaster env cx state sts =
     (case sts of (leaderless, ghost) \<Rightarrow>
        case leaderless_pass env cx state leaderless of
          Inl p \<Rightarrow> Inl p
        | Inr (_, leaderless', cs1) \<Rightarrow>
            (case ghost_pass env cx state ghost of
               Inl p \<Rightarrow> Inl p
             | Inr (_, ghost', cs2) \<Rightarrow> Inr (leaderless', ghost', cs1 @ cs2)))"

section \<open>The contract of an election\<close>

definition elects :: "leaderlessPlan \<Rightarrow> bool" where
  "elects p \<longleftrightarrow> lp_action p \<in> {recoverySeedNoData, recoveryPromoteSurvivor, recoveryUnsafeElect}"

text \<open>
  What the two planners promise about a plan that elects, whatever the timing: \<open>plan s unsafe b\<close> is
  the plan for the state, the opt-in and the bootstrap address.
\<close>

locale election_planner =
  fixes plan :: "ReplicationState \<Rightarrow> bool \<Rightarrow> string \<Rightarrow> leaderlessPlan"
  assumes verified: "elects (plan s unsafe b) \<Longrightarrow> AuthFailedRedisNodes s = []"
    and seeds: "lp_action (plan s unsafe b) = recoverySeedNoData \<Longrightarrow>
      DataHolders s = [] \<and> b \<noteq> [] \<and> lp_masterIP (plan s unsafe b) = b"
    and takes_best: "lp_action (plan s unsafe b) \<in> {recoveryPromoteSurvivor, recoveryUnsafeElect} \<Longrightarrow>
      \<exists>h. fst (BestDataHolder s) = Some h \<and> lp_masterIP (plan s unsafe b) = rn_IP h"
    and opted_in: "lp_action (plan s unsafe b) = recoveryUnsafeElect \<Longrightarrow> unsafe"
begin

lemma elected_best:
  assumes "elects (plan s unsafe b)"
  shows "AuthFailedRedisNodes s = [] \<and>
    (DataHolders s = [] \<and> lp_masterIP (plan s unsafe b) = b \<or>
     (\<exists>h \<in> set (DataHolders s). lp_masterIP (plan s unsafe b) = rn_IP h \<and>
        list_all (\<lambda>d. at_most d h) (DataHolders s)))"
proof (cases "lp_action (plan s unsafe b) = recoverySeedNoData")
  case True
  with verified [OF assms] seeds show ?thesis by blast
next
  case False
  with assms have "lp_action (plan s unsafe b) \<in> {recoveryPromoteSurvivor, recoveryUnsafeElect}"
    by (auto simp: elects_def)
  from takes_best [OF this] obtain h where h: "fst (BestDataHolder s) = Some h"
    "lp_masterIP (plan s unsafe b) = rn_IP h" by blast
  with BestDataHolder_Some [OF h(1)] verified [OF assms] show ?thesis
    by (auto simp: list_all_iff)
qed

lemma elected_known:
  assumes "list_all (\<lambda>(ip, n). rn_IP n = ip) (RedisNodes s)"
    and "lp_action (plan s unsafe b) \<in> {recoveryPromoteSurvivor, recoveryUnsafeElect}"
  shows "map_of (RedisNodes s) (lp_masterIP (plan s unsafe b)) \<noteq> None"
proof -
  obtain h where h: "fst (BestDataHolder s) = Some h" "lp_masterIP (plan s unsafe b) = rn_IP h"
    using takes_best [OF assms(2)] by blast
  then obtain ip where "(ip, h) \<in> set (RedisNodes s)"
    using BestDataHolder_Some [OF h(1)] by (auto simp: DataHolders_def)
  moreover from this assms(1) have "ip = rn_IP h" by (auto simp: list_all_iff)
  ultimately show ?thesis using weak_map_of_SomeI [of "rn_IP h" h "RedisNodes s"] h(2) by simp
qed

end

section \<open>The planners\<close>

lemmas planner_defs = planLeaderlessRecovery_def planGhostMasterRecovery_def plan_action_def
  unprovablyEmptyVeto_def Let_def

lemma AuthFailed_Nil: "length (AuthFailedRedisNodes s) = 0 \<longleftrightarrow> AuthFailedRedisNodes s = []"
  by simp

definition leaderless_signature :: "ReplicationState \<Rightarrow> int \<Rightarrow> bool" where
  "leaderless_signature s quorum \<longleftrightarrow> fst (AllSentinelsBare s) \<and> int (snd (AllSentinelsBare s)) \<ge> quorum"

definition ghost_signature :: "ReplicationState \<Rightarrow> int \<Rightarrow> bool" where
  "ghost_signature s quorum \<longleftrightarrow> SentinelsMonitorGhostMaster s \<and> \<not> HasHealthyKnownReplica s \<and>
     int (ReachableSentinels s) \<ge> quorum"

text \<open>What is decided once the signature is seen and the cooldown has elapsed.\<close>

definition leaderless_act :: "ReplicationState \<Rightarrow> bool \<Rightarrow> string \<Rightarrow> leaderlessPlan" where
  "leaderless_act s unsafe b =
     (let n = length (DataHolders s); (best, d, f) = BestDataHolder s in
      if AuthFailedRedisNodes s \<noteq> []
      then (plan_action recoveryRefuseUnverified)\<lparr>lp_unverified := AuthFailedRedisNodes s\<rparr>
      else if n = 0 then (if b = [] then plan_action recoveryWait
                          else (plan_action recoverySeedNoData)\<lparr>lp_masterIP := b\<rparr>)
      else if n = 1
      then (plan_action recoveryPromoteSurvivor)\<lparr>lp_masterIP := rn_IP (the best), lp_holders := 1\<rparr>
      else if \<not> unsafe then (plan_action recoveryRefuse)\<lparr>lp_holders := n\<rparr>
      else (plan_action recoveryUnsafeElect)\<lparr>lp_masterIP := rn_IP (the best), lp_diverged := d,
             lp_forked := f, lp_holders := n\<rparr>)"

definition ghost_act :: "ReplicationState \<Rightarrow> bool \<Rightarrow> string \<Rightarrow> leaderlessPlan" where
  "ghost_act s unsafe b =
     (let n = length (DataHolders s); (best, d, f) = BestDataHolder s in
      if AuthFailedRedisNodes s \<noteq> []
      then (plan_action recoveryRefuseUnverified)\<lparr>lp_unverified := AuthFailedRedisNodes s\<rparr>
      else if n = 0 then (if b = [] then plan_action recoveryWait
                          else (plan_action recoverySeedNoData)\<lparr>lp_masterIP := b\<rparr>)
      else if d \<or> f
      then (if \<not> unsafe then (plan_action recoveryRefuse)\<lparr>lp_forked := f, lp_holders := n\<rparr>
            else (plan_action recoveryUnsafeElect)\<lparr>lp_masterIP := rn_IP (the best), lp_diverged := d,
                   lp_forked := f, lp_holders := n\<rparr>)
      else (plan_action recoveryPromoteSurvivor)\<lparr>lp_masterIP := rn_IP (the best), lp_holders := n\<rparr>)"

lemma BestDataHolder_single: "DataHolders s = [h] \<Longrightarrow> BestDataHolder s = (Some h, holdersDiverged [h], holdersForked [h])"
  by (simp add: BestDataHolder_def)

lemma BestDataHolder_cases:
  obtains "DataHolders s = []" "BestDataHolder s = (None, False, False)"
  | b d f where "DataHolders s \<noteq> []" "BestDataHolder s = (Some b, d, f)"
  by (cases "DataHolders s") (auto simp: BestDataHolder_def)

lemma planLeaderless_stages:
  "planLeaderlessRecovery s q unsafe b since now cd =
    (if \<not> leaderless_signature s q then plan_action recoveryClearMarker
     else case since of None \<Rightarrow> plan_action recoveryStartCooldown
       | Some u \<Rightarrow> if Sub now u < cd then plan_action recoveryWait else leaderless_act s unsafe b)"
proof -
  consider "DataHolders s = []" | h where "DataHolders s = [h]" | h h' t where "DataHolders s = h # h' # t"
    by (metis neq_Nil_conv)
  then show ?thesis
    by cases (auto simp: planLeaderlessRecovery_def leaderless_signature_def unprovablyEmptyVeto_def
        leaderless_act_def BestDataHolder_def Let_def split: prod.splits option.splits)
qed

lemma planGhost_stages:
  "planGhostMasterRecovery s q unsafe b since now cd =
    (if \<not> ghost_signature s q then plan_action recoveryClearMarker
     else case since of None \<Rightarrow> plan_action recoveryStartCooldown
       | Some u \<Rightarrow> if Sub now u < cd then plan_action recoveryWait else ghost_act s unsafe b)"
  by (cases s rule: BestDataHolder_cases)
     (auto simp: planGhostMasterRecovery_def ghost_signature_def unprovablyEmptyVeto_def
        ghost_act_def Let_def split: option.splits)


text \<open>The stages before the act do not elect, so the contract is that of the act.\<close>

lemma staged_planner:
  assumes "election_planner act"
    and "\<And>s unsafe b. plan s unsafe b = (if \<not> sig s then plan_action recoveryClearMarker
     else case since of None \<Rightarrow> plan_action recoveryStartCooldown
       | Some u \<Rightarrow> if Sub now u < cd then plan_action recoveryWait else act s unsafe b)"
  shows "election_planner plan"
proof -
  have act: "plan s unsafe b = act s unsafe b" if "elects (plan s unsafe b)" for s unsafe b
    using that unfolding assms(2) by (auto simp: elects_def plan_action_def split: option.splits if_splits)
  have "elects (plan s unsafe b)" if "lp_action (plan s unsafe b) \<in> {recoverySeedNoData,
      recoveryPromoteSurvivor, recoveryUnsafeElect}" for s unsafe b
    using that by (simp add: elects_def)
  with act show ?thesis
    using assms(1) unfolding election_planner_def by (metis insertI1 insertI2)
qed

lemma leaderless_act_planner: "election_planner leaderless_act"
proof
  show "\<exists>h. fst (BestDataHolder s) = Some h \<and> lp_masterIP (leaderless_act s unsafe b) = rn_IP h"
    if "lp_action (leaderless_act s unsafe b) \<in> {recoveryPromoteSurvivor, recoveryUnsafeElect}" for s unsafe b
    using that by (cases s rule: BestDataHolder_cases)
      (auto simp: leaderless_act_def plan_action_def Let_def split: if_splits)
qed (auto simp: leaderless_act_def plan_action_def elects_def Let_def split: if_splits prod.splits)

lemma ghost_act_planner: "election_planner ghost_act"
proof
  show "\<exists>h. fst (BestDataHolder s) = Some h \<and> lp_masterIP (ghost_act s unsafe b) = rn_IP h"
    if "lp_action (ghost_act s unsafe b) \<in> {recoveryPromoteSurvivor, recoveryUnsafeElect}" for s unsafe b
    using that by (cases s rule: BestDataHolder_cases)
      (auto simp: ghost_act_def plan_action_def Let_def split: if_splits)
qed (auto simp: ghost_act_def plan_action_def elects_def Let_def split: if_splits prod.splits)

interpretation leaderless: election_planner
  "\<lambda>s unsafe b. planLeaderlessRecovery s q unsafe b since now cd" for q since now cd
  by (rule staged_planner [OF leaderless_act_planner planLeaderless_stages])

interpretation ghost: election_planner
  "\<lambda>s unsafe b. planGhostMasterRecovery s q unsafe b since now cd" for q since now cd
  by (rule staged_planner [OF ghost_act_planner planGhost_stages])

section \<open>Safety of the elections\<close>


lemma ghost_act_lossless:
  assumes "elects (ghost_act s False b)" and "list_all proper_replids (DataHolders s)"
  shows "AuthFailedRedisNodes s = [] \<and>
    (DataHolders s = [] \<and> b \<noteq> [] \<and> lp_masterIP (ghost_act s False b) = b \<or>
     one_lineage (DataHolders s) \<and>
     length (filter (\<lambda>h. rn_Role h = roleMaster) (DataHolders s)) \<le> 1 \<and>
     list_ex (\<lambda>h. rn_IP h = lp_masterIP (ghost_act s False b) \<and>
        list_all (\<lambda>d. rn_Offset d \<le> rn_Offset h) (DataHolders s)) (DataHolders s))"
proof (cases s rule: BestDataHolder_cases)
  case 1
  with assms(1) show ?thesis
    by (auto simp: ghost_act_def plan_action_def elects_def Let_def split: if_splits)
next
  case (2 h d f)
  with assms(1) have "\<not> d" "\<not> f" "AuthFailedRedisNodes s = []" "lp_masterIP (ghost_act s False b) = rn_IP h"
    by (auto simp: ghost_act_def plan_action_def elects_def Let_def split: if_splits)
  moreover have "d = holdersDiverged (DataHolders s)" "f = holdersForked (DataHolders s)"
    using 2 by (auto simp: BestDataHolder_def split: list.splits)
  moreover have "h \<in> set (DataHolders s)" "list_all (\<lambda>d. rn_Offset d \<le> rn_Offset h) (DataHolders s)"
    using BestDataHolder_Some [of s h] 2 by (auto simp: list_all_iff at_most_def)
  ultimately show ?thesis
    using holdersDiverged_lineage [OF assms(2)] by (auto simp: holdersForked_def list_ex_iff)
qed


definition bare_example :: ReplicationState where
  "bare_example = NewReplicationState\<lparr>
     RedisNodes := [(''10.0.0.1'', (holder_example ''d1'' ''0000'')\<lparr>rn_MasterHost := ''10.0.0.9''\<rparr>)],
     SentinelNodes := map (\<lambda>ip. (ip, (sentinel_example ip [])\<lparr>sn_Monitoring := False\<rparr>)) [''s1'', ''s2''],
     LiveTopologyIPs := {''10.0.0.1'', ''s1'', ''s2''}\<rparr>"

definition pinned_example :: ReplicationState where
  "pinned_example = bare_example\<lparr>
     RedisNodes := [(''10.0.0.1'', holder_example ''d1'' ''0000''),
       (''10.0.0.2'', (holder_example ''a2'' ''d1'')\<lparr>rn_IP := ''10.0.0.2'', rn_Offset := 20\<rparr>)],
     SentinelNodes := map (\<lambda>ip. (ip, sentinel_example ip ''10.0.0.9'')) [''s1'', ''s2'']\<rparr>"



section \<open>The executors over sequences of passes\<close>

type_synonym recovery_obs = "recovery_env \<times> recovery_ctx \<times> ReplicationState"

definition pass_step ::
  "(recovery_env \<Rightarrow> recovery_ctx \<Rightarrow> ReplicationState \<Rightarrow> recovery_status \<Rightarrow> outcome) \<Rightarrow>
   recovery_obs \<Rightarrow> recovery_status \<Rightarrow> go_panic + recovery_status \<times> bool" where
  "pass_step f ob st =
     (case ob of (env, cx, state) \<Rightarrow>
        case f env cx state st of Inl p \<Rightarrow> Inl p | Inr (err, st', cs) \<Rightarrow> Inr (st', cs \<noteq> []))"

definition obs_clock :: "recovery_obs \<Rightarrow> time" where
  "obs_clock ob = cx_now (fst (snd ob))"

definition writes_succeed :: "recovery_obs \<Rightarrow> bool" where
  "writes_succeed ob \<longleftrightarrow> en_statusWrite (fst ob) = None"

definition leaderless_seen :: "recovery_obs \<Rightarrow> bool" where
  "leaderless_seen ob \<longleftrightarrow> (case ob of (env, cx, state) \<Rightarrow>
     RealMasterIP state = [] \<and> leaderless_signature state (spec_quorum (cx_spec cx)))"

definition ghost_seen :: "recovery_obs \<Rightarrow> bool" where
  "ghost_seen ob \<longleftrightarrow> (case ob of (env, cx, state) \<Rightarrow>
     RealMasterIP state = [] \<and> ghost_signature state (spec_quorum (cx_spec cx)))"

text \<open>What an executor may do to its marker: keep it, clear it, or set it when it is not set.\<close>

definition since_ok :: "time \<Rightarrow> recovery_status \<Rightarrow> recovery_status \<Rightarrow> bool" where
  "since_ok now st st' \<longleftrightarrow> rs_since st' = None \<or> rs_since st' = rs_since st \<or>
     rs_since st = None \<and> rs_since st' = Some now"

lemma since_ok_simps [simp]:
  "since_ok now st st"
  "since_ok now st (snd (clearSince env reason msg st))"
  "since_ok now st (snd (setSince env msg now st))"
  "since_ok now st (snd (setCondition env b reason msg st))"
  by (auto simp: since_ok_def clearSince_def setSince_def setCondition_def split: option.splits)

lemma clearSince_clears [simp]:
  "en_statusWrite env = None \<Longrightarrow> rs_since (snd (clearSince env reason msg st)) = None"
  by (auto simp: clearSince_def)

lemma elect_and_clear_since:
  "elect_and_clear env cx state ip reason msg st = Inr (err, st', cs) \<Longrightarrow> since_ok now st st'"
  by (auto simp: elect_and_clear_def split: prod.splits option.splits)
     (metis since_ok_simps(2) snd_conv)

lemma leaderless_executor:
  assumes "recoverLeaderlessDeadlock env cx state st = Inr (err, st', cs)"
  defines "plan \<equiv> planLeaderlessRecovery state (spec_quorum (cx_spec cx)) (spec_allowUnsafe (cx_spec cx))
    (pickBootstrapMasterIP (cx_name cx) (cx_redisMap cx)) (rs_since st) (cx_now cx) leaderlessRecoveryCooldown"
  shows "(cs \<noteq> [] \<longrightarrow> elects plan) \<and>
    (lp_action plan = recoveryClearMarker \<and> en_statusWrite env = None \<longrightarrow> rs_since st' = None) \<and>
    since_ok (cx_now cx) st st'"
  using assms(1) unfolding recoverLeaderlessDeadlock_def plan_def [symmetric] Let_def
  by (cases "lp_action plan")
     (auto simp: elects_def no_cmds_def dest: elect_and_clear_since split: option.splits)

lemma ghost_executor:
  assumes "recoverGhostMasterDeadlock env cx state st = Inr (err, st', cs)"
  defines "plan \<equiv> planGhostMasterRecovery state (spec_quorum (cx_spec cx)) (spec_allowUnsafe (cx_spec cx))
    (pickBootstrapMasterIP (cx_name cx) (cx_redisMap cx)) (rs_since st) (cx_now cx) ghostMasterRecoveryCooldown"
  shows "(cs \<noteq> [] \<longrightarrow> elects plan) \<and>
    (lp_action plan = recoveryClearMarker \<and> en_statusWrite env = None \<longrightarrow> rs_since st' = None) \<and>
    since_ok (cx_now cx) st st'"
  using assms(1) unfolding recoverGhostMasterDeadlock_def plan_def [symmetric] Let_def
  by (cases "lp_action plan")
     (auto simp: elects_def no_cmds_def dest: elect_and_clear_since split: option.splits)

text \<open>A planner with the three stages elects only with the signature and after the cooldown.\<close>

lemma staged_elects:
  assumes "plan = (if \<not> sig then plan_action recoveryClearMarker
     else case since of None \<Rightarrow> plan_action recoveryStartCooldown
       | Some u \<Rightarrow> if Sub now u < cd then plan_action recoveryWait else act)"
  shows "(\<not> sig \<longrightarrow> lp_action plan = recoveryClearMarker) \<and>
    (elects plan \<longrightarrow> sig \<and> (\<exists>u. since = Some u \<and> cd \<le> Sub now u))"
  by (auto simp: assms elects_def plan_action_def split: option.splits)

lemmas leaderless_elects = staged_elects [OF planLeaderless_stages]
lemmas ghost_elects = staged_elects [OF planGhost_stages]

lemma leaderless_pass_law:
  assumes "pass_step leaderless_pass (env, cx, state) st = Inr (st', acted)"
  shows "since_ok (cx_now cx) st st' \<and>
    (acted \<longrightarrow> leaderless_seen (env, cx, state) \<and>
       (\<exists>u. rs_since st = Some u \<and> leaderlessRecoveryCooldown \<le> Sub (cx_now cx) u)) \<and>
    (\<not> leaderless_seen (env, cx, state) \<and> en_statusWrite env = None \<longrightarrow> rs_since st' = None)"
proof (cases "RealMasterIP state = []")
  case True
  then obtain err cs where "recoverLeaderlessDeadlock env cx state st = Inr (err, st', cs)" "acted \<longleftrightarrow> cs \<noteq> []"
    using assms by (auto simp: pass_step_def leaderless_pass_def split: sum.splits)
  with leaderless_executor [OF this(1)] leaderless_elects True show ?thesis
    by (auto simp: leaderless_seen_def)
next
  case False
  then show ?thesis
    using assms by (auto simp: pass_step_def leaderless_pass_def no_cmds_def leaderless_seen_def)
qed

lemma ghost_pass_law:
  assumes "pass_step ghost_pass (env, cx, state) st = Inr (st', acted)"
  shows "since_ok (cx_now cx) st st' \<and>
    (acted \<longrightarrow> ghost_seen (env, cx, state) \<and>
       (\<exists>u. rs_since st = Some u \<and> ghostMasterRecoveryCooldown \<le> Sub (cx_now cx) u)) \<and>
    (\<not> ghost_seen (env, cx, state) \<and> en_statusWrite env = None \<longrightarrow> rs_since st' = None)"
proof (cases "RealMasterIP state = []")
  case True
  then obtain err cs where "recoverGhostMasterDeadlock env cx state st = Inr (err, st', cs)" "acted \<longleftrightarrow> cs \<noteq> []"
    using assms by (auto simp: pass_step_def ghost_pass_def split: sum.splits)
  with ghost_executor [OF this(1)] ghost_elects True show ?thesis
    by (auto simp: ghost_seen_def)
next
  case False
  then show ?thesis
    using assms by (auto simp: pass_step_def ghost_pass_def no_cmds_def ghost_seen_def)
qed

interpretation leaderless_gate: cooldown_gate
  "pass_step leaderless_pass" obs_clock writes_succeed leaderless_seen rs_since leaderlessRecoveryCooldown
proof (unfold_locales, goal_cases)
  case (1 ob s s' acted)
  then show ?case using leaderless_pass_law by (cases ob) (auto simp: writes_succeed_def)
next
  case (2 ob s s' acted)
  then show ?case using leaderless_pass_law [of _ _ _ s s' acted]
    by (cases ob) (fastforce simp: since_ok_def obs_clock_def)
next
  case (3 ob s u s' acted)
  then show ?case using leaderless_pass_law [of _ _ _ s s' acted]
    by (cases ob) (fastforce simp: since_ok_def obs_clock_def)
qed

interpretation ghost_gate: cooldown_gate
  "pass_step ghost_pass" obs_clock writes_succeed ghost_seen rs_since ghostMasterRecoveryCooldown
proof (unfold_locales, goal_cases)
  case (1 ob s s' acted)
  then show ?case using ghost_pass_law by (cases ob) (auto simp: writes_succeed_def)
next
  case (2 ob s s' acted)
  then show ?case using ghost_pass_law [of _ _ _ s s' acted]
    by (cases ob) (fastforce simp: since_ok_def obs_clock_def)
next
  case (3 ob s u s' acted)
  then show ?case using ghost_pass_law [of _ _ _ s s' acted]
    by (cases ob) (fastforce simp: since_ok_def obs_clock_def)
qed


text \<open>
  The ghost-master recovery acts only on a persistent deadlock, in the same sense: every pass of
  the run saw a majority of the Sentinels pinned to a ghost and no promotable replica.
\<close>

lemma ghost_recovery_waits:
  assumes "rs_since st = None" and "list_all writes_succeed obs"
    and "i < length (passes (pass_step ghost_pass) st obs)"
    and "snd (passes (pass_step ghost_pass) st obs ! i)"
  shows "\<exists>j < i. (\<forall>k. j \<le> k \<and> k \<le> i \<longrightarrow> ghost_seen (obs ! k)) \<and>
    30 * second \<le> Sub (obs_clock (obs ! i)) (obs_clock (obs ! j))"
  using ghost_gate.act_after_cooldown [OF assms] by (simp add: ghostMasterRecoveryCooldown_def)

definition env_example :: recovery_env where
  "env_example = \<lparr>en_sentinelPods = Inr [\<lparr>pd_Name = ''s-0'', pd_PodIP = ''s1'', pd_Deleting = False\<rparr>],
     en_getMaster = (\<lambda>_. Inl (Errorf ''redis: nil'')), en_monitor = (\<lambda>_. None), en_slaveOf = (\<lambda>_. None),
     en_statusWrite = None\<rparr>"

definition cx_example :: "time \<Rightarrow> recovery_ctx" where
  "cx_example t = \<lparr>cx_name = ''lr'', cx_spec = None, cx_password = [],
     cx_redisMap = [(''10.0.0.1'', ''lr-redis-0'')], cx_now = t\<rparr>"

definition status_example :: recovery_status where
  "status_example = \<lparr>rs_since = None, rs_condition = None\<rparr>"

definition obs_example :: "ReplicationState \<Rightarrow> recovery_obs list" where
  "obs_example state = [(env_example, cx_example 5, state), (env_example, cx_example (40 * second), state)]"


lemma ghost_recovery_waits_witness:
  "ghost_seen (env_example, cx_example 5, pinned_example) \<and>
   ghost_seen (env_example, cx_example (40 * second), pinned_example)"
proof -
  have "rs_since status_example = None" "list_all writes_succeed (obs_example pinned_example)"
    "1 < length (passes (pass_step ghost_pass) status_example (obs_example pinned_example))"
    "snd (passes (pass_step ghost_pass) status_example (obs_example pinned_example) ! 1)"
    by code_simp+
  from ghost_recovery_waits [OF this] obtain j where j: "j < 1"
    "\<forall>k. j \<le> k \<and> k \<le> 1 \<longrightarrow> ghost_seen (obs_example pinned_example ! k)" by blast
  from j(2) [THEN spec, of 0] j(2) [THEN spec, of 1] j(1) show ?thesis
    by (simp add: obs_example_def)
qed

section \<open>The two recoveries exclude each other\<close>

lemma signatures_exclusive: "leaderless_signature s q \<Longrightarrow> \<not> ghost_signature s q'"
proof
  assume "leaderless_signature s q" and g: "ghost_signature s q'"
  then have "\<forall>sn \<in> set (sentinel_nodes s). \<not> (sn_Reachable sn \<and> sn_Monitoring sn)"
    by (auto simp: leaderless_signature_def AllSentinelsBare_def Let_def filter_empty_conv)
  then have "filter (\<lambda>sn. sn_Reachable sn \<and> sn_Monitoring sn \<and> sn_MasterIP sn \<noteq> [] \<and>
      IsGhost s (sn_MasterIP sn)) (sentinel_nodes s) = []"
    by (auto simp: filter_empty_conv)
  with g show False
    unfolding ghost_signature_def SentinelsMonitorGhostMaster_def Let_def by simp
qed

definition keyed_by_ip :: "ReplicationState \<Rightarrow> bool" where
  "keyed_by_ip s \<longleftrightarrow> list_all (\<lambda>(ip, n). rn_IP n = ip) (RedisNodes s)"

lemma elect_and_clear_returns: "\<exists>r. elect_and_clear env cx state ip reason msg st = Inr r"
  by (auto simp: elect_and_clear_def split: prod.splits option.splits)

lemma leaderless_pass_returns:
  assumes "keyed_by_ip state"
  shows "\<exists>r. leaderless_pass env cx state st = Inr r"
proof (cases "RealMasterIP state = []")
  case True
  let ?plan = "planLeaderlessRecovery state (spec_quorum (cx_spec cx)) (spec_allowUnsafe (cx_spec cx))
    (pickBootstrapMasterIP (cx_name cx) (cx_redisMap cx)) (rs_since st) (cx_now cx) leaderlessRecoveryCooldown"
  have "map_of (RedisNodes state) (lp_masterIP ?plan) \<noteq> None"
    if "lp_action ?plan \<in> {recoveryPromoteSurvivor, recoveryUnsafeElect}"
    using leaderless.elected_known [OF _ that] assms by (simp add: keyed_by_ip_def)
  then show ?thesis
    using True elect_and_clear_returns
    by (cases "lp_action ?plan")
      (auto simp: leaderless_pass_def recoverLeaderlessDeadlock_def no_cmds_def Let_def)
qed (simp add: leaderless_pass_def no_cmds_def)

lemma ghost_pass_returns:
  assumes "keyed_by_ip state"
  shows "\<exists>r. ghost_pass env cx state st = Inr r"
proof (cases "RealMasterIP state = []")
  case True
  let ?plan = "planGhostMasterRecovery state (spec_quorum (cx_spec cx)) (spec_allowUnsafe (cx_spec cx))
    (pickBootstrapMasterIP (cx_name cx) (cx_redisMap cx)) (rs_since st) (cx_now cx) ghostMasterRecoveryCooldown"
  have "map_of (RedisNodes state) (lp_masterIP ?plan) \<noteq> None"
    if "lp_action ?plan \<in> {recoveryPromoteSurvivor, recoveryUnsafeElect}"
    using ghost.elected_known [OF _ that] assms by (simp add: keyed_by_ip_def)
  then show ?thesis
    using True elect_and_clear_returns
    by (cases "lp_action ?plan")
      (auto simp: ghost_pass_def recoverGhostMasterDeadlock_def no_cmds_def Let_def)
qed (simp add: ghost_pass_def no_cmds_def)

text \<open>
  One pass never runs both recoveries: it returns on every state whose Redis nodes are recorded
  under their own address, and at most one of the two sends commands; with a master known it
  sends none and, when the write of the status succeeds, leaves both markers cleared.
\<close>

lemma recoverNoMaster_exclusive:
  assumes "keyed_by_ip state"
  shows "\<exists>l g cs1 cs2. recoverNoMaster env cx state (st1, st2) = Inr (l, g, cs1 @ cs2) \<and>
    (cs1 = [] \<or> cs2 = []) \<and>
    (RealMasterIP state \<noteq> [] \<longrightarrow> cs1 @ cs2 = [] \<and>
       (en_statusWrite env = None \<longrightarrow> rs_since l = None \<and> rs_since g = None))"
proof -
  obtain e1 l cs1 where l: "leaderless_pass env cx state st1 = Inr (e1, l, cs1)"
    using leaderless_pass_returns [OF assms] by (metis prod_cases3)
  obtain e2 g cs2 where g: "ghost_pass env cx state st2 = Inr (e2, g, cs2)"
    using ghost_pass_returns [OF assms] by (metis prod_cases3)
  have l': "pass_step leaderless_pass (env, cx, state) st1 = Inr (l, cs1 \<noteq> [])"
    and g': "pass_step ghost_pass (env, cx, state) st2 = Inr (g, cs2 \<noteq> [])"
    by (simp_all add: pass_step_def l g)
  have "cs1 = [] \<or> cs2 = []"
    using leaderless_pass_law [OF l'] ghost_pass_law [OF g'] signatures_exclusive
    by (auto simp: leaderless_seen_def ghost_seen_def)
  then show ?thesis
    using leaderless_pass_law [OF l'] ghost_pass_law [OF g'] l g
    by (auto simp: recoverNoMaster_def leaderless_seen_def ghost_seen_def)
qed

lemma recoverNoMaster_exclusive_witness:
  "keyed_by_ip bare_example \<and>
   (\<exists>l g cs1 cs2. recoverNoMaster env_example (cx_example 5) bare_example (status_example, status_example) =
     Inr (l, g, cs1 @ cs2) \<and> (cs1 = [] \<or> cs2 = []))"
proof -
  have k: "keyed_by_ip bare_example" by code_simp
  with recoverNoMaster_exclusive [OF k] show ?thesis by blast
qed

end
