(* ===== verification/Migration.thy ===== *)
theory Migration
  imports Cluster_Gather
begin

text \<open>
  The plan of the in-place migration from the legacy layout to one StatefulSet per shard
  (\<open>internal/redis/migration_plan.go\<close>): the phase is derived from the ground truth at every pass,
  and the plan holds the actions of that phase only. The lemmas show what each phase guarantees
  about the copies of the data, and that the shape gate accepts exactly one owner per range.

  The map from a pod name to its address is an association list; a missing entry reads as the
  empty string, as in Go.
\<close>

section \<open>Data\<close>

text \<open>\<open>MigrationUnset\<close> is the empty string, the phase of a plan for an invalid shard count.\<close>

datatype MigrationPhase =
    MigrationUnset
  | MigrationStandup
  | MigrationMeet
  | MigrationReplicate
  | MigrationFailover
  | MigrationDecommission
  | MigrationComplete

record ReplicaAttach =
  ra_ReplicaAddr :: string
  ra_MasterID :: string

record LegacyFacts =
  lf_SeedAddrs :: "string list"
  lf_LegacyNodeIDs :: "string list"
  lf_NewPodAddrs :: "(string \<times> string) list"

record FailoverAction =
  fa_Addr :: string
  fa_Force :: bool

record MigrationPlan =
  mg_Phase :: MigrationPhase
  mg_Meets :: "string list"
  mg_Replicates :: "ReplicaAttach list"
  mg_Failovers :: "FailoverAction list"
  mg_Forgets :: "string list"
  mg_DeleteLegacy :: bool
  mg_ShardsMoved :: int
  mg_TotalShards :: int
  mg_Reason :: string

definition addr_of :: "(string \<rightharpoonup> string) \<Rightarrow> string \<Rightarrow> string" where
  "addr_of addrs p = (case addrs p of None \<Rightarrow> [] | Some a \<Rightarrow> a)"

section \<open>Helpers of the planner\<close>

definition nodeOwnsRange :: "ClusterNodeState \<Rightarrow> int \<Rightarrow> int \<Rightarrow> bool" where
  "nodeOwnsRange n start end' \<longleftrightarrow>
     list_ex (\<lambda>s. case ParseSlotRange s of Inl _ \<Rightarrow> False | Inr (st, en) \<Rightarrow> st = start \<and> en = end')
       (cn_Slots n)"

definition ownerOfRange :: "ClusterGroundTruth \<Rightarrow> int \<Rightarrow> int \<Rightarrow> ClusterNodeState option" where
  "ownerOfRange gt start end' = find (\<lambda>n. nodeOwnsRange n start end') (cluster_nodes gt)"

definition IsLinkUpReplicaOf :: "ClusterNodeState option \<Rightarrow> string \<Rightarrow> bool" where
  "IsLinkUpReplicaOf rep masterNodeID \<longleftrightarrow>
     (case rep of
        None \<Rightarrow> False
      | Some n \<Rightarrow> cn_Role n = roleReplica \<and> cn_MasterNodeID n = masterNodeID \<and>
          cn_LinkStatus n = ''up'')"

definition newMasterPodName :: "string \<Rightarrow> int \<Rightarrow> string" where
  "newMasterPodName name k = name @ ''-shard-'' @ Itoa k @ ''-0''"

definition newReplicaPodName :: "string \<Rightarrow> int \<Rightarrow> int \<Rightarrow> string" where
  "newReplicaPodName name k m = name @ ''-shard-'' @ Itoa k @ ''-'' @ Itoa m"

definition shardNewPods :: "string \<Rightarrow> int \<Rightarrow> int \<Rightarrow> string list" where
  "shardNewPods name k rps =
     newMasterPodName name k # map (newReplicaPodName name k) [1..rps]"

definition expectedNewPods :: "string \<Rightarrow> int \<Rightarrow> int \<Rightarrow> string list" where
  "expectedNewPods name shards rps =
     concat (map (\<lambda>k. newMasterPodName name k # map (newReplicaPodName name k) [1..rps])
       [0..shards - 1])"

definition allNewPodsMet :: "ClusterGroundTruth \<Rightarrow> string \<Rightarrow> int \<Rightarrow> int \<Rightarrow> bool" where
  "allNewPodsMet gt name shards rps \<longleftrightarrow>
     list_all (\<lambda>p. map_of (Nodes gt) p \<noteq> None) (expectedNewPods name shards rps)"

definition missingNewPodMeets ::
    "ClusterGroundTruth \<Rightarrow> string \<Rightarrow> int \<Rightarrow> int \<Rightarrow> (string \<rightharpoonup> string) \<Rightarrow> string list" where
  "missingNewPodMeets gt name shards rps addrs =
     map (addr_of addrs)
       (filter (\<lambda>p. map_of (Nodes gt) p = None \<and> addr_of addrs p \<noteq> [])
         (expectedNewPods name shards rps))"

fun range_index :: "nat \<Rightarrow> slot_range list \<Rightarrow> int \<Rightarrow> int \<Rightarrow> int" where
  "range_index i [] st en = -1"
| "range_index i (r # rs) st en =
     (if Start r = st \<and> End r = en then int i else range_index (i + 1) rs st en)"

definition alignedRangeIndex :: "slot_range list \<Rightarrow> string \<Rightarrow> int" where
  "alignedRangeIndex ranges slotStr =
     (case ParseSlotRange slotStr of
        Inl _ \<Rightarrow> -1
      | Inr (st, en) \<Rightarrow> range_index 0 ranges st en)"

definition countShardsOnNewMasters :: "ClusterGroundTruth \<Rightarrow> string \<Rightarrow> slot_range list \<Rightarrow> int" where
  "countShardsOnNewMasters gt name ranges =
     int (length (filter
       (\<lambda>(k, r). case map_of (Nodes gt) (newMasterPodName name (int k)) of
           None \<Rightarrow> False
         | Some m \<Rightarrow> nodeOwnsRange m (Start r) (End r))
       (enumerate 0 ranges)))"

definition ownerNodeID :: "ClusterNodeState option \<Rightarrow> string" where
  "ownerNodeID owner = (case owner of None \<Rightarrow> [] | Some n \<Rightarrow> cn_NodeID n)"

definition presentLegacyNodes :: "ClusterGroundTruth \<Rightarrow> string list \<Rightarrow> ClusterNodeState list" where
  "presentLegacyNodes gt legacyIDs =
     filter (\<lambda>n. cn_NodeID n \<in> set legacyIDs) (cluster_nodes gt)"

definition presentLegacyIDsSorted :: "ClusterGroundTruth \<Rightarrow> string list \<Rightarrow> string list" where
  "presentLegacyIDsSorted gt legacyIDs = sort (map cn_NodeID (presentLegacyNodes gt legacyIDs))"

definition anyLegacyOwnsSlots :: "ClusterGroundTruth \<Rightarrow> string list \<Rightarrow> bool" where
  "anyLegacyOwnsSlots gt legacyIDs \<longleftrightarrow>
     list_ex (\<lambda>n. length (cn_Slots n) > 0) (presentLegacyNodes gt legacyIDs)"

definition countReachableMasters :: "ClusterGroundTruth \<Rightarrow> int \<times> int" where
  "countReachableMasters gt =
     (let ms = filter (\<lambda>n. cn_Role n = roleMaster \<and> length (cn_Slots n) > 0) (cluster_nodes gt)
      in (int (length (filter cn_Reachable ms)), int (length ms)))"

section \<open>Replication and failover\<close>

text \<open>
  The body of the inner loop of \<open>planReplicates\<close> for one pod, on the accumulated attachments, the
  number of deferred ones and the flag that some pod is not settled.
\<close>

definition replicate_pod ::
    "ClusterGroundTruth \<Rightarrow> (string \<rightharpoonup> string) \<Rightarrow> slot_range \<Rightarrow> ClusterNodeState option \<Rightarrow> string \<Rightarrow>
     ReplicaAttach list \<times> int \<times> bool \<Rightarrow> ReplicaAttach list \<times> int \<times> bool" where
  "replicate_pod gt addrs r owner podName acc =
     (case acc of (replicates, deferred, unsynced) \<Rightarrow>
      (case map_of (Nodes gt) podName of
         None \<Rightarrow> acc
       | Some node \<Rightarrow>
           if nodeOwnsRange node (Start r) (End r) then acc
           else if IsLinkUpReplicaOf (Some node) (ownerNodeID owner) then acc
           else (case owner of
               None \<Rightarrow> (replicates, deferred, True)
             | Some ow \<Rightarrow>
                 if cn_Role node = roleReplica \<and> cn_MasterNodeID node = cn_NodeID ow
                 then (replicates, deferred, True)
                 else if \<not> NodeKnows gt (cn_NodeID node) (cn_NodeID ow)
                 then (replicates, deferred + 1, True)
                 else (replicates @ [\<lparr>ra_ReplicaAddr = addr_of addrs podName, ra_MasterID = cn_NodeID ow\<rparr>],
                       deferred, True))))"

definition planReplicates ::
    "ClusterGroundTruth \<Rightarrow> string \<Rightarrow> int \<Rightarrow> int \<Rightarrow> slot_range list \<Rightarrow> (string \<rightharpoonup> string) \<Rightarrow>
     ReplicaAttach list \<times> int \<times> bool" where
  "planReplicates gt name shards rps ranges addrs =
     fold (\<lambda>k. let r = ranges ! nat k; owner = ownerOfRange gt (Start r) (End r)
               in fold (replicate_pod gt addrs r owner) (shardNewPods name k rps))
       [0..shards - 1] ([], 0, False)"

definition owns_its_range :: "ClusterGroundTruth \<Rightarrow> string \<Rightarrow> slot_range list \<Rightarrow> int \<Rightarrow> bool" where
  "owns_its_range gt name ranges k \<longleftrightarrow>
     (case map_of (Nodes gt) (newMasterPodName name k) of
        None \<Rightarrow> False
      | Some m0 \<Rightarrow> nodeOwnsRange m0 (Start (ranges ! nat k)) (End (ranges ! nat k)))"

definition nextFailover ::
    "ClusterGroundTruth \<Rightarrow> string \<Rightarrow> int \<Rightarrow> slot_range list \<Rightarrow> (string \<rightharpoonup> string) \<Rightarrow>
     (FailoverAction \<times> int) option" where
  "nextFailover gt name shards ranges addrs =
     (case find (\<lambda>k. \<not> owns_its_range gt name ranges k) [0..shards - 1] of
        None \<Rightarrow> None
      | Some k \<Rightarrow>
          let r = ranges ! nat k;
              m0 = map_of (Nodes gt) (newMasterPodName name k);
              force = (case ownerOfRange gt (Start r) (End r) of
                  None \<Rightarrow> False
                | Some owner \<Rightarrow> \<not> cn_Reachable owner \<and> IsLinkUpReplicaOf m0 (cn_NodeID owner))
          in Some (\<lparr>fa_Addr = addr_of addrs (newMasterPodName name k), fa_Force = force\<rparr>, k))"

section \<open>The planner\<close>

definition planStandupOrMeet ::
    "MigrationPlan \<Rightarrow> ClusterGroundTruth \<Rightarrow> string \<Rightarrow> int \<Rightarrow> int \<Rightarrow> LegacyFacts \<Rightarrow> MigrationPlan" where
  "planStandupOrMeet plan gt name shards rps legacy =
     (let meets = missingNewPodMeets gt name shards rps (map_of (lf_NewPodAddrs legacy))
      in if length meets > 0 \<and> length (lf_SeedAddrs legacy) > 0
         then plan\<lparr>mg_Phase := MigrationMeet, mg_Meets := meets,
           mg_Reason := ''MEET '' @ Itoa (int (length meets)) @ '' new pod(s) into the cluster''\<rparr>
         else plan\<lparr>mg_Phase := MigrationStandup,
           mg_Reason := ''waiting for new shard pods to come up''\<rparr>)"

definition PlanClusterMigration ::
    "ClusterGroundTruth \<Rightarrow> int \<Rightarrow> int \<Rightarrow> string \<Rightarrow> LegacyFacts \<Rightarrow> MigrationPlan" where
  "PlanClusterMigration gt shards replicasPerShard name legacy =
     (let plan = \<lparr>mg_Phase = MigrationUnset, mg_Meets = [], mg_Replicates = [], mg_Failovers = [],
                  mg_Forgets = [], mg_DeleteLegacy = False, mg_ShardsMoved = 0,
                  mg_TotalShards = shards, mg_Reason = []\<rparr>
      in if shards \<le> 0 then plan\<lparr>mg_Reason := ''invalid shard count''\<rparr>
      else
        let ranges = GenerateSlotRanges shards;
            plan = plan\<lparr>mg_ShardsMoved := countShardsOnNewMasters gt name ranges\<rparr>
        in if length (presentLegacyNodes gt (lf_LegacyNodeIDs legacy)) = 0
        then plan\<lparr>mg_Phase := MigrationComplete,
          mg_Reason := ''no legacy nodes remain; migration complete''\<rparr>
        else if \<not> allNewPodsMet gt name shards replicasPerShard
        then planStandupOrMeet plan gt name shards replicasPerShard legacy
        else case planReplicates gt name shards replicasPerShard ranges (map_of (lf_NewPodAddrs legacy)) of
          (replicates, deferred, unsynced) \<Rightarrow>
            if unsynced
            then plan\<lparr>mg_Phase := MigrationReplicate, mg_Replicates := replicates,
              mg_Reason :=
                (if deferred > 0
                 then ''replicating '' @ Itoa (int (length replicates)) @
                   '' new pod(s) onto their range owner; '' @ Itoa deferred @
                   '' deferred (owner not yet known via gossip)''
                 else ''replicating '' @ Itoa (int (length replicates)) @
                   '' new pod(s) onto their range owner'')\<rparr>
            else (case nextFailover gt name shards ranges (map_of (lf_NewPodAddrs legacy)) of
                Some (fo, k) \<Rightarrow>
                  let mode = (if fa_Force fo
                              then ''forced TAKEOVER (range owner unreachable, replica synced)''
                              else ''coordinated'')
                  in plan\<lparr>mg_Phase := MigrationFailover, mg_Failovers := [fo],
                    mg_Reason := ''promoting '' @ name @ ''-shard-'' @ Itoa k @
                      ''-0 to own range '' @
                      FormatSlotRange (Start (ranges ! nat k)) (End (ranges ! nat k)) @
                      '' ('' @ mode @ '')''\<rparr>
              | None \<Rightarrow>
                  let forgets = presentLegacyIDsSorted gt (lf_LegacyNodeIDs legacy)
                  in plan\<lparr>mg_Phase := MigrationDecommission, mg_Forgets := forgets,
                    mg_DeleteLegacy := \<not> anyLegacyOwnsSlots gt (lf_LegacyNodeIDs legacy),
                    mg_Reason := ''decommissioning '' @ Itoa (int (length forgets)) @
                      '' legacy node(s)''\<rparr>))"

section \<open>The gates\<close>

definition LegacyMigrationReady :: "ClusterGroundTruth \<Rightarrow> bool \<Rightarrow> bool" where
  "LegacyMigrationReady gt allLegacyPodsReady =
     (if ClusterState gt \<noteq> ''ok'' then False
      else if TotalSlots gt \<noteq> totalClusterSlots then False
      else if \<not> allLegacyPodsReady then False
      else case countReachableMasters gt of
        (reachable, tot) \<Rightarrow> tot > 0 \<and> reachable * 2 > tot)"

text \<open>
  The loop of \<open>LegacyShapePreserved\<close> over the nodes: None is the early return of false, otherwise
  the number of masters and the indices of the ranges they own.
\<close>

fun shape_loop ::
    "slot_range list \<Rightarrow> ClusterNodeState list \<Rightarrow> int \<Rightarrow> int list \<Rightarrow> (int \<times> int list) option" where
  "shape_loop ranges [] masters ownedIdx = Some (masters, ownedIdx)"
| "shape_loop ranges (n # ns) masters ownedIdx =
     (if cn_Role n \<noteq> roleMaster \<or> length (cn_Slots n) = 0
      then shape_loop ranges ns masters ownedIdx
      else if length (cn_Slots n) \<noteq> 1 then None
      else let idx = alignedRangeIndex ranges (cn_Slots n ! 0)
           in if idx = -1 \<or> idx \<in> set ownedIdx then None
              else shape_loop ranges ns (masters + 1) (idx # ownedIdx))"

definition LegacyShapePreserved :: "ClusterGroundTruth \<Rightarrow> int \<Rightarrow> int \<Rightarrow> bool" where
  "LegacyShapePreserved gt shards replicasPerShard =
     (if shards \<le> 0 then False
      else if int (length (Nodes gt)) \<noteq> shards * (1 + replicasPerShard) then False
      else case shape_loop (GenerateSlotRanges shards) (cluster_nodes gt) 0 [] of
        None \<Rightarrow> False
      | Some (masters, ownedIdx) \<Rightarrow> masters = shards \<and> int (length ownedIdx) = shards)"

section \<open>The phases\<close>

text \<open>A pod is settled when it owns its range or is a synced replica of the node that does.\<close>

definition settled :: "ClusterGroundTruth \<Rightarrow> slot_range \<Rightarrow> string \<Rightarrow> bool" where
  "settled gt r p \<longleftrightarrow>
     (case map_of (Nodes gt) p of
        None \<Rightarrow> True
      | Some node \<Rightarrow> nodeOwnsRange node (Start r) (End r) \<or>
          IsLinkUpReplicaOf (Some node) (ownerNodeID (ownerOfRange gt (Start r) (End r))))"

definition attach_ok :: "ClusterGroundTruth \<Rightarrow> (string \<rightharpoonup> string) \<Rightarrow> slot_range \<Rightarrow> string \<Rightarrow> ReplicaAttach \<Rightarrow> bool" where
  "attach_ok gt addrs r p a \<longleftrightarrow>
     ra_ReplicaAddr a = addr_of addrs p \<and>
     (\<exists>node ow. map_of (Nodes gt) p = Some node \<and> ownerOfRange gt (Start r) (End r) = Some ow \<and>
        ra_MasterID a = cn_NodeID ow \<and> node \<noteq> ow \<and> \<not> nodeOwnsRange node (Start r) (End r) \<and>
        NodeKnows gt (cn_NodeID node) (cn_NodeID ow))"

lemma find_SomeD: "find P xs = Some x \<Longrightarrow> x \<in> set xs \<and> P x"
  by (auto simp: find_Some_iff)

lemma ownerOfRange_SomeD:
  assumes "ownerOfRange gt st en = Some ow"
  shows "ow \<in> set (cluster_nodes gt)" "nodeOwnsRange ow st en"
  using assms find_SomeD [of _ "cluster_nodes gt" ow] by (auto simp: ownerOfRange_def)

lemma replicate_pod_spec:
  assumes "replicate_pod gt addrs r (ownerOfRange gt (Start r) (End r)) p (rs, d, u) = (rs', d', u')"
  shows "u' \<longleftrightarrow> u \<or> \<not> settled gt r p"
    and "\<forall>a\<in>set rs'. a \<in> set rs \<or> attach_ok gt addrs r p a"
  using assms ownerOfRange_SomeD(2) [of gt "Start r" "End r"]
  by (auto simp: replicate_pod_def settled_def attach_ok_def split: option.splits if_splits)

lemma replicate_pods_spec:
  assumes "fold (replicate_pod gt addrs r (ownerOfRange gt (Start r) (End r))) ps (rs, d, u) = (rs', d', u')"
  shows "(u' \<longleftrightarrow> u \<or> \<not> list_all (settled gt r) ps) \<and>
    (\<forall>a\<in>set rs'. a \<in> set rs \<or> (\<exists>p\<in>set ps. attach_ok gt addrs r p a))"
  using assms
proof (induction ps arbitrary: rs d u)
  case (Cons p ps)
  obtain rs1 d1 u1 where st: "replicate_pod gt addrs r (ownerOfRange gt (Start r) (End r)) p (rs, d, u) = (rs1, d1, u1)"
    by (metis prod_cases3)
  with Cons.prems have "fold (replicate_pod gt addrs r (ownerOfRange gt (Start r) (End r))) ps (rs1, d1, u1) = (rs', d', u')"
    by simp
  from Cons.IH [OF this] replicate_pod_spec [OF st] show ?case by fastforce
qed simp

lemma replicate_shards_spec:
  assumes "fold (\<lambda>k. let r = ranges ! nat k; owner = ownerOfRange gt (Start r) (End r)
      in fold (replicate_pod gt addrs r owner) (shardNewPods name k rps)) ks (rs, d, u) = (rs', d', u')"
  shows "(u' \<longleftrightarrow> u \<or> \<not> list_all (\<lambda>k. list_all (settled gt (ranges ! nat k)) (shardNewPods name k rps)) ks) \<and>
    (\<forall>a\<in>set rs'. a \<in> set rs \<or>
      (\<exists>k\<in>set ks. \<exists>p\<in>set (shardNewPods name k rps). attach_ok gt addrs (ranges ! nat k) p a))"
  using assms
proof (induction ks arbitrary: rs d u)
  case (Cons k ks)
  let ?r = "ranges ! nat k"
  obtain rs1 d1 u1 where st: "fold (replicate_pod gt addrs ?r (ownerOfRange gt (Start ?r) (End ?r)))
      (shardNewPods name k rps) (rs, d, u) = (rs1, d1, u1)"
    by (metis prod_cases3)
  with Cons.prems have "fold (\<lambda>k. let r = ranges ! nat k; owner = ownerOfRange gt (Start r) (End r)
      in fold (replicate_pod gt addrs r owner) (shardNewPods name k rps)) ks (rs1, d1, u1) = (rs', d', u')"
    by (simp add: Let_def)
  from Cons.IH [OF this] replicate_pods_spec [OF st] show ?case by fastforce
qed simp

lemma planReplicates_spec:
  assumes "planReplicates gt name shards rps ranges addrs = (rs, d, u)"
  shows "u \<longleftrightarrow> \<not> list_all (\<lambda>k. list_all (settled gt (ranges ! nat k)) (shardNewPods name k rps)) [0..shards - 1]"
    and "\<forall>a\<in>set rs. \<exists>k\<in>set [0..shards - 1]. \<exists>p\<in>set (shardNewPods name k rps).
      attach_ok gt addrs (ranges ! nat k) p a"
  using replicate_shards_spec [OF assms [unfolded planReplicates_def]] by auto

lemma expectedNewPods_shards:
  "expectedNewPods name shards rps = concat (map (\<lambda>k. shardNewPods name k rps) [0..shards - 1])"
  by (simp add: expectedNewPods_def shardNewPods_def)

lemma find_upto_SomeD:
  "find P [i..j] = Some k \<Longrightarrow> i \<le> k \<and> k \<le> j \<and> P k \<and> (\<forall>l. i \<le> l \<and> l < k \<longrightarrow> \<not> P l)"
proof (induction i j rule: upto.induct)
  case (1 i j)
  show ?case
  proof (cases "i \<le> j \<and> \<not> P i")
    case True
    with 1(2) have "find P [i + 1..j] = Some k" by (simp add: upto_rec1)
    with 1(1) True show ?thesis by (smt (verit))
  next
    case False
    with 1(2) show ?thesis by (cases "i \<le> j") (auto simp: upto_rec1)
  qed
qed

lemma nextFailover_SomeD:
  assumes "nextFailover gt name shards ranges addrs = Some (fo, k)"
  shows "0 \<le> k \<and> k < shards \<and> \<not> owns_its_range gt name ranges k \<and>
    list_all (owns_its_range gt name ranges) [0..k - 1] \<and>
    fa_Addr fo = addr_of addrs (newMasterPodName name k) \<and>
    (fa_Force fo \<longleftrightarrow> (\<exists>ow. ownerOfRange gt (Start (ranges ! nat k)) (End (ranges ! nat k)) = Some ow \<and>
       \<not> cn_Reachable ow \<and>
       IsLinkUpReplicaOf (map_of (Nodes gt) (newMasterPodName name k)) (cn_NodeID ow)))"
proof -
  have f: "find (\<lambda>k. \<not> owns_its_range gt name ranges k) [0..shards - 1] = Some k"
    and fo: "fa_Addr fo = addr_of addrs (newMasterPodName name k)"
      "fa_Force fo = (case ownerOfRange gt (Start (ranges ! nat k)) (End (ranges ! nat k)) of
          None \<Rightarrow> False
        | Some owner \<Rightarrow> \<not> cn_Reachable owner \<and>
            IsLinkUpReplicaOf (map_of (Nodes gt) (newMasterPodName name k)) (cn_NodeID owner))"
    using assms by (auto simp: nextFailover_def Let_def split: option.splits)
  show ?thesis
    using find_upto_SomeD [OF f] fo by (auto simp: list_all_iff split: option.splits)
qed

lemma nextFailover_NoneD:
  "nextFailover gt name shards ranges addrs = None \<Longrightarrow> list_all (owns_its_range gt name ranges) [0..shards - 1]"
  by (auto simp: nextFailover_def Let_def list_all_iff find_None_iff split: option.splits)

lemma countShards_all:
  assumes "0 \<le> shards" "list_all (owns_its_range gt name (GenerateSlotRanges shards)) [0..shards - 1]"
  shows "countShardsOnNewMasters gt name (GenerateSlotRanges shards) = shards"
proof -
  let ?P = "\<lambda>(k, r). case map_of (Nodes gt) (newMasterPodName name (int k)) of
      None \<Rightarrow> False | Some m \<Rightarrow> nodeOwnsRange m (Start r) (End r)"
  have "?P x" if x: "x \<in> set (enumerate 0 (GenerateSlotRanges shards))" for x
  proof -
    have k: "snd x = GenerateSlotRanges shards ! fst x" "int (fst x) \<in> set [0..shards - 1]"
      using x assms(1) by (auto simp: in_set_enumerate_eq GenerateSlotRanges_length)
    then have "owns_its_range gt name (GenerateSlotRanges shards) (int (fst x))"
      using assms(2) unfolding list_all_iff by blast
    then show ?thesis by (simp add: case_prod_beta k(1) owns_its_range_def split: option.splits)
  qed
  then have "filter ?P (enumerate 0 (GenerateSlotRanges shards)) = enumerate 0 (GenerateSlotRanges shards)"
    by (simp add: filter_id_conv)
  with assms(1) show ?thesis
    by (simp add: countShardsOnNewMasters_def GenerateSlotRanges_length)
qed

text \<open>The facts that hold once the plan is past replication.\<close>

definition all_settled :: "ClusterGroundTruth \<Rightarrow> string \<Rightarrow> int \<Rightarrow> int \<Rightarrow> bool" where
  "all_settled gt name shards rps \<longleftrightarrow>
     list_all (\<lambda>k. list_all (\<lambda>p. map_of (Nodes gt) p \<noteq> None \<and> settled gt (GenerateSlotRanges shards ! nat k) p)
       (shardNewPods name k rps)) [0..shards - 1]"

definition known_masters :: "ClusterGroundTruth \<Rightarrow> bool" where
  "known_masters gt \<longleftrightarrow>
     list_all (\<lambda>n. cn_Role n = roleReplica \<longrightarrow> cn_MasterNodeID n \<noteq> []) (cluster_nodes gt)"

lemmas plan_simps = PlanClusterMigration_def planStandupOrMeet_def Let_def

lemma plan_past_replication:
  assumes "mg_Phase (PlanClusterMigration gt shards rps name legacy) \<in> {MigrationFailover, MigrationDecommission}"
  shows "0 < shards \<and> all_settled gt name shards rps \<and>
    presentLegacyNodes gt (lf_LegacyNodeIDs legacy) \<noteq> [] \<and>
    (\<exists>rs d. planReplicates gt name shards rps (GenerateSlotRanges shards) (map_of (lf_NewPodAddrs legacy)) = (rs, d, False))"
proof -
  obtain rs d u where pr:
    "planReplicates gt name shards rps (GenerateSlotRanges shards) (map_of (lf_NewPodAddrs legacy)) = (rs, d, u)"
    by (metis prod_cases3)
  have "0 < shards" "presentLegacyNodes gt (lf_LegacyNodeIDs legacy) \<noteq> []" "\<not> u"
    "allNewPodsMet gt name shards rps"
    using assms pr by (auto simp: plan_simps split: if_splits)
  moreover from this planReplicates_spec(1) [OF pr] have "all_settled gt name shards rps"
    by (auto simp: all_settled_def allNewPodsMet_def expectedNewPods_shards list_all_iff)
  ultimately show ?thesis using pr by simp
qed

lemma all_settled_master:
  assumes "all_settled gt name shards rps" "0 \<le> k" "k < shards"
  obtains m0 where "map_of (Nodes gt) (newMasterPodName name k) = Some m0"
    "settled gt (GenerateSlotRanges shards ! nat k) (newMasterPodName name k)"
proof -
  have "newMasterPodName name k \<in> set (shardNewPods name k rps)" "k \<in> set [0..shards - 1]"
    using assms(2,3) by (simp_all add: shardNewPods_def)
  then have "map_of (Nodes gt) (newMasterPodName name k) \<noteq> None"
    "settled gt (GenerateSlotRanges shards ! nat k) (newMasterPodName name k)"
    using assms(1) unfolding all_settled_def list_all_iff by blast+
  with that show thesis by blast
qed

lemma link_up_owner_exists:
  assumes "known_masters gt" "map_of (Nodes gt) p = Some m0"
    "IsLinkUpReplicaOf (Some m0) (ownerNodeID owner)"
  obtains ow where "owner = Some ow" "IsLinkUpReplicaOf (Some m0) (cn_NodeID ow)"
proof -
  have "m0 \<in> set (cluster_nodes gt)" using map_of_SomeD [OF assms(2)] by force
  then have "cn_Role m0 = roleReplica \<longrightarrow> cn_MasterNodeID m0 \<noteq> []"
    using assms(1) unfolding known_masters_def list_all_iff by blast
  then show thesis
    using that assms(3) by (cases owner) (auto simp: IsLinkUpReplicaOf_def ownerNodeID_def)
qed

lemma plan_failover:
  assumes "mg_Phase (PlanClusterMigration gt shards rps name legacy) = MigrationFailover"
  obtains fo k where "mg_Failovers (PlanClusterMigration gt shards rps name legacy) = [fo]"
    "nextFailover gt name shards (GenerateSlotRanges shards) (map_of (lf_NewPodAddrs legacy)) = Some (fo, k)"
  using assms plan_past_replication [of gt shards rps name legacy]
  by (auto simp: plan_simps split: if_splits option.splits)

text \<open>
  C25: the migration promotes one pod per pass, and only once every new pod is a member of the
  cluster and settled. The promoted pod is the new master of the lowest shard that does not own its
  range yet, an owner of that range exists, and the pod is a replica of it with the link up; the
  takeover is forced exactly when that owner is unreachable. The hypothesis is that a replica of the
  ground truth names its master.
\<close>

theorem migration_failover_synced:
  assumes "mg_Phase (PlanClusterMigration gt shards rps name legacy) = MigrationFailover"
    and "known_masters gt"
  shows "\<exists>k fo m0 ow. mg_Failovers (PlanClusterMigration gt shards rps name legacy) = [fo] \<and>
    0 \<le> k \<and> k < shards \<and> all_settled gt name shards rps \<and>
    list_all (owns_its_range gt name (GenerateSlotRanges shards)) [0..k - 1] \<and>
    \<not> owns_its_range gt name (GenerateSlotRanges shards) k \<and>
    map_of (Nodes gt) (newMasterPodName name k) = Some m0 \<and>
    fa_Addr fo = addr_of (map_of (lf_NewPodAddrs legacy)) (newMasterPodName name k) \<and>
    ow \<in> set (cluster_nodes gt) \<and>
    nodeOwnsRange ow (Start (GenerateSlotRanges shards ! nat k)) (End (GenerateSlotRanges shards ! nat k)) \<and>
    IsLinkUpReplicaOf (Some m0) (cn_NodeID ow) \<and>
    (fa_Force fo \<longleftrightarrow> \<not> cn_Reachable ow)"
proof -
  obtain fo k where fo: "mg_Failovers (PlanClusterMigration gt shards rps name legacy) = [fo]"
    "nextFailover gt name shards (GenerateSlotRanges shards) (map_of (lf_NewPodAddrs legacy)) = Some (fo, k)"
    using plan_failover [OF assms(1)] by blast
  let ?r = "GenerateSlotRanges shards ! nat k"
  note nf = nextFailover_SomeD [OF fo(2)]
  have st: "all_settled gt name shards rps" using plan_past_replication [of gt shards rps name legacy] assms(1) by auto
  obtain m0 where m0: "map_of (Nodes gt) (newMasterPodName name k) = Some m0"
    "settled gt ?r (newMasterPodName name k)"
    using all_settled_master [OF st] nf by metis
  then have "IsLinkUpReplicaOf (Some m0) (ownerNodeID (ownerOfRange gt (Start ?r) (End ?r)))"
    using nf by (auto simp: settled_def owns_its_range_def)
  then obtain ow where ow: "ownerOfRange gt (Start ?r) (End ?r) = Some ow"
    "IsLinkUpReplicaOf (Some m0) (cn_NodeID ow)"
    using link_up_owner_exists [OF assms(2) m0(1)] by metis
  show ?thesis
    using fo(1) nf st m0(1) ow ownerOfRange_SomeD [OF ow(1)]
    by (intro exI [of _ k] exI [of _ fo] exI [of _ m0] exI [of _ ow]) simp
qed

lemma plan_decommission:
  assumes "mg_Phase (PlanClusterMigration gt shards rps name legacy) = MigrationDecommission"
  shows "list_all (owns_its_range gt name (GenerateSlotRanges shards)) [0..shards - 1] \<and>
    all_settled gt name shards rps \<and>
    mg_ShardsMoved (PlanClusterMigration gt shards rps name legacy) = shards \<and>
    set (mg_Forgets (PlanClusterMigration gt shards rps name legacy)) =
      set (map cn_NodeID (cluster_nodes gt)) \<inter> set (lf_LegacyNodeIDs legacy) \<and>
    (mg_DeleteLegacy (PlanClusterMigration gt shards rps name legacy) \<longleftrightarrow>
      list_all (\<lambda>n. cn_NodeID n \<in> set (lf_LegacyNodeIDs legacy) \<longrightarrow> cn_Slots n = []) (cluster_nodes gt))"
proof -
  let ?p = "PlanClusterMigration gt shards rps name legacy"
  obtain rs d where past: "0 < shards" "all_settled gt name shards rps"
    "presentLegacyNodes gt (lf_LegacyNodeIDs legacy) \<noteq> []"
    "planReplicates gt name shards rps (GenerateSlotRanges shards) (map_of (lf_NewPodAddrs legacy)) = (rs, d, False)"
    using plan_past_replication assms by blast
  then have nf: "nextFailover gt name shards (GenerateSlotRanges shards) (map_of (lf_NewPodAddrs legacy)) = None"
    and met: "allNewPodsMet gt name shards rps"
    using assms by (auto simp: plan_simps split: if_splits option.splits)
  note owns = nextFailover_NoneD [OF nf]
  have "mg_Forgets ?p = presentLegacyIDsSorted gt (lf_LegacyNodeIDs legacy)"
    "mg_DeleteLegacy ?p = (\<not> anyLegacyOwnsSlots gt (lf_LegacyNodeIDs legacy))"
    "mg_ShardsMoved ?p = shards"
    using past nf met countShards_all [OF _ owns] by (simp_all add: plan_simps)
  then show ?thesis
    using owns past(2)
    by (auto simp: presentLegacyIDsSorted_def anyLegacyOwnsSlots_def presentLegacyNodes_def list_all_iff list_ex_iff)
qed

text \<open>
  the legacy nodes are forgotten only when the new master of every shard owns its range, every
  new pod is settled and all the shards count as moved. The forgotten nodes are exactly the legacy
  nodes of the ground truth, and the legacy StatefulSet is deleted exactly when none of them is seen
  to own a slot.
\<close>

lemma migration_decommission_complete:
  assumes "mg_Phase (PlanClusterMigration gt shards rps name legacy) = MigrationDecommission"
  shows "list_all (owns_its_range gt name (GenerateSlotRanges shards)) [0..shards - 1] \<and>
    all_settled gt name shards rps \<and>
    mg_ShardsMoved (PlanClusterMigration gt shards rps name legacy) = shards \<and>
    set (mg_Forgets (PlanClusterMigration gt shards rps name legacy)) =
      set (map cn_NodeID (cluster_nodes gt)) \<inter> set (lf_LegacyNodeIDs legacy) \<and>
    (mg_DeleteLegacy (PlanClusterMigration gt shards rps name legacy) \<longleftrightarrow>
      list_all (\<lambda>n. cn_NodeID n \<in> set (lf_LegacyNodeIDs legacy) \<longrightarrow> cn_Slots n = []) (cluster_nodes gt))"
  by (rule plan_decommission [OF assms])

section \<open>The shape gate\<close>

lemma slot_loop_starts:
  assumes "0 < per"
  shows "(\<forall>rg\<in>set (slot_loop shards per r i start). start \<le> Start rg) \<and>
    distinct (map Start (slot_loop shards per r i start))"
  using assms
proof (induction shards per r i start rule: slot_loop.induct)
  case (1 shards per r i start)
  show ?case
  proof (cases "i < shards")
    case True
    obtain c where c: "c = (if i < r then per + 1 else per)" by simp
    have IH: "(\<forall>rg\<in>set (slot_loop shards per r (i + 1) (start + c)). start + c \<le> Start rg) \<and>
        distinct (map Start (slot_loop shards per r (i + 1) (start + c)))"
      using "1.IH" [of c] True "1.prems" c by simp
    moreover have "0 < c" using c "1.prems" by simp
    ultimately show ?thesis by (fastforce simp: slot_loop_Cons [OF True c])
  qed simp
qed

lemma ranges_distinct:
  "0 < shards \<Longrightarrow> shards \<le> 16384 \<Longrightarrow> distinct (map Start (GenerateSlotRanges shards))"
  using slot_loop_starts [of "16384 div shards" shards "16384 mod shards" 0 0]
  by (simp add: GenerateSlotRanges_def pos_imp_zdiv_pos_iff)

lemma range_index_bounds:
  "range_index i rs st en = -1 \<or> int i \<le> range_index i rs st en \<and> range_index i rs st en < int (i + length rs)"
  by (induction i rs st en rule: range_index.induct) auto

lemma range_index_iff:
  "distinct (map Start rs) \<Longrightarrow> j < length rs \<Longrightarrow>
   range_index i rs st en = int (i + j) \<longleftrightarrow> Start (rs ! j) = st \<and> End (rs ! j) = en"
proof (induction i rs st en arbitrary: j rule: range_index.induct)
  case (2 i r rs st en)
  show ?case
  proof (cases "Start r = st \<and> End r = en")
    case True
    with 2(2,3) show ?thesis by (cases j) (auto, metis image_eqI nth_mem)
  next
    case False
    show ?thesis
    proof (cases j)
      case 0
      with False range_index_bounds [of "i + 1" rs st en] show ?thesis by auto
    next
      case (Suc m)
      with 2(1) [OF False, of m] 2(2,3) False show ?thesis by auto
    qed
  qed
qed simp

definition slot_masters :: "ClusterNodeState list \<Rightarrow> ClusterNodeState list" where
  "slot_masters ns = filter (\<lambda>n. cn_Role n = roleMaster \<and> length (cn_Slots n) > 0) ns"

definition owned_index :: "slot_range list \<Rightarrow> ClusterNodeState \<Rightarrow> int" where
  "owned_index ranges n = alignedRangeIndex ranges (cn_Slots n ! 0)"

lemma owned_index_iff:
  assumes "distinct (map Start ranges)" "length (cn_Slots n) = 1" "0 \<le> k" "k < int (length ranges)"
  shows "owned_index ranges n = k \<longleftrightarrow> nodeOwnsRange n (Start (ranges ! nat k)) (End (ranges ! nat k))"
proof -
  obtain s where "cn_Slots n = [s]" using assms(2) by (auto simp: length_Suc_conv)
  moreover have "int (nat k) = k" "nat k < length ranges" using assms(3,4) by auto
  ultimately show ?thesis
    using range_index_iff [OF assms(1), of "nat k" 0] assms(3)
    by (auto simp: owned_index_def alignedRangeIndex_def nodeOwnsRange_def split: sum.splits)
qed

lemma shape_loop_spec:
  "shape_loop ranges ns m owned = Some (m', owned') \<longleftrightarrow>
     list_all (\<lambda>n. length (cn_Slots n) = 1) (slot_masters ns) \<and>
     -1 \<notin> set (map (owned_index ranges) (slot_masters ns)) \<and>
     distinct (map (owned_index ranges) (slot_masters ns)) \<and>
     set (map (owned_index ranges) (slot_masters ns)) \<inter> set owned = {} \<and>
     m' = m + int (length (slot_masters ns)) \<and>
     owned' = rev (map (owned_index ranges) (slot_masters ns)) @ owned"
proof (induction ns arbitrary: m owned)
  case Nil
  show ?case by (auto simp: slot_masters_def)
next
  case (Cons n ns)
  show ?case
  proof (cases "cn_Role n = roleMaster \<and> length (cn_Slots n) > 0")
    case False
    then have "slot_masters (n # ns) = slot_masters ns" by (auto simp: slot_masters_def)
    with False Cons show ?thesis by auto
  next
    case True
    then have "slot_masters (n # ns) = n # slot_masters ns" by (simp add: slot_masters_def)
    with True Cons show ?thesis
      by (auto simp: Let_def owned_index_def [symmetric])
  qed
qed

lemma shape_loop_accepts:
  "(case shape_loop ranges ns 0 [] of None \<Rightarrow> False | Some (m, ow) \<Rightarrow> m = s \<and> int (length ow) = s) \<longleftrightarrow>
     list_all (\<lambda>n. length (cn_Slots n) = 1) (slot_masters ns) \<and>
     -1 \<notin> set (map (owned_index ranges) (slot_masters ns)) \<and>
     distinct (map (owned_index ranges) (slot_masters ns)) \<and> int (length (slot_masters ns)) = s"
proof -
  have "(case shape_loop ranges ns 0 [] of None \<Rightarrow> False | Some (m, ow) \<Rightarrow> m = s \<and> int (length ow) = s) \<longleftrightarrow>
      (\<exists>m ow. shape_loop ranges ns 0 [] = Some (m, ow) \<and> m = s \<and> int (length ow) = s)"
    by (auto split: option.splits)
  then show ?thesis unfolding shape_loop_spec by auto
qed

lemma permutation_counts:
  fixes I :: "int list"
  assumes "int (length I) = n"
  shows "distinct I \<and> set I \<subseteq> {0..n - 1} \<longleftrightarrow> (\<forall>k\<in>{0..n - 1}. length (filter (\<lambda>i. i = k) I) = 1)"
proof
  assume I: "distinct I \<and> set I \<subseteq> {0..n - 1}"
  then have "card (set I) = card {0..n - 1}" using assms by (simp add: distinct_card)
  with I have "set I = {0..n - 1}" by (simp add: card_subset_eq)
  with I show "\<forall>k\<in>{0..n - 1}. length (filter (\<lambda>i. i = k) I) = 1"
    by (auto simp: distinct_length_filter)
next
  assume c: "\<forall>k\<in>{0..n - 1}. length (filter (\<lambda>i. i = k) I) = 1"
  have "k \<in> set I" if "k \<in> {0..n - 1}" for k
  proof -
    from c that have "filter (\<lambda>i. i = k) I \<noteq> []" by fastforce
    then show ?thesis by (auto simp: filter_empty_conv)
  qed
  then have sub: "{0..n - 1} \<subseteq> set I" by blast
  moreover have "card (set I) \<le> card {0..n - 1}" using assms card_length [of I] by simp
  ultimately have "{0..n - 1} = set I" by (simp add: card_seteq)
  with assms show "distinct I \<and> set I \<subseteq> {0..n - 1}" by (metis card_atLeastAtMost_int card_distinct
    diff_add_cancel diff_zero nat_int order_refl)
qed

text \<open>
  for a shard count that leaves no shard empty, the shape gate accepts a legacy cluster exactly
  when it has the member count of the new layout, as many slot-owning masters as shards, each with
  one slot entry, and exactly one of them owns each generated range.
\<close>

lemma LegacyShapePreserved_exact:
  assumes "0 < shards" "shards \<le> 16384"
  shows "LegacyShapePreserved gt shards rps \<longleftrightarrow>
    int (length (Nodes gt)) = shards * (1 + rps) \<and>
    int (length (slot_masters (cluster_nodes gt))) = shards \<and>
    list_all (\<lambda>n. length (cn_Slots n) = 1) (slot_masters (cluster_nodes gt)) \<and>
    list_all (\<lambda>r. length (filter (\<lambda>n. nodeOwnsRange n (Start r) (End r)) (slot_masters (cluster_nodes gt))) = 1)
      (GenerateSlotRanges shards)"
proof -
  let ?R = "GenerateSlotRanges shards" and ?M = "slot_masters (cluster_nodes gt)"
  let ?I = "map (owned_index ?R) ?M"
  have len: "int (length ?R) = shards" using assms by (simp add: GenerateSlotRanges_length)
  have bounds: "owned_index ?R n = -1 \<or> owned_index ?R n \<in> {0..shards - 1}" for n
    using range_index_bounds [of 0 ?R] len
    by (fastforce simp: owned_index_def alignedRangeIndex_def split: sum.splits)
  have owns: "length (filter (\<lambda>i. i = int k) ?I) =
      length (filter (\<lambda>n. nodeOwnsRange n (Start (?R ! k)) (End (?R ! k))) ?M)"
    if "list_all (\<lambda>n. length (cn_Slots n) = 1) ?M" "k < length ?R" for k
  proof -
    have "filter ((\<lambda>i. i = int k) \<circ> owned_index ?R) ?M =
        filter (\<lambda>n. nodeOwnsRange n (Start (?R ! k)) (End (?R ! k))) ?M"
      using that owned_index_iff [OF ranges_distinct [OF assms], of _ "int k"] len
      by (intro filter_cong) (auto simp: list_all_iff)
    then show ?thesis by (simp add: filter_map)
  qed
  have "{0..shards - 1} = int ` {0..<length ?R}"
    unfolding image_int_atLeastLessThan using len by auto
  then have idx: "(\<forall>k\<in>{0..shards - 1}. P k) \<longleftrightarrow> (\<forall>k<length ?R. P (int k))" for P :: "int \<Rightarrow> bool"
    by auto
  have "owned_index ?R n \<in> {0..shards - 1}" if "-1 \<notin> set ?I" "n \<in> set ?M" for n
    using bounds [of n] that by force
  then have "-1 \<notin> set ?I \<longleftrightarrow> set ?I \<subseteq> {0..shards - 1}" by auto
  then have "LegacyShapePreserved gt shards rps \<longleftrightarrow>
      int (length (Nodes gt)) = shards * (1 + rps) \<and> int (length ?M) = shards \<and>
      list_all (\<lambda>n. length (cn_Slots n) = 1) ?M \<and> distinct ?I \<and> set ?I \<subseteq> {0..shards - 1}"
    using assms(1) by (auto simp: LegacyShapePreserved_def shape_loop_accepts)
  also have "\<dots> \<longleftrightarrow> int (length (Nodes gt)) = shards * (1 + rps) \<and> int (length ?M) = shards \<and>
      list_all (\<lambda>n. length (cn_Slots n) = 1) ?M \<and>
      (\<forall>k<length ?R. length (filter (\<lambda>n. nodeOwnsRange n (Start (?R ! k)) (End (?R ! k))) ?M) = 1)"
    using permutation_counts [of ?I shards] owns idx [of "\<lambda>k. length (filter (\<lambda>i. i = k) ?I) = 1"]
    by auto
  finally show ?thesis by (simp add: list_all_length)
qed

text \<open>
  An example with one shard and one replica per shard: the legacy master owns the range, and the two
  new pods are synced replicas of it.
\<close>

definition mig_node :: "string \<Rightarrow> string \<Rightarrow> ClusterNodeState" where
  "mig_node pod nid =
     \<lparr>cn_PodName = pod, cn_PodIP = [], cn_NodeID = nid, cn_Slots = [FormatSlotRange 0 16383],
      cn_Role = roleMaster, cn_MasterNodeID = ''-'', cn_LinkStatus = [], cn_Reachable = True,
      cn_ProbeFailure = ProbeOK, cn_ProbeError = []\<rparr>"

definition mig_replica :: "string \<Rightarrow> string \<Rightarrow> string \<Rightarrow> ClusterNodeState" where
  "mig_replica pod nid mid = (mig_node pod nid)
     \<lparr>cn_Slots := [], cn_Role := roleReplica, cn_MasterNodeID := mid, cn_LinkStatus := ''up''\<rparr>"

definition mig_example :: "ClusterNodeState list \<Rightarrow> ClusterGroundTruth" where
  "mig_example ns = NewClusterGroundTruth\<lparr>Nodes := map (\<lambda>n. (cn_PodName n, n)) ns\<rparr>"

definition mig_before :: ClusterGroundTruth where
  "mig_before = mig_example [mig_node ''c-cluster-0'' ''L'',
     mig_replica ''c-shard-0-0'' ''N'' ''L'', mig_replica ''c-shard-0-1'' ''R'' ''L'']"

definition mig_after :: ClusterGroundTruth where
  "mig_after = mig_example [mig_replica ''c-cluster-0'' ''L'' ''N'',
     mig_node ''c-shard-0-0'' ''N'', mig_replica ''c-shard-0-1'' ''R'' ''N'']"

definition mig_legacy :: LegacyFacts where
  "mig_legacy = \<lparr>lf_SeedAddrs = [''10.0.0.1:6379''], lf_LegacyNodeIDs = [''L''],
     lf_NewPodAddrs = [(''c-shard-0-0'', ''10.0.0.2:6379''), (''c-shard-0-1'', ''10.0.0.3:6379'')]\<rparr>"

lemma one_shard [simp]: "GenerateSlotRanges 1 = [\<lparr>Start = 0, End = 16383\<rparr>]"
  by (simp add: GenerateSlotRanges_def slot_loop.simps)

lemma mig_node_owns [simp]: "nodeOwnsRange (mig_node p i) 0 16383" "\<not> nodeOwnsRange (mig_replica p i m) 0 16383"
  using ParseSlotRange_Format [of 0 16383]
  by (simp_all add: nodeOwnsRange_def mig_replica_def mig_node_def max_int64_def)

lemma mig_node_fields [simp]:
  "cn_PodName (mig_node p i) = p" "cn_NodeID (mig_node p i) = i" "cn_Reachable (mig_node p i)"
  "cn_MasterNodeID (mig_node p i) = ''-''" "cn_Role (mig_node p i) = roleMaster" "cn_Slots (mig_node p i) = [FormatSlotRange 0 16383]"
  "cn_PodName (mig_replica p i m) = p" "cn_NodeID (mig_replica p i m) = i" "cn_Slots (mig_replica p i m) = []"
  "cn_Role (mig_replica p i m) = roleReplica" "cn_MasterNodeID (mig_replica p i m) = m"
  "IsLinkUpReplicaOf (Some (mig_replica p i m)) x \<longleftrightarrow> m = x"
  "IsLinkUpReplicaOf (Some (mig_node p i)) x = False"
  by (simp_all add: mig_node_def mig_replica_def IsLinkUpReplicaOf_def roleMaster_def roleReplica_def)

lemmas mig_eval = mig_before_def mig_after_def mig_example_def mig_legacy_def NewClusterGroundTruth_def
  plan_simps allNewPodsMet_def expectedNewPods_def newMasterPodName_def newReplicaPodName_def
  Itoa_def nat_digits.simps presentLegacyNodes_def planReplicates_def shardNewPods_def
  replicate_pod_def ownerOfRange_def ownerNodeID_def nextFailover_def owns_its_range_def known_masters_def

theorem migration_failover_synced_witness:
  "mg_Phase (PlanClusterMigration mig_before 1 1 ''c'' mig_legacy) = MigrationFailover \<and>
   known_masters mig_before \<and>
   (\<exists>fo. mg_Failovers (PlanClusterMigration mig_before 1 1 ''c'' mig_legacy) = [fo] \<and>
     all_settled mig_before ''c'' 1 1)"
proof -
  have p: "mg_Phase (PlanClusterMigration mig_before 1 1 ''c'' mig_legacy) = MigrationFailover"
    by (simp add: mig_eval)
  have k: "known_masters mig_before" by (simp add: mig_eval)
  show ?thesis using p k migration_failover_synced [OF p k] by blast
qed

lemma migration_decommission_complete_witness:
  "mg_Phase (PlanClusterMigration mig_after 1 1 ''c'' mig_legacy) = MigrationDecommission \<and>
   all_settled mig_after ''c'' 1 1 \<and>
   set (mg_Forgets (PlanClusterMigration mig_after 1 1 ''c'' mig_legacy)) = {''L''} \<and>
   mg_DeleteLegacy (PlanClusterMigration mig_after 1 1 ''c'' mig_legacy)"
proof -
  have p: "mg_Phase (PlanClusterMigration mig_after 1 1 ''c'' mig_legacy) = MigrationDecommission"
    by (simp add: mig_eval)
  have "set (map cn_NodeID (cluster_nodes mig_after)) \<inter> set (lf_LegacyNodeIDs mig_legacy) = {''L''}"
    "list_all (\<lambda>n. cn_NodeID n \<in> set (lf_LegacyNodeIDs mig_legacy) \<longrightarrow> cn_Slots n = []) (cluster_nodes mig_after)"
    by (auto simp: mig_eval)
  then show ?thesis using p migration_decommission_complete [OF p] by simp
qed

lemma LegacyShapePreserved_exact_witness:
  "LegacyShapePreserved (mig_example [mig_node ''c-cluster-0'' ''L'', mig_replica ''c-cluster-1'' ''M'' ''L'']) 1 1 \<and>
   \<not> LegacyShapePreserved (mig_example [mig_node ''c-cluster-0'' ''L'', mig_node ''c-cluster-1'' ''M'']) 1 1"
  using LegacyShapePreserved_exact [of 1 "mig_example [mig_node ''c-cluster-0'' ''L'', mig_replica ''c-cluster-1'' ''M'' ''L'']" 1]
    LegacyShapePreserved_exact [of 1 "mig_example [mig_node ''c-cluster-0'' ''L'', mig_node ''c-cluster-1'' ''M'']" 1]
  by (simp add: slot_masters_def mig_example_def NewClusterGroundTruth_def roleMaster_def roleReplica_def)

end
