(* ===== verification/Cluster_Topology.thy ===== *)
theory Cluster_Topology
  imports Migration "HOL-Library.Multiset"
begin

text \<open>
  The pods of a cluster with one StatefulSet per shard (\<open>internal/controller/cluster_topology.go\<close>)
  and the part of the cluster specification that fixes their number
  (\<open>api/v1alpha1/littlered_defaults.go\<close>). The lemmas show that the enumeration names every pod once,
  that the shard is read back from the name, that the migration plans for the same pods, and which
  master a pod without slots is attached to.

  The shard and replica counts are at least 0 here, as the resource definition demands; the capacity
  given to \<open>make\<close> would panic on a negative product.
\<close>

section \<open>Data\<close>

record ClusterSpec =
  cs_Shards :: int
  cs_ReplicasPerShard :: "int option"
  cs_ClusterNodeTimeout :: int
  cs_FailoverGracePeriod :: int
  cs_ReshardKeyBatchSize :: int
  cs_ReshardMaxKeysPerReconcile :: int
  cs_ReshardMigrateTimeoutMillis :: int

definition ClusterSpec_SetDefaults :: "ClusterSpec \<Rightarrow> ClusterSpec" where
  "ClusterSpec_SetDefaults c =
     c\<lparr>cs_Shards := (if cs_Shards c = 0 then 3 else cs_Shards c),
       cs_ReplicasPerShard := (if cs_ReplicasPerShard c = None then Some 1 else cs_ReplicasPerShard c),
       cs_ClusterNodeTimeout := (if cs_ClusterNodeTimeout c = 0 then 15000 else cs_ClusterNodeTimeout c),
       cs_FailoverGracePeriod := (if cs_FailoverGracePeriod c = 0 then 15 else cs_FailoverGracePeriod c)\<rparr>"

definition GetTotalNodes :: "ClusterSpec \<Rightarrow> int" where
  "GetTotalNodes c =
     (let replicas = (case cs_ReplicasPerShard c of None \<Rightarrow> 0 | Some r \<Rightarrow> r)
      in cs_Shards c * (1 + replicas))"

definition clusterReplicasPerShard :: "ClusterSpec option \<Rightarrow> int" where
  "clusterReplicasPerShard cluster =
     (case cluster of
        None \<Rightarrow> 0
      | Some c \<Rightarrow> (case cs_ReplicasPerShard c of None \<Rightarrow> 0 | Some r \<Rightarrow> r))"

record ClusterPodRef =
  cp_Name :: string
  cp_ShardIdx :: int
  cp_Ordinal :: int
  cp_IsMaster :: bool

section \<open>Names\<close>

definition clusterShardStatefulSetName :: "string \<Rightarrow> int \<Rightarrow> string" where
  "clusterShardStatefulSetName name shardIdx = name @ ''-shard-'' @ Itoa shardIdx"

definition clusterShardPodName :: "string \<Rightarrow> int \<Rightarrow> int \<Rightarrow> string" where
  "clusterShardPodName name shardIdx ordinal =
     name @ ''-shard-'' @ Itoa shardIdx @ ''-'' @ Itoa ordinal"

definition shardMasterPodName :: "string \<Rightarrow> int \<Rightarrow> string" where
  "shardMasterPodName name shardIdx = clusterShardPodName name shardIdx 0"

definition clusterShardPDBName :: "string \<Rightarrow> int \<Rightarrow> string" where
  "clusterShardPDBName name shardIdx = name @ ''-shard-'' @ Itoa shardIdx @ ''-pdb''"

definition clusterShardLabelValue :: "int \<Rightarrow> string" where
  "clusterShardLabelValue shardIdx = Itoa shardIdx"

definition ClusterPodRefs :: "string \<Rightarrow> int \<Rightarrow> int \<Rightarrow> ClusterPodRef list" where
  "ClusterPodRefs name shards replicasPerShard =
     concat (map (\<lambda>shardIdx. map (\<lambda>ordinal.
         \<lparr>cp_Name = clusterShardPodName name shardIdx ordinal, cp_ShardIdx = shardIdx,
          cp_Ordinal = ordinal, cp_IsMaster = (ordinal = 0)\<rparr>)
       [0..replicasPerShard]) [0..shards - 1])"

section \<open>The target of a reattachment\<close>

text \<open>The loop over the sorted nodes, with the fallback found so far.\<close>

fun reattach_loop ::
    "int \<Rightarrow> (string \<rightharpoonup> string list) \<Rightarrow> int \<Rightarrow> ClusterNodeState list \<Rightarrow> ClusterNodeState option \<Rightarrow>
     ClusterNodeState option" where
  "reattach_loop myShard replicaCounts expectedReplicas [] fallback = fallback"
| "reattach_loop myShard replicaCounts expectedReplicas (m # ms) fallback =
     (if cn_Role m \<noteq> roleMaster \<or> length (cn_Slots m) = 0
      then reattach_loop myShard replicaCounts expectedReplicas ms fallback
      else if int (length (case replicaCounts (cn_NodeID m) of None \<Rightarrow> [] | Some ids \<Rightarrow> ids)) \<ge> expectedReplicas
      then reattach_loop myShard replicaCounts expectedReplicas ms fallback
      else if myShard \<ge> 0 \<and> ShardIndexFromPodName (cn_PodName m) = myShard then Some m
      else reattach_loop myShard replicaCounts expectedReplicas ms
        (if fallback = None then Some m else fallback))"

definition chooseReattachTarget ::
    "string \<Rightarrow> ClusterNodeState list \<Rightarrow> (string \<rightharpoonup> string list) \<Rightarrow> int \<Rightarrow> ClusterNodeState option" where
  "chooseReattachTarget emptyPodName nodes replicaCounts expectedReplicas =
     reattach_loop (ShardIndexFromPodName emptyPodName) replicaCounts expectedReplicas
       (sort_key cn_PodName nodes) None"

section \<open>The enumeration of the pods\<close>

lemma clusterShardPodName_shard_pod:
  "0 \<le> k \<Longrightarrow> 0 \<le> i \<Longrightarrow> clusterShardPodName name k i = shard_pod name (nat k) (nat i)"
  by (simp add: clusterShardPodName_def shard_pod_def)

lemma Itoa_0: "Itoa 0 = ''0''"
  by (simp add: Itoa_def nat_digits.simps)

lemma upto_0_1: "0 \<le> n \<Longrightarrow> [0..n] = 0 # [1..n]"
  by (simp add: upto_rec1)

lemma Itoa_dash_inj:
  assumes "0 \<le> k" "0 \<le> i" "0 \<le> k'" "0 \<le> i'"
    "Itoa k @ ''-'' @ Itoa i = Itoa k' @ ''-'' @ Itoa i'"
  shows "k = k' \<and> i = i'"
proof -
  have d: "is_digit c" if "c \<in> set (Itoa (int j))" for c j
    using that Itoa_digits(1) [of j] by (auto simp: list_all_iff)
  have dash: "\<not> is_digit (CHR ''-'')" by (simp add: is_digit_def)
  have tw: "takeWhile is_digit (Itoa (int a) @ ''-'' @ Itoa (int b)) = Itoa (int a)"
    "dropWhile is_digit (Itoa (int a) @ ''-'' @ Itoa (int b)) = CHR ''-'' # Itoa (int b)" for a b
    using d dash by (simp_all add: takeWhile_tail dropWhile_append3)
  obtain a b a' b' where "k = int a" "i = int b" "k' = int a'" "i' = int b'"
    using assms(1-4) by (metis nonneg_int_cases)
  then show ?thesis
    using assms(5) tw [of a b] tw [of a' b'] by (metis Itoa_nat_inj list.inject)
qed

lemma clusterShardPodName_inj:
  assumes "0 \<le> k" "0 \<le> i" "0 \<le> k'" "0 \<le> i'"
  shows "clusterShardPodName name k i = clusterShardPodName name k' i' \<longleftrightarrow> k = k' \<and> i = i'"
  using Itoa_dash_inj [OF assms] by (auto simp: clusterShardPodName_def)

lemma in_ClusterPodRefs:
  "r \<in> set (ClusterPodRefs name shards rps) \<longleftrightarrow>
     (\<exists>k i. 0 \<le> k \<and> k < shards \<and> 0 \<le> i \<and> i \<le> rps \<and>
       r = \<lparr>cp_Name = clusterShardPodName name k i, cp_ShardIdx = k, cp_Ordinal = i, cp_IsMaster = (i = 0)\<rparr>)"
  unfolding ClusterPodRefs_def set_concat set_map set_upto by (fastforce simp: image_iff)

lemma distinct_ClusterPodRefs: "distinct (map cp_Name (ClusterPodRefs name shards rps))"
proof -
  have "map cp_Name (ClusterPodRefs name shards rps) =
      map (\<lambda>(k, i). clusterShardPodName name k i) (List.product [0..shards - 1] [0..rps])"
    by (simp add: ClusterPodRefs_def map_concat product_concat_map o_def)
  moreover have "distinct (map (\<lambda>(k, i). clusterShardPodName name k i) (List.product [0..shards - 1] [0..rps]))"
    unfolding distinct_map
    by (auto simp: distinct_product inj_on_def clusterShardPodName_inj)
  ultimately show ?thesis by simp
qed

text \<open>
  the enumeration of the pods has as many entries as the specification has nodes, no name
  twice, one master per shard, and the shard of an entry is read back from its name. Its names are
  those that the migration plans for.
\<close>

lemma ClusterPodRefs_names:
  assumes "0 \<le> shards" "0 \<le> rps" "shards \<le> max_int64"
  shows "int (length (ClusterPodRefs name shards rps)) = shards * (1 + rps) \<and>
    distinct (map cp_Name (ClusterPodRefs name shards rps)) \<and>
    map cp_Name (filter cp_IsMaster (ClusterPodRefs name shards rps)) = map (shardMasterPodName name) [0..shards - 1] \<and>
    list_all (\<lambda>r. ShardIndexFromPodName (cp_Name r) = cp_ShardIdx r) (ClusterPodRefs name shards rps) \<and>
    map cp_Name (ClusterPodRefs name shards rps) = expectedNewPods name shards rps"
proof -
  have "map (length \<circ> (\<lambda>k. map f [0..rps])) [0..shards - 1] = replicate (nat shards) (nat (1 + rps))" for f :: "int \<Rightarrow> ClusterPodRef"
    by (auto intro!: nth_equalityI)
  then have len: "int (length (ClusterPodRefs name shards rps)) = shards * (1 + rps)"
    using assms by (simp add: ClusterPodRefs_def length_concat o_def sum_list_replicate)
  have "filter (\<lambda>i. i = 0) [0..rps] = [0]"
    using assms(2) by (simp add: upto_0_1 filter_empty_conv)
  then have masters: "map cp_Name (filter cp_IsMaster (ClusterPodRefs name shards rps)) = map (shardMasterPodName name) [0..shards - 1]"
    by (simp add: ClusterPodRefs_def filter_concat filter_map o_def map_concat shardMasterPodName_def)
  have "ShardIndexFromPodName (clusterShardPodName name k i) = k" if "0 \<le> k" "k < shards" "0 \<le> i" for k i
    using that assms(3) ShardIndexFromPodName_pod [of "nat k" name "nat i"]
    by (simp add: clusterShardPodName_shard_pod)
  then have "list_all (\<lambda>r. ShardIndexFromPodName (cp_Name r) = cp_ShardIdx r) (ClusterPodRefs name shards rps)"
    by (auto simp: list_all_iff in_ClusterPodRefs)
  moreover have "clusterShardPodName name = newReplicaPodName name"
    "newMasterPodName name = (\<lambda>k. newReplicaPodName name k 0)"
    by (simp_all add: fun_eq_iff newMasterPodName_def newReplicaPodName_def clusterShardPodName_def Itoa_0)
  then have "map cp_Name (ClusterPodRefs name shards rps) = expectedNewPods name shards rps"
    using assms(2) by (simp add: ClusterPodRefs_def expectedNewPods_def map_concat o_def upto_0_1)
  ultimately show ?thesis using len masters distinct_ClusterPodRefs by blast
qed

lemma ClusterPodRefs_names_witness:
  "ClusterPodRefs ''c'' 1 1 =
     [\<lparr>cp_Name = ''c-shard-0-0'', cp_ShardIdx = 0, cp_Ordinal = 0, cp_IsMaster = True\<rparr>,
      \<lparr>cp_Name = ''c-shard-0-1'', cp_ShardIdx = 0, cp_Ordinal = 1, cp_IsMaster = False\<rparr>] \<and>
   distinct (map cp_Name (ClusterPodRefs ''c'' 1 1)) \<and>
   map cp_Name (ClusterPodRefs ''c'' 1 1) = expectedNewPods ''c'' 1 1"
proof -
  have m: "(1::int) \<le> max_int64" by (simp add: max_int64_def)
  have "ClusterPodRefs ''c'' 1 1 =
     [\<lparr>cp_Name = ''c-shard-0-0'', cp_ShardIdx = 0, cp_Ordinal = 0, cp_IsMaster = True\<rparr>,
      \<lparr>cp_Name = ''c-shard-0-1'', cp_ShardIdx = 0, cp_Ordinal = 1, cp_IsMaster = False\<rparr>]"
    by (simp add: ClusterPodRefs_def clusterShardPodName_def Itoa_def nat_digits.simps upto_rec1)
  with ClusterPodRefs_names [OF zero_le_one zero_le_one m, of "''c''"] show ?thesis by argo
qed

section \<open>The choice of the reattachment\<close>

definition can_adopt :: "(string \<rightharpoonup> string list) \<Rightarrow> int \<Rightarrow> ClusterNodeState \<Rightarrow> bool" where
  "can_adopt rc n m \<longleftrightarrow> cn_Role m = roleMaster \<and> cn_Slots m \<noteq> [] \<and>
     int (length (case rc (cn_NodeID m) of None \<Rightarrow> [] | Some ids \<Rightarrow> ids)) < n"

definition same_shard :: "string \<Rightarrow> ClusterNodeState \<Rightarrow> bool" where
  "same_shard p m \<longleftrightarrow> ShardIndexFromPodName p \<ge> 0 \<and> ShardIndexFromPodName (cn_PodName m) = ShardIndexFromPodName p"

lemma reattach_loop_find:
  "reattach_loop (ShardIndexFromPodName p) rc n ms fb =
     (case find (\<lambda>m. can_adopt rc n m \<and> same_shard p m) ms of
        Some m \<Rightarrow> Some m
      | None \<Rightarrow> (if fb = None then find (can_adopt rc n) ms else fb))"
proof (induction ms arbitrary: fb)
  case (Cons m ms)
  show ?case
  proof (cases "can_adopt rc n m")
    case True
    then have "\<not> (cn_Role m \<noteq> roleMaster \<or> length (cn_Slots m) = 0)"
      "\<not> int (length (case rc (cn_NodeID m) of None \<Rightarrow> [] | Some ids \<Rightarrow> ids)) \<ge> n"
      by (auto simp: can_adopt_def)
    with True Cons show ?thesis by (auto simp: same_shard_def split: option.split)
  next
    case False
    then have "cn_Role m \<noteq> roleMaster \<or> length (cn_Slots m) = 0 \<or>
      int (length (case rc (cn_NodeID m) of None \<Rightarrow> [] | Some ids \<Rightarrow> ids)) \<ge> n"
      by (auto simp: can_adopt_def)
    then have "reattach_loop (ShardIndexFromPodName p) rc n (m # ms) fb = reattach_loop (ShardIndexFromPodName p) rc n ms fb"
      by auto
    with False Cons show ?thesis by (auto simp del: reattach_loop.simps split: option.split)
  qed
qed simp

lemma find_sort_key:
  assumes "find P (sort_key f xs) = Some x"
  shows "x \<in> set xs \<and> P x \<and> list_all (\<lambda>y. P y \<longrightarrow> f x \<le> f y) xs"
proof -
  obtain i where i: "i < length (sort_key f xs)" "P (sort_key f xs ! i)" "x = sort_key f xs ! i"
    "\<forall>j<i. \<not> P (sort_key f xs ! j)"
    using assms by (auto simp: find_Some_iff)
  have "f x \<le> f y" if y: "y \<in> set xs" "P y" for y
  proof -
    obtain j where j: "j < length (sort_key f xs)" "y = sort_key f xs ! j"
      using y(1) by (metis in_set_conv_nth set_sort)
    with i y(2) have "i \<le> j" using not_le by blast
    then show ?thesis
      using sorted_nth_mono [OF sorted_sort_key, of i j f xs] i j by simp
  qed
  moreover have "x \<in> set xs" using i by (metis nth_mem set_sort)
  ultimately show ?thesis using i by (auto simp: list_all_iff)
qed

text \<open>
  a pod without slots is attached to a master that owns slots and lacks replicas, if there is
  one; to one of the pod's own shard if there is one there. Of these it is the one with the least
  pod name, so that the choice does not depend on the order of the nodes.
\<close>

lemma chooseReattachTarget_spec:
  assumes "distinct (map cn_PodName nodes)"
  shows "(chooseReattachTarget p nodes rc n = Some m \<longleftrightarrow>
      m \<in> set nodes \<and> can_adopt rc n m \<and>
      (if list_ex (\<lambda>x. can_adopt rc n x \<and> same_shard p x) nodes
       then same_shard p m \<and> list_all (\<lambda>x. can_adopt rc n x \<and> same_shard p x \<longrightarrow> cn_PodName m \<le> cn_PodName x) nodes
       else list_all (\<lambda>x. can_adopt rc n x \<longrightarrow> cn_PodName m \<le> cn_PodName x) nodes)) \<and>
    (chooseReattachTarget p nodes rc n = None \<longleftrightarrow> \<not> list_ex (can_adopt rc n) nodes) \<and>
    (mset nodes' = mset nodes \<longrightarrow> chooseReattachTarget p nodes' rc n = chooseReattachTarget p nodes rc n)"
proof -
  let ?S = "sort_key cn_PodName nodes" and ?P = "\<lambda>x. can_adopt rc n x \<and> same_shard p x"
  have uniq: "x = y" if "x \<in> set nodes" "y \<in> set nodes" "cn_PodName x \<le> cn_PodName y" "cn_PodName y \<le> cn_PodName x" for x y
    using assms that by (auto simp: distinct_map dest: inj_onD)
  have none: "find Q ?S = None \<longleftrightarrow> \<not> list_ex Q nodes" for Q
    by (auto simp: find_None_iff list_ex_iff)
  have some: "find Q ?S = Some m \<longleftrightarrow> m \<in> set nodes \<and> Q m \<and> list_all (\<lambda>x. Q x \<longrightarrow> cn_PodName m \<le> cn_PodName x) nodes" for Q m
  proof
    assume m: "m \<in> set nodes \<and> Q m \<and> list_all (\<lambda>x. Q x \<longrightarrow> cn_PodName m \<le> cn_PodName x) nodes"
    then obtain y where y: "find Q ?S = Some y" using none [of Q] by (auto simp: list_ex_iff)
    from find_sort_key [OF y] m have "y = m" by (intro uniq) (auto simp: list_all_iff)
    with y show "find Q ?S = Some m" by simp
  next
    assume "find Q ?S = Some m"
    from find_sort_key [OF this] show "m \<in> set nodes \<and> Q m \<and> list_all (\<lambda>x. Q x \<longrightarrow> cn_PodName m \<le> cn_PodName x) nodes" .
  qed
  have ct: "chooseReattachTarget p nodes rc n = (case find ?P ?S of Some m \<Rightarrow> Some m | None \<Rightarrow> find (can_adopt rc n) ?S)"
    by (simp add: chooseReattachTarget_def reattach_loop_find)
  have "sort_key cn_PodName nodes' = ?S" if e: "mset nodes' = mset nodes"
  proof (rule sort_key_inj_key_eq)
    show "mset nodes' = mset ?S" using e by simp
    show "inj_on cn_PodName (set nodes')"
      using assms mset_eq_setD [OF e] by (simp add: distinct_map)
  qed simp
  then have perm: "mset nodes' = mset nodes \<longrightarrow> chooseReattachTarget p nodes' rc n = chooseReattachTarget p nodes rc n"
    by (simp add: chooseReattachTarget_def)
  show ?thesis
  proof (cases "list_ex ?P nodes")
    case True
    then obtain y where y: "find ?P ?S = Some y" using none [of ?P] by auto
    then have c: "chooseReattachTarget p nodes rc n = find ?P ?S" using ct by simp
    have "list_ex (can_adopt rc n) nodes" using True by (auto simp: list_ex_iff)
    then show ?thesis unfolding c some if_P [OF True] using y perm [unfolded c] by simp
  next
    case False
    then have "find ?P ?S = None" using none [of ?P] by simp
    then have c: "chooseReattachTarget p nodes rc n = find (can_adopt rc n) ?S" using ct by simp
    show ?thesis unfolding c some none if_not_P [OF False] using perm [unfolded c] by blast
  qed
qed

lemma chooseReattachTarget_spec_witness:
  "distinct (map cn_PodName [mig_node ''c-shard-1-0'' ''B'', mig_node ''c-shard-0-0'' ''A'']) \<and>
   chooseReattachTarget ''c-9'' [mig_node ''c-shard-1-0'' ''B'', mig_node ''c-shard-0-0'' ''A''] Map.empty 1 =
     Some (mig_node ''c-shard-0-0'' ''A'')"
proof -
  have s: "\<not> same_shard ''c-9'' m" for m
    by (simp add: same_shard_def ShardIndexFromPodName_def shard_suffix_def HasPrefix_def)
  have le: "''c-shard-0-0'' \<le> ''c-shard-1-0''" by code_simp
  show ?thesis
    using chooseReattachTarget_spec [of "[mig_node ''c-shard-1-0'' ''B'', mig_node ''c-shard-0-0'' ''A'']"
        "''c-9''" Map.empty 1 "mig_node ''c-shard-0-0'' ''A''"] s le
    by (simp add: can_adopt_def)
qed

end
