(* ===== verification/Migration_Driver.thy ===== *)
theory Migration_Driver
  imports Cluster_Topology
begin

text \<open>
  The driver of the migration (\<open>internal/controller/cluster_migration.go\<close>, with
  \<open>isLegacyClusterStatefulSet\<close>, \<open>detectLegacyClusterStatefulSet\<close>, \<open>confirmPodIP\<close> and
  \<open>reportLegacyMigrationRefused\<close> of \<open>cluster_reconcile.go\<close>): the entry gates, the facts about the
  legacy pods, the restriction of the ground truth to the legacy mesh, and the commands of a phase.

  The answers of the API server and of the pods are an environment record. A pass returns its
  result, the status it leaves and the list of the commands it sent, in order; the errors of single
  commands are only logged by the code and have no influence. Log lines and events are left out.
\<close>

section \<open>Data\<close>

datatype api_error = NotFound | Conflict | ApiError go_error

definition ignore_not_found :: "api_error option \<Rightarrow> api_error option" where
  "ignore_not_found e = (if e = Some NotFound then None else e)"

definition ignore_conflict :: "api_error option \<Rightarrow> api_error option" where
  "ignore_conflict e = (if e = Some Conflict then None else e)"

record migPodFact =
  mf_Name :: string
  mf_IP :: string
  mf_RedisReady :: bool

record statefulset =
  sf_Name :: string
  sf_Labels :: "string \<rightharpoonup> string"
  sf_Replicas :: "int option"
  sf_Controlled :: bool

record ClusterMigrationStatus =
  cm_Phase :: string
  cm_StartedAt :: "time option"
  cm_ShardsMoved :: int
  cm_TotalShards :: int

text \<open>
  The part of the status that the driver writes. The pointer \<open>Status.Cluster\<close> and in it the pointer
  \<open>Migration\<close> are nested options; the condition Ready is its reason and message, set to false.
\<close>

record migration_status =
  mt_Phase :: LittleRedPhase
  mt_Status :: string
  mt_NotReady :: "(string \<times> string) option"
  mt_Cluster :: "ClusterMigrationStatus option option"

record uncached_pod =
  up_PodIP :: string
  up_Terminating :: bool

datatype migration_cmd =
    EnsureMigrationResources
  | ClusterMeet string string int
  | ClusterReplicate string string
  | ClusterFailover string
  | ClusterFailoverTakeover string
  | ClusterForget string string
  | DeleteStatefulSet string
  | DeletePDB string

record migration_env =
  me_GetSTS :: "api_error + statefulset"
  me_Annotation :: "string option"
  me_Cluster :: "ClusterSpec option"
  me_ListPods :: "api_error + migPodFact list"
  me_GetID :: id_probe
  me_GetRedis :: redis_probe
  me_GetInfo :: info_probe
  me_GetNodes :: nodes_probe
  me_GetPod :: "string \<Rightarrow> api_error + uncached_pod"
  me_GetView :: "string \<Rightarrow> go_error + cluster_node_info list"
  me_Ensure :: "api_error option"
  me_Delete :: "string \<Rightarrow> api_error option"
  me_UpdateStatus :: "api_error option"
  me_Now :: time
  me_Fast :: duration
  me_Steady :: duration

section \<open>Detection of the legacy workload\<close>

definition clusterStatefulSetName :: "string \<Rightarrow> string" where
  "clusterStatefulSetName name = name @ ''-cluster''"

definition clusterPodDisruptionBudgetName :: "string \<Rightarrow> string" where
  "clusterPodDisruptionBudgetName name = name @ ''-cluster-pdb''"

definition labelAppComponent :: string where
  "labelAppComponent = ''app.kubernetes.io/component''"

definition LabelShard :: string where
  "LabelShard = ''redis.chuck-chuck-chuck.net/shard''"

definition empty_cluster_spec :: ClusterSpec where
  "empty_cluster_spec = \<lparr>cs_Shards = 0, cs_ReplicasPerShard = None, cs_ClusterNodeTimeout = 0,
     cs_FailoverGracePeriod = 0, cs_ReshardKeyBatchSize = 0, cs_ReshardMaxKeysPerReconcile = 0,
     cs_ReshardMigrateTimeoutMillis = 0\<rparr>"

definition isLegacyClusterStatefulSet :: "statefulset option \<Rightarrow> string \<Rightarrow> ClusterSpec option \<Rightarrow> bool" where
  "isLegacyClusterStatefulSet sts name spec =
     (case sts of
        None \<Rightarrow> False
      | Some s \<Rightarrow>
          if sf_Name s \<noteq> clusterStatefulSetName name then False
          else if (case sf_Labels s labelAppComponent of None \<Rightarrow> [] | Some v \<Rightarrow> v) \<noteq> ''cluster'' then False
          else if sf_Labels s LabelShard \<noteq> None then False
          else
            let cluster = (case spec of None \<Rightarrow> ClusterSpec_SetDefaults empty_cluster_spec | Some c \<Rightarrow> c)
            in if sf_Replicas s \<noteq> Some (GetTotalNodes cluster) then False
               else sf_Controlled s)"

definition detectLegacyClusterStatefulSet ::
    "api_error + statefulset \<Rightarrow> string \<Rightarrow> ClusterSpec option \<Rightarrow> api_error + bool" where
  "detectLegacyClusterStatefulSet get name spec =
     (case get of
        Inl NotFound \<Rightarrow> Inr False
      | Inl e \<Rightarrow> Inl e
      | Inr sts \<Rightarrow> Inr (isLegacyClusterStatefulSet (Some sts) name spec))"

section \<open>The facts about the pods\<close>

definition CutPrefix :: "string \<Rightarrow> string \<Rightarrow> string option" where
  "CutPrefix s p = (if HasPrefix s p then Some (drop (length p) s) else None)"

definition isLegacyClusterPod :: "string \<Rightarrow> string \<Rightarrow> bool" where
  "isLegacyClusterPod podName instanceName =
     (case CutPrefix podName (instanceName @ ''-cluster-'') of
        None \<Rightarrow> False
      | Some rest \<Rightarrow> if rest = [] then False else (case Atoi rest of Inl _ \<Rightarrow> False | Inr _ \<Rightarrow> True))"

definition isNewShardPod :: "string \<Rightarrow> string \<Rightarrow> bool" where
  "isNewShardPod podName instanceName =
     (case CutPrefix podName (instanceName @ ''-shard-'') of
        None \<Rightarrow> False
      | Some rest \<Rightarrow>
          (case Split (CHR ''-'') rest of
             [a, b] \<Rightarrow> (case Atoi a of
                 Inl _ \<Rightarrow> False
               | Inr _ \<Rightarrow> (case Atoi b of Inl _ \<Rightarrow> False | Inr _ \<Rightarrow> True))
           | _ \<Rightarrow> False))"

definition allLegacyPodsReady :: "migPodFact list \<Rightarrow> string \<Rightarrow> bool" where
  "allLegacyPodsReady pods instanceName =
     (let legacy = filter (\<lambda>p. isLegacyClusterPod (mf_Name p) instanceName) pods
      in list_all mf_RedisReady legacy \<and> length legacy > 0)"

definition addrOf :: "string \<Rightarrow> string" where
  "addrOf ip = ip @ '':6379''"

text \<open>The body of the loop of \<open>buildLegacyFactsFromPods\<close>, with the flag that a new pod exists.\<close>

definition legacy_fact ::
    "ClusterGroundTruth \<Rightarrow> string \<Rightarrow> migPodFact \<Rightarrow> LegacyFacts \<times> bool \<Rightarrow> LegacyFacts \<times> bool" where
  "legacy_fact gt instanceName p acc =
     (case acc of (facts, newPodsExist) \<Rightarrow>
        if isLegacyClusterPod (mf_Name p) instanceName
        then (case map_of (Nodes gt) (mf_Name p) of
            None \<Rightarrow> acc
          | Some n \<Rightarrow>
              let facts' = facts\<lparr>lf_LegacyNodeIDs := lf_LegacyNodeIDs facts @ [cn_NodeID n]\<rparr>
              in (if cn_Reachable n \<and> mf_IP p \<noteq> []
                  then facts'\<lparr>lf_SeedAddrs := lf_SeedAddrs facts' @ [addrOf (mf_IP p)]\<rparr>
                  else facts', newPodsExist))
        else if isNewShardPod (mf_Name p) instanceName
        then (if mf_IP p \<noteq> []
              then facts\<lparr>lf_NewPodAddrs := AList.update (mf_Name p) (addrOf (mf_IP p)) (lf_NewPodAddrs facts)\<rparr>
              else facts, True)
        else acc)"

definition buildLegacyFactsFromPods ::
    "migPodFact list \<Rightarrow> ClusterGroundTruth \<Rightarrow> string \<Rightarrow> LegacyFacts \<times> bool \<times> bool" where
  "buildLegacyFactsFromPods pods gt instanceName =
     (case fold (legacy_fact gt instanceName) pods
         (\<lparr>lf_SeedAddrs = [], lf_LegacyNodeIDs = [], lf_NewPodAddrs = []\<rparr>, False) of
        (facts, newPodsExist) \<Rightarrow> (facts, allLegacyPodsReady pods instanceName, newPodsExist))"

definition restrictToLegacyMesh :: "ClusterGroundTruth \<Rightarrow> string list \<Rightarrow> string \<Rightarrow> ClusterGroundTruth" where
  "restrictToLegacyMesh gt legacyNodeIDs instanceName =
     (case find (list_ex (\<lambda>k. k \<in> set legacyNodeIDs)) (Partitions gt) of
        None \<Rightarrow> gt
      | Some mesh \<Rightarrow>
          gt\<lparr>Nodes := filter (\<lambda>(podName, n). \<not> (isNewShardPod podName instanceName \<and> cn_NodeID n \<notin> set mesh))
               (Nodes gt)\<rparr>)"

text \<open>The pods with an address, by address; a later pod replaces an earlier one.\<close>

definition gatherFromLegacy :: "migration_env \<Rightarrow> migPodFact list \<Rightarrow> ClusterGroundTruth" where
  "gatherFromLegacy env pods =
     GatherClusterGroundTruth (me_GetID env) (me_GetRedis env) (me_GetInfo env) (me_GetNodes env)
       (fold (\<lambda>p m. if mf_IP p \<noteq> [] then AList.update (mf_IP p) (mf_Name p) m else m) pods [])"

section \<open>The Meet phase\<close>

text \<open>
  \<open>net.SplitHostPort\<close>: the host before the last colon, unless it holds a colon itself; brackets
  enclose a host that does. None is an error.
\<close>

definition last_colon :: "string \<Rightarrow> (string \<times> string) option" where
  "last_colon s =
     (let r = rev s; t = takeWhile (\<lambda>c. c \<noteq> CHR '':'') r; d = dropWhile (\<lambda>c. c \<noteq> CHR '':'') r
      in case d of [] \<Rightarrow> None | _ # h \<Rightarrow> Some (rev h, rev t))"

definition SplitHostPort :: "string \<Rightarrow> string option" where
  "SplitHostPort hp =
     (case last_colon hp of
        None \<Rightarrow> None
      | Some (host, port) \<Rightarrow>
          (case hp of
             c # rest \<Rightarrow>
               if c = CHR ''[''
               then (let inner = takeWhile (\<lambda>c. c \<noteq> CHR '']'') rest;
                         after = dropWhile (\<lambda>c. c \<noteq> CHR '']'') rest
                     in if after \<noteq> [] \<and> tl after = CHR '':'' # port \<and>
                          CHR ''['' \<notin> set rest \<and> CHR '']'' \<notin> set (tl after)
                        then Some inner else None)
               else if CHR '':'' \<in> set host \<or> CHR ''['' \<in> set hp \<or> CHR '']'' \<in> set hp then None
               else Some host
           | [] \<Rightarrow> None))"

definition confirmPodIP :: "(string \<Rightarrow> api_error + uncached_pod) \<Rightarrow> string \<Rightarrow> string \<Rightarrow> bool \<times> string" where
  "confirmPodIP get podName ip =
     (if podName = [] \<or> ip = [] then (False, ''unknown-pod'')
      else case get podName of
          Inl NotFound \<Rightarrow> (False, ''pod-gone'')
        | Inl _ \<Rightarrow> (False, ''confirm-failed'')
        | Inr pod \<Rightarrow>
            if up_Terminating pod then (False, ''pod-terminating'')
            else if up_PodIP pod \<noteq> ip then (False, ''ip-changed'')
            else (True, []))"

definition pod_name_of_addr :: "(string \<times> string) list \<Rightarrow> string \<Rightarrow> string" where
  "pod_name_of_addr addrs addr =
     (case fold (\<lambda>(podName, a) m. m(a \<mapsto> podName)) addrs Map.empty addr of
        None \<Rightarrow> [] | Some p \<Rightarrow> p)"

definition meet_host :: "string \<Rightarrow> string" where
  "meet_host addr = (case SplitHostPort addr of None \<Rightarrow> addr | Some h \<Rightarrow> h)"

definition migration_meet ::
    "migration_env \<Rightarrow> (string \<times> string) list \<Rightarrow> string set \<Rightarrow> string \<Rightarrow> string \<Rightarrow> migration_cmd list" where
  "migration_meet env addrs ourIDs seed addr =
     (let host = meet_host addr; podName = pod_name_of_addr addrs addr
      in if \<not> fst (confirmPodIP (me_GetPod env) podName host) then []
         else
           let cand = (case me_GetView env addr of
                 Inr view \<Rightarrow> MeetCandidateFromNodes podName host [] view
               | Inl _ \<Rightarrow> \<lparr>mc_PodName = podName, mc_PodIP = host, mc_NodeID = [], mc_Identified = False,
                           mc_ViewKnown = False, mc_KnownIDs = [], mc_Slots = []\<rparr>)
           in if \<not> AdmissibleWhenConfirmed (AttributeMeetTarget cand ourIDs) then []
              else [ClusterMeet seed host 6379])"

definition executeMigrationMeets ::
    "migration_env \<Rightarrow> ClusterGroundTruth \<Rightarrow> LegacyFacts \<Rightarrow> MigrationPlan \<Rightarrow> go_panic + migration_cmd list" where
  "executeMigrationMeets env gt facts plan =
     (case lf_SeedAddrs facts of
        [] \<Rightarrow> Inl IndexOutOfRange
      | seed # _ \<Rightarrow>
          Inr (concat (map (migration_meet env (lf_NewPodAddrs facts) (our_ids gt) seed) (mg_Meets plan))))"

section \<open>The phases\<close>

text \<open>
  The Replicate phase: the map \<open>selfID\<close> from an address to the node that answers there is built over
  the nodes in the order of iteration; the guard skips a node that would replicate itself.
\<close>

definition self_id :: "ClusterGroundTruth \<Rightarrow> string \<Rightarrow> string" where
  "self_id gt addr =
     (case fold (\<lambda>n m. if cn_PodIP n \<noteq> [] then m(addrOf (cn_PodIP n) \<mapsto> cn_NodeID n) else m)
         (cluster_nodes gt) Map.empty addr of
        None \<Rightarrow> [] | Some i \<Rightarrow> i)"

definition migration_replicates :: "ClusterGroundTruth \<Rightarrow> ReplicaAttach list \<Rightarrow> migration_cmd list" where
  "migration_replicates gt rs =
     map (\<lambda>ra. ClusterReplicate (ra_ReplicaAddr ra) (ra_MasterID ra))
       (filter (\<lambda>ra. ra_ReplicaAddr ra \<noteq> [] \<and> self_id gt (ra_ReplicaAddr ra) \<noteq> ra_MasterID ra) rs)"

definition migration_failovers :: "FailoverAction list \<Rightarrow> migration_cmd list" where
  "migration_failovers fos =
     map (\<lambda>fo. if fa_Force fo then ClusterFailoverTakeover (fa_Addr fo) else ClusterFailover (fa_Addr fo))
       (filter (\<lambda>fo. fa_Addr fo \<noteq> []) fos)"

definition forgetLegacyNodes :: "ClusterGroundTruth \<Rightarrow> string list \<Rightarrow> migration_cmd list" where
  "forgetLegacyNodes gt forgets =
     concat (map (\<lambda>nid. map (\<lambda>node. ClusterForget (addrOf (cn_PodIP node)) nid)
         (filter (\<lambda>node. \<not> (\<not> cn_Reachable node \<or> cn_NodeID node = nid)) (cluster_nodes gt)))
       forgets)"

definition deleteIfExists :: "migration_env \<Rightarrow> string \<Rightarrow> api_error option" where
  "deleteIfExists env name = ignore_not_found (me_Delete env name)"

text \<open>
  The commands of a phase, and the error with which it returns early. The two deletions are
  attempted in order, the second only if the first succeeds.
\<close>

definition phase_commands ::
    "migration_env \<Rightarrow> string \<Rightarrow> ClusterGroundTruth \<Rightarrow> LegacyFacts \<Rightarrow> MigrationPlan \<Rightarrow>
     go_panic + api_error option \<times> migration_cmd list" where
  "phase_commands env name gt facts plan =
     (case mg_Phase plan of
        MigrationStandup \<Rightarrow> Inr (me_Ensure env, [EnsureMigrationResources])
      | MigrationMeet \<Rightarrow>
          (case executeMigrationMeets env gt facts plan of
             Inl p \<Rightarrow> Inl p
           | Inr cs \<Rightarrow> Inr (None, cs))
      | MigrationReplicate \<Rightarrow> Inr (None, migration_replicates gt (mg_Replicates plan))
      | MigrationFailover \<Rightarrow> Inr (None, migration_failovers (mg_Failovers plan))
      | MigrationDecommission \<Rightarrow>
          let forgets = forgetLegacyNodes gt (mg_Forgets plan);
              sts = clusterStatefulSetName name; pdb = clusterPodDisruptionBudgetName name
          in if \<not> mg_DeleteLegacy plan then Inr (None, forgets)
             else (case deleteIfExists env sts of
                 Some e \<Rightarrow> Inr (Some e, forgets @ [DeleteStatefulSet sts])
               | None \<Rightarrow>
                   Inr (deleteIfExists env pdb, forgets @ [DeleteStatefulSet sts, DeletePDB pdb]))
      | _ \<Rightarrow> Inr (None, []))"

definition phase_name :: "MigrationPhase \<Rightarrow> string" where
  "phase_name p =
     (case p of
        MigrationUnset \<Rightarrow> []
      | MigrationStandup \<Rightarrow> ''Standup''
      | MigrationMeet \<Rightarrow> ''Meet''
      | MigrationReplicate \<Rightarrow> ''Replicate''
      | MigrationFailover \<Rightarrow> ''Failover''
      | MigrationDecommission \<Rightarrow> ''Decommission''
      | MigrationComplete \<Rightarrow> ''Complete'')"

section \<open>The status\<close>

definition ensureMigrationStarted :: "time \<Rightarrow> ClusterSpec option \<Rightarrow> migration_status \<Rightarrow> migration_status" where
  "ensureMigrationStarted now cluster st =
     (let st = (if mt_Cluster st = None then st\<lparr>mt_Cluster := Some None\<rparr> else st)
      in if mt_Cluster st = Some None
         then st\<lparr>mt_Cluster := Some (Some
           \<lparr>cm_Phase = [], cm_StartedAt = Some now, cm_ShardsMoved = 0,
            cm_TotalShards = (case cluster of None \<Rightarrow> 0 | Some c \<Rightarrow> cs_Shards c)\<rparr>)\<rparr>
         else st)"

definition setMigrationStatus :: "MigrationPlan \<Rightarrow> migration_status \<Rightarrow> migration_status" where
  "setMigrationStatus plan st =
     (let m = (case mt_Cluster st of
           Some (Some m) \<Rightarrow> m
         | _ \<Rightarrow> \<lparr>cm_Phase = [], cm_StartedAt = None, cm_ShardsMoved = 0, cm_TotalShards = 0\<rparr>)
      in st\<lparr>mt_Cluster := Some (Some (m\<lparr>cm_Phase := phase_name (mg_Phase plan),
           cm_ShardsMoved := mg_ShardsMoved plan, cm_TotalShards := mg_TotalShards plan\<rparr>))\<rparr>)"

definition setMigrationCondition :: "string \<Rightarrow> string \<Rightarrow> migration_status \<Rightarrow> migration_status" where
  "setMigrationCondition reason msg st =
     st\<lparr>mt_Phase := (if mt_Phase st \<noteq> PhasePending then PhaseInitializing else mt_Phase st),
        mt_Status := ''Migrating'', mt_NotReady := Some (reason, msg)\<rparr>"

definition persistStatus :: "migration_env \<Rightarrow> api_error option" where
  "persistStatus env = ignore_conflict (me_UpdateStatus env)"

text \<open>
  What a pass returns: the requeue interval (None is the empty result), whether it handled the
  reconcile, and the error; then the status in memory and the commands.
\<close>

type_synonym migration_result =
  "(duration option \<times> bool \<times> api_error option) \<times> migration_status \<times> migration_cmd list"

definition persist_and_requeue ::
    "migration_env \<Rightarrow> migration_status \<Rightarrow> migration_cmd list \<Rightarrow> migration_result" where
  "persist_and_requeue env st cs =
     (case persistStatus env of
        Some e \<Rightarrow> ((None, True, Some e), st, cs)
      | None \<Rightarrow> ((Some (me_Fast env), True, None), st, cs))"

definition executeMigrationPhase ::
    "migration_env \<Rightarrow> string \<Rightarrow> ClusterGroundTruth \<Rightarrow> LegacyFacts \<Rightarrow> MigrationPlan \<Rightarrow> migration_status \<Rightarrow>
     go_panic + migration_result" where
  "executeMigrationPhase env name gt facts plan st =
     (case phase_commands env name gt facts plan of
        Inl p \<Rightarrow> Inl p
      | Inr (Some e, cs) \<Rightarrow> Inr ((None, True, Some e), st, cs)
      | Inr (None, cs) \<Rightarrow>
          Inr (persist_and_requeue env
            (setMigrationCondition ''MigrationInProgress''
              (''Migrating legacy cluster to per-shard layout: phase '' @ phase_name (mg_Phase plan) @ '' ('' @
               Itoa (mg_ShardsMoved plan) @ ''/'' @ Itoa (mg_TotalShards plan) @ '' shards moved)'') st) cs))"

definition reportLegacyMigrationRefused ::
    "migration_env \<Rightarrow> string \<Rightarrow> string \<Rightarrow> migration_status \<Rightarrow> migration_result" where
  "reportLegacyMigrationRefused env reason msg st =
     (let st = st\<lparr>mt_Phase := PhaseFailed, mt_Status := ''LegacyClusterTopology'', mt_NotReady := Some (reason, msg)\<rparr>
      in case ignore_conflict (me_UpdateStatus env) of
           Some e \<Rightarrow> ((None, True, Some e), st, [])
         | None \<Rightarrow> ((Some (me_Steady env), True, None), st, []))"

definition refuseUnsupportedMigration ::
    "migration_env \<Rightarrow> int \<Rightarrow> int \<Rightarrow> migration_status \<Rightarrow> migration_result" where
  "refuseUnsupportedMigration env shards rps st =
     reportLegacyMigrationRefused env ''MigrationUnsupportedTopology''
       (''Legacy cluster topology is not shape-preserving (expected exactly '' @ Itoa shards @
        '' slot-owning masters each owning one aligned range, and '' @ Itoa (shards * (1 + rps)) @
        '' members). Migration supports only an identically-shaped in-place move; change '' @
        ''shard/replica counts with a reshard AFTER migration. Refusing.'') st"

section \<open>The pass\<close>

definition AnnotationMigrateLegacySTS :: string where
  "AnnotationMigrateLegacySTS = ''redis.chuck-chuck-chuck.net/migrate-legacy-sts''"

text \<open>The entry gates are only enforced while no pod of the new layout exists.\<close>

definition migrate_gated ::
    "migration_env \<Rightarrow> string \<Rightarrow> ClusterSpec \<Rightarrow> migPodFact list \<Rightarrow> ClusterGroundTruth \<Rightarrow> migration_status \<Rightarrow>
     go_panic + migration_result" where
  "migrate_gated env name cluster pods gt st0 =
     (case buildLegacyFactsFromPods pods gt name of
        (facts, allLegacyReady, newPodsExist) \<Rightarrow>
          let shards = cs_Shards cluster; rps = clusterReplicasPerShard (Some cluster);
              st = ensureMigrationStarted (me_Now env) (Some cluster) st0
          in if length (lf_SeedAddrs facts) = 0
             then Inr (persist_and_requeue env (setMigrationCondition ''MigrationWaitingSeed''
               ''No reachable legacy cluster node to use as a migration seed; waiting'' st) [])
             else if \<not> newPodsExist \<and> \<not> LegacyMigrationReady gt allLegacyReady
             then Inr (persist_and_requeue env (setMigrationCondition ''MigrationWaitingHealthy''
               (''Legacy cluster is not currently healthy (needs cluster_state=ok, all 16384 slots assigned, '' @
                ''all legacy pods Ready, and a reachable master quorum) '' @ em_dash @
                '' waiting before starting migration'') st) [])
             else if \<not> newPodsExist \<and> \<not> LegacyShapePreserved gt shards rps
             then Inr (refuseUnsupportedMigration env shards rps st)
             else
               let gt' = restrictToLegacyMesh gt (lf_LegacyNodeIDs facts) name;
                   plan = PlanClusterMigration gt' shards rps name facts
               in executeMigrationPhase env name gt' facts plan (setMigrationStatus plan st))"

definition migrateLegacyCluster ::
    "migration_env \<Rightarrow> string \<Rightarrow> migration_status \<Rightarrow> go_panic + migration_result" where
  "migrateLegacyCluster env name st =
     (case detectLegacyClusterStatefulSet (me_GetSTS env) name (me_Cluster env) of
        Inl e \<Rightarrow> Inr ((None, False, Some e), st, [])
      | Inr False \<Rightarrow>
          (case mt_Cluster st of
             Some (Some _) \<Rightarrow> Inr (persist_and_requeue env (st\<lparr>mt_Cluster := Some None\<rparr>) [])
           | _ \<Rightarrow> Inr ((None, False, None), st, []))
      | Inr True \<Rightarrow>
          if me_Annotation env = Some ''hold''
          then Inr (persist_and_requeue env
            (setMigrationCondition ''MigrationHeld''
              (''Migration held by '' @ AnnotationMigrateLegacySTS @
               ''=hold; no changes will be made until the annotation is removed'')
              (ensureMigrationStarted (me_Now env) (me_Cluster env) st)) [])
          else case me_Cluster env of
            None \<Rightarrow> Inr ((None, False, None), st, [])
          | Some cluster \<Rightarrow>
              (case me_ListPods env of
                 Inl e \<Rightarrow> Inr ((None, True, Some e), st, [])
               | Inr pods \<Rightarrow> migrate_gated env name cluster pods (gatherFromLegacy env pods) st))"

section \<open>What a pass sends\<close>

text \<open>
  The conditions under which a pass may change anything: the legacy workload is identified and not
  held, a legacy node can serve as a seed, and as long as no pod of the new layout exists, the legacy
  cluster is healthy and has the shape of the new one.
\<close>

definition migration_permitted :: "migration_env \<Rightarrow> string \<Rightarrow> bool" where
  "migration_permitted env name \<longleftrightarrow>
     (\<exists>cluster pods facts allReady newPods.
        me_Cluster env = Some cluster \<and> me_ListPods env = Inr pods \<and>
        detectLegacyClusterStatefulSet (me_GetSTS env) name (Some cluster) = Inr True \<and>
        me_Annotation env \<noteq> Some ''hold'' \<and>
        buildLegacyFactsFromPods pods (gatherFromLegacy env pods) name = (facts, allReady, newPods) \<and>
        lf_SeedAddrs facts \<noteq> [] \<and>
        (newPods \<or> LegacyMigrationReady (gatherFromLegacy env pods) allReady \<and>
          LegacyShapePreserved (gatherFromLegacy env pods) (cs_Shards cluster)
            (clusterReplicasPerShard (Some cluster))))"

lemma persist_and_requeue_cmds [simp]: "snd (snd (persist_and_requeue env st cs)) = cs"
  by (simp add: persist_and_requeue_def split: option.splits)

lemma persist_returns: "\<exists>a b c d. persist_and_requeue env st cs = ((a, b, c), d, cs)"
  by (metis persist_and_requeue_cmds prod.collapse)

lemma refuse_cmds [simp]: "snd (snd (refuseUnsupportedMigration env shards rps st)) = []"
  by (simp add: refuseUnsupportedMigration_def reportLegacyMigrationRefused_def Let_def split: option.splits)

lemma executeMigrationPhase_returns:
  assumes "lf_SeedAddrs facts \<noteq> []"
  shows "\<exists>r e. executeMigrationPhase env name gt facts plan st = Inr r \<and>
    phase_commands env name gt facts plan = Inr (e, snd (snd r))"
proof -
  have "\<exists>e cs. phase_commands env name gt facts plan = Inr (e, cs)"
    using assms
    by (auto simp: phase_commands_def executeMigrationMeets_def Let_def
      split: MigrationPhase.split list.splits option.split)
  then obtain e cs where "phase_commands env name gt facts plan = Inr (e, cs)" by blast
  then show ?thesis by (cases e) (auto simp: executeMigrationPhase_def)
qed

lemma migrate_gated_cases:
  fixes env name cluster pods gt st
  defines "shards \<equiv> cs_Shards cluster" and "rps \<equiv> clusterReplicasPerShard (Some cluster)"
  assumes facts: "buildLegacyFactsFromPods pods gt name = (facts, ready, newPods)"
  obtains (idle) r where "migrate_gated env name cluster pods gt st = Inr r" "snd (snd r) = []"
  | (acts) gt' plan r e where
      "lf_SeedAddrs facts \<noteq> []" "newPods \<or> LegacyMigrationReady gt ready \<and> LegacyShapePreserved gt shards rps"
      "gt' = restrictToLegacyMesh gt (lf_LegacyNodeIDs facts) name"
      "plan = PlanClusterMigration gt' shards rps name facts"
      "migrate_gated env name cluster pods gt st = Inr r"
      "phase_commands env name gt' facts plan = Inr (e, snd (snd r))"
proof (cases "lf_SeedAddrs facts \<noteq> [] \<and> (newPods \<or> LegacyMigrationReady gt ready \<and> LegacyShapePreserved gt shards rps)")
  case True
  let ?gt = "restrictToLegacyMesh gt (lf_LegacyNodeIDs facts) name"
  let ?plan = "PlanClusterMigration ?gt shards rps name facts"
  have g: "migrate_gated env name cluster pods gt st = executeMigrationPhase env name ?gt facts ?plan
      (setMigrationStatus ?plan (ensureMigrationStarted (me_Now env) (Some cluster) st))"
    using True facts by (auto simp: migrate_gated_def Let_def shards_def rps_def)
  then show thesis
    using executeMigrationPhase_returns [of facts env name ?gt ?plan] True acts [OF _ _ refl refl]
    by (metis (no_types, lifting))
next
  case False
  then have "\<exists>r. migrate_gated env name cluster pods gt st = Inr r \<and> snd (snd r) = []"
    using facts by (auto simp: migrate_gated_def Let_def shards_def rps_def simp del: split_paired_Ex)
  then show thesis using idle by blast
qed

lemma migrateLegacyCluster_cases:
  obtains (idle) r where "migrateLegacyCluster env name st = Inr r" "snd (snd r) = []"
  | (acts) cluster pods where "me_Cluster env = Some cluster" "me_ListPods env = Inr pods"
      "detectLegacyClusterStatefulSet (me_GetSTS env) name (Some cluster) = Inr True"
      "me_Annotation env \<noteq> Some ''hold''"
      "migrateLegacyCluster env name st = migrate_gated env name cluster pods (gatherFromLegacy env pods) st"
proof -
  consider e where "detectLegacyClusterStatefulSet (me_GetSTS env) name (me_Cluster env) = Inl e"
    | "detectLegacyClusterStatefulSet (me_GetSTS env) name (me_Cluster env) = Inr False"
    | "detectLegacyClusterStatefulSet (me_GetSTS env) name (me_Cluster env) = Inr True"
    by (cases "detectLegacyClusterStatefulSet (me_GetSTS env) name (me_Cluster env)") auto
  then show thesis
  proof cases
    case 1
    then show thesis using idle by (simp add: migrateLegacyCluster_def)
  next
    case 2
    then have "\<exists>r. migrateLegacyCluster env name st = Inr r \<and> snd (snd r) = []"
      by (auto simp: migrateLegacyCluster_def split: option.splits intro!: persist_returns)
    then show thesis using idle by blast
  next
    case 3
    show thesis
    proof (cases "me_Annotation env = Some ''hold'' \<or> me_Cluster env = None \<or> (\<exists>e. me_ListPods env = Inl e)")
      case True
      then have "\<exists>r. migrateLegacyCluster env name st = Inr r \<and> snd (snd r) = []"
        using 3 by (auto simp: migrateLegacyCluster_def split: option.splits intro!: persist_returns)
      then show thesis using idle by blast
    next
      case False
      then obtain cluster pods where c: "me_Cluster env = Some cluster" "me_ListPods env = Inr pods"
        by (metis not_None_eq sum.exhaust)
      show thesis
        by (rule acts [OF c]) (use 3 False c in \<open>simp_all add: migrateLegacyCluster_def\<close>)
    qed
  qed
qed

lemma migrate_returns:
  "\<exists>res st' cs. migrateLegacyCluster env name st = Inr (res, st', cs) \<and>
     (cs = [] \<or> migration_permitted env name)"
proof (rule migrateLegacyCluster_cases [of env name st])
  fix r assume "migrateLegacyCluster env name st = Inr r" "snd (snd r) = []"
  then show ?thesis by (metis prod.collapse)
next
  fix cluster pods
  assume a: "me_Cluster env = Some cluster" "me_ListPods env = Inr pods"
    "detectLegacyClusterStatefulSet (me_GetSTS env) name (Some cluster) = Inr True"
    "me_Annotation env \<noteq> Some ''hold''"
    "migrateLegacyCluster env name st = migrate_gated env name cluster pods (gatherFromLegacy env pods) st"
  obtain facts ready newPods where f:
    "buildLegacyFactsFromPods pods (gatherFromLegacy env pods) name = (facts, ready, newPods)"
    by (metis prod_cases3)
  show ?thesis
  proof (cases rule: migrate_gated_cases [OF f, of env cluster st])
    case (1 r)
    with a show ?thesis by (metis prod.collapse)
  next
    case (2 gt' plan r e)
    have "migration_permitted env name"
      unfolding migration_permitted_def using a f 2 by blast
    with 2 a show ?thesis by (metis prod.collapse)
  qed
qed

text \<open>
  a migration pass never panics, and it sends a command only under the conditions of
  \<open>migration_permitted\<close>; a pass that finds the annotation, no seed, or an unhealthy or differently
  shaped legacy cluster before the first new pod exists leaves everything as it is.
\<close>

lemma migrateLegacyCluster_gated:
  "\<exists>res st' cs. migrateLegacyCluster env name st = Inr (res, st', cs) \<and>
     (cs = [] \<or> migration_permitted env name)"
  by (rule migrate_returns)

section \<open>The commands are safe\<close>

text \<open>A node that did not answer carries no identity, role or slots in a gathered ground truth.\<close>

definition blank_unreachable :: "ClusterGroundTruth \<Rightarrow> bool" where
  "blank_unreachable gt \<longleftrightarrow>
     list_all (\<lambda>n. cn_Reachable n \<or> cn_NodeID n = [] \<and> cn_Role n = [] \<and> cn_Slots n = []) (cluster_nodes gt)"

lemma fold_update_values:
  "(k, v) \<in> set (fold (\<lambda>ns. AList.update (cn_PodName ns) ns) idents m) \<Longrightarrow> v \<in> set idents \<union> snd ` set m"
proof (induction idents arbitrary: m)
  case (Cons ns idents)
  have "snd ` set (AList.update (cn_PodName ns) ns m) \<subseteq> insert ns (snd ` set m)"
    by (induction m) auto
  with Cons.IH [of "AList.update (cn_PodName ns) ns m"] Cons.prems show ?case by auto
qed force

lemma node_identity_blank:
  "cn_Reachable (node_identity getID getRedis p) \<or> cn_NodeID (node_identity getID getRedis p) = [] \<and>
   cn_Role (node_identity getID getRedis p) = [] \<and> cn_Slots (node_identity getID getRedis p) = []"
  by (auto simp: node_identity_def Let_def split: prod.splits sum.splits)

lemma gathered_blank: "blank_unreachable (GatherClusterGroundTruth getID getRedis getInfo getNodes pods)"
proof -
  have "cn_Reachable v \<or> cn_NodeID v = [] \<and> cn_Role v = [] \<and> cn_Slots v = []"
    if "(k, v) \<in> set (fold (\<lambda>ns. AList.update (cn_PodName ns) ns) (gatherNodeIdentities getID getRedis pods) [])" for k v
    using fold_update_values [OF that] node_identity_blank
    by (auto simp: gatherNodeIdentities_def)
  then show ?thesis
    unfolding blank_unreachable_def Gather_fields(1) gatherTopology_Nodes
    by (fastforce simp: list_all_iff)
qed

lemma restrictToLegacyMesh_subset: "set (Nodes (restrictToLegacyMesh gt ids name)) \<subseteq> set (Nodes gt)"
  by (auto simp: restrictToLegacyMesh_def split: option.splits)

lemma restricted_blank: "blank_unreachable gt \<Longrightarrow> blank_unreachable (restrictToLegacyMesh gt ids name)"
  using restrictToLegacyMesh_subset [of gt ids name] unfolding blank_unreachable_def list_all_iff set_map
  by blast

lemma blank_owner_reachable:
  assumes "blank_unreachable gt" "ownerOfRange gt st en = Some ow"
  shows "cn_Reachable ow"
proof -
  from ownerOfRange_SomeD [OF assms(2)] have "ow \<in> set (cluster_nodes gt)" "cn_Slots ow \<noteq> []"
    by (auto simp: nodeOwnsRange_def)
  with assms(1) show ?thesis unfolding blank_unreachable_def list_all_iff by blast
qed

lemma blank_no_takeover:
  assumes "blank_unreachable gt" "nextFailover gt name shards ranges addrs = Some (fo, k)"
  shows "\<not> fa_Force fo"
  using nextFailover_SomeD [OF assms(2)] blank_owner_reachable [OF assms(1)] by blast

text \<open>
  For the same reason the quorum of reachable masters in the health gate asks for one reachable
  master only: every master that a gathered ground truth shows is reachable.
\<close>

lemma gathered_masters_reachable:
  assumes "blank_unreachable gt"
  shows "fst (countReachableMasters gt) = snd (countReachableMasters gt)"
proof -
  let ?ms = "filter (\<lambda>n. cn_Role n = roleMaster \<and> length (cn_Slots n) > 0) (cluster_nodes gt)"
  have "filter cn_Reachable ?ms = ?ms"
    unfolding filter_id_conv using assms by (auto simp: blank_unreachable_def list_all_iff)
  then show ?thesis by (simp add: countReachableMasters_def Let_def)
qed

text \<open>What each command of a pass rests on.\<close>

definition owner_ids :: "ClusterGroundTruth \<Rightarrow> int \<Rightarrow> string set" where
  "owner_ids gt shards = {cn_NodeID ow | ow k. 0 \<le> k \<and> k < shards \<and>
     ownerOfRange gt (Start (GenerateSlotRanges shards ! nat k)) (End (GenerateSlotRanges shards ! nat k)) = Some ow}"

fun cmd_justified ::
    "migration_env \<Rightarrow> string \<Rightarrow> ClusterGroundTruth \<Rightarrow> LegacyFacts \<Rightarrow> int \<Rightarrow> int \<Rightarrow> migration_cmd \<Rightarrow> bool" where
  "cmd_justified env name gt facts shards rps EnsureMigrationResources \<longleftrightarrow> True"
| "cmd_justified env name gt facts shards rps (ClusterMeet seed host port) \<longleftrightarrow>
     seed \<in> set (lf_SeedAddrs facts) \<and> (\<exists>p. fst (confirmPodIP (me_GetPod env) p host))"
| "cmd_justified env name gt facts shards rps (ClusterReplicate addr mid) \<longleftrightarrow>
     addr \<noteq> [] \<and> self_id gt addr \<noteq> mid \<and> mid \<in> owner_ids gt shards"
| "cmd_justified env name gt facts shards rps (ClusterFailover addr) \<longleftrightarrow>
     all_settled gt name shards rps \<and>
     (\<exists>k. 0 \<le> k \<and> k < shards \<and> \<not> owns_its_range gt name (GenerateSlotRanges shards) k \<and>
        addr = addr_of (map_of (lf_NewPodAddrs facts)) (newMasterPodName name k))"
| "cmd_justified env name gt facts shards rps (ClusterFailoverTakeover addr) \<longleftrightarrow> False"
| "cmd_justified env name gt facts shards rps (ClusterForget addr nid) \<longleftrightarrow>
     list_all (owns_its_range gt name (GenerateSlotRanges shards)) [0..shards - 1] \<and>
     nid \<in> set (lf_LegacyNodeIDs facts) \<and>
     (\<exists>n\<in>set (cluster_nodes gt). addr = addrOf (cn_PodIP n) \<and> cn_Reachable n \<and> cn_NodeID n \<noteq> nid)"
| "cmd_justified env name gt facts shards rps (DeleteStatefulSet s) \<longleftrightarrow>
     s = clusterStatefulSetName name \<and> all_settled gt name shards rps \<and>
     list_all (owns_its_range gt name (GenerateSlotRanges shards)) [0..shards - 1] \<and>
     list_all (\<lambda>n. cn_NodeID n \<in> set (lf_LegacyNodeIDs facts) \<longrightarrow> cn_Slots n = []) (cluster_nodes gt)"
| "cmd_justified env name gt facts shards rps (DeletePDB s) \<longleftrightarrow>
     s = clusterPodDisruptionBudgetName name \<and>
     list_all (owns_its_range gt name (GenerateSlotRanges shards)) [0..shards - 1]"

lemma meets_justified:
  assumes "executeMigrationMeets env gt facts plan = Inr cs"
  shows "list_all (cmd_justified env name gt facts shards rps) cs"
  using assms
  by (auto simp: executeMigrationMeets_def list_all_iff migration_meet_def Let_def
    split: list.splits if_splits) blast

lemma plan_replicates_owner:
  assumes "a \<in> set (mg_Replicates (PlanClusterMigration gt shards rps name facts))"
  shows "ra_MasterID a \<in> owner_ids gt shards"
proof -
  obtain rs d u where pr:
    "planReplicates gt name shards rps (GenerateSlotRanges shards) (map_of (lf_NewPodAddrs facts)) = (rs, d, u)"
    by (metis prod_cases3)
  with assms have "a \<in> set rs"
    by (auto simp: plan_simps split: if_splits option.splits)
  with planReplicates_spec(2) [OF pr] obtain k p where "k \<in> set [0..shards - 1]"
    "attach_ok gt (map_of (lf_NewPodAddrs facts)) (GenerateSlotRanges shards ! nat k) p a" by blast
  then show ?thesis unfolding attach_ok_def owner_ids_def by auto
qed

lemma forgetLegacyNodes_elem:
  "c \<in> set (forgetLegacyNodes gt forgets) \<Longrightarrow> \<exists>nid\<in>set forgets. \<exists>n\<in>set (cluster_nodes gt).
     c = ClusterForget (addrOf (cn_PodIP n)) nid \<and> cn_Reachable n \<and> cn_NodeID n \<noteq> nid"
  by (fastforce simp: forgetLegacyNodes_def)

lemma phase_commands_justified:
  fixes gt shards rps name facts
  defines "plan \<equiv> PlanClusterMigration gt shards rps name facts"
  assumes "blank_unreachable gt" "phase_commands env name gt facts plan = Inr (e, cs)"
  shows "list_all (cmd_justified env name gt facts shards rps) cs"
proof (cases "mg_Phase plan")
  case MigrationMeet
  then show ?thesis
    using assms(3) meets_justified by (auto simp: phase_commands_def split: sum.splits)
next
  case MigrationReplicate
  with assms(3) have "cs = migration_replicates gt (mg_Replicates plan)" by (simp add: phase_commands_def)
  then show ?thesis
    using plan_replicates_owner by (auto simp: plan_def migration_replicates_def list_all_iff)
next
  case MigrationFailover
  obtain fo k where fo: "mg_Failovers plan = [fo]"
    "nextFailover gt name shards (GenerateSlotRanges shards) (map_of (lf_NewPodAddrs facts)) = Some (fo, k)"
    using plan_failover [of gt shards rps name facts] MigrationFailover unfolding plan_def by blast
  have "all_settled gt name shards rps"
    using plan_past_replication [of gt shards rps name facts] MigrationFailover unfolding plan_def by simp
  moreover have "cs = migration_failovers [fo]"
    using assms(3) MigrationFailover fo(1) by (simp add: phase_commands_def)
  ultimately show ?thesis
    using nextFailover_SomeD [OF fo(2)] blank_no_takeover [OF assms(2) fo(2)]
    by (auto simp: migration_failovers_def)
next
  case MigrationDecommission
  note dec = plan_decommission [OF MigrationDecommission [unfolded plan_def], folded plan_def]
  have "cs = forgetLegacyNodes gt (mg_Forgets plan) \<or> mg_DeleteLegacy plan \<and>
      set cs \<subseteq> set (forgetLegacyNodes gt (mg_Forgets plan)) \<union>
        {DeleteStatefulSet (clusterStatefulSetName name), DeletePDB (clusterPodDisruptionBudgetName name)}"
    using assms(3) MigrationDecommission
    by (auto simp: phase_commands_def Let_def split: if_splits option.splits)
  moreover have "cmd_justified env name gt facts shards rps c" if c: "c \<in> set (forgetLegacyNodes gt (mg_Forgets plan))" for c
  proof -
    obtain nid n where n: "nid \<in> set (mg_Forgets plan)" "n \<in> set (cluster_nodes gt)"
      "c = ClusterForget (addrOf (cn_PodIP n)) nid" "cn_Reachable n" "cn_NodeID n \<noteq> nid"
      using forgetLegacyNodes_elem [OF c] by blast
    then have "nid \<in> set (lf_LegacyNodeIDs facts)" using dec by blast
    with n dec show ?thesis by (auto simp only: cmd_justified.simps)
  qed
  moreover have "cmd_justified env name gt facts shards rps (DeleteStatefulSet (clusterStatefulSetName name)) \<and>
      cmd_justified env name gt facts shards rps (DeletePDB (clusterPodDisruptionBudgetName name))"
    if "mg_DeleteLegacy plan"
    using that dec by simp
  ultimately show ?thesis unfolding list_all_iff by blast
qed (use assms(3) in \<open>auto simp: phase_commands_def\<close>)


text \<open>An example: a legacy cluster of one pod, before the first pod of the new layout exists.\<close>

definition mig_env_example :: migration_env where
  "mig_env_example =
     \<lparr>me_GetSTS = Inr \<lparr>sf_Name = ''c-cluster'', sf_Labels = [labelAppComponent \<mapsto> ''cluster''],
        sf_Replicas = Some 1, sf_Controlled = True\<rparr>,
      me_Annotation = None,
      me_Cluster = Some (empty_cluster_spec\<lparr>cs_Shards := 1\<rparr>),
      me_ListPods = Inr [\<lparr>mf_Name = ''c-cluster-0'', mf_IP = ''10.0.0.1'', mf_RedisReady = True\<rparr>],
      me_GetID = (\<lambda>_ _. Inr ''L''), me_GetRedis = (\<lambda>_ _. Inl (Errorf ''refused'')),
      me_GetInfo = (\<lambda>_ _. Inr (empty_cluster_info\<lparr>ci_State := ''ok'', ci_SlotsAssigned := 16384\<rparr>)),
      me_GetNodes = (\<lambda>_ _. Inr [\<lparr>ni_NodeID = ''L'', ni_Addr = [], ni_Hostname = [], ni_Flags = [''myself'', ''master''], ni_MasterID = ''-'',
        ni_PingSent = 0, ni_PongRecv = 0, ni_ConfigEpoch = 0, ni_LinkState = ''connected'', ni_Slots = [FormatSlotRange 0 16383]\<rparr>]),
      me_GetPod = (\<lambda>_. Inl NotFound), me_GetView = (\<lambda>_. Inl (Errorf ''refused'')),
      me_Ensure = None, me_Delete = (\<lambda>_. None), me_UpdateStatus = None,
      me_Now = 1, me_Fast = 2 * second, me_Steady = 30 * second\<rparr>"

definition mig_pods_example :: "migPodFact list" where
  "mig_pods_example = [\<lparr>mf_Name = ''c-cluster-0'', mf_IP = ''10.0.0.1'', mf_RedisReady = True\<rparr>]"

lemma mig_name_example [simp]:
  "isLegacyClusterPod ''c-cluster-0'' ''c''" "\<not> isNewShardPod ''c-cluster-0'' ''c''"
proof -
  have "Atoi ''0'' = Inr 0" using Atoi_Itoa [of 0] by (simp add: Itoa_0 max_int64_def min_int64_def)
  then show "isLegacyClusterPod ''c-cluster-0'' ''c''"
    by (simp add: isLegacyClusterPod_def CutPrefix_def HasPrefix_def)
qed (simp add: isNewShardPod_def CutPrefix_def HasPrefix_def)

lemmas mig_env_simps = mig_env_example_def mig_pods_example_def empty_cluster_spec_def

lemma mig_gather_example:
  "Nodes (gatherFromLegacy mig_env_example mig_pods_example) =
     [(''c-cluster-0'', (mig_node ''c-cluster-0'' ''L'')\<lparr>cn_PodIP := ''10.0.0.1''\<rparr>)]"
  "ClusterState (gatherFromLegacy mig_env_example mig_pods_example) = ''ok''"
  "TotalSlots (gatherFromLegacy mig_env_example mig_pods_example) = 16384"
  "Partitions (gatherFromLegacy mig_env_example mig_pods_example) = [[''L'']]"
  by (simp_all add: mig_env_simps gatherFromLegacy_def GatherClusterGroundTruth_def Let_def
    gatherNodeIdentities_def node_identity_def gatherTopology_def probeNodeTopology_def own_entry_def
    NewClusterGroundTruth_def merge_view_def empty_cluster_info_def mig_node_def IsReplica_def
    computePartitions_def neighbors_def nodeFlagsFailed_def flagFail_def)


end
