(* ===== verification/Reshard.thy ===== *)
theory Reshard
  imports Migration_Driver "HOL-Library.Product_Lexorder"
begin

text \<open>
  The repair of a consolidated shard (\<open>internal/redis/reshard_plan.go\<close>,
  \<open>internal/controller/cluster_reshard.go\<close> and the parser of the migration tasks in
  \<open>internal/redis/cluster_migrate.go\<close>): one master owns the ranges of several shards while others
  own none. The plan pairs the surplus ranges with the empty masters; the executor moves one range
  per pass, by the server's own slot migration or key by key. The lemmas show that the plan moves
  complete ranges to distinct empty masters and that repeated passes reach one range per master, and
  that the move key by key loses no key and comes to its end.

  The commands on the slots and keys of a node are functions on the state of the Redis nodes, which
  is a type parameter: each returns the error, if any, and the state after it.
\<close>

section \<open>The plan\<close>

record ReshardMove =
  rm_Start :: int
  rm_End :: int
  rm_Source :: ClusterNodeState
  rm_Dest :: ClusterNodeState

record ReshardPlan =
  rp_Moves :: "ReshardMove list"
  rp_Reason :: string

definition SafeMissingShardTarget :: "ClusterNodeState option \<Rightarrow> bool" where
  "SafeMissingShardTarget node =
     (case node of
        None \<Rightarrow> False
      | Some n \<Rightarrow> cn_Reachable n \<and> cn_Role n = roleMaster \<and> length (cn_Slots n) = 0)"

definition SlotsNeedingDrain :: "(int \<times> int) list \<Rightarrow> int list" where
  "SlotsNeedingDrain counts = sort (map fst (filter (\<lambda>(slot, n). n > 0) counts))"

text \<open>The loop over the ranges of one master; \<open>Inl\<close> is the reason of the early return.\<close>

fun owned_indices :: "slot_range list \<Rightarrow> string \<Rightarrow> string list \<Rightarrow> int list \<Rightarrow> string + int list" where
  "owned_indices expected podName [] idxs = Inr idxs"
| "owned_indices expected podName (slotStr # rest) idxs =
     (case ParseSlotRange slotStr of
        Inl _ \<Rightarrow> Inl (''unparseable slot range '' @ Quote slotStr @ '' on '' @ podName @ ''; deferring'')
      | Inr (start, end') \<Rightarrow>
          let idx = range_index 0 expected start end'
          in if idx = -1
             then Inl (''non-aligned slot range '' @ Itoa start @ ''-'' @ Itoa end' @ '' on '' @ podName @
                       ''; deferring to avoid data loss'')
             else owned_indices expected podName rest (idxs @ [idx]))"

text \<open>The loop over the nodes: the indices owned by each master with slots, and the empty masters.\<close>

fun reshard_scan ::
    "slot_range list \<Rightarrow> ClusterNodeState list \<Rightarrow> (ClusterNodeState \<times> int list) list \<Rightarrow> ClusterNodeState list \<Rightarrow>
     string + (ClusterNodeState \<times> int list) list \<times> ClusterNodeState list" where
  "reshard_scan expected [] owned empties = Inr (owned, empties)"
| "reshard_scan expected (n # ns) owned empties =
     (if cn_Role n \<noteq> roleMaster \<or> \<not> cn_Reachable n then reshard_scan expected ns owned empties
      else if length (cn_Slots n) = 0 then reshard_scan expected ns owned (empties @ [n])
      else case owned_indices expected (cn_PodName n) (cn_Slots n) [] of
          Inl reason \<Rightarrow> Inl reason
        | Inr idxs \<Rightarrow> reshard_scan expected ns (owned @ [(n, idxs)]) empties)"

text \<open>A master keeps its least index, the others are surplus.\<close>

definition surplus_of :: "ClusterNodeState \<times> int list \<Rightarrow> (int \<times> ClusterNodeState) list" where
  "surplus_of e =
     (case e of (node, idxs) \<Rightarrow>
        if length idxs \<le> 1 then [] else map (\<lambda>idx. (idx, node)) (tl (sort idxs)))"

text \<open>
  The map \<open>ownedShards\<close> is ranged over in an order of its own, given by the parameter \<open>iter\<close>, a
  rearrangement of the list.
\<close>

definition PlanReshard ::
    "((ClusterNodeState \<times> int list) list \<Rightarrow> (ClusterNodeState \<times> int list) list) \<Rightarrow>
     ClusterGroundTruth \<Rightarrow> int \<Rightarrow> ReshardPlan" where
  "PlanReshard iter gt shards =
     (if shards \<le> 0 then \<lparr>rp_Moves = [], rp_Reason = ''invalid shard count''\<rparr>
      else
        let expected = GenerateSlotRanges shards
        in case reshard_scan expected (cluster_nodes gt) [] [] of
             Inl reason \<Rightarrow> \<lparr>rp_Moves = [], rp_Reason = reason\<rparr>
           | Inr (owned, empties) \<Rightarrow>
               let surpluses = concat (map surplus_of (iter owned))
               in if length surpluses = 0
                  then \<lparr>rp_Moves = [], rp_Reason = ''one master per shard; no reshard needed''\<rparr>
                  else if length empties = 0
                  then \<lparr>rp_Moves = [], rp_Reason = ''over-consolidated master(s) present but no reachable '' @
                          ''empty master to receive surplus; deferring''\<rparr>
                  else
                    let ss = sort_key fst surpluses;
                        es = sort_key (\<lambda>n. (cn_PodName n, cn_NodeID n)) empties;
                        moves = map (\<lambda>((idx, source), dest).
                          \<lparr>rm_Start = Start (expected ! nat idx), rm_End = End (expected ! nat idx),
                           rm_Source = source, rm_Dest = dest\<rparr>) (zip ss es)
                    in \<lparr>rp_Moves = moves, rp_Reason =
                         (if length surpluses > length empties
                          then Itoa (int (length surpluses)) @ '' surplus range(s) but '' @
                               Itoa (int (length empties)) @ '' empty master(s); moving '' @
                               Itoa (int (length moves)) @ '' this pass''
                          else [])\<rparr>)"

section \<open>The tasks of the native slot migration\<close>

text \<open>
  A value inside a task as go-redis delivers it: a string (or bytes), an integer, nil, or another
  value with its rendering.
\<close>

datatype task_value = TString string | TInt int | TNil | TOther string

datatype task_reply = TaskArray "task_value list" | TaskMap "(task_value \<times> task_value) list" | TaskOther

record MigrationTask =
  ta_ID :: string
  ta_State :: string
  ta_LastError :: string

fun toString :: "task_value \<Rightarrow> string" where
  "toString (TString s) = s"
| "toString (TInt i) = Itoa i"
| "toString TNil = []"
| "toString (TOther s) = s"

definition flattenToStringMap :: "task_reply \<Rightarrow> fields" where
  "flattenToStringMap v =
     (let add = (\<lambda>(k, val) m. (toString k, toString val) # m)
      in case v of
           TaskArray t \<Rightarrow> fold add (pair_up t) []
         | TaskMap t \<Rightarrow> fold add t []
         | TaskOther \<Rightarrow> [])"

text \<open>A reply that is not an array gives no tasks (None).\<close>

definition parseMigrationTasks :: "task_reply list option \<Rightarrow> MigrationTask list" where
  "parseMigrationTasks reply =
     (case reply of
        None \<Rightarrow> []
      | Some items \<Rightarrow>
          concat (map (\<lambda>it. let fields = flattenToStringMap it
            in if length fields = 0 then []
               else [\<lparr>ta_ID = field fields ''id'', ta_State = field fields ''state'',
                      ta_LastError = field fields ''last_error''\<rparr>]) items))"

definition migrationTerminal :: "string \<Rightarrow> bool" where
  "migrationTerminal state \<longleftrightarrow>
     ToLower (TrimSpace state) \<in> {''completed'', ''cancelled'', ''canceled'', ''failed'', []}"

definition ClusterMigrationInFlight :: "go_error + task_reply list option \<Rightarrow> go_error + bool" where
  "ClusterMigrationInFlight reply =
     (case reply of
        Inl e \<Rightarrow> Inl e
      | Inr r \<Rightarrow> Inr (list_ex (\<lambda>t. \<not> migrationTerminal (ta_State t)) (parseMigrationTasks r)))"

section \<open>The executor\<close>

record 'r redis_ops =
  ro_SetSlotsImporting :: "string \<Rightarrow> int list \<Rightarrow> string \<Rightarrow> 'r \<Rightarrow> go_error option \<times> 'r"
  ro_SetSlotsMigrating :: "string \<Rightarrow> int list \<Rightarrow> string \<Rightarrow> 'r \<Rightarrow> go_error option \<times> 'r"
  ro_SetSlotsNode :: "string \<Rightarrow> int list \<Rightarrow> string \<Rightarrow> 'r \<Rightarrow> go_error option \<times> 'r"
  ro_CountKeysInSlots :: "string \<Rightarrow> int list \<Rightarrow> 'r \<Rightarrow> go_error + (int \<times> int) list"
  ro_GetKeysInSlot :: "string \<Rightarrow> int \<Rightarrow> int \<Rightarrow> 'r \<Rightarrow> go_error + string list"
  ro_MigrateKeys :: "string \<Rightarrow> string \<Rightarrow> int \<Rightarrow> int \<Rightarrow> string list \<Rightarrow> 'r \<Rightarrow> go_error option \<times> 'r"
  ro_MigrationStatus :: "string \<Rightarrow> 'r \<Rightarrow> go_error + task_reply list option"
  ro_MigrationImport :: "string \<Rightarrow> (int \<times> int) list \<Rightarrow> 'r \<Rightarrow> (go_error + string) \<times> 'r"

text \<open>The inner loop of the drain: \<open>Inl\<close> is the early return after an error.\<close>

function drain_slot ::
    "'r redis_ops \<Rightarrow> string \<Rightarrow> string \<Rightarrow> int \<Rightarrow> int \<Rightarrow> int \<Rightarrow> int \<Rightarrow> int \<Rightarrow> 'r \<Rightarrow> 'r + int \<times> 'r" where
  "drain_slot ops srcAddr destHost slot batch maxKeys migTimeout moved w =
     (if moved < maxKeys
      then case ro_GetKeysInSlot ops srcAddr slot batch w of
          Inl _ \<Rightarrow> Inl w
        | Inr keys \<Rightarrow>
            if length keys = 0 then Inr (moved, w)
            else case ro_MigrateKeys ops srcAddr destHost 6379 migTimeout keys w of
                (Some _, w') \<Rightarrow> Inl w'
              | (None, w') \<Rightarrow>
                  drain_slot ops srcAddr destHost slot batch maxKeys migTimeout
                    (moved + int (length keys)) w'
      else Inr (moved, w))"
  by pat_completeness auto

termination by (relation "measure (\<lambda>(ops, src, dst, slot, b, maxKeys, t, moved, w). nat (maxKeys - moved))") auto

declare drain_slot.simps [simp del]

fun drain_slots ::
    "'r redis_ops \<Rightarrow> string \<Rightarrow> string \<Rightarrow> int \<Rightarrow> int \<Rightarrow> int \<Rightarrow> int list \<Rightarrow> int \<Rightarrow> 'r \<Rightarrow> 'r + int \<times> 'r" where
  "drain_slots ops srcAddr destHost batch maxKeys migTimeout [] moved w = Inr (moved, w)"
| "drain_slots ops srcAddr destHost batch maxKeys migTimeout (slot # rest) moved w =
     (case drain_slot ops srcAddr destHost slot batch maxKeys migTimeout moved w of
        Inl w' \<Rightarrow> Inl w'
      | Inr (moved', w') \<Rightarrow>
          if moved' \<ge> maxKeys then Inr (moved', w')
          else drain_slots ops srcAddr destHost batch maxKeys migTimeout rest moved' w')"

fun flip_owner :: "'r redis_ops \<Rightarrow> int list \<Rightarrow> string \<Rightarrow> string list \<Rightarrow> 'r \<Rightarrow> bool \<times> 'r" where
  "flip_owner ops slots owner [] w = (True, w)"
| "flip_owner ops slots owner (addr # addrs) w =
     (case ro_SetSlotsNode ops addr slots owner w of
        (Some _, w') \<Rightarrow> (False, w')
      | (None, w') \<Rightarrow> flip_owner ops slots owner addrs w')"

definition reachableMasterAddrs :: "ClusterGroundTruth \<Rightarrow> string list" where
  "reachableMasterAddrs gt =
     map (\<lambda>n. addrOf (cn_PodIP n))
       (filter (\<lambda>n. cn_Reachable n \<and> cn_Role n = roleMaster) (cluster_nodes gt))"

definition reshardViaDance ::
    "'r redis_ops \<Rightarrow> ClusterSpec \<Rightarrow> ClusterGroundTruth \<Rightarrow> ReshardMove \<Rightarrow> 'r \<Rightarrow> bool \<times> 'r" where
  "reshardViaDance ops spec gt move w =
     (let batch = (if cs_ReshardKeyBatchSize spec \<le> 0 then 128 else cs_ReshardKeyBatchSize spec);
          maxKeys = (if cs_ReshardMaxKeysPerReconcile spec \<le> 0 then 2000 else cs_ReshardMaxKeysPerReconcile spec);
          migTimeout = (if cs_ReshardMigrateTimeoutMillis spec \<le> 0 then 5000 else cs_ReshardMigrateTimeoutMillis spec);
          srcAddr = addrOf (cn_PodIP (rm_Source move));
          destAddr = addrOf (cn_PodIP (rm_Dest move));
          slots = [rm_Start move..rm_End move]
      in case ro_SetSlotsImporting ops destAddr slots (cn_NodeID (rm_Source move)) w of
           (Some _, w) \<Rightarrow> (False, w)
         | (None, w) \<Rightarrow>
             (case ro_SetSlotsMigrating ops srcAddr slots (cn_NodeID (rm_Dest move)) w of
                (Some _, w) \<Rightarrow> (False, w)
              | (None, w) \<Rightarrow>
                  (case ro_CountKeysInSlots ops srcAddr slots w of
                     Inl _ \<Rightarrow> (False, w)
                   | Inr counts \<Rightarrow>
                       let toDrain = SlotsNeedingDrain counts
                       in if length toDrain = 0
                          then flip_owner ops slots (cn_NodeID (rm_Dest move)) (reachableMasterAddrs gt) w
                          else case drain_slots ops srcAddr (cn_PodIP (rm_Dest move)) batch maxKeys migTimeout
                                      toDrain 0 w of
                              Inl w \<Rightarrow> (False, w)
                            | Inr (moved, w) \<Rightarrow> (False, w))))"

text \<open>Every outcome asks for the fast requeue, so only the flag and the state are returned.\<close>

definition moveSlotRange ::
    "'r redis_ops \<Rightarrow> ClusterSpec \<Rightarrow> ClusterGroundTruth \<Rightarrow> ReshardMove \<Rightarrow> 'r \<Rightarrow> bool \<times> 'r" where
  "moveSlotRange ops spec gt move w =
     (let destAddr = addrOf (cn_PodIP (rm_Dest move))
      in if \<not> AtomicSlotMigration gt then reshardViaDance ops spec gt move w
         else case ClusterMigrationInFlight (ro_MigrationStatus ops destAddr w) of
             Inl _ \<Rightarrow> (False, w)
           | Inr True \<Rightarrow> (False, w)
           | Inr False \<Rightarrow> (False, snd (ro_MigrationImport ops destAddr [(rm_Start move, rm_End move)] w)))"

definition reshardConsolidated ::
    "((ClusterNodeState \<times> int list) list \<Rightarrow> (ClusterNodeState \<times> int list) list) \<Rightarrow> 'r redis_ops \<Rightarrow>
     ClusterSpec \<Rightarrow> ClusterGroundTruth \<Rightarrow> 'r \<Rightarrow> bool \<times> 'r" where
  "reshardConsolidated iter ops spec gt w =
     (case rp_Moves (PlanReshard iter gt (cs_Shards spec)) of
        [] \<Rightarrow> (False, w)
      | move # _ \<Rightarrow> (True, snd (moveSlotRange ops spec gt move w)))"

section \<open>What the plan moves\<close>

definition live_masters :: "ClusterNodeState list \<Rightarrow> ClusterNodeState list" where
  "live_masters ns = filter (\<lambda>n. cn_Role n = roleMaster \<and> cn_Reachable n) ns"

definition empties :: "ClusterNodeState list \<Rightarrow> ClusterNodeState list" where
  "empties ns = filter (\<lambda>n. cn_Slots n = []) (live_masters ns)"

definition shard_idxs :: "slot_range list \<Rightarrow> ClusterNodeState \<Rightarrow> int list" where
  "shard_idxs ranges n = map (alignedRangeIndex ranges) (cn_Slots n)"

text \<open>The shards that the living masters own, and how many ranges they own beyond one each.\<close>

definition owned_ranges :: "slot_range list \<Rightarrow> ClusterNodeState list \<Rightarrow> int multiset" where
  "owned_ranges ranges ns = mset (concat (map (shard_idxs ranges) (live_masters ns)))"

definition surplus :: "ClusterNodeState list \<Rightarrow> nat" where
  "surplus ns = sum_list (map (\<lambda>n. length (cn_Slots n) - 1) (live_masters ns))"

text \<open>Every living master owns complete ranges, and none of them twice.\<close>

definition aligned :: "slot_range list \<Rightarrow> ClusterNodeState list \<Rightarrow> bool" where
  "aligned ranges ns \<longleftrightarrow> list_all (\<lambda>n. -1 \<notin> set (shard_idxs ranges n)) (live_masters ns)"

definition reshardable :: "slot_range list \<Rightarrow> ClusterNodeState list \<Rightarrow> bool" where
  "reshardable ranges ns \<longleftrightarrow> distinct (map cn_PodName ns) \<and>
     list_all (\<lambda>n. -1 \<notin> set (shard_idxs ranges n) \<and> distinct (shard_idxs ranges n)) (live_masters ns)"

definition good_move :: "slot_range list \<Rightarrow> ClusterNodeState list \<Rightarrow> ReshardMove \<Rightarrow> bool" where
  "good_move ranges ns mv \<longleftrightarrow>
     rm_Source mv \<in> set (live_masters ns) \<and> rm_Dest mv \<in> set (empties ns) \<and>
     2 \<le> length (cn_Slots (rm_Source mv)) \<and>
     list_ex (\<lambda>k. rm_Start mv = Start (ranges ! nat k) \<and> rm_End mv = End (ranges ! nat k) \<and>
       0 \<le> k \<and> k < int (length ranges)) (shard_idxs ranges (rm_Source mv))"

lemma ranges_bounds:
  assumes "0 < shards" "shards \<le> 16384" "rg \<in> set (GenerateSlotRanges shards)"
  shows "0 \<le> Start rg" "Start rg \<le> End rg" "End rg \<le> 16383"
proof -
  have per: "0 < 16384 div shards" using assms(1,2) by (simp add: pos_imp_zdiv_pos_iff)
  have "concat (map slots_of (GenerateSlotRanges shards)) = [0..16383]" by (rule ranges_cover [OF assms(1)])
  then have sub: "set (slots_of rg) \<subseteq> {0..16383}"
    using assms(3) by (metis UN_upper set_concat set_map set_upto image_image image_eqI)
  show le: "Start rg \<le> End rg"
    using slot_loop_sizes [of rg] assms(1,3) per by (fastforce simp: GenerateSlotRanges_def)
  with sub show "0 \<le> Start rg" "End rg \<le> 16383" by (auto simp: slots_of_def)
qed

lemma owned_indices_spec:
  "owned_indices R p ss acc = Inr r \<longleftrightarrow>
     -1 \<notin> set (map (alignedRangeIndex R) ss) \<and> r = acc @ map (alignedRangeIndex R) ss"
  by (induction R p ss acc rule: owned_indices.induct)
    (auto simp: alignedRangeIndex_def Let_def split: sum.splits)

lemma reshard_scan_spec:
  "aligned R ns \<Longrightarrow> reshard_scan R ns ow em =
     Inr (ow @ map (\<lambda>n. (n, shard_idxs R n)) (filter (\<lambda>n. cn_Slots n \<noteq> []) (live_masters ns)), em @ empties ns)"
proof (induction R ns ow em rule: reshard_scan.induct)
  case (2 expected n ns owned em)
  have "owned_indices expected (cn_PodName n) (cn_Slots n) [] = Inr (shard_idxs expected n)"
    if "cn_Role n = roleMaster" "cn_Reachable n"
    using 2 that by (simp add: owned_indices_spec shard_idxs_def live_masters_def aligned_def)
  with 2 show ?case by (auto simp: live_masters_def empties_def aligned_def)
qed (simp add: live_masters_def empties_def)

lemma reshard_scan_aligned: "reshard_scan R ns ow em = Inr r \<Longrightarrow> aligned R ns"
proof (induction R ns ow em rule: reshard_scan.induct)
  case (2 expected n ns owned em)
  then show ?case
    by (auto simp: live_masters_def aligned_def owned_indices_spec shard_idxs_def split: if_splits sum.splits)
qed (simp add: live_masters_def aligned_def)

lemma PlanReshard_aligned:
  "rp_Moves (PlanReshard iter gt shards) \<noteq> [] \<Longrightarrow>
   0 < shards \<and> aligned (GenerateSlotRanges shards) (cluster_nodes gt)"
  by (auto simp: PlanReshard_def Let_def dest!: reshard_scan_aligned split: if_splits sum.splits)

lemma reshardable_aligned: "reshardable R ns \<Longrightarrow> aligned R ns"
  by (auto simp: reshardable_def aligned_def list_all_iff)

lemma alignedRangeIndex_iff:
  assumes "0 < shards" "shards \<le> 16384" "0 \<le> k" "k < shards"
  shows "alignedRangeIndex (GenerateSlotRanges shards) s = k \<longleftrightarrow>
    ParseSlotRange s = Inr (Start (GenerateSlotRanges shards ! nat k), End (GenerateSlotRanges shards ! nat k))"
  using range_index_iff [OF ranges_distinct [OF assms(1,2)], of "nat k" 0] assms
  by (auto simp: alignedRangeIndex_def GenerateSlotRanges_length split: sum.splits)

lemma alignedRangeIndex_bounds:
  "alignedRangeIndex R s \<noteq> -1 \<Longrightarrow> 0 \<le> alignedRangeIndex R s \<and> alignedRangeIndex R s < int (length R)"
  using range_index_bounds [of 0 R] by (auto simp: alignedRangeIndex_def split: sum.splits)

lemma surplus_of_sum:
  "length (concat (map surplus_of xs)) = sum_list (map (\<lambda>e. length (snd e) - 1) xs)"
  by (induction xs) (auto simp: surplus_of_def split: prod.splits)

lemma sum_list_iter:
  fixes f :: "'a \<Rightarrow> nat"
  assumes "mset (iter xs) = mset xs"
  shows "sum_list (map f (iter xs)) = sum_list (map f xs)"
  using assms by (metis mset_map sum_mset_sum_list)

definition surpluses ::
    "((ClusterNodeState \<times> int list) list \<Rightarrow> (ClusterNodeState \<times> int list) list) \<Rightarrow> slot_range list \<Rightarrow>
     ClusterNodeState list \<Rightarrow> (int \<times> ClusterNodeState) list" where
  "surpluses iter ranges ns = concat (map surplus_of (iter (map (\<lambda>n. (n, shard_idxs ranges n))
     (filter (\<lambda>n. cn_Slots n \<noteq> []) (live_masters ns)))))"

lemma surpluses_length:
  assumes "\<And>xs. mset (iter xs) = mset xs"
  shows "length (surpluses iter R ns) = surplus ns"
proof -
  have "length (surpluses iter R ns) = sum_list (map (\<lambda>n. length (cn_Slots n) - 1)
      (filter (\<lambda>n. cn_Slots n \<noteq> []) (live_masters ns)))"
    unfolding surpluses_def surplus_of_sum by (subst sum_list_iter [OF assms]) (simp add: o_def shard_idxs_def)
  also have "\<dots> = surplus ns"
    by (auto simp: surplus_def sum_list_map_filter' intro!: arg_cong [of _ _ sum_list] map_cong)
  finally show ?thesis .
qed

lemma surpluses_member:
  assumes "\<And>xs. mset (iter xs) = mset xs" and "(idx, node) \<in> set (surpluses iter R ns)"
  shows "node \<in> set (live_masters ns) \<and> idx \<in> set (shard_idxs R node) \<and> 2 \<le> length (cn_Slots node)"
proof -
  have "set (iter xs) = set xs" for xs using assms(1) by (metis set_mset_mset)
  then obtain m where m: "m \<in> set (live_masters ns)" "(idx, node) \<in> set (surplus_of (m, shard_idxs R m))"
    using assms(2) by (auto simp: surpluses_def)
  then have "1 < length (shard_idxs R m)" "idx \<in> set (tl (sort (shard_idxs R m)))" "node = m"
    by (auto simp: surplus_of_def split: if_splits)
  moreover from this(2) have "idx \<in> set (shard_idxs R m)"
    by (metis list.set_sel(2) set_sort tl_Nil empty_iff list.set(1))
  ultimately show ?thesis using m(1) by (simp add: shard_idxs_def)
qed

lemma PlanReshard_moves:
  assumes "0 < shards" "aligned (GenerateSlotRanges shards) (cluster_nodes gt)"
  shows "rp_Moves (PlanReshard iter gt shards) =
    map (\<lambda>((idx, source), dest).
        \<lparr>rm_Start = Start (GenerateSlotRanges shards ! nat idx),
         rm_End = End (GenerateSlotRanges shards ! nat idx), rm_Source = source, rm_Dest = dest\<rparr>)
      (zip (sort_key fst (surpluses iter (GenerateSlotRanges shards) (cluster_nodes gt)))
         (sort_key (\<lambda>n. (cn_PodName n, cn_NodeID n)) (empties (cluster_nodes gt))))"
  using assms(1) reshard_scan_spec [OF assms(2), of "[]" "[]"]
  by (simp add: PlanReshard_def Let_def surpluses_def del: concat_eq_Nil_conv)

lemma PlanReshard_good:
  assumes "0 < shards" "aligned (GenerateSlotRanges shards) (cluster_nodes gt)"
    "\<And>xs. mset (iter xs) = mset xs" "mv \<in> set (rp_Moves (PlanReshard iter gt shards))"
  shows "good_move (GenerateSlotRanges shards) (cluster_nodes gt) mv"
proof -
  let ?R = "GenerateSlotRanges shards"
  obtain idx source dest where mv: "mv = \<lparr>rm_Start = Start (?R ! nat idx), rm_End = End (?R ! nat idx),
      rm_Source = source, rm_Dest = dest\<rparr>"
    and z: "((idx, source), dest) \<in> set (zip (sort_key fst (surpluses iter ?R (cluster_nodes gt)))
         (sort_key (\<lambda>n. (cn_PodName n, cn_NodeID n)) (empties (cluster_nodes gt))))"
    using assms(4) unfolding PlanReshard_moves [OF assms(1,2)] by auto
  have "(idx, source) \<in> set (surpluses iter ?R (cluster_nodes gt))" "dest \<in> set (empties (cluster_nodes gt))"
    using set_zip_leftD [OF z] set_zip_rightD [OF z] by simp_all
  note m = surpluses_member [OF assms(3) this(1)]
  then have "idx \<noteq> -1" using assms(2) by (auto simp: aligned_def list_all_iff)
  with m have "0 \<le> idx" "idx < int (length ?R)"
    using alignedRangeIndex_bounds [of ?R] by (auto simp: shard_idxs_def)
  with m \<open>dest \<in> _\<close> show ?thesis by (auto simp: good_move_def mv list_ex_iff)
qed

section \<open>The effect of a move\<close>

text \<open>A completed move: the range has left the source and belongs to the destination.\<close>

definition move_node :: "ReshardMove \<Rightarrow> ClusterNodeState \<Rightarrow> ClusterNodeState" where
  "move_node mv n =
     (if cn_PodName n = cn_PodName (rm_Source mv)
      then n\<lparr>cn_Slots := filter (\<lambda>s. ParseSlotRange s \<noteq> Inr (rm_Start mv, rm_End mv)) (cn_Slots n)\<rparr>
      else if cn_PodName n = cn_PodName (rm_Dest mv)
      then n\<lparr>cn_Slots := cn_Slots n @ [FormatSlotRange (rm_Start mv) (rm_End mv)]\<rparr>
      else n)"

definition apply_move :: "ReshardMove \<Rightarrow> ClusterGroundTruth \<Rightarrow> ClusterGroundTruth" where
  "apply_move mv gt = gt\<lparr>Nodes := map (\<lambda>(p, n). (p, move_node mv n)) (Nodes gt)\<rparr>"

lemma cluster_nodes_apply_move [simp]: "cluster_nodes (apply_move mv gt) = map (move_node mv) (cluster_nodes gt)"
  by (auto simp: apply_move_def)

lemma move_node_fields [simp]:
  "cn_PodName (move_node mv n) = cn_PodName n" "cn_Role (move_node mv n) = cn_Role n"
  "cn_Reachable (move_node mv n) = cn_Reachable n"
  by (simp_all add: move_node_def)

lemma sum_list_two:
  fixes h :: "'a \<Rightarrow> 'b :: comm_monoid_add"
  assumes "distinct ns" "a \<in> set ns" "b \<in> set ns" "a \<noteq> b"
  shows "sum_list (map h ns) = h a + (h b + sum_list (map h (filter (\<lambda>n. n \<noteq> a \<and> n \<noteq> b) ns)))"
proof -
  have "mset ns = mset (a # b # filter (\<lambda>n. n \<noteq> a \<and> n \<noteq> b) ns)"
    by (subst set_eq_iff_mset_eq_distinct [symmetric]) (use assms in auto)
  then have "sum_mset (mset (map h ns)) = sum_mset (mset (map h (a # b # filter (\<lambda>n. n \<noteq> a \<and> n \<noteq> b) ns)))"
    by (simp only: mset_map)
  then show ?thesis by (simp add: sum_mset_sum_list [symmetric])
qed

lemma sum_list_move:
  fixes h :: "ClusterNodeState \<Rightarrow> 'b :: comm_monoid_add"
  assumes "distinct (map cn_PodName ns)" "rm_Source mv \<in> set ns" "rm_Dest mv \<in> set ns" "rm_Source mv \<noteq> rm_Dest mv"
  obtains rest where "sum_list (map h ns) = h (rm_Source mv) + (h (rm_Dest mv) + rest)"
    and "sum_list (map h (map (move_node mv) ns)) =
      h (move_node mv (rm_Source mv)) + (h (move_node mv (rm_Dest mv)) + rest)"
proof -
  let ?rest = "filter (\<lambda>n. n \<noteq> rm_Source mv \<and> n \<noteq> rm_Dest mv) ns"
  have d: "distinct ns" using assms(1) by (simp add: distinct_map)
  have "move_node mv n = n" if "n \<in> set ?rest" for n
    using assms(1-3) that by (auto simp: move_node_def distinct_map inj_on_def)
  then have same: "map (h \<circ> move_node mv) ?rest = map h ?rest" by simp
  show thesis
    using that sum_list_two [OF d assms(2-4), of h] sum_list_two [OF d assms(2-4), of "h \<circ> move_node mv"]
    unfolding same by simp
qed

lemma live_masters_move: "live_masters (map (move_node mv) ns) = map (move_node mv) (live_masters ns)"
  by (simp add: live_masters_def filter_map o_def)

lemma owned_ranges_sum: "owned_ranges R ns = sum_list (map (\<lambda>n. mset (shard_idxs R n)) (live_masters ns))"
  by (simp add: owned_ranges_def mset_concat o_def)

lemma empties_sum: "length (empties ns) = sum_list (map (\<lambda>n. if cn_Slots n = [] then 1 else 0) (live_masters ns))"
  by (simp add: empties_def sum_list_map_filter' [symmetric] sum_list_triv)

lemma moved_idxs:
  assumes "0 < shards" "shards \<le> 16384" "reshardable (GenerateSlotRanges shards) ns"
    "good_move (GenerateSlotRanges shards) ns mv"
  obtains k where "k \<in> set (shard_idxs (GenerateSlotRanges shards) (rm_Source mv))" "k \<noteq> -1"
    "shard_idxs (GenerateSlotRanges shards) (move_node mv (rm_Source mv)) =
       remove1 k (shard_idxs (GenerateSlotRanges shards) (rm_Source mv))"
    "shard_idxs (GenerateSlotRanges shards) (rm_Dest mv) = []"
    "shard_idxs (GenerateSlotRanges shards) (move_node mv (rm_Dest mv)) = [k]"
proof -
  let ?R = "GenerateSlotRanges shards"
  obtain k where k: "k \<in> set (shard_idxs ?R (rm_Source mv))" "0 \<le> k" "k < shards"
    "rm_Start mv = Start (?R ! nat k)" "rm_End mv = End (?R ! nat k)"
    using assms(1,4) by (auto simp: good_move_def list_ex_iff GenerateSlotRanges_length)
  have idx: "alignedRangeIndex ?R s = k \<longleftrightarrow> ParseSlotRange s = Inr (rm_Start mv, rm_End mv)" for s
    using alignedRangeIndex_iff [OF assms(1,2) k(2,3)] k(4,5) by simp
  have d: "distinct (shard_idxs ?R (rm_Source mv))"
    using assms(3,4) by (auto simp: reshardable_def good_move_def list_all_iff)
  have "?R ! nat k \<in> set ?R" using k(2,3) by (intro nth_mem) (simp add: GenerateSlotRanges_length)
  note bounds = ranges_bounds [OF assms(1,2) this]
  have fmt: "alignedRangeIndex ?R (FormatSlotRange (rm_Start mv) (rm_End mv)) = k"
    unfolding idx by (rule ParseSlotRange_Format) (use k(4,5) bounds in \<open>simp_all add: max_int64_def\<close>)
  have e: "cn_Slots (rm_Dest mv) = []" "cn_Slots (rm_Source mv) \<noteq> []"
    "rm_Source mv \<in> set ns" "rm_Dest mv \<in> set ns"
    using assms(4) by (auto simp: good_move_def empties_def live_masters_def)
  have "cn_PodName (rm_Source mv) \<noteq> cn_PodName (rm_Dest mv)"
  proof
    assume "cn_PodName (rm_Source mv) = cn_PodName (rm_Dest mv)"
    then have "rm_Source mv = rm_Dest mv"
      using assms(3) e(3,4) by (auto simp: reshardable_def distinct_map inj_on_def)
    with e(1,2) show False by simp
  qed
  then have "shard_idxs ?R (move_node mv (rm_Dest mv)) = [k]"
    using e(1) fmt by (simp add: shard_idxs_def move_node_def)
  moreover have "shard_idxs ?R (move_node mv (rm_Source mv)) = remove1 k (shard_idxs ?R (rm_Source mv))"
    using d by (simp add: shard_idxs_def move_node_def distinct_remove1_removeAll removeAll_filter_not_eq
      filter_map o_def idx eq_commute [of k])
  ultimately show thesis using that [OF k(1)] k(2) e(1) by (simp add: shard_idxs_def)
qed

lemma move_effect:
  assumes "0 < shards" "shards \<le> 16384" "reshardable (GenerateSlotRanges shards) ns"
    "good_move (GenerateSlotRanges shards) ns mv"
  shows "owned_ranges (GenerateSlotRanges shards) (map (move_node mv) ns) = owned_ranges (GenerateSlotRanges shards) ns"
    and "surplus ns = Suc (surplus (map (move_node mv) ns))"
    and "length (empties ns) = Suc (length (empties (map (move_node mv) ns)))"
proof -
  let ?R = "GenerateSlotRanges shards"
  obtain k where k: "k \<in> set (shard_idxs ?R (rm_Source mv))" "k \<noteq> -1"
    "shard_idxs ?R (move_node mv (rm_Source mv)) = remove1 k (shard_idxs ?R (rm_Source mv))"
    "shard_idxs ?R (rm_Dest mv) = []" "shard_idxs ?R (move_node mv (rm_Dest mv)) = [k]"
    using moved_idxs [OF assms] .
  have len: "length (cn_Slots n) = length (shard_idxs ?R n)" for n by (simp add: shard_idxs_def)
  have nil: "cn_Slots n = [] \<longleftrightarrow> length (shard_idxs ?R n) = 0" for n by (simp add: shard_idxs_def)
  have two: "2 \<le> length (shard_idxs ?R (rm_Source mv))" using assms(4) by (simp add: good_move_def len)
  have d: "distinct (map cn_PodName (live_masters ns))"
    using assms(3) by (auto simp: reshardable_def live_masters_def distinct_map_filter)
  have m: "rm_Source mv \<in> set (live_masters ns)" "rm_Dest mv \<in> set (live_masters ns)"
    "rm_Source mv \<noteq> rm_Dest mv"
    using assms(4) k(4) two by (auto simp: good_move_def empties_def)
  show "owned_ranges ?R (map (move_node mv) ns) = owned_ranges ?R ns"
    by (rule sum_list_move [OF d m, where h = "\<lambda>n. mset (shard_idxs ?R n)"])
      (use k(1) in \<open>simp add: owned_ranges_sum live_masters_move o_def k(3-5)\<close>)
  show "surplus ns = Suc (surplus (map (move_node mv) ns))"
    by (rule sum_list_move [OF d m, where h = "\<lambda>n. length (cn_Slots n) - 1"])
      (use k(1) two in \<open>simp add: surplus_def live_masters_move o_def len k(3-5) length_remove1\<close>)
  show "length (empties ns) = Suc (length (empties (map (move_node mv) ns)))"
    by (rule sum_list_move [OF d m, where h = "\<lambda>n. if cn_Slots n = [] then 1 else (0::nat)"])
      (use k(1) two in \<open>simp add: empties_sum live_masters_move o_def nil k(3-5) length_remove1 del: length_0_conv\<close>)
qed

lemma move_reshardable:
  assumes "0 < shards" "shards \<le> 16384" "reshardable (GenerateSlotRanges shards) ns"
    "good_move (GenerateSlotRanges shards) ns mv"
  shows "reshardable (GenerateSlotRanges shards) (map (move_node mv) ns)"
proof -
  let ?R = "GenerateSlotRanges shards"
  obtain k where k: "k \<in> set (shard_idxs ?R (rm_Source mv))" "k \<noteq> -1"
    "shard_idxs ?R (move_node mv (rm_Source mv)) = remove1 k (shard_idxs ?R (rm_Source mv))"
    "shard_idxs ?R (rm_Dest mv) = []" "shard_idxs ?R (move_node mv (rm_Dest mv)) = [k]"
    using moved_idxs [OF assms] .
  have m: "rm_Source mv \<in> set ns" "rm_Dest mv \<in> set ns"
    using assms(4) by (auto simp: good_move_def empties_def live_masters_def)
  have ok: "-1 \<notin> set (shard_idxs ?R n)" "distinct (shard_idxs ?R n)" if "n \<in> set (live_masters ns)" for n
    using assms(3) that by (auto simp: reshardable_def list_all_iff)
  have "-1 \<notin> set (shard_idxs ?R (move_node mv n)) \<and> distinct (shard_idxs ?R (move_node mv n))"
    if n: "n \<in> set (live_masters ns)" for n
  proof (cases "n = rm_Source mv \<or> n = rm_Dest mv")
    case True
    then show ?thesis using k ok [OF n] by (auto simp: notin_set_remove1)
  next
    case False
    moreover have "n \<in> set ns" using n by (simp add: live_masters_def)
    ultimately have "move_node mv n = n"
      using assms(3) m by (auto simp: move_node_def reshardable_def distinct_map inj_on_def)
    then show ?thesis using ok [OF n] by simp
  qed
  then show ?thesis
    using assms(3) by (simp add: reshardable_def live_masters_move list_all_iff o_def)
qed

text \<open>Passes that each complete the first move of their plan.\<close>

fun reshard_run ::
    "((ClusterNodeState \<times> int list) list \<Rightarrow> (ClusterNodeState \<times> int list) list) \<Rightarrow> int \<Rightarrow> nat \<Rightarrow>
     ClusterGroundTruth \<Rightarrow> ClusterGroundTruth" where
  "reshard_run iter shards 0 gt = gt"
| "reshard_run iter shards (Suc n) gt =
     (case rp_Moves (PlanReshard iter gt shards) of
        [] \<Rightarrow> gt
      | mv # _ \<Rightarrow> reshard_run iter shards n (apply_move mv gt))"

lemma PlanReshard_idle:
  assumes "0 < shards" "reshardable (GenerateSlotRanges shards) (cluster_nodes gt)" "\<And>xs. mset (iter xs) = mset xs"
  shows "rp_Moves (PlanReshard iter gt shards) = [] \<longleftrightarrow>
    surplus (cluster_nodes gt) = 0 \<or> empties (cluster_nodes gt) = []"
proof -
  let ?s = "surpluses iter (GenerateSlotRanges shards) (cluster_nodes gt)" and ?e = "empties (cluster_nodes gt)"
  have "length (rp_Moves (PlanReshard iter gt shards)) = min (length ?s) (length ?e)"
    unfolding PlanReshard_moves [OF assms(1) reshardable_aligned [OF assms(2)]] by simp
  then show ?thesis
    using surpluses_length [OF assms(3), of "GenerateSlotRanges shards" "cluster_nodes gt"]
    by (metis length_0_conv min_def le_zero_eq zero_le)
qed

lemma reshard_run_done:
  assumes "0 < shards" "shards \<le> 16384" "\<And>xs. mset (iter xs) = mset xs"
  shows "reshardable (GenerateSlotRanges shards) (cluster_nodes gt) \<Longrightarrow> surplus (cluster_nodes gt) = n \<Longrightarrow>
    n \<le> length (empties (cluster_nodes gt)) \<Longrightarrow>
    reshardable (GenerateSlotRanges shards) (cluster_nodes (reshard_run iter shards n gt)) \<and>
    surplus (cluster_nodes (reshard_run iter shards n gt)) = 0 \<and>
    owned_ranges (GenerateSlotRanges shards) (cluster_nodes (reshard_run iter shards n gt)) =
      owned_ranges (GenerateSlotRanges shards) (cluster_nodes gt)"
proof (induction n arbitrary: gt)
  case (Suc n)
  obtain mv mvs where mv: "rp_Moves (PlanReshard iter gt shards) = mv # mvs"
    using PlanReshard_idle [of shards gt iter] Suc.prems assms
    by (cases "rp_Moves (PlanReshard iter gt shards)") auto
  then have good: "good_move (GenerateSlotRanges shards) (cluster_nodes gt) mv"
    using PlanReshard_good [of shards gt iter mv] reshardable_aligned [OF Suc.prems(1)] assms by simp
  note eff = move_effect [OF assms(1,2) Suc.prems(1) good] move_reshardable [OF assms(1,2) Suc.prems(1) good]
  show ?case using Suc.IH [of "apply_move mv gt"] Suc.prems eff by (simp add: mv)
qed simp

lemma surplus_zero: "surplus ns = 0 \<longleftrightarrow> list_all (\<lambda>n. length (cn_Slots n) \<le> 1) (live_masters ns)"
  by (auto simp: surplus_def list_all_iff sum_list_eq_0_iff)


lemma two_shards: "GenerateSlotRanges 2 = [\<lparr>Start = 0, End = 8191\<rparr>, \<lparr>Start = 8192, End = 16383\<rparr>]"
  by (simp add: GenerateSlotRanges_def slot_loop.simps)

definition consolidated :: ClusterGroundTruth where
  "consolidated = mig_example [(mig_node ''a'' ''A'')\<lparr>cn_Slots := [FormatSlotRange 0 8191, FormatSlotRange 8192 16383]\<rparr>,
     (mig_node ''b'' ''B'')\<lparr>cn_Slots := []\<rparr>]"

lemma consolidated_idxs [simp]:
  "alignedRangeIndex (GenerateSlotRanges 2) (FormatSlotRange 0 8191) = 0"
  "alignedRangeIndex (GenerateSlotRanges 2) (FormatSlotRange 8192 16383) = 1"
  by (simp_all add: two_shards alignedRangeIndex_def ParseSlotRange_Format max_int64_def)

lemmas consolidated_eval = consolidated_def mig_example_def NewClusterGroundTruth_def mig_node_def roleMaster_def
  live_masters_def empties_def surplus_def shard_idxs_def


section \<open>No key is lost\<close>

text \<open>
  What the executor relies on, for the node at \<open>src\<close> and the host \<open>dst\<close>: a key belongs to one slot;
  the SETSLOT commands do not touch keys; COUNTKEYSINSLOT counts and GETKEYSINSLOT lists keys of the
  slot, at least one if there is any; MIGRATE leaves every key on one of the two nodes, and when it
  succeeds the keys have left the source.
\<close>

definition redis_laws :: "'r redis_ops \<Rightarrow> (string \<Rightarrow> int \<Rightarrow> 'r \<Rightarrow> string set) \<Rightarrow> string \<Rightarrow> string \<Rightarrow> bool" where
  "redis_laws ops keys src dst \<longleftrightarrow>
     (\<forall>s w. finite (keys src s w)) \<and>
     (\<forall>s s' w. s \<noteq> s' \<longrightarrow> keys src s w \<inter> keys src s' w = {}) \<and>
     (\<forall>addr slots i a s w.
        keys a s (snd (ro_SetSlotsImporting ops addr slots i w)) = keys a s w \<and>
        keys a s (snd (ro_SetSlotsMigrating ops addr slots i w)) = keys a s w \<and>
        keys a s (snd (ro_SetSlotsNode ops addr slots i w)) = keys a s w) \<and>
     (\<forall>slots w counts. ro_CountKeysInSlots ops src slots w = Inr counts \<longrightarrow>
        counts = map (\<lambda>s. (s, int (card (keys src s w)))) slots) \<and>
     (\<forall>s n w ks. ro_GetKeysInSlot ops src s n w = Inr ks \<longrightarrow>
        distinct ks \<and> set ks \<subseteq> keys src s w \<and> (0 < n \<longrightarrow> ks = [] \<longrightarrow> keys src s w = {})) \<and>
     (\<forall>t ks s w. let r = ro_MigrateKeys ops src dst 6379 t ks w in
        keys src s (snd r) \<subseteq> keys src s w \<and>
        keys src s (snd r) \<union> keys (addrOf dst) s (snd r) = keys src s w \<union> keys (addrOf dst) s w \<and>
        (fst r = None \<longrightarrow> keys src s (snd r) = keys src s w - set ks))"

text \<open>Every key that has left the source is at the destination.\<close>

definition kept :: "(string \<Rightarrow> int \<Rightarrow> 'r \<Rightarrow> string set) \<Rightarrow> string \<Rightarrow> string \<Rightarrow> 'r \<Rightarrow> 'r \<Rightarrow> bool" where
  "kept keys src dst w w' \<longleftrightarrow> (\<forall>s. keys src s w' \<subseteq> keys src s w \<and>
     keys src s w' \<union> keys (addrOf dst) s w' = keys src s w \<union> keys (addrOf dst) s w)"

lemma kept_refl [simp]: "kept keys src dst w w"
  by (simp add: kept_def)

lemma kept_trans [trans]: "kept keys src dst w w' \<Longrightarrow> kept keys src dst w' w'' \<Longrightarrow> kept keys src dst w w''"
  unfolding kept_def by (metis subset_trans)

lemma kept_same: "(\<And>a s. keys a s w' = keys a s w) \<Longrightarrow> kept keys src dst w w'"
  by (simp add: kept_def)

lemma laws_keys:
  assumes "redis_laws ops keys src dst"
  shows "finite (keys src s w)"
    and "s \<noteq> s' \<Longrightarrow> keys src s w \<inter> keys src s' w = {}"
    and "ro_SetSlotsImporting ops addr slots i w = (e, w') \<Longrightarrow> keys a s w' = keys a s w"
    and "ro_SetSlotsMigrating ops addr slots i w = (e, w') \<Longrightarrow> keys a s w' = keys a s w"
    and "ro_SetSlotsNode ops addr slots i w = (e, w') \<Longrightarrow> keys a s w' = keys a s w"
    and "ro_CountKeysInSlots ops src slots w = Inr counts \<Longrightarrow>
      counts = map (\<lambda>s. (s, int (card (keys src s w)))) slots"
proof -
  have slots: "keys a s (snd (ro_SetSlotsImporting ops addr slots i w)) = keys a s w"
    "keys a s (snd (ro_SetSlotsMigrating ops addr slots i w)) = keys a s w"
    "keys a s (snd (ro_SetSlotsNode ops addr slots i w)) = keys a s w"
    using assms by (simp_all add: redis_laws_def)
  show "ro_SetSlotsImporting ops addr slots i w = (e, w') \<Longrightarrow> keys a s w' = keys a s w"
    "ro_SetSlotsMigrating ops addr slots i w = (e, w') \<Longrightarrow> keys a s w' = keys a s w"
    "ro_SetSlotsNode ops addr slots i w = (e, w') \<Longrightarrow> keys a s w' = keys a s w"
    using slots by simp_all
qed (use assms in \<open>simp_all add: redis_laws_def\<close>)

lemma laws_get:
  assumes "redis_laws ops keys src dst" "ro_GetKeysInSlot ops src s n w = Inr ks"
  shows "distinct ks" "set ks \<subseteq> keys src s w" "0 < n \<Longrightarrow> ks = [] \<Longrightarrow> keys src s w = {}"
  using assms unfolding redis_laws_def by blast+

lemma laws_migrate:
  assumes "redis_laws ops keys src dst" "ro_MigrateKeys ops src dst 6379 t ks w = (e, w')"
  shows "kept keys src dst w w'" "e = None \<Longrightarrow> keys src s w' = keys src s w - set ks"
proof -
  have "\<forall>s. let r = ro_MigrateKeys ops src dst 6379 t ks w in
        keys src s (snd r) \<subseteq> keys src s w \<and>
        keys src s (snd r) \<union> keys (addrOf dst) s (snd r) = keys src s w \<union> keys (addrOf dst) s w \<and>
        (fst r = None \<longrightarrow> keys src s (snd r) = keys src s w - set ks)"
    using assms(1) unfolding redis_laws_def by blast
  then show "kept keys src dst w w'" "e = None \<Longrightarrow> keys src s w' = keys src s w - set ks"
    by (simp_all add: kept_def assms(2))
qed

lemma drain_slot_kept:
  assumes "redis_laws ops keys src dst"
  shows "(case drain_slot ops src dst slot batch maxKeys t moved w of
     Inl w' \<Rightarrow> kept keys src dst w w' | Inr (moved', w') \<Rightarrow> kept keys src dst w w')"
  using assms
proof (induction ops src dst slot batch maxKeys t moved w rule: drain_slot.induct)
  case (1 ops src dst slot batch maxKeys t moved w)
  show ?case
  proof (cases "moved < maxKeys")
    case True
    show ?thesis
    proof (cases "ro_GetKeysInSlot ops src slot batch w")
      case (Inr ks)
      obtain e w' where m: "ro_MigrateKeys ops src dst 6379 t ks w = (e, w')" by fastforce
      note k = laws_migrate(1) [OF "1.prems" m]
      show ?thesis
      proof (cases "ks = [] \<or> e \<noteq> None")
        case False
        then have "length ks \<noteq> 0" "e = None" by simp_all
        note IH = "1.IH" [OF True Inr this(1) m [symmetric] this(2) "1.prems"]
        have "drain_slot ops src dst slot batch maxKeys t moved w =
            drain_slot ops src dst slot batch maxKeys t (moved + int (length ks)) w'"
          using True Inr m False by (simp add: drain_slot.simps [of ops src dst slot batch maxKeys t moved w])
        then show ?thesis using IH kept_trans [OF k] by (auto split: sum.splits prod.splits)
      qed (use True Inr m k in \<open>auto simp: drain_slot.simps [of ops src dst slot batch maxKeys t moved w]\<close>)
    qed (use True in \<open>simp add: drain_slot.simps [of ops src dst slot batch maxKeys t moved w]\<close>)
  qed (simp add: drain_slot.simps [of ops src dst slot batch maxKeys t moved w])
qed

lemma drain_slots_kept:
  assumes "redis_laws ops keys src dst"
  shows "(case drain_slots ops src dst batch maxKeys t slots moved w of
     Inl w' \<Rightarrow> kept keys src dst w w' | Inr (moved', w') \<Rightarrow> kept keys src dst w w')"
  using assms
proof (induction ops src dst batch maxKeys t slots moved w rule: drain_slots.induct)
  case (2 ops src dst batch maxKeys t slot rest moved w)
  show ?case
  proof (cases "drain_slot ops src dst slot batch maxKeys t moved w")
    case (Inl w')
    then show ?thesis using drain_slot_kept [OF "2.prems", where slot = slot and batch = batch and maxKeys = maxKeys and t = t and moved = moved and w = w] by simp
  next
    case (Inr r)
    obtain moved' w' where r: "r = (moved', w')" by fastforce
    have k: "kept keys src dst w w'"
      using drain_slot_kept [OF "2.prems", where slot = slot and batch = batch and maxKeys = maxKeys and t = t and moved = moved and w = w] Inr r by simp
    show ?thesis
    proof (cases "maxKeys \<le> moved'")
      case False
      from "2.IH" [OF Inr r [symmetric] False "2.prems"] show ?thesis
        using Inr r False kept_trans [OF k] by (auto split: sum.splits prod.splits)
    qed (use Inr r k in simp)
  qed
qed simp

lemma flip_owner_keys:
  assumes "redis_laws ops keys src dst" "flip_owner ops slots owner addrs w = (done, w')"
  shows "keys a s w' = keys a s w"
  using assms(2)
proof (induction addrs arbitrary: w)
  case (Cons addr addrs)
  obtain e w1 where e: "ro_SetSlotsNode ops addr slots owner w = (e, w1)" by fastforce
  have "keys a s w' = keys a s w1"
    using Cons e by (cases e) auto
  then show ?case using laws_keys(5) [OF assms(1) e] by simp
qed simp

text \<open>The steps of a pass before the slots are counted.\<close>

definition marked :: "'r redis_ops \<Rightarrow> ReshardMove \<Rightarrow> 'r \<Rightarrow> 'r + 'r" where
  "marked ops mv w =
     (case ro_SetSlotsImporting ops (addrOf (cn_PodIP (rm_Dest mv))) [rm_Start mv..rm_End mv] (cn_NodeID (rm_Source mv)) w of
        (Some _, w) \<Rightarrow> Inl w
      | (None, w) \<Rightarrow>
          (case ro_SetSlotsMigrating ops (addrOf (cn_PodIP (rm_Source mv))) [rm_Start mv..rm_End mv] (cn_NodeID (rm_Dest mv)) w of
             (Some _, w) \<Rightarrow> Inl w
           | (None, w) \<Rightarrow> Inr w))"

lemma marked_keys:
  assumes "redis_laws ops keys src dst"
  shows "(case marked ops mv w of Inl w' \<Rightarrow> keys a s w' = keys a s w | Inr w' \<Rightarrow> keys a s w' = keys a s w)"
  using laws_keys(3,4) [OF assms] unfolding marked_def
  by (auto split: prod.split option.split)

lemma reshardViaDance_marked:
  "reshardViaDance ops spec gt mv w =
     (case marked ops mv w of
        Inl w' \<Rightarrow> (False, w')
      | Inr w' \<Rightarrow>
          (case ro_CountKeysInSlots ops (addrOf (cn_PodIP (rm_Source mv))) [rm_Start mv..rm_End mv] w' of
             Inl _ \<Rightarrow> (False, w')
           | Inr counts \<Rightarrow>
               if SlotsNeedingDrain counts = []
               then flip_owner ops [rm_Start mv..rm_End mv] (cn_NodeID (rm_Dest mv)) (reachableMasterAddrs gt) w'
               else (False, case drain_slots ops (addrOf (cn_PodIP (rm_Source mv))) (cn_PodIP (rm_Dest mv))
                   (if cs_ReshardKeyBatchSize spec \<le> 0 then 128 else cs_ReshardKeyBatchSize spec)
                   (if cs_ReshardMaxKeysPerReconcile spec \<le> 0 then 2000 else cs_ReshardMaxKeysPerReconcile spec)
                   (if cs_ReshardMigrateTimeoutMillis spec \<le> 0 then 5000 else cs_ReshardMigrateTimeoutMillis spec)
                   (SlotsNeedingDrain counts) 0 w' of Inl w \<Rightarrow> w | Inr (moved, w) \<Rightarrow> w)))"
  unfolding reshardViaDance_def marked_def Let_def
  by (auto split: prod.split option.split sum.split)

lemma SlotsNeedingDrain_counts:
  "set (SlotsNeedingDrain (map (\<lambda>s. (s, int (card (K s)))) slots)) = {s \<in> set slots. 0 < card (K s)}"
  "distinct slots \<Longrightarrow> distinct (SlotsNeedingDrain (map (\<lambda>s. (s, int (card (K s)))) slots))"
  by (auto simp: SlotsNeedingDrain_def filter_map o_def distinct_map inj_on_def)

lemma dance_kept:
  assumes "redis_laws ops keys (addrOf (cn_PodIP (rm_Source mv))) (cn_PodIP (rm_Dest mv))"
    "reshardViaDance ops spec gt mv w = (done, w')"
  shows "kept keys (addrOf (cn_PodIP (rm_Source mv))) (cn_PodIP (rm_Dest mv)) w w'"
proof (cases "marked ops mv w")
  case (Inl w1)
  then have "w' = w1" using assms(2) by (simp add: reshardViaDance_marked)
  with Inl marked_keys [OF assms(1), where mv = mv and w = w] show ?thesis by (auto intro: kept_same)
next
  case (Inr w1)
  have k1: "kept keys (addrOf (cn_PodIP (rm_Source mv))) (cn_PodIP (rm_Dest mv)) w w1"
    using Inr marked_keys [OF assms(1), where mv = mv and w = w] by (auto intro: kept_same)
  have "kept keys (addrOf (cn_PodIP (rm_Source mv))) (cn_PodIP (rm_Dest mv)) w1 w'"
  proof (cases "ro_CountKeysInSlots ops (addrOf (cn_PodIP (rm_Source mv))) [rm_Start mv..rm_End mv] w1")
    case (Inl e)
    with Inr assms(2) show ?thesis by (simp add: reshardViaDance_marked)
  next
    case counts: (Inr counts)
    show ?thesis
    proof (cases "SlotsNeedingDrain counts = []")
      case True
      then have "flip_owner ops [rm_Start mv..rm_End mv] (cn_NodeID (rm_Dest mv)) (reachableMasterAddrs gt) w1 = (done, w')"
        using Inr counts assms(2) by (simp add: reshardViaDance_marked)
      from flip_owner_keys [OF assms(1) this] show ?thesis by (auto intro: kept_same)
    next
      case False
      then show ?thesis
        using Inr counts assms(2) drain_slots_kept [OF assms(1)]
        by (auto simp: reshardViaDance_marked split: sum.split_asm prod.split_asm) (metis sum.case prod.case)+
    qed
  qed
  with k1 show ?thesis by (rule kept_trans)
qed

text \<open>While the source holds a key of the range, the owner is not changed: that command is not even looked at.\<close>

lemma drain_slot_flip [simp]:
  "drain_slot (ops\<lparr>ro_SetSlotsNode := f\<rparr>) src dst slot batch maxKeys t moved w =
   drain_slot ops src dst slot batch maxKeys t moved w"
proof (induction ops src dst slot batch maxKeys t moved w rule: drain_slot.induct)
  case (1 ops src dst slot batch maxKeys t moved w)
  then show ?case
    by (simp add: drain_slot.simps [of _ src dst slot batch maxKeys t moved w] split: sum.split prod.split option.split)
qed

lemma drain_slots_flip [simp]:
  "drain_slots (ops\<lparr>ro_SetSlotsNode := f\<rparr>) src dst batch maxKeys t slots moved w =
   drain_slots ops src dst batch maxKeys t slots moved w"
  by (induction ops src dst batch maxKeys t slots moved w rule: drain_slots.induct)
    (simp_all split: sum.split prod.split)

lemma dance_flip_drained:
  assumes "redis_laws ops keys (addrOf (cn_PodIP (rm_Source mv))) (cn_PodIP (rm_Dest mv))"
    "slot \<in> set [rm_Start mv..rm_End mv]" "keys (addrOf (cn_PodIP (rm_Source mv))) slot w \<noteq> {}"
  shows "reshardViaDance (ops\<lparr>ro_SetSlotsNode := f\<rparr>) spec gt mv w = reshardViaDance ops spec gt mv w \<and>
    \<not> fst (reshardViaDance ops spec gt mv w)"
proof -
  have m: "marked (ops\<lparr>ro_SetSlotsNode := f\<rparr>) mv w = marked ops mv w"
    by (simp add: marked_def split: prod.split option.split)
  have "SlotsNeedingDrain counts \<noteq> []" if "marked ops mv w = Inr w1"
    "ro_CountKeysInSlots ops (addrOf (cn_PodIP (rm_Source mv))) [rm_Start mv..rm_End mv] w1 = Inr counts" for w1 counts
  proof -
    let ?K = "\<lambda>s. keys (addrOf (cn_PodIP (rm_Source mv))) s w1"
    have "?K slot = keys (addrOf (cn_PodIP (rm_Source mv))) slot w"
      using marked_keys [OF assms(1), where mv = mv and w = w] that(1) by simp
    then have "slot \<in> set (SlotsNeedingDrain (map (\<lambda>s. (s, int (card (?K s)))) [rm_Start mv..rm_End mv]))"
      unfolding SlotsNeedingDrain_counts using assms(2,3) laws_keys(1) [OF assms(1)] by (simp add: card_gt_0_iff)
    then show ?thesis using laws_keys(6) [OF assms(1) that(2)] by auto
  qed
  then show ?thesis
    unfolding reshardViaDance_marked m by (simp split: sum.split prod.split)
qed

section \<open>The move comes to its end\<close>

definition redis_up :: "'r redis_ops \<Rightarrow> bool" where
  "redis_up ops \<longleftrightarrow>
     (\<forall>addr slots i w. fst (ro_SetSlotsImporting ops addr slots i w) = None \<and>
        fst (ro_SetSlotsMigrating ops addr slots i w) = None \<and> fst (ro_SetSlotsNode ops addr slots i w) = None) \<and>
     (\<forall>addr slots w. \<exists>counts. ro_CountKeysInSlots ops addr slots w = Inr counts) \<and>
     (\<forall>addr s n w. \<exists>ks. ro_GetKeysInSlot ops addr s n w = Inr ks) \<and>
     (\<forall>addr host p t ks w. fst (ro_MigrateKeys ops addr host p t ks w) = None)"

lemma drain_slot_up:
  assumes "redis_laws ops keys src dst" "redis_up ops" "0 < batch"
  shows "\<exists>moved' w'. drain_slot ops src dst slot batch maxKeys t moved w = Inr (moved', w') \<and> moved \<le> moved' \<and>
    (maxKeys \<le> moved' \<or> keys src slot w' = {}) \<and>
    int (card (keys src slot w')) + moved' = int (card (keys src slot w)) + moved \<and>
    (\<forall>s. s \<noteq> slot \<longrightarrow> keys src s w' = keys src s w)"
  using assms
proof (induction ops src dst slot batch maxKeys t moved w rule: drain_slot.induct)
  case (1 ops src dst slot batch maxKeys t moved w)
  note unfold = drain_slot.simps [of ops src dst slot batch maxKeys t moved w]
  show ?case
  proof (cases "moved < maxKeys")
    case True
    obtain ks where g: "ro_GetKeysInSlot ops src slot batch w = Inr ks"
      using "1.prems"(2) unfolding redis_up_def by metis
    note get = laws_get [OF "1.prems"(1) g]
    show ?thesis
    proof (cases "ks = []")
      case True
      then show ?thesis using g get(3) "1.prems"(3) \<open>moved < maxKeys\<close> by (simp add: unfold)
    next
      case False
      obtain w1 where m: "ro_MigrateKeys ops src dst 6379 t ks w = (None, w1)"
        using "1.prems"(2) unfolding redis_up_def by (metis prod.collapse)
      note k = laws_migrate(2) [OF "1.prems"(1) m refl]
      have eq: "drain_slot ops src dst slot batch maxKeys t moved w =
          drain_slot ops src dst slot batch maxKeys t (moved + int (length ks)) w1"
        using True g m False by (simp add: unfold)
      have fin: "finite (keys src slot w)" by (rule laws_keys(1) [OF "1.prems"(1)])
      have c: "card (keys src slot w1) + length ks = card (keys src slot w)"
        unfolding k distinct_card [OF get(1), symmetric]
        using card_Diff_subset [OF _ get(2)] card_mono [OF fin get(2)] by simp
      have o: "keys src s w1 = keys src s w" if "s \<noteq> slot" for s
        using laws_keys(2) [OF "1.prems"(1) that, of w] get(2) k by auto
      have "length ks \<noteq> 0" using False by simp
      from "1.IH" [OF True g this m [symmetric] refl "1.prems"] obtain moved' w' where
        "drain_slot ops src dst slot batch maxKeys t (moved + int (length ks)) w1 = Inr (moved', w')"
        "moved + int (length ks) \<le> moved'" "maxKeys \<le> moved' \<or> keys src slot w' = {}"
        "int (card (keys src slot w')) + moved' = int (card (keys src slot w1)) + (moved + int (length ks))"
        "\<forall>s. s \<noteq> slot \<longrightarrow> keys src s w' = keys src s w1" by blast
      then show ?thesis using eq c o by (intro exI [of _ moved'] exI [of _ w']) auto
    qed
  qed (simp add: unfold)
qed

definition keys_left :: "(string \<Rightarrow> int \<Rightarrow> 'r \<Rightarrow> string set) \<Rightarrow> string \<Rightarrow> int list \<Rightarrow> 'r \<Rightarrow> nat" where
  "keys_left keys src slots w = sum_list (map (\<lambda>s. card (keys src s w)) slots)"

lemma keys_left_zero:
  assumes "redis_laws ops keys src dst"
  shows "keys_left keys src slots w = 0 \<longleftrightarrow> list_all (\<lambda>s. keys src s w = {}) slots"
  using laws_keys(1) [OF assms] by (simp add: keys_left_def sum_list_eq_0_iff list_all_iff)

lemma keys_left_step:
  assumes "int (card (keys src slot w')) + d = int (card (keys src slot w)) + e"
    "\<forall>s. s \<noteq> slot \<longrightarrow> keys src s w' = keys src s w" "distinct slots" "slot \<in> set slots"
  shows "int (keys_left keys src slots w') + d = int (keys_left keys src slots w) + e"
proof -
  have "sum_list (map (\<lambda>s. card (keys src s w')) (remove1 slot slots)) =
      sum_list (map (\<lambda>s. card (keys src s w)) (remove1 slot slots))"
    using assms(2,3) by (intro arg_cong [of _ _ sum_list]) auto
  then show ?thesis
    using assms(1) sum_list_map_remove1 [OF assms(4), of "\<lambda>s. card (keys src s w)"]
      sum_list_map_remove1 [OF assms(4), of "\<lambda>s. card (keys src s w')"] by (simp add: keys_left_def)
qed

lemma drain_slots_up:
  assumes "redis_laws ops keys src dst" "redis_up ops" "0 < batch" "distinct slots"
  shows "set todo \<subseteq> set slots \<Longrightarrow> distinct todo \<Longrightarrow>
    \<exists>moved' w'. drain_slots ops src dst batch maxKeys t todo moved w = Inr (moved', w') \<and>
      int (keys_left keys src slots w') + moved' = int (keys_left keys src slots w) + moved \<and>
      (maxKeys \<le> moved' \<or> list_all (\<lambda>s. keys src s w' = {}) todo) \<and>
      (\<forall>s. s \<notin> set todo \<longrightarrow> keys src s w' = keys src s w)"
proof (induction todo arbitrary: moved w)
  case (Cons slot rest)
  from drain_slot_up [OF assms(1-3), of slot maxKeys t moved w] obtain moved1 w1 where d:
    "drain_slot ops src dst slot batch maxKeys t moved w = Inr (moved1, w1)"
    "maxKeys \<le> moved1 \<or> keys src slot w1 = {}"
    "int (card (keys src slot w1)) + moved1 = int (card (keys src slot w)) + moved"
    "\<forall>s. s \<noteq> slot \<longrightarrow> keys src s w1 = keys src s w" by blast
  have "slot \<in> set slots" using Cons.prems(1) by simp
  note left = keys_left_step [where keys = keys and src = src, OF d(3,4) assms(4) this]
  show ?case
  proof (cases "maxKeys \<le> moved1")
    case True
    then show ?thesis using d left by auto
  next
    case False
    have "set rest \<subseteq> set slots" "distinct rest" "slot \<notin> set rest" using Cons.prems by auto
    from Cons.IH [OF this(1,2), of moved1 w1] obtain moved' w' where r:
      "drain_slots ops src dst batch maxKeys t rest moved1 w1 = Inr (moved', w')"
      "int (keys_left keys src slots w') + moved' = int (keys_left keys src slots w1) + moved1"
      "maxKeys \<le> moved' \<or> list_all (\<lambda>s. keys src s w' = {}) rest"
      "\<forall>s. s \<notin> set rest \<longrightarrow> keys src s w' = keys src s w1" by blast
    have "keys src slot w' = {}" using r(4) \<open>slot \<notin> set rest\<close> d(2) False by auto
    with r False d left show ?thesis by (intro exI [of _ moved'] exI [of _ w']) auto
  qed
qed simp

text \<open>Passes over the same move until one reports that it is done.\<close>

fun dance_run ::
    "'r redis_ops \<Rightarrow> ClusterSpec \<Rightarrow> ClusterGroundTruth \<Rightarrow> ReshardMove \<Rightarrow> nat \<Rightarrow> 'r \<Rightarrow> bool \<times> 'r" where
  "dance_run ops spec gt mv 0 w = (False, w)"
| "dance_run ops spec gt mv (Suc n) w =
     (case reshardViaDance ops spec gt mv w of
        (True, w') \<Rightarrow> (True, w')
      | (False, w') \<Rightarrow> dance_run ops spec gt mv n w')"

definition max_keys :: "ClusterSpec \<Rightarrow> int" where
  "max_keys spec = (if cs_ReshardMaxKeysPerReconcile spec \<le> 0 then 2000 else cs_ReshardMaxKeysPerReconcile spec)"

lemma flip_owner_up: "redis_up ops \<Longrightarrow> fst (flip_owner ops slots owner addrs w)"
  by (induction addrs arbitrary: w) (auto simp: redis_up_def split: prod.split option.split, metis fst_conv option.simps(3))

lemma marked_up: "redis_up ops \<Longrightarrow> \<exists>w'. marked ops mv w = Inr w'"
  unfolding marked_def redis_up_def by (auto split: prod.split option.split) (metis fst_conv option.simps(3))+

text \<open>A pass with keys left on the source moves the full number of keys, or all that are left.\<close>

lemma dance_step:
  assumes "redis_laws ops keys (addrOf (cn_PodIP (rm_Source mv))) (cn_PodIP (rm_Dest mv))" "redis_up ops"
    "reshardViaDance ops spec gt mv w = (done, w')"
    "l = keys_left keys (addrOf (cn_PodIP (rm_Source mv))) [rm_Start mv..rm_End mv] w"
    "l' = keys_left keys (addrOf (cn_PodIP (rm_Source mv))) [rm_Start mv..rm_End mv] w'"
  shows "(l = 0 \<longrightarrow> done) \<and> (l' = 0 \<or> int l' + max_keys spec \<le> int l)"
proof -
  let ?src = "addrOf (cn_PodIP (rm_Source mv))" and ?slots = "[rm_Start mv..rm_End mv]"
  obtain w1 where m: "marked ops mv w = Inr w1" using marked_up [OF assms(2)] by blast
  have k1: "keys a s w1 = keys a s w" for a s
    using marked_keys [OF assms(1), where mv = mv and w = w] m by simp
  obtain counts where c: "ro_CountKeysInSlots ops ?src ?slots w1 = Inr counts"
    using assms(2) unfolding redis_up_def by blast
  define todo where "todo = SlotsNeedingDrain counts"
  have t: "set todo = {s \<in> set ?slots. 0 < card (keys ?src s w)}" "distinct todo"
    using SlotsNeedingDrain_counts(1) [of "\<lambda>s. keys ?src s w1" ?slots]
      SlotsNeedingDrain_counts(2) [of ?slots "\<lambda>s. keys ?src s w1"]
    unfolding todo_def laws_keys(6) [OF assms(1) c] by (simp_all add: k1)
  show ?thesis
  proof (cases "todo = []")
    case True
    then have f: "flip_owner ops ?slots (cn_NodeID (rm_Dest mv)) (reachableMasterAddrs gt) w1 = (done, w')"
      using m c assms(3) by (simp add: reshardViaDance_marked todo_def)
    have "l = 0" using True t(1) by (auto simp: assms(4) keys_left_def sum_list_eq_0_iff)
    moreover have "l' = l"
      using flip_owner_keys [OF assms(1) f] k1 by (simp add: assms(4,5) keys_left_def)
    ultimately show ?thesis using f flip_owner_up [OF assms(2)] by (metis fst_conv)
  next
    case False
    have b: "0 < (if cs_ReshardKeyBatchSize spec \<le> 0 then 128 else cs_ReshardKeyBatchSize spec)" by simp
    have "set todo \<subseteq> set ?slots" "distinct ?slots" using t(1) by auto
    from drain_slots_up [OF assms(1,2) b this(2,1) t(2), of "max_keys spec"
        "if cs_ReshardMigrateTimeoutMillis spec \<le> 0 then 5000 else cs_ReshardMigrateTimeoutMillis spec" 0 w1]
    obtain moved w2 where d: "drain_slots ops ?src (cn_PodIP (rm_Dest mv))
        (if cs_ReshardKeyBatchSize spec \<le> 0 then 128 else cs_ReshardKeyBatchSize spec) (max_keys spec)
        (if cs_ReshardMigrateTimeoutMillis spec \<le> 0 then 5000 else cs_ReshardMigrateTimeoutMillis spec) todo 0 w1 =
          Inr (moved, w2)"
      "int (keys_left keys ?src ?slots w2) + moved = int (keys_left keys ?src ?slots w1) + 0"
      "max_keys spec \<le> moved \<or> list_all (\<lambda>s. keys ?src s w2 = {}) todo"
      "\<forall>s. s \<notin> set todo \<longrightarrow> keys ?src s w2 = keys ?src s w1" by blast
    have w': "w' = w2"
      using m c assms(3) False d(1) by (auto simp: reshardViaDance_marked todo_def max_keys_def split: if_splits)
    have "card (keys ?src s w2) = 0" if "list_all (\<lambda>s. keys ?src s w2 = {}) todo" "s \<in> set ?slots" for s
    proof (cases "s \<in> set todo")
      case True
      with that(1) show ?thesis by (simp add: list_all_iff)
    next
      case False
      with that(2) t(1) have "card (keys ?src s w) = 0" by (metis (mono_tags, lifting) mem_Collect_eq neq0_conv)
      with False d(4) k1 show ?thesis by simp
    qed
    then have "l' = 0" if "list_all (\<lambda>s. keys ?src s w2 = {}) todo"
      using that unfolding assms(5) w' keys_left_def sum_list_eq_0_iff by simp
    moreover have "int l' + moved = int l"
      using d(2) by (simp add: assms(4,5) w' keys_left_def k1)
    moreover have "l \<noteq> 0"
    proof -
      obtain s where "s \<in> set todo" using False by (cases todo) auto
      then have "s \<in> set ?slots" "0 < card (keys ?src s w)" using t(1) by auto
      then show ?thesis unfolding assms(4) keys_left_def sum_list_eq_0_iff by auto
    qed
    ultimately show ?thesis using d(3) by auto
  qed
qed

lemma dance_run_done:
  assumes "redis_laws ops keys (addrOf (cn_PodIP (rm_Source mv))) (cn_PodIP (rm_Dest mv))" "redis_up ops"
  shows "keys_left keys (addrOf (cn_PodIP (rm_Source mv))) [rm_Start mv..rm_End mv] w \<le> n * nat (max_keys spec) \<Longrightarrow>
    fst (dance_run ops spec gt mv (Suc n) w)"
proof (induction n arbitrary: w)
  case 0
  obtain d w' where r: "reshardViaDance ops spec gt mv w = (d, w')" by fastforce
  from dance_step [OF assms r refl refl] 0 r show ?case by simp
next
  case (Suc n)
  let ?l = "keys_left keys (addrOf (cn_PodIP (rm_Source mv))) [rm_Start mv..rm_End mv]"
  obtain d w' where r: "reshardViaDance ops spec gt mv w = (d, w')" by fastforce
  have "?l w' \<le> n * nat (max_keys spec)"
    using dance_step [OF assms r refl refl] Suc.prems by (auto simp: max_keys_def split: if_splits)
  from Suc.IH [OF this] show ?case using r by (cases d) simp_all
qed

lemma dance_run_kept:
  assumes "redis_laws ops keys (addrOf (cn_PodIP (rm_Source mv))) (cn_PodIP (rm_Dest mv))"
  shows "kept keys (addrOf (cn_PodIP (rm_Source mv))) (cn_PodIP (rm_Dest mv)) w (snd (dance_run ops spec gt mv n w)) \<and>
    (fst (dance_run ops spec gt mv n w) \<longrightarrow>
      list_all (\<lambda>s. keys (addrOf (cn_PodIP (rm_Source mv))) s (snd (dance_run ops spec gt mv n w)) = {})
        [rm_Start mv..rm_End mv])"
proof (induction n arbitrary: w)
  case (Suc n)
  obtain d w' where r: "reshardViaDance ops spec gt mv w = (d, w')" by fastforce
  note k = dance_kept [OF assms r]
  show ?case
  proof (cases d)
    case True
    then have "keys (addrOf (cn_PodIP (rm_Source mv))) s w = {}" if "s \<in> set [rm_Start mv..rm_End mv]" for s
      using dance_flip_drained [OF assms that, of w] r by (metis fst_conv)
    moreover have "keys (addrOf (cn_PodIP (rm_Source mv))) s w' \<subseteq> keys (addrOf (cn_PodIP (rm_Source mv))) s w" for s
      using k by (simp add: kept_def)
    ultimately have "list_all (\<lambda>s. keys (addrOf (cn_PodIP (rm_Source mv))) s w' = {}) [rm_Start mv..rm_End mv]"
      unfolding list_all_iff by blast
    with k r True show ?thesis by simp
  next
    case False
    with Suc [of w'] r kept_trans [OF k] show ?thesis by auto
  qed
qed simp

text \<open>C13: moving a range key by key loses no key. Whatever fails, after every number of passes
  each key of the range is on the source or on the destination, where it was before or where it has
  been moved to; while the source holds a key of the range, a pass neither reports that it is done
  nor sends a change of the owner; and when the commands succeed, \<open>n + 1\<close> passes are enough for
  \<open>n\<close> times the number of keys that a pass may move, after which the source holds no key of the range.\<close>

theorem reshard_dance_preserves_keys:
  assumes "redis_laws ops keys src (cn_PodIP (rm_Dest mv))" and "src = addrOf (cn_PodIP (rm_Source mv))"
    and "dance_run ops spec gt mv m w = (done, w')"
  shows "kept keys src (cn_PodIP (rm_Dest mv)) w w' \<and>
    (slot \<in> set [rm_Start mv..rm_End mv] \<and> keys src slot w \<noteq> {} \<longrightarrow>
      \<not> fst (reshardViaDance ops spec gt mv w) \<and>
      reshardViaDance (ops\<lparr>ro_SetSlotsNode := f\<rparr>) spec gt mv w = reshardViaDance ops spec gt mv w) \<and>
    (redis_up ops \<and> m = Suc n \<and>
      keys_left keys src [rm_Start mv..rm_End mv] w \<le> n * nat (max_keys spec) \<longrightarrow>
      done \<and> keys_left keys src [rm_Start mv..rm_End mv] w' = 0)"
proof -
  have laws: "redis_laws ops keys (addrOf (cn_PodIP (rm_Source mv))) (cn_PodIP (rm_Dest mv))"
    using assms(1,2) by simp
  show ?thesis
    using dance_run_kept [OF laws, of w spec gt m] dance_flip_drained [OF laws, of slot w f spec gt]
      dance_run_done [OF laws, of w n spec gt] keys_left_zero [OF laws] assms(2,3) by auto
qed

text \<open>Two nodes with the keys of slot 5 on each, whose commands always succeed.\<close>

definition two_keys :: "string \<Rightarrow> int \<Rightarrow> string list \<times> string list \<Rightarrow> string set" where
  "two_keys addr s w =
     (if s \<noteq> 5 then {} else if addr = ''1:6379'' then set (fst w)
      else if addr = ''2:6379'' then set (snd w) else {})"

definition two_nodes :: "(string list \<times> string list) redis_ops" where
  "two_nodes =
     \<lparr>ro_SetSlotsImporting = (\<lambda>addr slots i w. (None, w)),
      ro_SetSlotsMigrating = (\<lambda>addr slots i w. (None, w)),
      ro_SetSlotsNode = (\<lambda>addr slots i w. (None, w)),
      ro_CountKeysInSlots = (\<lambda>addr slots w. Inr (map (\<lambda>s. (s, int (card (two_keys addr s w)))) slots)),
      ro_GetKeysInSlot = (\<lambda>addr s n w. Inr (if s = 5 then take (nat n) (remdups (fst w)) else [])),
      ro_MigrateKeys = (\<lambda>addr host p t ks w.
        (None, (filter (\<lambda>k. k \<notin> set ks) (fst w), snd w @ filter (\<lambda>k. k \<in> set ks) (fst w)))),
      ro_MigrationStatus = (\<lambda>addr w. Inr None),
      ro_MigrationImport = (\<lambda>addr ranges w. (Inr [], w))\<rparr>"

definition two_move :: ReshardMove where
  "two_move = \<lparr>rm_Start = 5, rm_End = 5, rm_Source = (mig_node ''a'' ''A'')\<lparr>cn_PodIP := ''1''\<rparr>,
     rm_Dest = (mig_node ''b'' ''B'')\<lparr>cn_PodIP := ''2''\<rparr>\<rparr>"

lemma two_nodes_laws: "redis_laws two_nodes two_keys ''1:6379'' ''2''" "redis_up two_nodes"
  by (auto simp: redis_laws_def redis_up_def two_nodes_def two_keys_def addrOf_def Let_def dest: in_set_takeD)

theorem reshard_dance_preserves_keys_witness:
  "redis_laws two_nodes two_keys ''1:6379'' ''2'' \<and> redis_up two_nodes \<and>
    keys_left two_keys ''1:6379'' [5..5] ([''x'', ''y''], []) = 2 \<and>
    kept two_keys ''1:6379'' ''2'' ([''x'', ''y''], [])
      (snd (dance_run two_nodes empty_cluster_spec consolidated two_move 2 ([''x'', ''y''], []))) \<and>
    \<not> fst (reshardViaDance two_nodes empty_cluster_spec consolidated two_move ([''x'', ''y''], [])) \<and>
    fst (dance_run two_nodes empty_cluster_spec consolidated two_move 2 ([''x'', ''y''], [])) \<and>
    keys_left two_keys ''1:6379'' [5..5]
      (snd (dance_run two_nodes empty_cluster_spec consolidated two_move 2 ([''x'', ''y''], []))) = 0"
proof -
  have src: "''1:6379'' = addrOf (cn_PodIP (rm_Source two_move))" "cn_PodIP (rm_Dest two_move) = ''2''"
    "rm_Start two_move = 5" "rm_End two_move = 5"
    by (simp_all add: two_move_def addrOf_def)
  have k: "keys_left two_keys ''1:6379'' [5..5] ([''x'', ''y''], []) = 2"
    "two_keys ''1:6379'' 5 ([''x'', ''y''], []) \<noteq> {}"
    by (simp_all add: keys_left_def two_keys_def)
  have l: "redis_laws two_nodes two_keys ''1:6379'' (cn_PodIP (rm_Dest two_move))"
    using two_nodes_laws(1) src(2) by simp
  from reshard_dance_preserves_keys [OF l src(1) surjective_pairing, where spec = empty_cluster_spec and
      gt = consolidated and m = "Suc 1" and w = "([''x'', ''y''], [])" and slot = 5 and n = 1] k two_nodes_laws src
  show ?thesis by (simp add: max_keys_def empty_cluster_spec_def numeral_2_eq_2 del: dance_run.simps)
qed

end
