(* ===== verification/Cluster_Rollout.thy ===== *)
theory Cluster_Rollout
  imports Migration_Driver
begin

text \<open>
  The rolling update of the shards (\<open>internal/controller/cluster_rollout.go\<close>, and its two drivers
  \<open>reconcileClusterStatefulSet\<close> and \<open>advanceClusterRollout\<close> of \<open>cluster_reconcile.go\<close>). The partition of
  a shard's StatefulSet is the cursor of its update: the StatefulSet controller replaces only the pods at
  or above it. The planner decides the next partition from the shard's StatefulSet, its pods and the
  ground truth; the first driver runs before the gather and can only hold or raise it, the second
  runs after and is the one that lowers it.

  The StatefulSets that the builders of \<open>resources.go\<close> render are not modelled; what they decide, the
  hash of the desired pod template, is a parameter. An application of a StatefulSet is a command with
  the shard and the partition.
\<close>

section \<open>Data\<close>

definition int32 :: "int \<Rightarrow> int" where
  "int32 x = (x + 2 ^ 31) mod 2 ^ 32 - 2 ^ 31"

record shard_sts =
  sh_Hash :: string
  sh_Generation :: int
  sh_ObservedGeneration :: int
  sh_UpdateRevision :: string
  sh_CurrentRevision :: string
  sh_Partition :: "int option"
  sh_SpecReplicas :: "int option"
  sh_UpdatedReplicas :: int
  sh_ReadyReplicas :: int
  sh_Replicas :: int

record shard_pod_object =
  po_Revision :: string
  po_Containers :: "(string \<times> bool) list"
  po_Conditions :: "(string \<times> time) list"
  po_Terminating :: bool

datatype shardRolloutVerdict =
  rolloutUnset | rolloutUngated | rolloutStart | rolloutAdvance | rolloutHold | rolloutComplete

datatype shardRolloutHold =
  holdNone | holdPodAbsent | holdRevision | holdReadiness | holdRedundancy | holdSettling

record shardRolloutPod =
  sp_Ordinal :: int
  sp_Revision :: string
  sp_Ready :: bool
  sp_ReadySince :: time
  sp_AttachedToOwner :: bool
  sp_SyncedWithOwner :: bool
  sp_IsOwner :: bool

record shardRolloutInput =
  si_ShardIdx :: int
  si_ReplicasPerShard :: int
  si_DesiredHash :: string
  si_AppliedHash :: string
  si_Generation :: int
  si_ObservedGeneration :: int
  si_UpdateRevision :: string
  si_CurrentRevision :: string
  si_AppliedPartition :: "int option"
  si_Pods :: "shardRolloutPod list"
  si_Now :: time

record shardRolloutPlan =
  sr_Verdict :: shardRolloutVerdict
  sr_Partition :: "int option"
  sr_Hold :: shardRolloutHold
  sr_HoldPod :: int
  sr_Blocked :: bool
  sr_BlockedPods :: "int list"

section \<open>The planner\<close>

definition statefulSetRolloutSettled :: "shard_sts option \<Rightarrow> bool" where
  "statefulSetRolloutSettled sts =
     (case sts of
        None \<Rightarrow> False
      | Some s \<Rightarrow>
          (case sh_SpecReplicas s of
             None \<Rightarrow> False
           | Some want \<Rightarrow>
               sh_ObservedGeneration s = sh_Generation s \<and> sh_UpdateRevision s \<noteq> [] \<and>
               sh_UpdateRevision s = sh_CurrentRevision s \<and> sh_UpdatedReplicas s = want \<and>
               sh_ReadyReplicas s = want \<and> sh_Replicas s = want))"

definition clusterRolloutReattachBudget :: duration where
  "clusterRolloutReattachBudget = 120 * second"

definition highestOrdinal :: "shardRolloutInput \<Rightarrow> int" where
  "highestOrdinal inp = si_ReplicasPerShard inp"

definition currentPartition :: "shardRolloutInput \<Rightarrow> int" where
  "currentPartition inp =
     (let p = (case si_AppliedPartition inp of None \<Rightarrow> 0 | Some v \<Rightarrow> v);
          p = (if p < 0 then 0 else p); h = highestOrdinal inp
      in if p > h then h else p)"

definition hold :: "shardRolloutHold \<Rightarrow> int \<Rightarrow> shardRolloutPlan \<Rightarrow> shardRolloutPlan" where
  "hold reason ordinal p =
     (if sr_Hold p = holdNone then p\<lparr>sr_Hold := reason, sr_HoldPod := ordinal\<rparr> else p)"

definition podStalled :: "shardRolloutInput \<Rightarrow> shardRolloutPod \<Rightarrow> bool" where
  "podStalled inp pod =
     (if sp_IsOwner pod \<or> sp_AttachedToOwner pod \<or> sp_ReadySince pod = 0 then False
      else \<not> si_Now inp < sp_ReadySince pod + clusterRolloutReattachBudget)"

definition by_ordinal :: "shardRolloutPod list \<Rightarrow> (int \<rightharpoonup> shardRolloutPod)" where
  "by_ordinal pods = fold (\<lambda>p m. m(sp_Ordinal p \<mapsto> p)) pods Map.empty"

text \<open>The body of the loop over the ordinals at or above the partition.\<close>

definition judge_pod :: "shardRolloutInput \<Rightarrow> int \<Rightarrow> shardRolloutPlan \<Rightarrow> shardRolloutPlan" where
  "judge_pod inp ord plan =
     (case by_ordinal (si_Pods inp) ord of
        None \<Rightarrow> hold holdPodAbsent ord plan
      | Some pod \<Rightarrow>
          if si_UpdateRevision inp = [] \<or> sp_Revision pod \<noteq> si_UpdateRevision inp
          then hold holdRevision ord plan
          else if \<not> sp_Ready pod then hold holdReadiness ord plan
          else if \<not> sp_SyncedWithOwner pod
          then let plan = hold holdRedundancy ord plan
               in if podStalled inp pod
                  then plan\<lparr>sr_Blocked := True, sr_BlockedPods := sr_BlockedPods plan @ [ord]\<rparr>
                  else plan
          else plan)"

definition planShardRolloutPartition :: "shardRolloutInput \<Rightarrow> shardRolloutPlan" where
  "planShardRolloutPartition inp =
     (let plan = \<lparr>sr_Verdict = rolloutUnset, sr_Partition = None, sr_Hold = holdNone, sr_HoldPod = -1,
                  sr_Blocked = False, sr_BlockedPods = []\<rparr>
      in if si_ReplicasPerShard inp \<le> 0 then plan\<lparr>sr_Verdict := rolloutUngated\<rparr>
      else if si_AppliedHash inp \<noteq> si_DesiredHash inp
      then plan\<lparr>sr_Verdict := rolloutStart, sr_Partition := Some (int32 (highestOrdinal inp))\<rparr>
      else
        let part = int32 (currentPartition inp); plan = plan\<lparr>sr_Partition := Some part\<rparr>
        in if si_ObservedGeneration inp = si_Generation inp \<and> si_UpdateRevision inp \<noteq> [] \<and>
             si_UpdateRevision inp = si_CurrentRevision inp
        then plan\<lparr>sr_Verdict := rolloutComplete, sr_Partition := Some 0\<rparr>
        else
          let plan = fold (judge_pod inp) [currentPartition inp..highestOrdinal inp] plan
          in if sr_Hold plan \<noteq> holdNone then plan\<lparr>sr_Verdict := rolloutHold\<rparr>
             else if part > 0
             then plan\<lparr>sr_Verdict := rolloutAdvance, sr_Partition := Some (part - 1)\<rparr>
             else plan\<lparr>sr_Verdict := rolloutHold, sr_Hold := holdSettling\<rparr>)"

section \<open>The input of the planner\<close>

definition redisContainerReady :: "'a shard_pod_object_scheme \<Rightarrow> bool" where
  "redisContainerReady pod =
     (case map_of (po_Containers pod) ''redis'' of None \<Rightarrow> False | Some r \<Rightarrow> r)"

text \<open>
  The owner of a shard: the first master, in the order of the enumeration, with a range that contains
  the first slot of the shard's range. The ground truth is absent before the gather.
\<close>

definition serves_slot :: "int \<Rightarrow> ClusterNodeState \<Rightarrow> bool" where
  "serves_slot want n \<longleftrightarrow>
     list_ex (\<lambda>s. case ParseSlotRange s of Inl _ \<Rightarrow> False | Inr (st, en) \<Rightarrow> want \<ge> st \<and> want \<le> en) (cn_Slots n)"

definition shardSlotOwner ::
    "ClusterGroundTruth option \<Rightarrow> string \<Rightarrow> int \<Rightarrow> int \<Rightarrow> int \<Rightarrow> ClusterNodeState option" where
  "shardSlotOwner gt name shards replicasPerShard shardIdx =
     (case gt of
        None \<Rightarrow> None
      | Some g \<Rightarrow>
          let ranges = GenerateSlotRanges shards
          in if shardIdx < 0 \<or> shardIdx \<ge> int (length ranges) then None
             else
               let want = Start (ranges ! nat shardIdx)
               in find (\<lambda>n. cn_Role n = roleMaster \<and> serves_slot want n)
                    (List.map_filter (\<lambda>ref. map_of (Nodes g) (cp_Name ref))
                      (ClusterPodRefs name shards replicasPerShard)))"

definition gtNode :: "ClusterGroundTruth option \<Rightarrow> string \<Rightarrow> ClusterNodeState option" where
  "gtNode gt podName = (case gt of None \<Rightarrow> None | Some g \<Rightarrow> map_of (Nodes g) podName)"

definition clusterShardCount :: "ClusterSpec option \<Rightarrow> int" where
  "clusterShardCount spec = (case spec of None \<Rightarrow> 3 | Some c \<Rightarrow> cs_Shards c)"

definition rollout_pod ::
    "ClusterGroundTruth option \<Rightarrow> string \<Rightarrow> string \<Rightarrow> int \<Rightarrow> shard_pod_object \<Rightarrow> shardRolloutPod" where
  "rollout_pod gt ownerID podName ord pod =
     (let p = \<lparr>sp_Ordinal = ord, sp_Revision = po_Revision pod, sp_Ready = redisContainerReady pod,
               sp_ReadySince = (case map_of (po_Conditions pod) ''Ready'' of None \<Rightarrow> 0 | Some t \<Rightarrow> t),
               sp_AttachedToOwner = False, sp_SyncedWithOwner = False, sp_IsOwner = False\<rparr>
      in case gtNode gt podName of
           None \<Rightarrow> p
         | Some node \<Rightarrow>
             if ownerID \<noteq> []
             then p\<lparr>sp_SyncedWithOwner := IsLinkUpReplicaOf (Some node) ownerID,
                    sp_AttachedToOwner := (cn_Role node = roleReplica \<and> cn_MasterNodeID node = ownerID),
                    sp_IsOwner := (cn_NodeID node = ownerID)\<rparr>
             else p)"

definition buildShardRolloutInput ::
    "string \<Rightarrow> ClusterSpec option \<Rightarrow> int \<Rightarrow> int \<Rightarrow> string \<Rightarrow> shard_sts option \<Rightarrow> (string \<rightharpoonup> shard_pod_object) \<Rightarrow>
     ClusterGroundTruth option \<Rightarrow> time \<Rightarrow> shardRolloutInput" where
  "buildShardRolloutInput name spec shardIdx replicasPerShard desiredHash sts pods gt now =
     (let ownerID = ownerNodeID (shardSlotOwner gt name (clusterShardCount spec) replicasPerShard shardIdx)
      in \<lparr>si_ShardIdx = shardIdx, si_ReplicasPerShard = replicasPerShard, si_DesiredHash = desiredHash,
          si_AppliedHash = (case sts of None \<Rightarrow> [] | Some s \<Rightarrow> sh_Hash s),
          si_Generation = (case sts of None \<Rightarrow> 0 | Some s \<Rightarrow> sh_Generation s),
          si_ObservedGeneration = (case sts of None \<Rightarrow> 0 | Some s \<Rightarrow> sh_ObservedGeneration s),
          si_UpdateRevision = (case sts of None \<Rightarrow> [] | Some s \<Rightarrow> sh_UpdateRevision s),
          si_CurrentRevision = (case sts of None \<Rightarrow> [] | Some s \<Rightarrow> sh_CurrentRevision s),
          si_AppliedPartition = (case sts of None \<Rightarrow> None | Some s \<Rightarrow> sh_Partition s),
          si_Pods = List.map_filter (\<lambda>ord. let podName = clusterShardPodName name shardIdx ord
              in case pods podName of
                   None \<Rightarrow> None
                 | Some pod \<Rightarrow> Some (rollout_pod gt ownerID podName ord pod)) [0..replicasPerShard],
          si_Now = now\<rparr>)"

section \<open>The drivers\<close>

text \<open>
  The answers of the API server: the StatefulSet of a shard from the cache and uncached, the pods
  uncached, and the outcome of an application. The hash of the desired template is a parameter.
\<close>

record rollout_env =
  rl_Name :: string
  rl_Cluster :: "ClusterSpec option"
  rl_DesiredHash :: "int \<Rightarrow> string"
  rl_Get :: "int \<Rightarrow> api_error + shard_sts"
  rl_GetUncached :: "int \<Rightarrow> api_error + shard_sts"
  rl_GetPod :: "string \<Rightarrow> api_error + shard_pod_object"
  rl_Apply :: "int \<Rightarrow> api_error option"
  rl_GetLatest :: "api_error option"
  rl_UpdateStatus :: "api_error option"
  rl_Namespace :: string
  rl_Now :: time

datatype rollout_cmd = ApplyShard int "int option" | BlockedEvent string

definition refreshShardSTSForRollout ::
    "rollout_env \<Rightarrow> int \<Rightarrow> shard_sts \<Rightarrow> string \<Rightarrow> api_error + shard_sts" where
  "refreshShardSTSForRollout env shardIdx cached desiredHash =
     (if sh_Hash cached = desiredHash \<and> statefulSetRolloutSettled (Some cached) then Inr cached
      else case rl_GetUncached env shardIdx of
          Inl NotFound \<Rightarrow> Inr cached
        | r \<Rightarrow> r)"

text \<open>
  The loop of \<open>reconcileClusterStatefulSet\<close> over the shards, with the applications it made; the error
  is that of a read or an application.
\<close>

fun sts_loop :: "rollout_env \<Rightarrow> int list \<Rightarrow> api_error option \<times> rollout_cmd list" where
  "sts_loop env [] = (None, [])"
| "sts_loop env (k # ks) =
     (let desiredHash = rl_DesiredHash env k; rps = clusterReplicasPerShard (rl_Cluster env);
          continue = (\<lambda>c. case sts_loop env ks of (e, cs) \<Rightarrow> (e, c # cs))
      in case rl_Get env k of
           Inl NotFound \<Rightarrow>
             (case rl_Apply env k of
                Some e \<Rightarrow> (Some e, [ApplyShard k None])
              | None \<Rightarrow> continue (ApplyShard k None))
         | Inl e \<Rightarrow> (Some e, [])
         | Inr cached \<Rightarrow>
             (case refreshShardSTSForRollout env k cached desiredHash of
                Inl e \<Rightarrow> (Some e, [])
              | Inr existing \<Rightarrow>
                  let plan = planShardRolloutPartition (buildShardRolloutInput (rl_Name env) (rl_Cluster env) k rps
                               desiredHash (Some existing) Map.empty None (rl_Now env));
                      app = ApplyShard k (sr_Partition plan)
                  in if sh_Hash existing \<noteq> desiredHash then (rl_Apply env k, [app])
                     else if \<not> statefulSetRolloutSettled (Some existing) then (None, [])
                     else case rl_Apply env k of
                         Some e \<Rightarrow> (Some e, [app])
                       | None \<Rightarrow> continue app))"

definition reconcileClusterStatefulSet :: "rollout_env \<Rightarrow> api_error option \<times> rollout_cmd list" where
  "reconcileClusterStatefulSet env = sts_loop env [0..clusterShardCount (rl_Cluster env) - 1]"

fun rollout_pods ::
    "rollout_env \<Rightarrow> string list \<Rightarrow> (string \<rightharpoonup> shard_pod_object) \<Rightarrow> api_error + (string \<rightharpoonup> shard_pod_object)" where
  "rollout_pods env [] pods = Inr pods"
| "rollout_pods env (n # ns) pods =
     (case rl_GetPod env n of
        Inl NotFound \<Rightarrow> rollout_pods env ns pods
      | Inl e \<Rightarrow> Inl e
      | Inr pod \<Rightarrow>
          if po_Terminating pod then rollout_pods env ns pods else rollout_pods env ns (pods(n \<mapsto> pod)))"

definition shardRolloutPods ::
    "rollout_env \<Rightarrow> int \<Rightarrow> int \<Rightarrow> api_error + (string \<rightharpoonup> shard_pod_object)" where
  "shardRolloutPods env shardIdx replicasPerShard =
     rollout_pods env (map (clusterShardPodName (rl_Name env) shardIdx) [0..replicasPerShard]) Map.empty"

text \<open>
  The condition \<open>ClusterRolloutBlocked\<close>, as the object in memory and the stored one have it: its
  status, reason and message. A write reads the stored object and updates it; the retry on conflict
  is part of the outcome. The event is only sent when the stored status changes to true.
\<close>

type_synonym blocked_cond = "(bool \<times> string \<times> string) option"

definition setClusterRolloutBlocked ::
    "rollout_env \<Rightarrow> bool \<Rightarrow> string \<Rightarrow> string \<Rightarrow> blocked_cond \<times> blocked_cond \<Rightarrow>
     api_error option \<times> (blocked_cond \<times> blocked_cond) \<times> rollout_cmd list" where
  "setClusterRolloutBlocked env status reason message conds =
     (case conds of (mem, stored) \<Rightarrow>
        case rl_GetLatest env of
          Some e \<Rightarrow> (Some e, conds, [])
        | None \<Rightarrow>
            if stored = Some (status, reason, message) then (None, conds, [])
            else
              let transitioned = (case stored of None \<Rightarrow> True | Some (s, _) \<Rightarrow> s \<noteq> status);
                  new = Some (status, reason, message)
              in case rl_UpdateStatus env of
                   Some e \<Rightarrow> (Some e, (new, stored), [])
                 | None \<Rightarrow> (None, (new, new), if transitioned \<and> status then [BlockedEvent message] else []))"

definition clearClusterRolloutBlocked ::
    "rollout_env \<Rightarrow> blocked_cond \<times> blocked_cond \<Rightarrow>
     api_error option \<times> (blocked_cond \<times> blocked_cond) \<times> rollout_cmd list" where
  "clearClusterRolloutBlocked env conds =
     (if fst conds = None then (None, conds, [])
      else setClusterRolloutBlocked env False ''RolloutProgressing''
        ''No cluster shard rollout is blocked on redundancy.'' conds)"

definition dquote :: string where
  "dquote = [CHR 0x22]"

definition squote :: string where
  "squote = [CHR 0x27]"

definition clusterRolloutBlockedMessage :: "int \<Rightarrow> shardRolloutPlan \<Rightarrow> string \<Rightarrow> string \<Rightarrow> string" where
  "clusterRolloutBlockedMessage shardIdx plan stsName namespace =
     (let ordinal = (case sr_BlockedPods plan of [] \<Rightarrow> sr_HoldPod plan | o' # _ \<Rightarrow> o');
          q = (\<lambda>s. dquote @ s @ dquote)
      in ''Rolling update of shard '' @ Itoa shardIdx @ '' is held: pod ordinal '' @ Itoa ordinal @
         '' is updated and Ready but is not attached to the shard'' @ squote @
         ''s slot owner at all (clause PodNotSyncedReplica), and has been in that state for longer than 2m0s. '' @
         ''The shard'' @ squote @ ''s remaining pods '' @ em_dash @ '' including its master '' @ em_dash @
         '' are NOT being taken down, so the instance keeps serving and its data is intact; '' @
         ''the update simply cannot finish safely. Release by hand with `kubectl patch statefulset '' @
         stsName @ '' -n '' @ namespace @ '' --type=json -p '' @ squote @ ''[{'' @ q ''op'' @ '':'' @ q ''replace'' @
         '','' @ q ''path'' @ '':'' @ q ''/spec/updateStrategy/rollingUpdate/partition'' @ '','' @ q ''value'' @
         '':0}]'' @ squote @ ''` '' @ em_dash @ '' which forfeits the guarantee (ADR-017, LR-047).'')"

definition reportClusterRolloutGate ::
    "rollout_env \<Rightarrow> int \<Rightarrow> shardRolloutPlan \<Rightarrow> blocked_cond \<times> blocked_cond \<Rightarrow>
     api_error option \<times> (blocked_cond \<times> blocked_cond) \<times> rollout_cmd list" where
  "reportClusterRolloutGate env shardIdx plan conds =
     (if \<not> sr_Blocked plan then clearClusterRolloutBlocked env conds
      else setClusterRolloutBlocked env True ''ShardNotRedundant''
        (clusterRolloutBlockedMessage shardIdx plan (clusterShardStatefulSetName (rl_Name env) shardIdx)
          (rl_Namespace env)) conds)"

fun advance_loop ::
    "rollout_env \<Rightarrow> ClusterGroundTruth \<Rightarrow> int list \<Rightarrow> blocked_cond \<times> blocked_cond \<Rightarrow>
     api_error option \<times> (blocked_cond \<times> blocked_cond) \<times> rollout_cmd list" where
  "advance_loop env gt [] conds = clearClusterRolloutBlocked env conds"
| "advance_loop env gt (k # ks) conds =
     (let desiredHash = rl_DesiredHash env k; rps = clusterReplicasPerShard (rl_Cluster env)
      in case rl_GetUncached env k of
           Inl NotFound \<Rightarrow> advance_loop env gt ks conds
         | Inl e \<Rightarrow> (Some e, conds, [])
         | Inr sts \<Rightarrow>
             if sh_Hash sts = desiredHash \<and> statefulSetRolloutSettled (Some sts)
             then advance_loop env gt ks conds
             else (case shardRolloutPods env k rps of
                 Inl e \<Rightarrow> (Some e, conds, [])
               | Inr pods \<Rightarrow>
                   let plan = planShardRolloutPartition (buildShardRolloutInput (rl_Name env) (rl_Cluster env) k rps
                                desiredHash (Some sts) pods (Some gt) (rl_Now env));
                       app = ApplyShard k (sr_Partition plan)
                   in if sr_Verdict plan = rolloutAdvance
                      then (case rl_Apply env k of
                          Some e \<Rightarrow> (Some e, conds, [app])
                        | None \<Rightarrow> (case reportClusterRolloutGate env k plan conds of
                            (e, conds', cs) \<Rightarrow> (e, conds', app # cs)))
                      else reportClusterRolloutGate env k plan conds))"

definition advanceClusterRollout ::
    "rollout_env \<Rightarrow> ClusterGroundTruth \<Rightarrow> blocked_cond \<times> blocked_cond \<Rightarrow>
     api_error option \<times> (blocked_cond \<times> blocked_cond) \<times> rollout_cmd list" where
  "advanceClusterRollout env gt conds =
     (if clusterReplicasPerShard (rl_Cluster env) \<le> 0 then clearClusterRolloutBlocked env conds
      else advance_loop env gt [0..clusterShardCount (rl_Cluster env) - 1] conds)"

section \<open>The gate\<close>

definition in_place :: "shardRolloutInput \<Rightarrow> int \<Rightarrow> bool" where
  "in_place inp ord \<longleftrightarrow>
     (case by_ordinal (si_Pods inp) ord of
        None \<Rightarrow> False
      | Some pod \<Rightarrow> si_UpdateRevision inp \<noteq> [] \<and> sp_Revision pod = si_UpdateRevision inp \<and>
          sp_Ready pod \<and> sp_SyncedWithOwner pod)"

definition at_rest :: "shardRolloutInput \<Rightarrow> bool" where
  "at_rest inp \<longleftrightarrow> si_ObservedGeneration inp = si_Generation inp \<and> si_UpdateRevision inp \<noteq> [] \<and>
     si_UpdateRevision inp = si_CurrentRevision inp"

lemma hold_simps [simp]:
  "sr_Partition (hold r n p) = sr_Partition p" "sr_Verdict (hold r n p) = sr_Verdict p"
  "sr_Hold (hold r n p) = (if sr_Hold p = holdNone then r else sr_Hold p)"
  by (simp_all add: hold_def)

lemma judge_pod_simps [simp]:
  "sr_Partition (judge_pod inp n p) = sr_Partition p"
  "sr_Hold (judge_pod inp n p) = holdNone \<longleftrightarrow> sr_Hold p = holdNone \<and> in_place inp n"
  by (auto simp: judge_pod_def in_place_def Let_def split: option.splits)

lemma judge_pods_simps [simp]:
  "sr_Partition (fold (judge_pod inp) ns p) = sr_Partition p"
  "sr_Hold (fold (judge_pod inp) ns p) = holdNone \<longleftrightarrow> sr_Hold p = holdNone \<and> list_all (in_place inp) ns"
  by (induction ns arbitrary: p) auto

lemma int32_id [simp]: "0 \<le> x \<Longrightarrow> x < 2 ^ 31 \<Longrightarrow> int32 x = x"
  by (simp add: int32_def)

lemma currentPartition_bounds:
  "0 \<le> si_ReplicasPerShard inp \<Longrightarrow> 0 \<le> currentPartition inp \<and> currentPartition inp \<le> si_ReplicasPerShard inp"
  by (auto simp: currentPartition_def highestOrdinal_def Let_def)

lemma currentPartition_set:
  "0 \<le> v \<Longrightarrow> v \<le> si_ReplicasPerShard inp \<Longrightarrow> currentPartition (inp\<lparr>si_AppliedPartition := Some v\<rparr>) = v"
  by (simp add: currentPartition_def highestOrdinal_def Let_def)

lemma rollout_cases:
  assumes "0 < si_ReplicasPerShard inp" "si_ReplicasPerShard inp < 2 ^ 31"
  obtains
    (start) "si_AppliedHash inp \<noteq> si_DesiredHash inp"
      "sr_Verdict (planShardRolloutPartition inp) = rolloutStart"
      "sr_Partition (planShardRolloutPartition inp) = Some (si_ReplicasPerShard inp)"
  | (complete) "si_AppliedHash inp = si_DesiredHash inp" "at_rest inp"
      "sr_Verdict (planShardRolloutPartition inp) = rolloutComplete"
      "sr_Partition (planShardRolloutPartition inp) = Some 0"
  | (hold) "si_AppliedHash inp = si_DesiredHash inp" "\<not> at_rest inp"
      "\<not> list_all (in_place inp) [currentPartition inp..si_ReplicasPerShard inp] \<or> currentPartition inp = 0"
      "sr_Verdict (planShardRolloutPartition inp) = rolloutHold"
      "sr_Partition (planShardRolloutPartition inp) = Some (currentPartition inp)"
  | (advance) "si_AppliedHash inp = si_DesiredHash inp" "\<not> at_rest inp" "0 < currentPartition inp"
      "list_all (in_place inp) [currentPartition inp..si_ReplicasPerShard inp]"
      "sr_Verdict (planShardRolloutPartition inp) = rolloutAdvance"
      "sr_Partition (planShardRolloutPartition inp) = Some (currentPartition inp - 1)"
proof -
  have b: "0 \<le> currentPartition inp" "currentPartition inp < 2 ^ 31"
    using currentPartition_bounds [of inp] assms by linarith+
  consider "si_AppliedHash inp \<noteq> si_DesiredHash inp"
    | "si_AppliedHash inp = si_DesiredHash inp" "at_rest inp"
    | "si_AppliedHash inp = si_DesiredHash inp" "\<not> at_rest inp"
      "\<not> list_all (in_place inp) [currentPartition inp..si_ReplicasPerShard inp]"
    | "si_AppliedHash inp = si_DesiredHash inp" "\<not> at_rest inp"
      "list_all (in_place inp) [currentPartition inp..si_ReplicasPerShard inp]" "currentPartition inp = 0"
    | "si_AppliedHash inp = si_DesiredHash inp" "\<not> at_rest inp"
      "list_all (in_place inp) [currentPartition inp..si_ReplicasPerShard inp]" "0 < currentPartition inp"
    using b by linarith
  then show thesis
  proof cases
    case 1
    then show thesis using assms start by (simp add: planShardRolloutPartition_def Let_def highestOrdinal_def)
  next
    case 2
    then show thesis using assms complete by (auto simp: planShardRolloutPartition_def Let_def at_rest_def)
  next
    case 3
    then show thesis
      using assms b hold
      by (simp add: planShardRolloutPartition_def Let_def at_rest_def [symmetric] highestOrdinal_def)
  next
    case 4
    then show thesis
      using assms b hold
      by (simp add: planShardRolloutPartition_def Let_def at_rest_def [symmetric] highestOrdinal_def)
  next
    case 5
    then show thesis
      using assms b advance
      by (simp add: planShardRolloutPartition_def Let_def at_rest_def [symmetric] highestOrdinal_def)
  qed
qed

text \<open>The input with the facts that only serve the report replaced.\<close>

definition rereport ::
    "(shardRolloutPod \<Rightarrow> time) \<Rightarrow> (shardRolloutPod \<Rightarrow> bool) \<Rightarrow> (shardRolloutPod \<Rightarrow> bool) \<Rightarrow> time \<Rightarrow>
     shardRolloutInput \<Rightarrow> shardRolloutInput" where
  "rereport since attached owner now inp = inp\<lparr>si_Now := now,
     si_Pods := map (\<lambda>p. p\<lparr>sp_ReadySince := since p, sp_AttachedToOwner := attached p, sp_IsOwner := owner p\<rparr>)
       (si_Pods inp)\<rparr>"

lemma fold_by_ordinal_map:
  assumes "\<And>p. sp_Ordinal (f p) = sp_Ordinal p"
  shows "fold (\<lambda>p m. m(sp_Ordinal p \<mapsto> p)) (map f ps) (\<lambda>k. map_option f (m k)) =
    (\<lambda>k. map_option f (fold (\<lambda>p m. m(sp_Ordinal p \<mapsto> p)) ps m k))"
proof (induction ps arbitrary: m)
  case (Cons p ps)
  have e: "(\<lambda>k. map_option f (m k))(sp_Ordinal p \<mapsto> f p) = (\<lambda>k. map_option f ((m(sp_Ordinal p \<mapsto> p)) k))"
    by (simp add: fun_eq_iff)
  show ?case by (simp only: list.map fold_simps assms e Cons.IH)
qed simp

lemma by_ordinal_map:
  "(\<And>p. sp_Ordinal (f p) = sp_Ordinal p) \<Longrightarrow> by_ordinal (map f ps) k = map_option f (by_ordinal ps k)"
  using fold_by_ordinal_map [of f ps Map.empty] by (simp add: by_ordinal_def fun_eq_iff)

lemma rereport_simps [simp]:
  "in_place (rereport s a w t inp) n = in_place inp n" "at_rest (rereport s a w t inp) = at_rest inp"
  "currentPartition (rereport s a w t inp) = currentPartition inp"
  "si_ReplicasPerShard (rereport s a w t inp) = si_ReplicasPerShard inp"
  "si_AppliedHash (rereport s a w t inp) = si_AppliedHash inp"
  "si_DesiredHash (rereport s a w t inp) = si_DesiredHash inp"
  by (auto simp: in_place_def rereport_def by_ordinal_map at_rest_def currentPartition_def
    highestOrdinal_def Let_def split: option.splits)

lemma rereport_partition:
  assumes "0 < si_ReplicasPerShard inp" "si_ReplicasPerShard inp < 2 ^ 31"
  shows "sr_Partition (planShardRolloutPartition (rereport s a w t inp)) = sr_Partition (planShardRolloutPartition inp)"
proof -
  have i: "in_place (rereport s a w t inp) = in_place inp" by (simp add: fun_eq_iff)
  have r: "0 < si_ReplicasPerShard (rereport s a w t inp)" "si_ReplicasPerShard (rereport s a w t inp) < 2 ^ 31"
    using assms by simp_all
  show ?thesis
    using assms r by (rule_tac rollout_cases [OF assms]; rule_tac rollout_cases [OF r]) (auto simp: i)
qed

text \<open>
  C14: the gate of a rolling update with replicas. The partition it sets lies between 0 and the highest
  ordinal. It rises only when a new template is seen, to the highest ordinal. It falls only by one, when
  every pod at or above it exists, has the new revision, is ready and is a synced replica of the owner
  of the shard's slots, or to 0 when the StatefulSet has settled. What is only reported (how
  long a pod is ready, whether it is attached, whether it is the owner) has no influence on it.
\<close>

theorem rollout_gate:
  assumes "0 < si_ReplicasPerShard inp" "si_ReplicasPerShard inp < 2 ^ 31"
  shows "\<exists>p. sr_Partition (planShardRolloutPartition inp) = Some p \<and>
    0 \<le> p \<and> p \<le> si_ReplicasPerShard inp \<and>
    (p > currentPartition inp \<longrightarrow> si_AppliedHash inp \<noteq> si_DesiredHash inp \<and> p = si_ReplicasPerShard inp) \<and>
    (p < currentPartition inp \<longrightarrow> si_AppliedHash inp = si_DesiredHash inp \<and>
      (at_rest inp \<and> p = 0 \<or>
       p = currentPartition inp - 1 \<and> list_all (in_place inp) [currentPartition inp..si_ReplicasPerShard inp])) \<and>
    sr_Partition (planShardRolloutPartition (rereport s a w t inp)) = Some p"
  using currentPartition_bounds [of inp] rereport_partition [OF assms, of s a w t] assms(1)
  by (rule_tac rollout_cases [OF assms]) auto

text \<open>A whole update: the planner is applied to its own partition, pass after pass.\<close>

fun rollout_run :: "nat \<Rightarrow> shardRolloutInput \<Rightarrow> shardRolloutInput" where
  "rollout_run 0 inp = inp"
| "rollout_run (Suc n) inp =
     rollout_run n (inp\<lparr>si_AppliedPartition := sr_Partition (planShardRolloutPartition inp)\<rparr>)"


definition rollout_example :: "int \<Rightarrow> shardRolloutInput" where
  "rollout_example part =
     \<lparr>si_ShardIdx = 0, si_ReplicasPerShard = 2, si_DesiredHash = ''h2'', si_AppliedHash = ''h2'', si_Generation = 3,
      si_ObservedGeneration = 3, si_UpdateRevision = ''r2'', si_CurrentRevision = ''r1'',
      si_AppliedPartition = Some part,
      si_Pods = map (\<lambda>k. \<lparr>sp_Ordinal = k, sp_Revision = ''r2'', sp_Ready = True, sp_ReadySince = 5,
        sp_AttachedToOwner = True, sp_SyncedWithOwner = True, sp_IsOwner = False\<rparr>) [0, 1, 2],
      si_Now = 7\<rparr>"

lemma rollout_example_in_place: "n \<in> {0, 1, 2} \<Longrightarrow> in_place (rollout_example p) n"
  by (auto simp: in_place_def rollout_example_def by_ordinal_def)

theorem rollout_gate_witness:
  "sr_Partition (planShardRolloutPartition (rollout_example 2)) = Some 1 \<and>
   sr_Partition (planShardRolloutPartition (rereport (\<lambda>_. 0) (\<lambda>_. False) (\<lambda>_. True) 9 (rollout_example 2))) = Some 1"
proof -
  have b: "0 < si_ReplicasPerShard (rollout_example 2)" "si_ReplicasPerShard (rollout_example 2) < 2 ^ 31"
    by (simp_all add: rollout_example_def)
  have "sr_Partition (planShardRolloutPartition (rollout_example 2)) = Some 1" by code_simp
  with rollout_gate [OF b, of "\<lambda>_. 0" "\<lambda>_. False" "\<lambda>_. True" 9] show ?thesis by auto
qed


section \<open>The drivers\<close>

text \<open>What the first driver sees of a shard: nothing, or the StatefulSet after the refresh.\<close>

definition seen_sts :: "rollout_env \<Rightarrow> int \<Rightarrow> api_error + shard_sts" where
  "seen_sts env k = (case rl_Get env k of Inl e \<Rightarrow> Inl e | Inr s \<Rightarrow> refreshShardSTSForRollout env k s (rl_DesiredHash env k))"

definition shard_at_rest :: "rollout_env \<Rightarrow> int \<Rightarrow> shard_sts \<Rightarrow> bool" where
  "shard_at_rest env k s \<longleftrightarrow> sh_Hash s = rl_DesiredHash env k \<and> statefulSetRolloutSettled (Some s)"

fun harmless :: "rollout_env \<Rightarrow> rollout_cmd \<Rightarrow> bool" where
  "harmless env (ApplyShard k p) \<longleftrightarrow>
     rl_Get env k = Inl NotFound \<and> p = None \<or>
     (\<exists>s. seen_sts env k = Inr s \<and> shard_at_rest env k s \<and>
        p = (if 0 < clusterReplicasPerShard (rl_Cluster env) then Some 0 else None))"
| "harmless env (BlockedEvent m) \<longleftrightarrow> False"

fun starts_roll :: "rollout_env \<Rightarrow> rollout_cmd \<Rightarrow> bool" where
  "starts_roll env (ApplyShard k p) \<longleftrightarrow>
     (\<exists>s. seen_sts env k = Inr s \<and> sh_Hash s \<noteq> rl_DesiredHash env k \<and>
        p = (if 0 < clusterReplicasPerShard (rl_Cluster env)
             then Some (clusterReplicasPerShard (rl_Cluster env)) else None))"
| "starts_roll env (BlockedEvent m) \<longleftrightarrow> False"

lemma pregather_partition:
  fixes env k s
  defines "rps \<equiv> clusterReplicasPerShard (rl_Cluster env)"
  defines "p \<equiv> sr_Partition (planShardRolloutPartition (buildShardRolloutInput (rl_Name env) (rl_Cluster env) k rps
      (rl_DesiredHash env k) (Some s) Map.empty None (rl_Now env)))"
  assumes "rps < 2 ^ 31"
  shows "sh_Hash s \<noteq> rl_DesiredHash env k \<Longrightarrow> p = (if 0 < rps then Some rps else None)"
    and "shard_at_rest env k s \<Longrightarrow> p = (if 0 < rps then Some 0 else None)"
  using assms
  by (auto simp: planShardRolloutPartition_def buildShardRolloutInput_def Let_def highestOrdinal_def
    shard_at_rest_def statefulSetRolloutSettled_def split: option.splits)

lemma sts_loop_serial:
  assumes "clusterReplicasPerShard (rl_Cluster env) < 2 ^ 31"
  shows "list_all (harmless env) (butlast (snd (sts_loop env ks))) \<and>
    list_all (\<lambda>c. harmless env c \<or> starts_roll env c) (snd (sts_loop env ks))"
proof (induction ks)
  case (Cons k ks)
  let ?p = "\<lambda>s. sr_Partition (planShardRolloutPartition (buildShardRolloutInput (rl_Name env) (rl_Cluster env) k
      (clusterReplicasPerShard (rl_Cluster env)) (rl_DesiredHash env k) (Some s) Map.empty None (rl_Now env)))"
  have step: "list_all (harmless env) (butlast (c # snd (sts_loop env ks))) \<and>
      list_all (\<lambda>c. harmless env c \<or> starts_roll env c) (c # snd (sts_loop env ks))" if "harmless env c" for c
    using Cons that by auto
  have cont: "snd (case sts_loop env ks of (e, cs) \<Rightarrow> (e, c # cs)) = c # snd (sts_loop env ks)" for c
    by (simp add: case_prod_beta)
  show ?case
  proof (cases "rl_Get env k")
    case (Inl e)
    have "harmless env (ApplyShard k None)" if "e = NotFound" using Inl that by simp
    then show ?thesis
      using step [of "ApplyShard k None"] Inl
      by (cases e; cases "rl_Apply env k") (auto simp: cont)
  next
    case (Inr cached)
    then have seen: "seen_sts env k = refreshShardSTSForRollout env k cached (rl_DesiredHash env k)"
      by (simp add: seen_sts_def)
    show ?thesis
    proof (cases "refreshShardSTSForRollout env k cached (rl_DesiredHash env k)")
      case (Inl e)
      then show ?thesis using Inr by simp
    next
      case r: (Inr s)
      have a: "harmless env (ApplyShard k (?p s))" if "shard_at_rest env k s"
        using pregather_partition(2) [OF assms that] that seen r by auto
      have b: "starts_roll env (ApplyShard k (?p s))" if "sh_Hash s \<noteq> rl_DesiredHash env k"
        using pregather_partition(1) [OF assms that] that seen r by auto
      show ?thesis
        using Inr r a b step [of "ApplyShard k (?p s)"]
        by (cases "rl_Apply env k") (auto simp: Let_def cont shard_at_rest_def)
    qed
  qed
qed simp


text \<open>
  before the gather, one pass starts the update of at most one shard. Every application but the last
  creates a missing shard or repeats a shard that has settled on the desired template; the last one
  may in addition start an update, and then the shard is gated at its highest ordinal, if it has replicas.
\<close>

lemma rollout_serialized:
  assumes "clusterReplicasPerShard (rl_Cluster env) < 2 ^ 31"
    and "reconcileClusterStatefulSet env = (e, cs)"
  shows "list_all (harmless env) (butlast cs) \<and> list_all (\<lambda>c. harmless env c \<or> starts_roll env c) cs"
  using sts_loop_serial [OF assms(1)] assms(2) unfolding reconcileClusterStatefulSet_def by (metis snd_conv)

text \<open>A pod of the shard that may be counted on: its object as read uncached, and its node.\<close>

definition redundant_pod :: "rollout_env \<Rightarrow> ClusterGroundTruth \<Rightarrow> int \<Rightarrow> shard_sts \<Rightarrow> int \<Rightarrow> bool" where
  "redundant_pod env gt k s ord \<longleftrightarrow>
     (\<exists>pod node owner. rl_GetPod env (clusterShardPodName (rl_Name env) k ord) = Inr pod \<and>
        \<not> po_Terminating pod \<and> po_Revision pod = sh_UpdateRevision s \<and> redisContainerReady pod \<and>
        map_of (Nodes gt) (clusterShardPodName (rl_Name env) k ord) = Some node \<and>
        shardSlotOwner (Some gt) (rl_Name env) (clusterShardCount (rl_Cluster env))
          (clusterReplicasPerShard (rl_Cluster env)) k = Some owner \<and>
        IsLinkUpReplicaOf (Some node) (cn_NodeID owner))"

lemma rollout_pods_get:
  "rollout_pods env ns pods = Inr pods' \<Longrightarrow> pods' n = Some pod \<Longrightarrow>
   pods n = Some pod \<or> rl_GetPod env n = Inr pod \<and> \<not> po_Terminating pod"
proof (induction env ns pods rule: rollout_pods.induct)
  case (2 env m ns pods)
  show ?case
  proof (cases "rl_GetPod env m")
    case (Inl e)
    then show ?thesis using 2 by (cases e) auto
  next
    case (Inr q)
    show ?thesis
    proof (cases "po_Terminating q")
      case True
      then show ?thesis using 2 Inr by simp
    next
      case False
      then have "(pods(m \<mapsto> q)) n = Some pod \<or> rl_GetPod env n = Inr pod \<and> \<not> po_Terminating pod"
        using 2 Inr by (simp del: fun_upd_apply)
      then show ?thesis using False Inr by (auto split: if_splits)
    qed
  qed
qed simp

lemma fold_by_ordinal_mem:
  "fold (\<lambda>p m. m(sp_Ordinal p \<mapsto> p)) ps m k = Some p \<Longrightarrow> m k = Some p \<or> p \<in> set ps \<and> sp_Ordinal p = k"
  by (induction ps arbitrary: m) (fastforce split: if_splits)+

lemma by_ordinal_mem: "by_ordinal ps k = Some p \<Longrightarrow> p \<in> set ps \<and> sp_Ordinal p = k"
  using fold_by_ordinal_mem [of ps Map.empty k p] by (simp add: by_ordinal_def)

lemma map_filter_mem: "y \<in> set (List.map_filter f xs) \<Longrightarrow> \<exists>x\<in>set xs. f x = Some y"
  by (auto simp: List.map_filter_def)

lemma rollout_pod_ordinal [simp]: "sp_Ordinal (rollout_pod gt i n ord pod) = ord"
  by (simp add: rollout_pod_def Let_def split: option.splits)

lemma built_pod:
  fixes env k s pods gt
  defines "rps \<equiv> clusterReplicasPerShard (rl_Cluster env)"
  defines "inp \<equiv> buildShardRolloutInput (rl_Name env) (rl_Cluster env) k rps (rl_DesiredHash env k) (Some s) pods
      (Some gt) (rl_Now env)"
  assumes "shardRolloutPods env k rps = Inr pods" "in_place inp ord"
  shows "redundant_pod env gt k s ord"
proof -
  let ?n = "clusterShardPodName (rl_Name env) k ord"
  let ?o = "shardSlotOwner (Some gt) (rl_Name env) (clusterShardCount (rl_Cluster env)) rps k"
  from assms(4) obtain p where p: "by_ordinal (si_Pods inp) ord = Some p" "sp_Revision p = sh_UpdateRevision s"
    "sp_Ready p" "sp_SyncedWithOwner p"
    by (auto simp: in_place_def inp_def buildShardRolloutInput_def Let_def split: option.splits)
  from by_ordinal_mem [OF p(1)] have "p \<in> set (si_Pods inp)" "sp_Ordinal p = ord" by blast+
  then obtain ord' where o': "(let podName = clusterShardPodName (rl_Name env) k ord'
      in case pods podName of None \<Rightarrow> None
         | Some pod \<Rightarrow> Some (rollout_pod (Some gt) (ownerNodeID ?o) podName ord' pod)) = Some p"
    unfolding inp_def buildShardRolloutInput_def Let_def by (auto dest!: map_filter_mem)
  then have "ord' = ord" using \<open>sp_Ordinal p = ord\<close> by (auto simp: Let_def split: option.splits)
  then obtain pod where pod: "pods ?n = Some pod" "p = rollout_pod (Some gt) (ownerNodeID ?o) ?n ord pod"
    using o' by (auto simp: Let_def split: option.splits)
  have g: "rl_GetPod env ?n = Inr pod" "\<not> po_Terminating pod"
    using rollout_pods_get [OF assms(3) [unfolded shardRolloutPods_def] pod(1)] by auto
  obtain node where node: "map_of (Nodes gt) ?n = Some node" "ownerNodeID ?o \<noteq> []"
    "IsLinkUpReplicaOf (Some node) (ownerNodeID ?o)"
    using p(4) unfolding pod(2) by (auto simp: rollout_pod_def gtNode_def Let_def split: option.splits if_splits)
  then obtain owner where o: "?o = Some owner" by (cases ?o) (auto simp: ownerNodeID_def)
  have "po_Revision pod = sh_UpdateRevision s" "redisContainerReady pod"
    using p(2,3) unfolding pod(2) by (auto simp: rollout_pod_def Let_def split: option.splits if_splits)
  then show ?thesis
    using g node o unfolding redundant_pod_def rps_def [symmetric] by (auto simp: ownerNodeID_def)
qed

fun is_event :: "rollout_cmd \<Rightarrow> bool" where
  "is_event (ApplyShard k p) \<longleftrightarrow> False"
| "is_event (BlockedEvent m) \<longleftrightarrow> True"

lemma clear_no_apply: "clearClusterRolloutBlocked env conds = (e, conds', cs) \<Longrightarrow> list_all is_event cs"
  by (auto simp: clearClusterRolloutBlocked_def setClusterRolloutBlocked_def Let_def
    split: if_splits option.splits prod.splits)

lemma report_no_apply:
  "reportClusterRolloutGate env k plan conds = (e, conds', cs) \<Longrightarrow> list_all is_event cs"
  by (auto simp: reportClusterRolloutGate_def clearClusterRolloutBlocked_def setClusterRolloutBlocked_def Let_def
    split: if_splits option.splits prod.splits)

text \<open>The partition that a StatefulSet has, within the ordinals of its shard.\<close>

definition live_partition :: "int \<Rightarrow> shard_sts \<Rightarrow> int" where
  "live_partition rps s = min rps (max 0 (case sh_Partition s of None \<Rightarrow> 0 | Some v \<Rightarrow> v))"

definition steps_down :: "rollout_env \<Rightarrow> ClusterGroundTruth \<Rightarrow> int \<Rightarrow> int option \<Rightarrow> bool" where
  "steps_down env gt k p \<longleftrightarrow>
     (\<exists>s. rl_GetUncached env k = Inr s \<and> sh_Hash s = rl_DesiredHash env k \<and>
        0 < live_partition (clusterReplicasPerShard (rl_Cluster env)) s \<and>
        p = Some (live_partition (clusterReplicasPerShard (rl_Cluster env)) s - 1) \<and>
        list_all (redundant_pod env gt k s)
          [live_partition (clusterReplicasPerShard (rl_Cluster env)) s..clusterReplicasPerShard (rl_Cluster env)])"

lemma advance_loop_step:
  assumes "0 < clusterReplicasPerShard (rl_Cluster env)" "clusterReplicasPerShard (rl_Cluster env) < 2 ^ 31"
    and "advance_loop env gt ks conds = (e, conds', cs)"
  shows "list_all is_event cs \<or>
    (\<exists>k p rest. k \<in> set ks \<and> cs = ApplyShard k p # rest \<and> list_all is_event rest \<and> steps_down env gt k p)"
  using assms(3)
proof (induction ks)
  case Nil
  then show ?case using clear_no_apply by simp
next
  case (Cons k ks)
  let ?rps = "clusterReplicasPerShard (rl_Cluster env)"
  have skip: ?case if "advance_loop env gt ks conds = (e, conds', cs)" using Cons.IH [OF that] by auto
  show ?case
  proof (cases "rl_GetUncached env k")
    case (Inl x)
    then show ?thesis using Cons.prems skip by (cases x) auto
  next
    case (Inr s)
    show ?thesis
    proof (cases "shard_at_rest env k s")
      case True
      then show ?thesis using Inr Cons.prems skip by (simp add: shard_at_rest_def Let_def)
    next
      case rest: False
      show ?thesis
      proof (cases "shardRolloutPods env k ?rps")
        case (Inl x)
        then show ?thesis using Inr Cons.prems rest by (auto simp: shard_at_rest_def Let_def)
      next
        case pods: (Inr pods)
        let ?inp = "buildShardRolloutInput (rl_Name env) (rl_Cluster env) k ?rps (rl_DesiredHash env k) (Some s) pods (Some gt) (rl_Now env)"
        let ?plan = "planShardRolloutPartition ?inp"
        have i: "si_ReplicasPerShard ?inp = ?rps" "si_AppliedHash ?inp = sh_Hash s" "si_DesiredHash ?inp = rl_DesiredHash env k"
          "currentPartition ?inp = live_partition ?rps s"
          using assms(1) by (auto simp: buildShardRolloutInput_def Let_def currentPartition_def highestOrdinal_def live_partition_def split: option.splits)
        have "steps_down env gt k (sr_Partition ?plan)" if v: "sr_Verdict ?plan = rolloutAdvance"
        proof (rule rollout_cases [of ?inp])
          assume a: "si_AppliedHash ?inp = si_DesiredHash ?inp" "0 < currentPartition ?inp"
            "list_all (in_place ?inp) [currentPartition ?inp..si_ReplicasPerShard ?inp]"
            "sr_Partition ?plan = Some (currentPartition ?inp - 1)"
          have "list_all (redundant_pod env gt k s) [live_partition ?rps s..?rps]"
            using a(3) built_pod [OF pods] unfolding i by (auto simp: list_all_iff)
          with a show ?thesis using Inr unfolding i steps_down_def by auto
        qed (use v assms(1,2) i in auto)
        moreover have "list_all is_event cs \<or> (\<exists>rest. sr_Verdict ?plan = rolloutAdvance \<and>
            cs = ApplyShard k (sr_Partition ?plan) # rest \<and> list_all is_event rest)"
        proof -
          obtain e1 conds1 cs1 where r: "reportClusterRolloutGate env k ?plan conds = (e1, conds1, cs1)"
            by (metis prod_cases3)
          have "cs = cs1 \<or> sr_Verdict ?plan = rolloutAdvance \<and>
              (cs = [ApplyShard k (sr_Partition ?plan)] \<or> cs = ApplyShard k (sr_Partition ?plan) # cs1)"
            using Inr pods rest Cons.prems r
            by (cases "rl_Apply env k") (auto simp: shard_at_rest_def Let_def split: if_splits)
          with report_no_apply [OF r] show ?thesis by auto
        qed
        ultimately show ?thesis by auto
      qed
    qed
  qed
qed

text \<open>
  after the gather, one pass lowers the partition of at most one shard, by one step. The pods of
  the shard at or above the partition, as the API server reports them and not terminating, then
  all have the new revision and are ready, and in the ground truth each is a link-up replica of the
  node that serves the shard's slots: the next pod is only released while a synced copy exists.
\<close>

lemma rollout_releases_redundant:
  assumes "clusterReplicasPerShard (rl_Cluster env) < 2 ^ 31"
    and "advanceClusterRollout env gt conds = (e, conds', cs)"
  shows "list_all is_event cs \<or>
    (\<exists>k p rest. cs = ApplyShard k p # rest \<and> list_all is_event rest \<and> 0 \<le> k \<and>
      k < clusterShardCount (rl_Cluster env) \<and> steps_down env gt k p)"
proof (cases "clusterReplicasPerShard (rl_Cluster env) \<le> 0")
  case True
  then show ?thesis
    using assms(2) clear_no_apply [of env conds e conds' cs] by (auto simp: advanceClusterRollout_def)
next
  case False
  then have "advance_loop env gt [0..clusterShardCount (rl_Cluster env) - 1] conds = (e, conds', cs)"
    using assms(2) by (simp add: advanceClusterRollout_def)
  from advance_loop_step [OF _ assms(1) this] False show ?thesis by auto
qed

text \<open>An example with one shard and one replica, in the middle of an update.\<close>

definition sts_example :: "string \<Rightarrow> shard_sts" where
  "sts_example h = \<lparr>sh_Hash = h, sh_Generation = 2, sh_ObservedGeneration = 2, sh_UpdateRevision = ''r2'',
     sh_CurrentRevision = ''r1'', sh_Partition = Some 1, sh_SpecReplicas = Some 2, sh_UpdatedReplicas = 1,
     sh_ReadyReplicas = 2, sh_Replicas = 2\<rparr>"

definition rollout_env_example :: "string \<Rightarrow> rollout_env" where
  "rollout_env_example h =
     \<lparr>rl_Name = ''c'', rl_Cluster = Some (empty_cluster_spec\<lparr>cs_Shards := 1, cs_ReplicasPerShard := Some 1\<rparr>),
      rl_DesiredHash = (\<lambda>_. ''new''), rl_Get = (\<lambda>_. Inr (sts_example h)), rl_GetUncached = (\<lambda>_. Inr (sts_example h)),
      rl_GetPod = (\<lambda>_. Inr \<lparr>po_Revision = ''r2'', po_Containers = [(''redis'', True)],
        po_Conditions = [(''Ready'', 5)], po_Terminating = False\<rparr>),
      rl_Apply = (\<lambda>_. None), rl_GetLatest = None, rl_UpdateStatus = None, rl_Namespace = ''ns'', rl_Now = 9\<rparr>"

definition mig_rolled :: ClusterGroundTruth where
  "mig_rolled = mig_example [mig_node ''c-shard-0-0'' ''N'', mig_replica ''c-shard-0-1'' ''R'' ''N'']"

lemma one_shard_upto [simp]: "[0..0] = [0::int]" "[1..1] = [1::int]" "[0..1] = [0, 1::int]"
  by (simp_all add: upto_rec1)

lemmas rollout_eval = rollout_env_example_def sts_example_def empty_cluster_spec_def clusterReplicasPerShard_def
  clusterShardCount_def refreshShardSTSForRollout_def statefulSetRolloutSettled_def
  planShardRolloutPartition_def buildShardRolloutInput_def highestOrdinal_def currentPartition_def

lemma rollout_serialized_witness:
  "reconcileClusterStatefulSet (rollout_env_example ''old'') = (None, [ApplyShard 0 (Some 1)]) \<and>
   starts_roll (rollout_env_example ''old'') (ApplyShard 0 (Some 1))"
proof -
  have c: "clusterReplicasPerShard (rl_Cluster (rollout_env_example ''old'')) < 2 ^ 31"
    by (simp add: rollout_eval)
  have r: "reconcileClusterStatefulSet (rollout_env_example ''old'') = (None, [ApplyShard 0 (Some 1)])"
    by (simp add: reconcileClusterStatefulSet_def rollout_eval Let_def)
  have "\<not> harmless (rollout_env_example ''old'') (ApplyShard 0 (Some 1))"
    by (simp add: rollout_eval)
  then show ?thesis
    using r rollout_serialized [OF c r] by (simp del: harmless.simps starts_roll.simps)
qed

lemma rollout_releases_redundant_witness:
  "advanceClusterRollout (rollout_env_example ''new'') mig_rolled (None, None) = (None, (None, None), [ApplyShard 0 (Some 0)]) \<and>
   steps_down (rollout_env_example ''new'') mig_rolled 0 (Some 0)"
proof -
  let ?e = "rollout_env_example ''new''"
  have c: "clusterReplicasPerShard (rl_Cluster ?e) < 2 ^ 31" by (simp add: rollout_eval)
  have names: "clusterShardPodName ''c'' 0 0 = ''c-shard-0-0''" "clusterShardPodName ''c'' 0 1 = ''c-shard-0-1''"
    by (simp_all add: clusterShardPodName_def Itoa_def nat_digits.simps)
  have n: "Nodes mig_rolled = [(''c-shard-0-0'', mig_node ''c-shard-0-0'' ''N''), (''c-shard-0-1'', mig_replica ''c-shard-0-1'' ''R'' ''N'')]"
    by (simp add: mig_rolled_def mig_example_def NewClusterGroundTruth_def)
  have "serves_slot 0 (mig_node ''c-shard-0-0'' ''N'')"
    by (simp add: serves_slot_def ParseSlotRange_Format max_int64_def)
  then have o: "shardSlotOwner (Some mig_rolled) ''c'' 1 1 0 = Some (mig_node ''c-shard-0-0'' ''N'')"
    by (simp add: shardSlotOwner_def ClusterPodRefs_def names n List.map_filter_def)
  have pods: "shardRolloutPods ?e 0 1 = Inr [''c-shard-0-0'' \<mapsto> \<lparr>po_Revision = ''r2'', po_Containers = [(''redis'', True)],
        po_Conditions = [(''Ready'', 5)], po_Terminating = False\<rparr>, ''c-shard-0-1'' \<mapsto> \<lparr>po_Revision = ''r2'',
        po_Containers = [(''redis'', True)], po_Conditions = [(''Ready'', 5)], po_Terminating = False\<rparr>]"
    by (simp add: shardRolloutPods_def rollout_env_example_def names)
  have p: "planShardRolloutPartition (buildShardRolloutInput (rl_Name ?e) (rl_Cluster ?e) 0 1 ''new''
      (Some (sts_example ''new'')) [''c-shard-0-0'' \<mapsto> \<lparr>po_Revision = ''r2'', po_Containers = [(''redis'', True)],
        po_Conditions = [(''Ready'', 5)], po_Terminating = False\<rparr>, ''c-shard-0-1'' \<mapsto> \<lparr>po_Revision = ''r2'',
        po_Containers = [(''redis'', True)], po_Conditions = [(''Ready'', 5)], po_Terminating = False\<rparr>]
      (Some mig_rolled) (rl_Now ?e)) =
      \<lparr>sr_Verdict = rolloutAdvance, sr_Partition = Some 0, sr_Hold = holdNone, sr_HoldPod = -1, sr_Blocked = False, sr_BlockedPods = []\<rparr>"
    using o by (simp add: rollout_eval Let_def names List.map_filter_def rollout_pod_def gtNode_def n
      redisContainerReady_def ownerNodeID_def judge_pod_def by_ordinal_def)
  have r: "advanceClusterRollout ?e mig_rolled (None, None) = (None, (None, None), [ApplyShard 0 (Some 0)])"
    using pods p
    by (simp add: advanceClusterRollout_def clusterShardCount_def rollout_env_example_def empty_cluster_spec_def
      clusterReplicasPerShard_def statefulSetRolloutSettled_def sts_example_def reportClusterRolloutGate_def
      clearClusterRolloutBlocked_def Let_def)
  show ?thesis using r rollout_releases_redundant [OF c r] by simp
qed

end
