(* ===== verification/Cluster_Wipe.thy ===== *)
theory Cluster_Wipe
  imports Migration_Driver Cooldown
begin

text \<open>
  The recovery from a total or partial wipe of a cluster
  (\<open>internal/controller/cluster_wipe_recovery.go\<close>): pods whose Redis container is not ready and has
  been restarted are deleted after a cooldown, so that their StatefulSets start them afresh. The
  executor is a third instance of the cooldown contract. The lemmas show that only pods with a
  stopped Redis are deleted, and only after the signature was seen for the whole cooldown.

  The status enters by the marker \<open>WipeDeadlockSince\<close>; a nil \<open>Status.Cluster\<close>, which the executor
  replaces by an empty one, has no marker.
\<close>

section \<open>The plan\<close>

definition clusterWipeRecoveryCooldown :: duration where
  "clusterWipeRecoveryCooldown = 120 * second"

definition containerReasonOOMKilled :: string where
  "containerReasonOOMKilled = ''OOMKilled''"

datatype clusterWipeAction = wipeClearMarker | wipeStartCooldown | wipeWait | wipeRecycle

record clusterPodHealth =
  ph_Name :: string
  ph_RedisReady :: bool
  ph_Restarted :: bool
  ph_OOMKilled :: bool

definition recyclable :: "clusterPodHealth \<Rightarrow> bool" where
  "recyclable h \<longleftrightarrow> \<not> ph_RedisReady h \<and> ph_Restarted h \<and> \<not> ph_OOMKilled h"

record clusterWipePlan =
  wp_action :: clusterWipeAction
  wp_recycle :: "string list"

definition planClusterWipeRecovery ::
    "clusterPodHealth list \<Rightarrow> time option \<Rightarrow> time \<Rightarrow> duration \<Rightarrow> clusterWipePlan" where
  "planClusterWipeRecovery pods since now cooldown =
     (let recycle = map ph_Name (filter recyclable pods)
      in if length recycle = 0 then \<lparr>wp_action = wipeClearMarker, wp_recycle = []\<rparr>
         else case since of
             None \<Rightarrow> \<lparr>wp_action = wipeStartCooldown, wp_recycle = []\<rparr>
           | Some s \<Rightarrow>
               if Sub now s < cooldown then \<lparr>wp_action = wipeWait, wp_recycle = []\<rparr>
               else \<lparr>wp_action = wipeRecycle, wp_recycle = recycle\<rparr>)"

section \<open>The executor\<close>

record container_status =
  ks_Name :: string
  ks_Ready :: bool
  ks_RestartCount :: int
  ks_LastReason :: "string option"

definition container_health :: "container_status \<Rightarrow> clusterPodHealth \<Rightarrow> clusterPodHealth" where
  "container_health c h =
     (if ks_Name c \<noteq> ''redis'' then h
      else
        let h' = h\<lparr>ph_RedisReady := ks_Ready c, ph_Restarted := (ks_RestartCount c \<ge> 1)\<rparr>
        in if ks_LastReason c = Some containerReasonOOMKilled then h'\<lparr>ph_OOMKilled := True\<rparr> else h')"

definition gatherClusterPodHealth ::
    "(string \<Rightarrow> api_error + container_status list) \<Rightarrow> string \<Rightarrow> ClusterSpec option \<Rightarrow> clusterPodHealth list" where
  "gatherClusterPodHealth get name cluster =
     (case cluster of
        None \<Rightarrow> []
      | Some c \<Rightarrow>
          map (\<lambda>ref.
              let h = \<lparr>ph_Name = cp_Name ref, ph_RedisReady = False, ph_Restarted = False, ph_OOMKilled = False\<rparr>
              in case get (cp_Name ref) of
                   Inl _ \<Rightarrow> h
                 | Inr containers \<Rightarrow> fold container_health containers h)
            (ClusterPodRefs name (cs_Shards c) (clusterReplicasPerShard cluster)))"

text \<open>The deletions in order, up to the first one that fails for another reason than NotFound.\<close>

fun recycle_pods :: "(string \<Rightarrow> api_error option) \<Rightarrow> string list \<Rightarrow> api_error option \<times> string list" where
  "recycle_pods delete [] = (None, [])"
| "recycle_pods delete (p # ps) =
     (case ignore_not_found (delete p) of
        Some e \<Rightarrow> (Some e, [p])
      | None \<Rightarrow> (case recycle_pods delete ps of (e, ds) \<Rightarrow> (e, p # ds)))"

record wipe_env =
  we_Name :: string
  we_Cluster :: "ClusterSpec option"
  we_Get :: "string \<Rightarrow> api_error + container_status list"
  we_Delete :: "string \<Rightarrow> api_error option"
  we_Now :: time

text \<open>The error, the marker and the pods for which a deletion was sent.\<close>

definition recoverClusterWipeDeadlock ::
    "wipe_env \<Rightarrow> time option \<Rightarrow> api_error option \<times> time option \<times> string list" where
  "recoverClusterWipeDeadlock env since =
     (let health = gatherClusterPodHealth (we_Get env) (we_Name env) (we_Cluster env);
          plan = planClusterWipeRecovery health since (we_Now env) clusterWipeRecoveryCooldown
      in case wp_action plan of
           wipeClearMarker \<Rightarrow> (None, None, [])
         | wipeStartCooldown \<Rightarrow> (None, Some (we_Now env), [])
         | wipeWait \<Rightarrow> (None, since, [])
         | wipeRecycle \<Rightarrow>
             (case recycle_pods (we_Delete env) (wp_recycle plan) of
                (Some e, ds) \<Rightarrow> (Some e, since, ds)
              | (None, ds) \<Rightarrow> (None, None, ds)))"

section \<open>Which pods are deleted, and when\<close>

text \<open>A pod whose only Redis container is stopped, has been restarted and was not killed for memory.\<close>

definition redis_stopped :: "wipe_env \<Rightarrow> string \<Rightarrow> bool" where
  "redis_stopped env p \<longleftrightarrow>
     (case we_Get env p of
        Inl _ \<Rightarrow> False
      | Inr cs \<Rightarrow>
          (case filter (\<lambda>c. ks_Name c = ''redis'') cs of
             [c] \<Rightarrow> \<not> ks_Ready c \<and> 1 \<le> ks_RestartCount c \<and> ks_LastReason c \<noteq> Some ''OOMKilled''
           | _ \<Rightarrow> False))"

definition pods_of :: "wipe_env \<Rightarrow> string list" where
  "pods_of env = (case we_Cluster env of
       None \<Rightarrow> []
     | Some c \<Rightarrow> map cp_Name (ClusterPodRefs (we_Name env) (cs_Shards c) (clusterReplicasPerShard (Some c))))"

text \<open>Kubernetes has the names of the containers of a pod distinct.\<close>

definition one_redis :: "wipe_env \<Rightarrow> bool" where
  "one_redis env \<longleftrightarrow> list_all (\<lambda>p. case we_Get env p of
     Inl _ \<Rightarrow> True | Inr cs \<Rightarrow> distinct (map ks_Name cs)) (pods_of env)"

definition deadlock_seen :: "wipe_env \<Rightarrow> bool" where
  "deadlock_seen env \<longleftrightarrow> list_ex (redis_stopped env) (pods_of env)"

lemma container_health_other: "ks_Name c \<noteq> ''redis'' \<Longrightarrow> container_health c h = h"
  by (simp add: container_health_def)

lemma fold_container_filter:
  "fold container_health cs h = fold container_health (filter (\<lambda>c. ks_Name c = ''redis'') cs) h"
  by (induction cs arbitrary: h) (simp_all add: container_health_other)

lemma fold_container_name [simp]: "ph_Name (fold container_health cs h) = ph_Name h"
  by (induction cs arbitrary: h) (simp_all add: container_health_def Let_def)

lemma one_redis_container:
  assumes "distinct (map ks_Name cs)"
  shows "length (filter (\<lambda>c. ks_Name c = ''redis'') cs) \<le> 1"
proof (rule ccontr)
  assume "\<not> ?thesis"
  then obtain a b r where "filter (\<lambda>c. ks_Name c = ''redis'') cs = a # b # r"
    by (cases "filter (\<lambda>c. ks_Name c = ''redis'') cs" rule: remdups_adj.cases) auto
  moreover have "distinct (map ks_Name (filter (\<lambda>c. ks_Name c = ''redis'') cs))"
    using assms by (rule distinct_map_filter)
  moreover have "list_all (\<lambda>c. ks_Name c = ''redis'') (filter (\<lambda>c. ks_Name c = ''redis'') cs)"
    by (simp add: list_all_iff)
  ultimately show False by simp
qed

lemma recyclable_fold:
  assumes "distinct (map ks_Name cs)"
  shows "recyclable (fold container_health cs
      \<lparr>ph_Name = p, ph_RedisReady = False, ph_Restarted = False, ph_OOMKilled = False\<rparr>) \<longleftrightarrow>
    (case filter (\<lambda>c. ks_Name c = ''redis'') cs of
       [c] \<Rightarrow> \<not> ks_Ready c \<and> 1 \<le> ks_RestartCount c \<and> ks_LastReason c \<noteq> Some ''OOMKilled'' | _ \<Rightarrow> False)"
proof (cases "filter (\<lambda>c. ks_Name c = ''redis'') cs")
  case Nil
  then show ?thesis by (simp add: fold_container_filter [of cs] recyclable_def)
next
  case (Cons c r)
  then have "r = []" "ks_Name c = ''redis''"
    using one_redis_container [OF assms] by (auto simp: filter_eq_Cons_iff)
  with Cons show ?thesis
    by (simp add: fold_container_filter [of cs] recyclable_def container_health_def containerReasonOOMKilled_def Let_def)
qed

lemma recycle_names:
  assumes "one_redis env"
  shows "map ph_Name (filter recyclable (gatherClusterPodHealth (we_Get env) (we_Name env) (we_Cluster env))) =
    filter (redis_stopped env) (pods_of env)"
proof (cases "we_Cluster env")
  case (Some c)
  define hs where "hs = (\<lambda>p. case we_Get env p of
      Inl _ \<Rightarrow> \<lparr>ph_Name = p, ph_RedisReady = False, ph_Restarted = False, ph_OOMKilled = False\<rparr>
    | Inr cs \<Rightarrow> fold container_health cs \<lparr>ph_Name = p, ph_RedisReady = False, ph_Restarted = False, ph_OOMKilled = False\<rparr>)"
  have h: "gatherClusterPodHealth (we_Get env) (we_Name env) (we_Cluster env) = map hs (pods_of env)"
    by (simp add: gatherClusterPodHealth_def pods_of_def Some hs_def Let_def o_def)
  have "recyclable (hs p) \<longleftrightarrow> redis_stopped env p" if "p \<in> set (pods_of env)" for p
    using assms that recyclable_fold
    by (auto simp: one_redis_def list_all_iff hs_def redis_stopped_def recyclable_def split: sum.splits)
  moreover have "ph_Name (hs p) = p" for p by (simp add: hs_def split: sum.split)
  ultimately show ?thesis unfolding h by (simp add: filter_map o_def cong: filter_cong)
qed (simp add: gatherClusterPodHealth_def pods_of_def)

lemma recycle_pods_prefix: "\<exists>rest. ps = snd (recycle_pods delete ps) @ rest"
  by (induction ps) (auto split: option.split prod.split)

lemma recycle_pods_nil [simp]: "snd (recycle_pods delete ps) = [] \<longleftrightarrow> ps = []"
  by (cases ps) (auto split: option.split prod.split)

lemma recover_unfold:
  assumes "one_redis env"
  shows "recoverClusterWipeDeadlock env since =
    (let recycle = filter (redis_stopped env) (pods_of env)
     in if recycle = [] then (None, None, [])
        else case since of
            None \<Rightarrow> (None, Some (we_Now env), [])
          | Some s \<Rightarrow>
              if Sub (we_Now env) s < clusterWipeRecoveryCooldown then (None, since, [])
              else case recycle_pods (we_Delete env) recycle of
                  (Some e, ds) \<Rightarrow> (Some e, since, ds)
                | (None, ds) \<Rightarrow> (None, None, ds))"
  unfolding recoverClusterWipeDeadlock_def planClusterWipeRecovery_def recycle_names [OF assms] Let_def
  by (simp split: option.split)

lemma deadlock_seen_iff: "deadlock_seen env \<longleftrightarrow> filter (redis_stopped env) (pods_of env) \<noteq> []"
  by (auto simp: deadlock_seen_def list_ex_iff filter_empty_conv)

lemma recover_undetected:
  "one_redis env \<Longrightarrow> \<not> deadlock_seen env \<Longrightarrow> recoverClusterWipeDeadlock env since = (None, None, [])"
  by (simp add: recover_unfold deadlock_seen_iff)

lemma recover_first:
  "one_redis env \<Longrightarrow> deadlock_seen env \<Longrightarrow>
   recoverClusterWipeDeadlock env None = (None, Some (we_Now env), [])"
  by (simp add: recover_unfold deadlock_seen_iff)

lemma recover_later:
  assumes "one_redis env" "recoverClusterWipeDeadlock env (Some u) = (e, since', ds)"
  shows "since' \<in> {None, Some u} \<and> (ds \<noteq> [] \<longrightarrow> clusterWipeRecoveryCooldown \<le> Sub (we_Now env) u)"
  using assms(2) unfolding recover_unfold [OF assms(1)]
  by (auto simp: Let_def split: if_splits prod.splits option.splits)

lemma recover_deletes:
  assumes "one_redis env"
  shows "list_all (\<lambda>p. p \<in> set (pods_of env) \<and> redis_stopped env p) (snd (snd (recoverClusterWipeDeadlock env since)))"
proof -
  obtain rest where "filter (redis_stopped env) (pods_of env) =
      snd (recycle_pods (we_Delete env) (filter (redis_stopped env) (pods_of env))) @ rest"
    using recycle_pods_prefix by metis
  then have "set (snd (recycle_pods (we_Delete env) (filter (redis_stopped env) (pods_of env)))) \<subseteq>
      set (filter (redis_stopped env) (pods_of env))"
    by (metis set_append Un_upper1)
  then show ?thesis
    unfolding recover_unfold [OF assms] by (auto simp: Let_def list_all_iff split: option.split prod.split)
qed

text \<open>
  A pass of \<open>reconcileCluster\<close> over pods that are not all ready: the executor and the write of the
  status, whose outcome is the second component of an observation. The marker is the stored one; an
  error of the executor ends the pass before the write.
\<close>

definition wipe_pass :: "wipe_env \<times> api_error option \<Rightarrow> time option \<Rightarrow> time option \<times> string list" where
  "wipe_pass ob since =
     (case ob of (env, update) \<Rightarrow>
        case recoverClusterWipeDeadlock env since of
          (Some _, _, ds) \<Rightarrow> (since, ds)
        | (None, since', ds) \<Rightarrow> (if update = None then since' else since, ds))"

definition wipe_step :: "wipe_env \<times> api_error option \<Rightarrow> time option \<Rightarrow> go_panic + time option \<times> bool" where
  "wipe_step ob since = (case wipe_pass ob since of (since', ds) \<Rightarrow> Inr (since', ds \<noteq> []))"

definition wipe_ok :: "wipe_env \<times> api_error option \<Rightarrow> bool" where
  "wipe_ok ob \<longleftrightarrow> one_redis (fst ob) \<and> snd ob = None"

interpretation wipe_gate: cooldown_gate
  wipe_step "\<lambda>ob. we_Now (fst ob)" wipe_ok "\<lambda>ob. deadlock_seen (fst ob)" "\<lambda>s. s" clusterWipeRecoveryCooldown
proof (unfold_locales, goal_cases)
  case (1 ob s s' acted)
  then show ?case
    by (cases ob) (auto simp: wipe_ok_def wipe_step_def wipe_pass_def recover_undetected)
next
  case (2 ob s s' acted)
  then show ?case
    using recover_first [of "fst ob"] recover_undetected [of "fst ob" None]
    by (cases ob; cases "deadlock_seen (fst ob)") (auto simp: wipe_ok_def wipe_step_def wipe_pass_def)
next
  case (3 ob s u s' acted)
  obtain e since' ds where r: "recoverClusterWipeDeadlock (fst ob) (Some u) = (e, since', ds)"
    by (metis prod_cases3)
  from 3 have ok: "one_redis (fst ob)" by (simp add: wipe_ok_def)
  show ?case
    using recover_later [OF ok r] 3 r
    by (cases ob; cases e) (auto simp: wipe_ok_def wipe_step_def wipe_pass_def)
qed


definition wipe_env_example :: "time \<Rightarrow> wipe_env" where
  "wipe_env_example t =
     \<lparr>we_Name = ''c'', we_Cluster = Some (empty_cluster_spec\<lparr>cs_Shards := 1\<rparr>),
      we_Get = (\<lambda>_. Inr [\<lparr>ks_Name = ''redis'', ks_Ready = False, ks_RestartCount = 4, ks_LastReason = Some ''Error''\<rparr>]),
      we_Delete = (\<lambda>_. None), we_Now = t\<rparr>"

definition wipe_obs :: "(wipe_env \<times> api_error option) list" where
  "wipe_obs = [(wipe_env_example 5, None), (wipe_env_example (130 * second), None)]"


end
