(* ===== verification/Cluster_Repair.thy ===== *)
theory Cluster_Repair
  imports Reshard Cluster_Rollout Cluster_Wipe
begin

text \<open>
  The repair loop of a cluster (\<open>repairCluster\<close> of \<open>internal/controller/cluster_reconcile.go\<close>): recovery
  of the quorum, the grace period of orphaned replicas, the healing of partitions, the removal of
  ghost nodes, the assignment of missing ranges, the relocation of surplus ranges and the
  reattachment of masters without slots, in this order; each step that acts ends the pass.

  The status is kept twice, as the object in memory and as the stored one that the next pass reads;
  a write of the status copies the first to the second. The outcomes of the commands that the loop
  looks at are an environment record. A pass returns what it does next, both statuses, the commands
  in order, and the state of the slots and keys of the nodes.
\<close>

section \<open>Data\<close>

record OrphanedReplicaInfo =
  oi_PodName :: string
  oi_NodeID :: string
  oi_MasterNodeID :: string
  oi_DetectedAt :: time

record node_status =
  ns_PodName :: string
  ns_NodeID :: string
  ns_Role :: string
  ns_MasterNodeID :: string
  ns_SlotRanges :: string

text \<open>
  The status of a cluster. The fields \<open>State\<close> to \<open>WipeDeadlockSince\<close> belong to \<open>Status.Cluster\<close> and are
  empty when that pointer is nil. The conditions other than Ready are their status, reason and message.
\<close>

record cluster_status = migration_status +
  ct_State :: string
  ct_Nodes :: "node_status list"
  ct_OrphanedReplicas :: "OrphanedReplicaInfo list"
  ct_WipeDeadlockSince :: "time option"
  ct_RedisReady :: int
  ct_RedisTotal :: int
  ct_Ready :: bool
  ct_Blocked :: blocked_cond
  ct_Auth :: blocked_cond

definition with_cluster :: "cluster_status \<Rightarrow> cluster_status" where
  "with_cluster st =
     (if mt_Cluster st = None
      then st\<lparr>mt_Cluster := Some None, ct_State := [], ct_Nodes := [], ct_OrphanedReplicas := [],
             ct_WipeDeadlockSince := None\<rparr>
      else st)"

datatype ctrl_result = NoRequeue | RequeueNow | RequeueAfter duration

datatype cluster_cmd =
    NodeCmd migration_cmd
  | ClusterAddSlots string "int list"
  | ReshardRange ReshardMove
  | DeletePod string
  | RolloutCmd rollout_cmd
  | AuthEvent string

datatype repair_next = Done ctrl_result "api_error option" | BootstrapNext | UpdateNext

record repair_env =
  rv_Now :: time
  rv_Fast :: duration
  rv_QuorumTakeover :: "string \<Rightarrow> go_error option"
  rv_OrphanTakeover :: "string \<Rightarrow> go_error option"
  rv_AddSlots :: "string \<Rightarrow> go_error option"
  rv_Replicate :: "string \<Rightarrow> string \<Rightarrow> go_error option"
  rv_GetPod :: "string \<Rightarrow> api_error + uncached_pod"
  rv_GetSTS :: "api_error + statefulset"
  rv_Update :: "api_error option"
  rv_Iter :: "(ClusterNodeState \<times> int list) list \<Rightarrow> (ClusterNodeState \<times> int list) list"

section \<open>Quorum recovery\<close>

text \<open>A replica whose master is named but is none of the nodes.\<close>

definition lost_master :: "ClusterGroundTruth \<Rightarrow> ClusterNodeState \<Rightarrow> bool" where
  "lost_master gt n \<longleftrightarrow> cn_Role n = roleReplica \<and>
     \<not> (cn_MasterNodeID n = [] \<or> cn_MasterNodeID n = ''-'' \<or>
        cn_MasterNodeID n \<in> set (map cn_NodeID (cluster_nodes gt)))"

text \<open>Go divides integers towards zero.\<close>

definition half :: "int \<Rightarrow> int" where
  "half n = (if n < 0 then - (- n div 2) else n div 2)"

definition takeover :: "ClusterNodeState \<Rightarrow> cluster_cmd" where
  "takeover n = NodeCmd (ClusterFailoverTakeover (addrOf (cn_PodIP n)))"

text \<open>Whether some promotion succeeded, and the commands.\<close>

definition quorum_recovery :: "repair_env \<Rightarrow> ClusterGroundTruth \<Rightarrow> int \<Rightarrow> bool \<times> cluster_cmd list" where
  "quorum_recovery env gt shards =
     (if CountMasters gt \<le> half shards
      then
        let ns = filter (lost_master gt) (cluster_nodes gt)
        in (list_ex (\<lambda>n. rv_QuorumTakeover env (addrOf (cn_PodIP n)) = None) ns, map takeover ns)
      else (False, []))"

section \<open>Orphaned replicas and partitions\<close>

definition orphan_timeout :: "ClusterSpec \<Rightarrow> duration" where
  "orphan_timeout c =
     cs_ClusterNodeTimeout c * 1000000 +
     (if cs_FailoverGracePeriod c > 0 then cs_FailoverGracePeriod c else 15) * second"

definition existing_orphans :: "cluster_status \<Rightarrow> (string \<rightharpoonup> OrphanedReplicaInfo)" where
  "existing_orphans st =
     (if mt_Cluster st = None then Map.empty
      else fold (\<lambda>o' m. m(oi_PodName o' \<mapsto> o')) (ct_OrphanedReplicas st) Map.empty)"

text \<open>
  The body of the loop over the nodes: the orphans that still wait, whether some promotion
  succeeded, and the commands.
\<close>

definition orphan_node ::
    "repair_env \<Rightarrow> ClusterGroundTruth \<Rightarrow> (string \<rightharpoonup> OrphanedReplicaInfo) \<Rightarrow> duration \<Rightarrow> ClusterNodeState \<Rightarrow>
     OrphanedReplicaInfo list \<times> bool \<times> cluster_cmd list \<Rightarrow> OrphanedReplicaInfo list \<times> bool \<times> cluster_cmd list" where
  "orphan_node env gt existing timeout n acc =
     (if \<not> lost_master gt n \<or> cn_MasterNodeID n \<notin> set (GhostNodes gt) then acc
      else case acc of (current, promoted, cs) \<Rightarrow>
        let info = (case existing (cn_PodName n) of
              Some o' \<Rightarrow> o'
            | None \<Rightarrow> \<lparr>oi_PodName = cn_PodName n, oi_NodeID = cn_NodeID n,
                      oi_MasterNodeID = cn_MasterNodeID n, oi_DetectedAt = rv_Now env\<rparr>)
        in if Sub (rv_Now env) (oi_DetectedAt info) \<ge> timeout
           then (current, promoted \<or> rv_OrphanTakeover env (addrOf (cn_PodIP n)) = None, cs @ [takeover n])
           else (current @ [info], promoted, cs))"

definition meet_targets :: "repair_env \<Rightarrow> string \<Rightarrow> ClusterNodeState list \<Rightarrow> cluster_cmd list" where
  "meet_targets env seedAddr targets =
     map (\<lambda>n. NodeCmd (ClusterMeet seedAddr (cn_PodIP n) 6379))
       (filter (\<lambda>n. fst (confirmPodIP (rv_GetPod env) (cn_PodName n) (cn_PodIP n))) targets)"

definition partition_meets :: "repair_env \<Rightarrow> MeetPlan \<Rightarrow> cluster_cmd list" where
  "partition_meets env plan =
     (case mp_Seed plan of
        None \<Rightarrow> []
      | Some seed \<Rightarrow>
          if \<not> fst (confirmPodIP (rv_GetPod env) (cn_PodName seed) (cn_PodIP seed)) then []
          else meet_targets env (addrOf (cn_PodIP seed)) (mp_Targets plan))"

type_synonym statuses = "cluster_status \<times> cluster_status"

definition heal_partitions ::
    "repair_env \<Rightarrow> ClusterSpec \<Rightarrow> ClusterGroundTruth \<Rightarrow> statuses \<Rightarrow>
     go_panic + repair_next \<times> statuses \<times> cluster_cmd list" where
  "heal_partitions env cluster gt sts =
     (case sts of (mem, stored) \<Rightarrow>
      case fold (orphan_node env gt (existing_orphans mem) (orphan_timeout cluster)) (cluster_nodes gt) ([], False, []) of
        (current, promoted, cs) \<Rightarrow>
          let mem = with_cluster mem;
              changed = length (ct_OrphanedReplicas mem) \<noteq> length current \<or> promoted;
              mem = (if changed then mem\<lparr>ct_OrphanedReplicas := current\<rparr> else mem);
              stored = (if changed \<and> rv_Update env = None then mem else stored)
          in if changed \<and> rv_Update env = Some Conflict then Inr (Done RequeueNow None, (mem, stored), cs)
             else if changed \<and> rv_Update env \<noteq> None then Inr (Done NoRequeue (rv_Update env), (mem, stored), cs)
             else if promoted \<or> current \<noteq> [] then Inr (Done (RequeueAfter (rv_Fast env)) None, (mem, stored), cs)
             else case PlanPartitionMeets gt of
                 Inl p \<Rightarrow> Inl p
               | Inr plan \<Rightarrow>
                   Inr (Done (RequeueAfter (rv_Fast env)) None, (mem, stored), cs @ partition_meets env plan))"

section \<open>Ghost nodes\<close>

definition protected_masters :: "ClusterGroundTruth \<Rightarrow> string set" where
  "protected_masters gt = set (map cn_MasterNodeID (filter (\<lambda>n. cn_Role n = roleReplica \<and>
     cn_MasterNodeID n \<noteq> [] \<and> cn_MasterNodeID n \<noteq> ''-'') (cluster_nodes gt)))"

definition ghosts_to_remove :: "ClusterGroundTruth \<Rightarrow> string list" where
  "ghosts_to_remove gt = filter (\<lambda>g. g \<notin> protected_masters gt) (GhostNodes gt)"

definition forget_ghosts :: "ClusterGroundTruth \<Rightarrow> cluster_cmd list" where
  "forget_ghosts gt =
     concat (map (\<lambda>g. map (\<lambda>n. NodeCmd (ClusterForget (addrOf (cn_PodIP n)) g))
       (filter cn_Reachable (cluster_nodes gt))) (ghosts_to_remove gt))"

section \<open>Missing ranges\<close>

text \<open>The owners of the ranges so far; None is the refusal of a range that is not aligned.\<close>

fun owner_slots :: "slot_range list \<Rightarrow> string \<Rightarrow> string list \<Rightarrow> string list \<Rightarrow> string list option" where
  "owner_slots expected nodeID [] owners = Some owners"
| "owner_slots expected nodeID (slotStr # rest) owners =
     (case ParseSlotRange slotStr of
        Inl _ \<Rightarrow> owner_slots expected nodeID rest owners
      | Inr (start, end') \<Rightarrow>
          let idx = range_index 0 expected start end'
          in if idx = -1 then None else owner_slots expected nodeID rest (owners[nat idx := nodeID]))"

fun shard_owners :: "slot_range list \<Rightarrow> ClusterNodeState list \<Rightarrow> string list \<Rightarrow> string list option" where
  "shard_owners expected [] owners = Some owners"
| "shard_owners expected (n # ns) owners =
     (case owner_slots expected (cn_NodeID n) (cn_Slots n) owners of
        None \<Rightarrow> None
      | Some owners' \<Rightarrow> shard_owners expected ns owners')"

definition missing_shards :: "string list \<Rightarrow> nat list" where
  "missing_shards owners = filter (\<lambda>i. owners ! i = []) [0..<length owners]"

text \<open>The assignments that are sent, with the node that receives each.\<close>

definition missing_targets ::
    "ClusterGroundTruth \<Rightarrow> string \<Rightarrow> slot_range list \<Rightarrow> nat list \<Rightarrow> (ClusterNodeState \<times> int list) list" where
  "missing_targets gt name expected missing =
     List.map_filter (\<lambda>i.
       let node = map_of (Nodes gt) (shardMasterPodName name (int i))
       in if SafeMissingShardTarget node
          then Some (the node,
            case ExpandSlotRange (FormatSlotRange (Start (expected ! i)) (End (expected ! i))) of
              Inr slots \<Rightarrow> slots | Inl _ \<Rightarrow> [])
          else None) missing"

definition add_slots :: "ClusterNodeState \<times> int list \<Rightarrow> cluster_cmd" where
  "add_slots t = ClusterAddSlots (addrOf (cn_PodIP (fst t))) (snd t)"

section \<open>Reattachment\<close>

text \<open>Whether a replication succeeded, and the commands; a master that does not know its target is passed over.\<close>

fun reattach_masters ::
    "repair_env \<Rightarrow> ClusterGroundTruth \<Rightarrow> int \<Rightarrow> ClusterNodeState list \<Rightarrow> bool \<times> cluster_cmd list" where
  "reattach_masters env gt expectedReplicas [] = (False, [])"
| "reattach_masters env gt expectedReplicas (em # ems) =
     (case chooseReattachTarget (cn_PodName em) (cluster_nodes gt) (GetMastersWithReplicas gt) expectedReplicas of
        None \<Rightarrow> reattach_masters env gt expectedReplicas ems
      | Some target \<Rightarrow>
          if \<not> NodeKnows gt (cn_NodeID em) (cn_NodeID target)
          then reattach_masters env gt expectedReplicas ems
          else
            let cmd = NodeCmd (ClusterReplicate (addrOf (cn_PodIP em)) (cn_NodeID target))
            in if rv_Replicate env (addrOf (cn_PodIP em)) (cn_NodeID target) = None then (True, [cmd])
               else (case reattach_masters env gt expectedReplicas ems of (ok, cs) \<Rightarrow> (ok, cmd # cs)))"

section \<open>The loop\<close>

text \<open>Step 4 and the end of the loop.\<close>

definition repair_replication ::
    "repair_env \<Rightarrow> ClusterSpec \<Rightarrow> ClusterGroundTruth \<Rightarrow> repair_next \<times> cluster_cmd list" where
  "repair_replication env cluster gt =
     (let zero = (cs_ReplicasPerShard cluster = Some 0);
          expectedReplicas = (case cs_ReplicasPerShard cluster of None \<Rightarrow> 1 | Some r \<Rightarrow> r)
      in case (if zero then (False, []) else reattach_masters env gt expectedReplicas (GetEmptyMasters gt)) of
           (True, cs) \<Rightarrow> (Done (RequeueAfter (rv_Fast env)) None, cs)
         | (False, cs) \<Rightarrow>
             (if TotalSlots gt = 0 \<and> \<not> list_ex (\<lambda>n. cn_Role n = roleReplica) (cluster_nodes gt)
              then BootstrapNext else UpdateNext, cs))"

text \<open>Steps 3 to 4, after the partitions and the ghosts.\<close>

definition repair_slots ::
    "repair_env \<Rightarrow> 'r redis_ops \<Rightarrow> string \<Rightarrow> ClusterSpec \<Rightarrow> ClusterGroundTruth \<Rightarrow> 'r \<Rightarrow>
     repair_next \<times> cluster_cmd list \<times> 'r" where
  "repair_slots env ops name cluster gt w =
     (let shards = cs_Shards cluster; expected = GenerateSlotRanges shards
      in case shard_owners expected (cluster_nodes gt) (replicate (nat shards) []) of
           None \<Rightarrow> (Done (RequeueAfter (rv_Fast env)) None, [], w)
         | Some owners \<Rightarrow>
             let targets = missing_targets gt name expected (missing_shards owners);
                 cs = map add_slots targets
             in if list_ex (\<lambda>t. rv_AddSlots env (addrOf (cn_PodIP (fst t))) = None) targets
                then (Done (RequeueAfter (rv_Fast env)) None, cs, w)
                else case reshardConsolidated (rv_Iter env) ops cluster gt w of
                    (True, w') \<Rightarrow>
                      (Done (RequeueAfter (rv_Fast env)) None,
                       cs @ [ReshardRange (hd (rp_Moves (PlanReshard (rv_Iter env) gt shards)))], w')
                  | (False, w') \<Rightarrow>
                      (case repair_replication env cluster gt of (next, cs') \<Rightarrow> (next, cs @ cs', w')))"

definition repairCluster ::
    "repair_env \<Rightarrow> 'r redis_ops \<Rightarrow> string \<Rightarrow> ClusterSpec \<Rightarrow> ClusterGroundTruth \<Rightarrow> statuses \<Rightarrow> 'r \<Rightarrow>
     go_panic + repair_next \<times> statuses \<times> cluster_cmd list \<times> 'r" where
  "repairCluster env ops name cluster gt sts w =
     (case quorum_recovery env gt (cs_Shards cluster) of
        (True, cs) \<Rightarrow> Inr (Done (RequeueAfter (rv_Fast env)) None, sts, cs, w)
      | (False, cs0) \<Rightarrow>
          if HasPartitions gt
          then (case heal_partitions env cluster gt sts of
              Inl p \<Rightarrow> Inl p
            | Inr (next, sts', cs) \<Rightarrow> Inr (next, sts', cs0 @ cs, w))
          else if HasGhostNodes gt \<and> detectLegacyClusterStatefulSet (rv_GetSTS env) name (Some cluster) = Inr True
          then Inr (Done (RequeueAfter (rv_Fast env)) None, sts, cs0, w)
          else if HasGhostNodes gt \<and> ghosts_to_remove gt \<noteq> []
          then Inr (Done (RequeueAfter (rv_Fast env)) None, sts, cs0 @ forget_ghosts gt, w)
          else (case repair_slots env ops name cluster gt w of
              (next, cs, w') \<Rightarrow> Inr (next, sts, cs0 @ cs, w')))"

section \<open>What a pass sends\<close>

definition identified :: "ClusterGroundTruth \<Rightarrow> bool" where
  "identified gt \<longleftrightarrow> wf_nodes gt \<and> list_all (\<lambda>n. cn_Slots n = [] \<or> cn_NodeID n \<noteq> []) (cluster_nodes gt)"

text \<open>An orphan that is tracked since at least the timeout.\<close>

definition waited_out :: "repair_env \<Rightarrow> ClusterSpec \<Rightarrow> cluster_status \<Rightarrow> ClusterNodeState \<Rightarrow> bool" where
  "waited_out env cluster st n \<longleftrightarrow>
     (case existing_orphans st (cn_PodName n) of
        None \<Rightarrow> False
      | Some o' \<Rightarrow> orphan_timeout cluster \<le> Sub (rv_Now env) (oi_DetectedAt o'))"

text \<open>A node that answered and whose address the API server confirms, uncached, as its pod's.\<close>

definition introducible :: "repair_env \<Rightarrow> ClusterNodeState \<Rightarrow> bool" where
  "introducible env n \<longleftrightarrow> cn_Reachable n \<and> cn_NodeID n \<noteq> [] \<and> cn_PodIP n \<noteq> [] \<and>
     rv_GetPod env (cn_PodName n) = Inr \<lparr>up_PodIP = cn_PodIP n, up_Terminating = False\<rparr>"

fun repair_justified ::
    "repair_env \<Rightarrow> string \<Rightarrow> ClusterSpec \<Rightarrow> ClusterGroundTruth \<Rightarrow> cluster_status \<Rightarrow> cluster_cmd \<Rightarrow> bool" where
  "repair_justified env name cluster gt st (NodeCmd (ClusterFailoverTakeover a)) \<longleftrightarrow>
     list_ex (\<lambda>n. a = addrOf (cn_PodIP n) \<and> lost_master gt n \<and>
       (CountMasters gt \<le> half (cs_Shards cluster) \<or>
        HasPartitions gt \<and> cn_MasterNodeID n \<in> set (GhostNodes gt) \<and> waited_out env cluster st n)) (cluster_nodes gt)"
| "repair_justified env name cluster gt st (NodeCmd (ClusterMeet seed target port)) \<longleftrightarrow>
     HasPartitions gt \<and> port = 6379 \<and>
     list_ex (\<lambda>s. seed = addrOf (cn_PodIP s) \<and> introducible env s \<and>
       list_ex (\<lambda>n. target = cn_PodIP n \<and> cn_NodeID n \<noteq> cn_NodeID s \<and> introducible env n) (cluster_nodes gt))
       (cluster_nodes gt)"
| "repair_justified env name cluster gt st (NodeCmd (ClusterForget a g)) \<longleftrightarrow>
     \<not> HasPartitions gt \<and> g \<in> set (GhostNodes gt) \<and>
     detectLegacyClusterStatefulSet (rv_GetSTS env) name (Some cluster) \<noteq> Inr True \<and>
     (g = [] \<or> g = ''-'' \<or> list_all (\<lambda>n. cn_Role n \<noteq> roleReplica \<or> cn_MasterNodeID n \<noteq> g) (cluster_nodes gt)) \<and>
     list_ex (\<lambda>n. a = addrOf (cn_PodIP n) \<and> cn_Reachable n) (cluster_nodes gt)"
| "repair_justified env name cluster gt st (NodeCmd (ClusterReplicate a i)) \<longleftrightarrow>
     \<not> HasPartitions gt \<and>
     list_ex (\<lambda>em. a = addrOf (cn_PodIP em) \<and> cn_Role em = roleMaster \<and> cn_Slots em = [] \<and>
       list_ex (\<lambda>m. i = cn_NodeID m \<and> NodeKnows gt (cn_NodeID em) i \<and>
         can_adopt (GetMastersWithReplicas gt) (case cs_ReplicasPerShard cluster of None \<Rightarrow> 1 | Some r \<Rightarrow> r) m)
         (cluster_nodes gt)) (cluster_nodes gt)"
| "repair_justified env name cluster gt st (ClusterAddSlots a slots) \<longleftrightarrow>
     \<not> HasPartitions gt \<and>
     list_ex (\<lambda>k. slots = slots_of (GenerateSlotRanges (cs_Shards cluster) ! k) \<and>
       (case map_of (Nodes gt) (shardMasterPodName name (int k)) of
          None \<Rightarrow> False
        | Some n \<Rightarrow> a = addrOf (cn_PodIP n) \<and> cn_Reachable n \<and> cn_Role n = roleMaster \<and> cn_Slots n = []) \<and>
       list_all (\<lambda>n. \<not> nodeOwnsRange n (Start (GenerateSlotRanges (cs_Shards cluster) ! k))
         (End (GenerateSlotRanges (cs_Shards cluster) ! k))) (cluster_nodes gt)) [0..<nat (cs_Shards cluster)]"
| "repair_justified env name cluster gt st (ReshardRange mv) \<longleftrightarrow>
     \<not> HasPartitions gt \<and> good_move (GenerateSlotRanges (cs_Shards cluster)) (cluster_nodes gt) mv"
| "repair_justified env name cluster gt st _ \<longleftrightarrow> False"

lemma list_exI: "n \<in> set ns \<Longrightarrow> P n \<Longrightarrow> list_ex P ns"
  by (auto simp: list_ex_iff)

lemma takeover_justified:
  assumes "n \<in> set (cluster_nodes gt)" "lost_master gt n"
    "CountMasters gt \<le> half (cs_Shards cluster) \<or>
     HasPartitions gt \<and> cn_MasterNodeID n \<in> set (GhostNodes gt) \<and> waited_out env cluster st n"
  shows "repair_justified env name cluster gt st (takeover n)"
  unfolding takeover_def repair_justified.simps by (rule list_exI [OF assms(1)]) (use assms(2,3) in simp)

lemma quorum_justified:
  assumes "quorum_recovery env gt (cs_Shards cluster) = (ok, cs)"
  shows "list_all (repair_justified env name cluster gt st) cs"
proof (cases "CountMasters gt \<le> half (cs_Shards cluster)")
  case True
  with assms have "cs = map takeover (filter (lost_master gt) (cluster_nodes gt))"
    by (simp add: quorum_recovery_def Let_def)
  then show ?thesis using True takeover_justified by (auto simp: list_all_iff)
qed (use assms in \<open>simp add: quorum_recovery_def\<close>)

lemma orphans_justified:
  assumes "0 < orphan_timeout cluster" "HasPartitions gt"
    and "fold (orphan_node env gt (existing_orphans st) (orphan_timeout cluster)) ns (cur, pr, cs) = (cur', pr', cs')"
    and "set ns \<subseteq> set (cluster_nodes gt)" "list_all (repair_justified env name cluster gt st) cs"
  shows "list_all (repair_justified env name cluster gt st) cs'"
  using assms(3-5)
proof (induction ns arbitrary: cur pr cs)
  case (Cons n ns)
  obtain cur1 pr1 cs1 where s: "orphan_node env gt (existing_orphans st) (orphan_timeout cluster) n (cur, pr, cs) = (cur1, pr1, cs1)"
    using prod_cases3 by blast
  have now: "\<not> orphan_timeout cluster \<le> Sub t t" for t
    using assms(1) by (simp add: Sub_def min_int64_def max_int64_def)
  have n: "n \<in> set (cluster_nodes gt)" using Cons.prems(2) by simp
  have "cs1 = cs \<or> cs1 = cs @ [takeover n] \<and> lost_master gt n \<and>
      cn_MasterNodeID n \<in> set (GhostNodes gt) \<and> waited_out env cluster st n"
    using s now by (auto simp: orphan_node_def Let_def waited_out_def split: if_splits option.splits)
  then have "list_all (repair_justified env name cluster gt st) cs1"
    using takeover_justified [OF n] Cons.prems(3) assms(2) by auto
  moreover have "fold (orphan_node env gt (existing_orphans st) (orphan_timeout cluster)) ns (cur1, pr1, cs1) = (cur', pr', cs')"
    using Cons.prems(1) s by simp
  ultimately show ?case using Cons.IH Cons.prems(2) by auto
qed simp

lemma confirmPodIP_iff:
  "fst (confirmPodIP get p ip) \<longleftrightarrow> p \<noteq> [] \<and> ip \<noteq> [] \<and> get p = Inr \<lparr>up_PodIP = ip, up_Terminating = False\<rparr>"
  by (auto simp: confirmPodIP_def split: sum.splits api_error.splits) (metis uncached_pod.select_convs(2))?

lemma partition_meets_justified:
  assumes "wf_nodes gt" "HasPartitions gt" "PlanPartitionMeets gt = Inr plan"
  shows "list_all (repair_justified env name cluster gt st) (partition_meets env plan)"
proof (cases "mp_Seed plan")
  case (Some seed)
  have seed: "GetLargestPartitionSeed gt = Inr (Some seed)" "AdmissibleWhenConfirmed (verdict gt seed)"
    using PlanPartitionMeets_seed [OF assms(3)] Some by auto
  have ev: "cn_Reachable n \<and> cn_NodeID n \<noteq> []" if "AdmissibleWhenConfirmed (verdict gt n)" for n
    using that by (simp add: verdict_def admissible_iff evidence_of_node)
  have targets: "mp_Targets plan = filter (\<lambda>n. AdmissibleWhenConfirmed (verdict gt n)) (meet_candidates gt seed)"
    using PlanPartitionMeets_eq [OF assms(1) seed] assms(3) by simp
  have "repair_justified env name cluster gt st (NodeCmd (ClusterMeet (addrOf (cn_PodIP seed)) (cn_PodIP n) 6379))"
    if c: "fst (confirmPodIP (rv_GetPod env) (cn_PodName seed) (cn_PodIP seed))"
      "fst (confirmPodIP (rv_GetPod env) (cn_PodName n) (cn_PodIP n))" and t: "n \<in> set (mp_Targets plan)" for n
  proof -
    have n: "n \<in> set (cluster_nodes gt)" "cn_NodeID n \<noteq> cn_NodeID seed" "introducible env n"
      using t c(2) ev [of n] by (auto simp: targets meet_candidates_def introducible_def confirmPodIP_iff)
    have s: "introducible env seed" using c(1) ev [OF seed(2)] by (simp add: introducible_def confirmPodIP_iff)
    show ?thesis
      unfolding repair_justified.simps
      by (intro conjI assms(2) refl list_exI [OF seed_is_node [OF seed(1)]] list_exI [OF n(1)] s n)
  qed
  then show ?thesis by (auto simp: partition_meets_def meet_targets_def Some list_all_iff)
qed (simp add: partition_meets_def)

lemma forget_justified:
  assumes "\<not> HasPartitions gt" "detectLegacyClusterStatefulSet (rv_GetSTS env) name (Some cluster) \<noteq> Inr True"
  shows "list_all (repair_justified env name cluster gt st) (forget_ghosts gt)"
proof -
  have "repair_justified env name cluster gt st (NodeCmd (ClusterForget (addrOf (cn_PodIP n)) g))"
    if "g \<in> set (ghosts_to_remove gt)" "n \<in> set (cluster_nodes gt)" "cn_Reachable n" for g n
    unfolding repair_justified.simps using that assms
    by (intro conjI list_exI [OF that(2)]) (auto simp: ghosts_to_remove_def protected_masters_def list_all_iff)
  then show ?thesis by (auto simp: forget_ghosts_def list_all_iff)
qed

lemma chooseReattachTarget_adopts:
  "chooseReattachTarget p ns rc n = Some m \<Longrightarrow> m \<in> set ns \<and> can_adopt rc n m"
  unfolding chooseReattachTarget_def reattach_loop_find by (auto split: option.splits dest!: find_sort_key)

lemma reattach_justified:
  assumes "\<not> HasPartitions gt" "r = (case cs_ReplicasPerShard cluster of None \<Rightarrow> 1 | Some r \<Rightarrow> r)"
  shows "set ems \<subseteq> set (GetEmptyMasters gt) \<Longrightarrow>
    list_all (repair_justified env name cluster gt st) (snd (reattach_masters env gt r ems))"
proof (induction ems)
  case (Cons em ems)
  show ?case
  proof (cases "chooseReattachTarget (cn_PodName em) (cluster_nodes gt) (GetMastersWithReplicas gt) r")
    case (Some m)
    note m = chooseReattachTarget_adopts [OF Some]
    have em: "em \<in> set (cluster_nodes gt)" "cn_Role em = roleMaster" "cn_Slots em = []"
      using Cons.prems by (auto simp: GetEmptyMasters_def)
    have "repair_justified env name cluster gt st (NodeCmd (ClusterReplicate (addrOf (cn_PodIP em)) (cn_NodeID m)))"
      if "NodeKnows gt (cn_NodeID em) (cn_NodeID m)"
      unfolding repair_justified.simps
      by (intro conjI assms(1) list_exI [OF em(1)] list_exI [OF conjunct1 [OF m]] em(2,3) refl that)
        (use m assms(2) in simp)
    then show ?thesis using Cons Some by (auto simp: Let_def split: prod.split)
  qed (use Cons in simp)
qed simp

lemma owner_slots_spec:
  assumes "nid \<noteq> []"
  shows "owner_slots R nid ss ow = Some ow' \<Longrightarrow> length ow = length R \<Longrightarrow> length ow' = length R \<and>
    (\<forall>k < length R. ow ! k \<noteq> [] \<or> int k \<in> alignedRangeIndex R ` set ss \<longrightarrow> ow' ! k \<noteq> [])"
proof (induction ss arbitrary: ow)
  case (Cons s ss)
  show ?case
  proof (cases "ParseSlotRange s")
    case (Inl e)
    then have "alignedRangeIndex R s = -1" by (simp add: alignedRangeIndex_def)
    with Cons Inl show ?thesis by auto
  next
    case (Inr r)
    then obtain st en where r: "ParseSlotRange s = Inr (st, en)" by (cases r) simp
    define idx where "idx = range_index 0 R st en"
    have a: "alignedRangeIndex R s = idx" by (simp add: alignedRangeIndex_def r idx_def)
    have i: "idx \<noteq> -1" and rest: "owner_slots R nid ss (ow[nat idx := nid]) = Some ow'"
      using Cons.prems(1) r by (auto simp: idx_def [symmetric] Let_def split: if_splits)
    have b: "0 \<le> idx" "idx < int (length R)" using range_index_bounds [of 0 R st en] i by (auto simp: idx_def)
    have "length (ow[nat idx := nid]) = length R" using Cons.prems(2) by simp
    note IH = Cons.IH [OF rest this]
    have "ow[nat idx := nid] ! k \<noteq> []" if "k < length R" "ow ! k \<noteq> [] \<or> idx = int k" for k
      using that assms Cons.prems(2) b by (auto simp: nth_list_update)
    with IH a show ?thesis by auto
  qed
qed simp

lemma shard_owners_spec:
  "shard_owners R ns ow = Some ow' \<Longrightarrow> length ow = length R \<Longrightarrow>
   list_all (\<lambda>n. cn_Slots n = [] \<or> cn_NodeID n \<noteq> []) ns \<Longrightarrow>
   length ow' = length R \<and>
   (\<forall>k < length R. ow ! k \<noteq> [] \<or> (\<exists>n \<in> set ns. int k \<in> set (shard_idxs R n)) \<longrightarrow> ow' ! k \<noteq> [])"
proof (induction ns arbitrary: ow)
  case (Cons n ns)
  obtain ow1 where o: "owner_slots R (cn_NodeID n) (cn_Slots n) ow = Some ow1" "shard_owners R ns ow1 = Some ow'"
    using Cons.prems(1) by (auto split: option.splits)
  have 1: "length ow1 = length R \<and>
      (\<forall>k < length R. ow ! k \<noteq> [] \<or> int k \<in> set (shard_idxs R n) \<longrightarrow> ow1 ! k \<noteq> [])"
  proof (cases "cn_Slots n = []")
    case True
    with o(1) Cons.prems(2) show ?thesis by (simp add: shard_idxs_def)
  next
    case False
    with Cons.prems(3) have "cn_NodeID n \<noteq> []" by simp
    from owner_slots_spec [OF this o(1) Cons.prems(2)] show ?thesis by (simp add: shard_idxs_def)
  qed
  with Cons.IH [OF o(2)] Cons.prems(3) show ?case by auto
qed simp

lemma owns_range_idx:
  assumes "0 < shards" "shards \<le> 16384" "k < nat shards"
  shows "nodeOwnsRange n (Start (GenerateSlotRanges shards ! k)) (End (GenerateSlotRanges shards ! k)) \<longleftrightarrow>
    int k \<in> set (shard_idxs (GenerateSlotRanges shards) n)"
proof -
  have "(case ParseSlotRange s of Inl _ \<Rightarrow> False | Inr (st, en) \<Rightarrow> st = a \<and> en = b) \<longleftrightarrow> ParseSlotRange s = Inr (a, b)" for s a b
    by (auto split: sum.splits)
  moreover have "alignedRangeIndex (GenerateSlotRanges shards) s = int k \<longleftrightarrow>
      ParseSlotRange s = Inr (Start (GenerateSlotRanges shards ! k), End (GenerateSlotRanges shards ! k))" for s
    using alignedRangeIndex_iff [OF assms(1,2), of "int k"] assms(3) by auto
  ultimately show ?thesis by (simp add: nodeOwnsRange_def shard_idxs_def list_ex_iff image_iff eq_commute [of "int k"])
qed

lemma range_slots:
  assumes "0 < shards" "shards \<le> 16384" "k < nat shards"
  shows "ExpandSlotRange (FormatSlotRange (Start (GenerateSlotRanges shards ! k)) (End (GenerateSlotRanges shards ! k))) =
    Inr (slots_of (GenerateSlotRanges shards ! k))"
proof -
  have "GenerateSlotRanges shards ! k \<in> set (GenerateSlotRanges shards)"
    using assms by (intro nth_mem) (simp add: GenerateSlotRanges_length)
  note b = ranges_bounds [OF assms(1,2) this]
  then show ?thesis
    using ParseSlotRange_Format [of "Start (GenerateSlotRanges shards ! k)" "End (GenerateSlotRanges shards ! k)"]
    by (simp add: ExpandSlotRange_def slots_of_def max_int64_def)
qed

lemma missing_justified:
  assumes "0 < cs_Shards cluster" "cs_Shards cluster \<le> 16384" "identified gt" "\<not> HasPartitions gt"
    and "shard_owners (GenerateSlotRanges (cs_Shards cluster)) (cluster_nodes gt)
      (replicate (nat (cs_Shards cluster)) []) = Some owners"
  shows "list_all (repair_justified env name cluster gt st)
    (map add_slots (missing_targets gt name (GenerateSlotRanges (cs_Shards cluster)) (missing_shards owners)))"
proof -
  let ?R = "GenerateSlotRanges (cs_Shards cluster)"
  have len: "length ?R = nat (cs_Shards cluster)" using assms(1) by (simp add: GenerateSlotRanges_length)
  have own: "length owners = nat (cs_Shards cluster)"
    "\<And>k n. k < nat (cs_Shards cluster) \<Longrightarrow> n \<in> set (cluster_nodes gt) \<Longrightarrow> int k \<in> set (shard_idxs ?R n) \<Longrightarrow> owners ! k \<noteq> []"
    using shard_owners_spec [OF assms(5)] assms(3) len unfolding identified_def by auto
  have "repair_justified env name cluster gt st (add_slots (n, slots))"
    if k: "k < nat (cs_Shards cluster)" "owners ! k = []" and n: "map_of (Nodes gt) (shardMasterPodName name (int k)) = Some n"
      "SafeMissingShardTarget (Some n)" and "slots = slots_of (?R ! k)" for k n slots
  proof -
    have "k \<in> set [0..<nat (cs_Shards cluster)]" using k by simp
    moreover have "list_all (\<lambda>n. \<not> nodeOwnsRange n (Start (?R ! k)) (End (?R ! k))) (cluster_nodes gt)"
      unfolding list_all_iff owns_range_idx [OF assms(1,2) k(1)] using own(2) [OF k(1)] k(2) by blast
    ultimately show ?thesis
      using n that(5) assms(4) unfolding add_slots_def fst_conv snd_conv repair_justified.simps
      by (intro conjI list_exI [of k]) (auto simp: SafeMissingShardTarget_def)
  qed
  then show ?thesis
    using range_slots [OF assms(1,2)] own(1)
    by (auto simp: missing_targets_def missing_shards_def map_filter_def list_all_iff Let_def SafeMissingShardTarget_def
        split: option.splits)
qed

lemma slots_justified:
  assumes "0 < cs_Shards cluster" "cs_Shards cluster \<le> 16384" "identified gt" "\<not> HasPartitions gt"
    "\<And>xs. mset (rv_Iter env xs) = mset xs" "repair_slots env ops name cluster gt w = (next, cs, w')"
  shows "list_all (repair_justified env name cluster gt st) cs"
proof (cases "shard_owners (GenerateSlotRanges (cs_Shards cluster)) (cluster_nodes gt) (replicate (nat (cs_Shards cluster)) [])")
  case (Some owners)
  define ts where "ts = map add_slots (missing_targets gt name (GenerateSlotRanges (cs_Shards cluster)) (missing_shards owners))"
  have t: "list_all (repair_justified env name cluster gt st) ts"
    unfolding ts_def by (rule missing_justified [OF assms(1-4) Some])
  have r: "list_all (repair_justified env name cluster gt st) (snd (repair_replication env cluster gt))"
    using reattach_justified [OF assms(4) refl, where ems = "GetEmptyMasters gt" and env = env and name = name and st = st and cluster = cluster]
    by (auto simp: repair_replication_def Let_def split: prod.split bool.split if_splits)
  have m: "repair_justified env name cluster gt st (ReshardRange (hd (rp_Moves (PlanReshard (rv_Iter env) gt (cs_Shards cluster)))))"
    if ne: "rp_Moves (PlanReshard (rv_Iter env) gt (cs_Shards cluster)) \<noteq> []"
    using PlanReshard_good [OF assms(1) _ assms(5) hd_in_set [OF ne]] PlanReshard_aligned [OF ne] assms(4) by simp
  have "cs = ts \<or> cs = ts @ [ReshardRange (hd (rp_Moves (PlanReshard (rv_Iter env) gt (cs_Shards cluster))))] \<and>
      rp_Moves (PlanReshard (rv_Iter env) gt (cs_Shards cluster)) \<noteq> [] \<or>
    cs = ts @ snd (repair_replication env cluster gt)"
    using assms(6) Some unfolding repair_slots_def ts_def
    by (auto simp: Let_def reshardConsolidated_def split: if_splits prod.splits bool.splits list.splits)
  with t r m show ?thesis by auto
qed (use assms(6) in \<open>simp add: repair_slots_def\<close>)

text \<open>C11: every command of a repair pass is justified by what the pass read. A replica is promoted by
  force only when its master is none of the nodes and either the majority of the masters is lost or
  the orphan is tracked since at least its timeout; two nodes are introduced to each other only
  across a partition, when both answered and the API server confirms both addresses; a ghost is
  forgotten only when no replica names it as its master and no legacy workload exists; a range is
  assigned only when no node owns it, to the intended master if that is alive and empty; a surplus
  range is moved only from a master that owns another one to one that owns none; and a master becomes a replica only when it is empty, of a known master
  that owns slots and lacks replicas. Nothing but introductions and promotions happens across a partition.\<close>

theorem repair_commands_justified:
  assumes "0 < cs_Shards cluster" "cs_Shards cluster \<le> 16384" "0 < orphan_timeout cluster" "identified gt"
    and "\<And>xs. mset (rv_Iter env xs) = mset xs"
    and "repairCluster env ops name cluster gt (mem, stored) w = Inr (next, sts, cs, w')"
  shows "list_all (repair_justified env name cluster gt mem) cs"
proof -
  let ?J = "list_all (repair_justified env name cluster gt mem)"
  obtain ok cs0 where q: "quorum_recovery env gt (cs_Shards cluster) = (ok, cs0)" by fastforce
  have j0: "?J cs0" by (rule quorum_justified [OF q])
  show ?thesis
  proof (cases "\<not> ok \<and> HasPartitions gt")
    case True
    then obtain cs1 where h: "heal_partitions env cluster gt (mem, stored) = Inr (next, sts, cs1)" "cs = cs0 @ cs1"
      using assms(6) q by (auto simp: repairCluster_def split: sum.splits bool.splits)
    obtain cur pr cs2 where f: "fold (orphan_node env gt (existing_orphans mem) (orphan_timeout cluster))
        (cluster_nodes gt) ([], False, []) = (cur, pr, cs2)" using prod_cases3 by blast
    have "?J cs2" by (rule orphans_justified [OF assms(3) _ f]) (use True in simp_all)
    moreover have "cs1 = cs2 \<or> (\<exists>plan. PlanPartitionMeets gt = Inr plan \<and> cs1 = cs2 @ partition_meets env plan)"
      using h(1) f by (auto simp: heal_partitions_def Let_def split: if_splits sum.splits)
    ultimately show ?thesis
      using j0 h(2) partition_meets_justified [of gt _ env name cluster mem] True assms(4)
      by (auto simp: identified_def)
  next
    case False
    obtain next' cs1 w1 where s: "repair_slots env ops name cluster gt w = (next', cs1, w1)" using prod_cases3 by blast
    have "\<not> HasPartitions gt \<Longrightarrow> ?J cs1" by (rule slots_justified [OF assms(1,2,4) _ assms(5) s])
    then show ?thesis
      using False assms(6) q s j0 forget_justified [of gt env name cluster mem]
      by (auto simp: repairCluster_def split: if_splits bool.splits)
  qed
qed

text \<open>An example: a replica whose master is a ghost, in a partition of its own.\<close>

definition orphan_gt :: ClusterGroundTruth where
  "orphan_gt = NewClusterGroundTruth
     \<lparr>Nodes := [(''c-shard-0-0'', (node_example ''c-shard-0-0'' ''10.0.0.1'' ''A'')\<lparr>cn_Slots := [''0-16383'']\<rparr>),
        (''c-shard-0-1'', (node_example ''c-shard-0-1'' ''10.0.0.2'' ''R'')\<lparr>cn_Role := ''replica'', cn_MasterNodeID := ''G''\<rparr>)],
      Partitions := [[''A''], [''R'']], GhostNodes := [''G'']\<rparr>"

definition orphan_cluster :: ClusterSpec where
  "orphan_cluster = ClusterSpec_SetDefaults (empty_cluster_spec\<lparr>cs_Shards := 1\<rparr>)"

definition orphan_env :: "time \<Rightarrow> repair_env" where
  "orphan_env t = \<lparr>rv_Now = t, rv_Fast = 2 * second, rv_QuorumTakeover = (\<lambda>_. None), rv_OrphanTakeover = (\<lambda>_. None),
     rv_AddSlots = (\<lambda>_. None), rv_Replicate = (\<lambda>_ _. None), rv_GetPod = (\<lambda>_. Inl NotFound), rv_GetSTS = Inl NotFound,
     rv_Update = None, rv_Iter = rev\<rparr>"

definition status_of :: "OrphanedReplicaInfo list \<Rightarrow> cluster_status" where
  "status_of os = \<lparr>mt_Phase = PhaseRunning, mt_Status = [], mt_NotReady = None, mt_Cluster = Some None, ct_State = [],
     ct_Nodes = [], ct_OrphanedReplicas = os, ct_WipeDeadlockSince = None, ct_RedisReady = 2, ct_RedisTotal = 2,
     ct_Ready = False, ct_Blocked = None, ct_Auth = None\<rparr>"

definition tracked :: "string \<Rightarrow> string \<Rightarrow> OrphanedReplicaInfo" where
  "tracked p i = \<lparr>oi_PodName = p, oi_NodeID = i, oi_MasterNodeID = ''G'', oi_DetectedAt = 5\<rparr>"

theorem repair_commands_justified_witness:
  "(case repairCluster (orphan_env (40 * second)) two_nodes ''c'' orphan_cluster orphan_gt
      (status_of [tracked ''c-shard-0-1'' ''R''], status_of [tracked ''c-shard-0-1'' ''R'']) ([], []) of
      Inl _ \<Rightarrow> False
    | Inr (next, sts, cs, w) \<Rightarrow> cs = [NodeCmd (ClusterFailoverTakeover ''10.0.0.2:6379'')]) \<and>
   repair_justified (orphan_env (40 * second)) ''c'' orphan_cluster orphan_gt (status_of [tracked ''c-shard-0-1'' ''R''])
     (NodeCmd (ClusterFailoverTakeover ''10.0.0.2:6379''))"
proof -
  let ?r = "repairCluster (orphan_env (40 * second)) two_nodes ''c'' orphan_cluster orphan_gt
      (status_of [tracked ''c-shard-0-1'' ''R''], status_of [tracked ''c-shard-0-1'' ''R'']) ([], [])"
  have c: "case ?r of Inl _ \<Rightarrow> False | Inr (next, sts, cs, w) \<Rightarrow> cs = [NodeCmd (ClusterFailoverTakeover ''10.0.0.2:6379'')]"
    by code_simp
  then obtain nx sts w where r: "?r = Inr (nx, sts, [NodeCmd (ClusterFailoverTakeover ''10.0.0.2:6379'')], w)"
    by (auto split: sum.splits prod.splits)
  have "0 < cs_Shards orphan_cluster" "cs_Shards orphan_cluster \<le> 16384" "0 < orphan_timeout orphan_cluster"
    "identified orphan_gt"
    by (simp_all add: orphan_cluster_def orphan_timeout_def ClusterSpec_SetDefaults_def empty_cluster_spec_def
      identified_def wf_nodes_def orphan_gt_def node_example_def NewClusterGroundTruth_def)
  moreover have "mset (rv_Iter (orphan_env (40 * second)) xs) = mset xs" for xs by (simp add: orphan_env_def)
  ultimately have "list_all (repair_justified (orphan_env (40 * second)) ''c'' orphan_cluster orphan_gt
      (status_of [tracked ''c-shard-0-1'' ''R''])) [NodeCmd (ClusterFailoverTakeover ''10.0.0.2:6379'')]"
    using repair_commands_justified [OF _ _ _ _ _ r] by blast
  with c show ?thesis by (simp del: repair_justified.simps)
qed

section \<open>An orphan that replaces another is never tracked\<close>

definition orphans :: "ClusterGroundTruth \<Rightarrow> ClusterNodeState list" where
  "orphans gt = filter (\<lambda>n. lost_master gt n \<and> cn_MasterNodeID n \<in> set (GhostNodes gt)) (cluster_nodes gt)"

lemma orphan_fold_untracked:
  assumes "0 < timeout"
  shows "list_all (\<lambda>n. existing (cn_PodName n) = None)
      (filter (\<lambda>n. lost_master gt n \<and> cn_MasterNodeID n \<in> set (GhostNodes gt)) ns) \<Longrightarrow>
    fold (orphan_node env gt existing timeout) ns (cur, pr, cs) =
      (cur @ map (\<lambda>n. \<lparr>oi_PodName = cn_PodName n, oi_NodeID = cn_NodeID n, oi_MasterNodeID = cn_MasterNodeID n,
          oi_DetectedAt = rv_Now env\<rparr>)
        (filter (\<lambda>n. lost_master gt n \<and> cn_MasterNodeID n \<in> set (GhostNodes gt)) ns), pr, cs)"
proof (induction ns arbitrary: cur)
  case (Cons n ns)
  have "\<not> timeout \<le> Sub t t" for t using assms by (simp add: Sub_def min_int64_def max_int64_def)
  with Cons show ?case by (auto simp: orphan_node_def Let_def)
qed simp



end
