(* ===== verification/Auth_Report.thy ===== *)
theory Auth_Report
  imports Replication_State Cluster_Rollout
begin

text \<open>
  The report of the pods that refuse the operator's credential
  (\<open>internal/controller/auth_probe_report.go\<close>): the condition \<open>OperatorCannotAuthenticate\<close>. The read and the
  write of the stored object are one outcome, the retry on conflict included.
\<close>

record authReport =
  ar_Status :: bool
  ar_Reason :: string
  ar_Message :: string
  ar_Pods :: "string list"

record authFailure =
  af_PodName :: string
  af_Reply :: string

definition replicationAuthFailures :: "ReplicationState option \<Rightarrow> authFailure list" where
  "replicationAuthFailures state =
     (case state of
        None \<Rightarrow> []
      | Some s \<Rightarrow>
          map (\<lambda>rn. \<lparr>af_PodName = rn_PodName rn, af_Reply = rn_ProbeError rn\<rparr>) (AuthFailedRedisNodes s) @
          map (\<lambda>sn. \<lparr>af_PodName = sn_PodName sn, af_Reply = sn_ProbeError sn\<rparr>) (AuthFailedSentinelNodes s))"

definition clusterAuthFailures :: "ClusterGroundTruth option \<Rightarrow> authFailure list" where
  "clusterAuthFailures gt =
     (case gt of
        None \<Rightarrow> []
      | Some g \<Rightarrow> map (\<lambda>n. \<lparr>af_PodName = cn_PodName n, af_Reply = cn_ProbeError n\<rparr>) (AuthFailedNodes g))"

definition planAuthReport :: "authFailure list \<Rightarrow> authReport" where
  "planAuthReport failures =
     (let pods = map af_PodName failures;
          distinct' = sortedKeys (filter (\<lambda>r. r \<noteq> []) (map af_Reply failures))
      in if length pods = 0
         then \<lparr>ar_Status = False, ar_Reason = ''CredentialAccepted'',
               ar_Message = ''No pod is refusing the operator'' @ squote @ ''s credential.'', ar_Pods = []\<rparr>
         else \<lparr>ar_Status = True, ar_Reason = ''CredentialRejected'',
               ar_Message =
                 ''The operator cannot authenticate to '' @ Itoa (int (length pods)) @ '' of this instance'' @ squote @
                 ''s own pods ('' @ Join pods '', '' @ ''). The server said: '' @ Join distinct' ''; '' @
                 ''. These pods ANSWERED '' @ em_dash @ '' a live server is running there '' @ em_dash @ '' so their '' @
                 ''keyspace is unknown, not empty, and the operator is refusing every action that would '' @
                 ''discard data (leaderless reseed, ghost-master election, capture quarantine) until the '' @
                 ''credential is fixed. Most likely the password in the Secret was changed under a running '' @
                 ''instance: editing a Secret rolls no pods, so they keep enforcing the previous password '' @
                 ''indefinitely.'',
               ar_Pods = pods\<rparr>)"

text \<open>
  The error, the condition if it was written, and the Warning events. The condition in memory decides
  whether there is anything to write.
\<close>

definition reportOperatorAuth ::
    "api_error option \<Rightarrow> authFailure list \<Rightarrow> blocked_cond \<Rightarrow> api_error option \<times> blocked_cond \<times> string list" where
  "reportOperatorAuth write failures prev =
     (let rep = planAuthReport failures; new = (ar_Status rep, ar_Reason rep, ar_Message rep)
      in if prev = None \<and> \<not> ar_Status rep then (None, None, [])
         else if prev = Some new then (None, None, [])
         else
           let transitioned = (case prev of None \<Rightarrow> True | Some (s, _) \<Rightarrow> s \<noteq> ar_Status rep)
           in case write of
                Some e \<Rightarrow> (Some e, None, [])
              | None \<Rightarrow> (None, Some new, if transitioned \<and> ar_Status rep then [ar_Message rep] else []))"

text \<open>A Warning is sent only when the condition turns true; repeating the pass writes nothing.\<close>

lemma reportOperatorAuth_quiet:
  "reportOperatorAuth write failures prev = (None, Some new, evs) \<Longrightarrow>
   reportOperatorAuth write' failures (Some new) = (None, None, [])"
  by (auto simp: reportOperatorAuth_def Let_def split: if_splits option.splits)

lemma planAuthReport_status: "ar_Status (planAuthReport failures) \<longleftrightarrow> failures \<noteq> []"
  by (simp add: planAuthReport_def Let_def)

lemma reportOperatorAuth_true_iff:
  assumes "reportOperatorAuth write failures prev = (None, Some (s, r, m), evs)"
  shows "s \<longleftrightarrow> failures \<noteq> []"
proof -
  have "s = ar_Status (planAuthReport failures)"
    using assms by (auto simp: reportOperatorAuth_def Let_def split: if_splits option.splits)
  then show ?thesis unfolding planAuthReport_status .
qed

end
