(* ===== verification/Cluster_Reconcile.thy ===== *)
theory Cluster_Reconcile
  imports Cluster_Repair Auth_Report
begin

text \<open>
  The pass of the cluster mode (\<open>reconcileCluster\<close> of \<open>internal/controller/cluster_reconcile.go\<close>) and
  the parts that no other theory holds: the bootstrap of an empty cluster, the update of the status,
  the guard against removing shards, the gather over the pods. The pass composes the migration, the
  rollout, the wipe recovery and the repair loop in the order of the code.

  The resources other than the shard StatefulSets (ConfigMap, Services, PodDisruptionBudget,
  ServiceMonitor) are applied by functions that only call the API server; their outcome is one parameter.
\<close>

section \<open>The shard StatefulSets\<close>

text \<open>The StatefulSets found so far, whether all exist, and the sums of ready and specified replicas.\<close>

fun shard_sts_loop ::
    "(int \<Rightarrow> api_error + shard_sts) \<Rightarrow> int list \<Rightarrow> (int \<rightharpoonup> shard_sts) \<times> bool \<times> int \<times> int \<Rightarrow>
     api_error + (int \<rightharpoonup> shard_sts) \<times> bool \<times> int \<times> int" where
  "shard_sts_loop get [] acc = Inr acc"
| "shard_sts_loop get (k # ks) (byShard, allExist, ready, tot) =
     (case get k of
        Inl NotFound \<Rightarrow> shard_sts_loop get ks (byShard, False, ready, tot)
      | Inl e \<Rightarrow> Inl e
      | Inr sts \<Rightarrow>
          shard_sts_loop get ks (byShard(k \<mapsto> sts), allExist, int32 (ready + sh_ReadyReplicas sts),
            (case sh_SpecReplicas sts of None \<Rightarrow> tot | Some r \<Rightarrow> int32 (tot + r))))"

definition clusterShardStatefulSets ::
    "(int \<Rightarrow> api_error + shard_sts) \<Rightarrow> ClusterSpec option \<Rightarrow> api_error + (int \<rightharpoonup> shard_sts) \<times> bool \<times> int \<times> int" where
  "clusterShardStatefulSets get cluster =
     shard_sts_loop get [0..clusterShardCount cluster - 1] (Map.empty, True, 0, 0)"

text \<open>The shard StatefulSets of the instance with an index that the specification no longer has.\<close>

definition detectOrphanedShardStatefulSets ::
    "api_error + (string \<times> (string \<rightharpoonup> string)) list \<Rightarrow> ClusterSpec option \<Rightarrow> api_error + string list" where
  "detectOrphanedShardStatefulSets listed cluster =
     (case listed of
        Inl e \<Rightarrow> Inl e
      | Inr items \<Rightarrow>
          Inr (map fst (filter (\<lambda>(_, labels).
            case labels LabelShard of
              None \<Rightarrow> False
            | Some val \<Rightarrow> (case Atoi val of Inl _ \<Rightarrow> False | Inr shardIdx \<Rightarrow> shardIdx \<ge> clusterShardCount cluster)) items)))"

type_synonym pass_result = "ctrl_result \<times> api_error option"

definition reportShardScaleDown ::
    "api_error option \<Rightarrow> duration \<Rightarrow> ClusterSpec option \<Rightarrow> string list \<Rightarrow> statuses \<Rightarrow> pass_result \<times> statuses" where
  "reportShardScaleDown update steady cluster orphaned sts =
     (let msg = ''Refusing to reduce cluster.shards to '' @ Itoa (clusterShardCount cluster) @
            '': shard StatefulSet(s) '' @ Join orphaned '', '' @
            '' would be orphaned and their slots (and data) lost. There is no reshard-away path '' @
            ''and LittleRed never deletes data by default. Restore cluster.shards or migrate the '' @
            ''data and remove the shard(s) manually.'';
          mem = (fst sts)\<lparr>mt_Phase := PhaseFailed, mt_Status := ''ShardScaleDownRefused'',
            mt_NotReady := Some (''ShardScaleDownRefused'', msg), ct_Ready := False\<rparr>;
          stored = (if update = None then mem else snd sts)
      in case ignore_conflict update of
           Some e \<Rightarrow> ((NoRequeue, Some e), (mem, stored))
         | None \<Rightarrow> ((RequeueAfter steady, None), (mem, stored)))"

section \<open>The gather\<close>

record gather_env =
  ge_GetPodIP :: "string \<Rightarrow> api_error + string"
  ge_GetID :: id_probe
  ge_GetRedis :: redis_probe
  ge_GetInfo :: info_probe
  ge_GetNodes :: nodes_probe

definition gatherGroundTruth ::
    "gather_env \<Rightarrow> string \<Rightarrow> ClusterSpec option \<Rightarrow> go_panic + ClusterGroundTruth" where
  "gatherGroundTruth env name cluster =
     (case cluster of
        None \<Rightarrow> Inl NilDereference
      | Some c \<Rightarrow>
          Inr (GatherClusterGroundTruth (ge_GetID env) (ge_GetRedis env) (ge_GetInfo env) (ge_GetNodes env)
            (fold (\<lambda>ref m. case ge_GetPodIP env (cp_Name ref) of
                 Inl _ \<Rightarrow> m
               | Inr ip \<Rightarrow> if ip \<noteq> [] then AList.update ip (cp_Name ref) m else m)
               (ClusterPodRefs name (cs_Shards c) (clusterReplicasPerShard cluster)) [])))"

section \<open>The status\<close>

record status_env =
  te_GetSTS :: "int \<Rightarrow> api_error + shard_sts"
  te_Update :: "api_error option"
  te_Fast :: duration
  te_Steady :: duration

definition node_statuses :: "ClusterGroundTruth \<Rightarrow> ClusterPodRef list \<Rightarrow> node_status list" where
  "node_statuses gt refs =
     List.map_filter (\<lambda>ref. map_option (\<lambda>node.
       \<lparr>ns_PodName = cp_Name ref, ns_NodeID = cn_NodeID node, ns_Role = cn_Role node,
        ns_MasterNodeID = cn_MasterNodeID node, ns_SlotRanges = Join (cn_Slots node) '',''\<rparr>)
       (map_of (Nodes gt) (cp_Name ref))) refs"

text \<open>The status computed from the ground truth and the sums of the replicas.\<close>

definition cluster_status_now ::
    "string \<Rightarrow> ClusterSpec option \<Rightarrow> ClusterGroundTruth \<Rightarrow> int \<Rightarrow> int \<Rightarrow> cluster_status \<Rightarrow> cluster_status" where
  "cluster_status_now name cluster gt ready tot old =
     (let clusterShards = (case cluster of None \<Rightarrow> 3 | Some c \<Rightarrow> int32 (cs_Shards c));
          rps = (case cluster of None \<Rightarrow> 0 | Some _ \<Rightarrow> clusterReplicasPerShard cluster);
          mem = (with_cluster (old\<lparr>ct_RedisReady := ready, ct_RedisTotal := tot\<rparr>))
            \<lparr>ct_State := ClusterState gt, ct_Nodes := node_statuses gt (ClusterPodRefs name clusterShards rps)\<rparr>
      in if ready = tot \<and> IsHealthy gt tot clusterShards
         then mem\<lparr>mt_Phase := PhaseRunning, mt_Status := ''Ready'', mt_NotReady := None, ct_Ready := True\<rparr>
         else mem\<lparr>mt_Phase := (if mt_Phase mem \<noteq> PhasePending then PhaseInitializing else mt_Phase mem),
                  mt_Status := ''Initializing'',
                  mt_NotReady := Some (''ClusterNotReady'', ''Waiting for cluster to be healthy''), ct_Ready := False\<rparr>)"

text \<open>The ground truth is the caller's or a fresh one, so it is never nil here.\<close>

definition updateClusterStatus ::
    "status_env \<Rightarrow> string \<Rightarrow> ClusterSpec option \<Rightarrow> ClusterGroundTruth \<Rightarrow> statuses \<Rightarrow> pass_result \<times> statuses" where
  "updateClusterStatus env name cluster gt sts =
     (case sts of (old, stored) \<Rightarrow>
      case clusterShardStatefulSets (te_GetSTS env) cluster of
        Inl e \<Rightarrow> ((NoRequeue, Some e), sts)
      | Inr (_, _, ready, tot) \<Rightarrow>
          let mem = cluster_status_now name cluster gt ready tot old; changed = (mem \<noteq> old)
          in if changed \<and> te_Update env = Some Conflict then ((RequeueNow, None), (mem, stored))
             else if changed \<and> te_Update env \<noteq> None then ((NoRequeue, te_Update env), (mem, stored))
             else ((RequeueAfter (if mt_Phase mem = PhaseRunning then te_Steady env else te_Fast env), None),
                   (mem, if changed then mem else stored)))"

section \<open>Bootstrap\<close>

record boot_pod =
  bp_PodIP :: string
  bp_Terminating :: bool
  bp_Revision :: string

definition podAtOwnStatefulSetRevision :: "boot_pod option \<Rightarrow> shard_sts option \<Rightarrow> bool" where
  "podAtOwnStatefulSetRevision pod sts =
     (case (pod, sts) of
        (Some p, Some s) \<Rightarrow>
          bp_Revision p \<noteq> [] \<and> (bp_Revision p = sh_CurrentRevision s \<or> bp_Revision p = sh_UpdateRevision s)
      | _ \<Rightarrow> False)"

text \<open>
  The answers of the nodes: their IDs, and their views at the three points where the code asks for
  them. The errors of the commands are only logged.
\<close>

record boot_env =
  be_GetSTS :: "int \<Rightarrow> api_error + shard_sts"
  be_GetPod :: "string \<Rightarrow> api_error + boot_pod"
  be_MyID :: "string \<Rightarrow> go_error + string"
  be_View :: "string \<Rightarrow> go_error + cluster_node_info list"
  be_MasterView :: "string \<Rightarrow> go_error + cluster_node_info list"
  be_ReplicaView :: "string \<Rightarrow> go_error + cluster_node_info list"
  be_SkipSlots :: bool

text \<open>What is known of a pod: its address, its node ID and the evidence for a MEET.\<close>

type_synonym boot_fact = "string \<times> string \<times> MeetCandidate"

text \<open>The loop over the pods; \<open>Inl\<close> is the early return, with the error if there is one.\<close>

fun boot_pods ::
    "boot_env \<Rightarrow> (int \<rightharpoonup> shard_sts) \<Rightarrow> ClusterPodRef list \<Rightarrow> (string \<rightharpoonup> boot_fact) \<Rightarrow> api_error option + (string \<rightharpoonup> boot_fact)" where
  "boot_pods env shardSTSs [] facts = Inr facts"
| "boot_pods env shardSTSs (ref # refs) facts =
     (case be_GetPod env (cp_Name ref) of
        Inl NotFound \<Rightarrow> Inl None
      | Inl e \<Rightarrow> Inl (Some e)
      | Inr pod \<Rightarrow>
          if bp_Terminating pod then Inl None
          else if bp_PodIP pod = [] \<or> \<not> podAtOwnStatefulSetRevision (Some pod) (shardSTSs (cp_ShardIdx ref))
          then Inl None
          else
            let addr = addrOf (bp_PodIP pod)
            in case be_MyID env addr of
                 Inl _ \<Rightarrow> Inl None
               | Inr i \<Rightarrow>
                   let cand = (case be_View env addr of
                         Inl _ \<Rightarrow> \<lparr>mc_PodName = cp_Name ref, mc_PodIP = bp_PodIP pod, mc_NodeID = i,
                                   mc_Identified = True, mc_ViewKnown = False, mc_KnownIDs = [], mc_Slots = []\<rparr>
                       | Inr view \<Rightarrow> MeetCandidateFromNodes (cp_Name ref) (bp_PodIP pod) i view)
                   in boot_pods env shardSTSs refs (facts(cp_Name ref \<mapsto> (bp_PodIP pod, i, cand))))"

text \<open>A missing entry of a map reads as the zero value.\<close>

definition fact_ip :: "(string \<rightharpoonup> boot_fact) \<Rightarrow> string \<Rightarrow> string" where
  "fact_ip facts p = (case facts p of None \<Rightarrow> [] | Some (ip, _, _) \<Rightarrow> ip)"

definition fact_id :: "(string \<rightharpoonup> boot_fact) \<Rightarrow> string \<Rightarrow> string" where
  "fact_id facts p = (case facts p of None \<Rightarrow> [] | Some (_, i, _) \<Rightarrow> i)"

definition fact_cand :: "(string \<rightharpoonup> boot_fact) \<Rightarrow> string \<Rightarrow> MeetCandidate" where
  "fact_cand facts p = (case facts p of
       None \<Rightarrow> \<lparr>mc_PodName = [], mc_PodIP = [], mc_NodeID = [], mc_Identified = False, mc_ViewKnown = False,
               mc_KnownIDs = [], mc_Slots = []\<rparr>
     | Some (_, _, c) \<Rightarrow> c)"

text \<open>None is the refusal of the seed.\<close>

definition bootstrapMeetRound ::
    "string \<Rightarrow> ClusterPodRef list \<Rightarrow> (string \<rightharpoonup> boot_fact) \<Rightarrow> cluster_cmd list option" where
  "bootstrapMeetRound name refs facts =
     (let seedName = shardMasterPodName name 0; seedAddr = addrOf (fact_ip facts seedName);
          ourIDs = set (List.map_filter (\<lambda>ref. map_option (\<lambda>(_, i, _). i) (facts (cp_Name ref))) refs);
          admissible = (\<lambda>p. AdmissibleWhenConfirmed (AttributeMeetTarget (fact_cand facts p) ourIDs))
      in if \<not> admissible seedName then None
         else Some (map (\<lambda>ref. NodeCmd (ClusterMeet seedAddr (fact_ip facts (cp_Name ref)) 6379))
           (filter (\<lambda>ref. cp_Name ref \<noteq> seedName \<and> admissible (cp_Name ref)) refs)))"

definition boot_slots ::
    "boot_env \<Rightarrow> string \<Rightarrow> int \<Rightarrow> (string \<rightharpoonup> boot_fact) \<Rightarrow> cluster_cmd list" where
  "boot_slots env name shards facts =
     List.map_filter (\<lambda>k.
       let masterName = shardMasterPodName name k; masterAddr = addrOf (fact_ip facts masterName);
           hasSlots = (case be_MasterView env masterAddr of
               Inl _ \<Rightarrow> False
             | Inr nodes \<Rightarrow> list_ex (\<lambda>n. ni_NodeID n = fact_id facts masterName \<and> length (ni_Slots n) > 0) nodes);
           r = GenerateSlotRanges shards ! nat k
       in if hasSlots then None
          else Some (ClusterAddSlots masterAddr
            (case ExpandSlotRange (FormatSlotRange (Start r) (End r)) of Inr slots \<Rightarrow> slots | Inl _ \<Rightarrow> [])))
     [0..shards - 1]"

definition boot_replicas ::
    "boot_env \<Rightarrow> string \<Rightarrow> ClusterPodRef list \<Rightarrow> (string \<rightharpoonup> boot_fact) \<Rightarrow> cluster_cmd list" where
  "boot_replicas env name refs facts =
     List.map_filter (\<lambda>ref.
       let masterID = fact_id facts (shardMasterPodName name (cp_ShardIdx ref));
           replicaAddr = addrOf (fact_ip facts (cp_Name ref));
           alreadyCorrect = (case be_ReplicaView env replicaAddr of
               Inl _ \<Rightarrow> False
             | Inr nodes \<Rightarrow> list_ex (\<lambda>n. ni_NodeID n = fact_id facts (cp_Name ref) \<and> ni_MasterID n = masterID) nodes)
       in if cp_IsMaster ref \<or> alreadyCorrect then None
          else Some (NodeCmd (ClusterReplicate replicaAddr masterID))) refs"

text \<open>\<open>Inl\<close> is an early return; otherwise the commands, after which the status is updated.\<close>

definition bootstrapCluster ::
    "boot_env \<Rightarrow> string \<Rightarrow> ClusterSpec option \<Rightarrow> pass_result + cluster_cmd list" where
  "bootstrapCluster env name cluster0 =
     (let cluster = (case cluster0 of None \<Rightarrow> ClusterSpec_SetDefaults empty_cluster_spec | Some c \<Rightarrow> c);
          refs = ClusterPodRefs name (cs_Shards cluster) (clusterReplicasPerShard (Some cluster))
      in case clusterShardStatefulSets (be_GetSTS env) cluster0 of
           Inl e \<Rightarrow> Inl (NoRequeue, Some e)
         | Inr (shardSTSs, allExist, _, _) \<Rightarrow>
             if \<not> allExist then Inl (RequeueAfter second, None)
             else case boot_pods env shardSTSs refs Map.empty of
                 Inl None \<Rightarrow> Inl (RequeueAfter second, None)
               | Inl (Some e) \<Rightarrow> Inl (NoRequeue, Some e)
               | Inr facts \<Rightarrow>
                   (case bootstrapMeetRound name refs facts of
                      None \<Rightarrow> Inl (RequeueAfter second, None)
                    | Some meets \<Rightarrow>
                        Inr (meets @
                          (if be_SkipSlots env then [] else boot_slots env name (cs_Shards cluster) facts) @
                          boot_replicas env name refs facts)))"

section \<open>The pass\<close>

text \<open>
  The environment of a pass. The applications of the ConfigMap and the headless Service come before
  those of the shard StatefulSets, the client Service and the PodDisruptionBudget after. The second
  gather is that of the update of the status after a repair.
\<close>

record cluster_env =
  ce_Migration :: migration_env
  ce_ListSTS :: "api_error + (string \<times> (string \<rightharpoonup> string)) list"
  ce_ScaleDownUpdate :: "api_error option"
  ce_EnsureBefore :: "api_error option"
  ce_Rollout :: rollout_env
  ce_EnsureAfter :: "api_error option"
  ce_ShardSTS :: "int \<Rightarrow> api_error + shard_sts"
  ce_Wipe :: wipe_env
  ce_WaitUpdate :: "api_error option"
  ce_Gather :: gather_env
  ce_AuthWrite :: "api_error option"
  ce_Repair :: repair_env
  ce_Boot :: boot_env
  ce_Regather :: gather_env
  ce_Status :: status_env
  ce_Fast :: duration
  ce_Steady :: duration

type_synonym 'r cluster_pass = "pass_result \<times> statuses \<times> cluster_cmd list \<times> 'r"

definition ensureClusterResources :: "cluster_env \<Rightarrow> rollout_env \<Rightarrow> api_error option \<times> cluster_cmd list" where
  "ensureClusterResources env renv =
     (case ce_EnsureBefore env of
        Some e \<Rightarrow> (Some e, [])
      | None \<Rightarrow>
          (case reconcileClusterStatefulSet renv of
             (Some e, cs) \<Rightarrow> (Some e, map RolloutCmd cs)
           | (None, cs) \<Rightarrow> (ce_EnsureAfter env, map RolloutCmd cs)))"

text \<open>The pass while some pod is not ready.\<close>

definition wait_for_pods ::
    "cluster_env \<Rightarrow> wipe_env \<Rightarrow> int \<Rightarrow> int \<Rightarrow> statuses \<Rightarrow> pass_result \<times> statuses \<times> cluster_cmd list" where
  "wait_for_pods env wenv ready tot sts =
     (let mem = with_cluster (fst sts)
      in case recoverClusterWipeDeadlock wenv (ct_WipeDeadlockSince mem) of
           (Some e, _, ds) \<Rightarrow> ((NoRequeue, Some e), (mem, snd sts), map DeletePod ds)
         | (None, since, ds) \<Rightarrow>
             let mem = mem\<lparr>ct_WipeDeadlockSince := since, mt_Phase := PhaseInitializing, ct_RedisReady := ready,
                           ct_RedisTotal := tot\<rparr>
             in case ce_WaitUpdate env of
                  Some e \<Rightarrow> ((NoRequeue, Some e), (mem, snd sts), map DeletePod ds)
                | None \<Rightarrow> ((RequeueAfter (ce_Fast env), None), (mem, mem), map DeletePod ds))"

text \<open>A written report is copied back with all conditions of the stored object.\<close>

definition report_auth :: "api_error option \<Rightarrow> ClusterGroundTruth \<Rightarrow> statuses \<Rightarrow> statuses \<times> cluster_cmd list" where
  "report_auth write gt sts =
     (case sts of (mem, stored) \<Rightarrow>
      case reportOperatorAuth write (clusterAuthFailures (Some gt)) (ct_Auth mem) of
        (_, None, evs) \<Rightarrow> (sts, map AuthEvent evs)
      | (_, Some new, evs) \<Rightarrow>
          ((mem\<lparr>mt_NotReady := mt_NotReady stored, ct_Ready := ct_Ready stored, ct_Blocked := ct_Blocked stored,
                ct_Auth := Some new\<rparr>, stored\<lparr>ct_Auth := Some new\<rparr>), map AuthEvent evs))"

definition advance_rollout ::
    "rollout_env \<Rightarrow> ClusterGroundTruth \<Rightarrow> statuses \<Rightarrow> statuses \<times> cluster_cmd list" where
  "advance_rollout renv gt sts =
     (case sts of (mem, stored) \<Rightarrow>
      case advanceClusterRollout renv gt (ct_Blocked mem, ct_Blocked stored) of
        (_, (m, s), cs) \<Rightarrow> ((mem\<lparr>ct_Blocked := m\<rparr>, stored\<lparr>ct_Blocked := s\<rparr>), map RolloutCmd cs))"

definition needs_repair :: "ClusterGroundTruth \<Rightarrow> int \<Rightarrow> int \<Rightarrow> bool" where
  "needs_repair gt expectedReplicas shards \<longleftrightarrow>
     \<not> IsHealthy gt expectedReplicas shards \<or> HasPartitions gt \<or> HasGhostNodes gt \<or> HasOrphanedSlots gt \<or>
     HasEmptyMasters gt"

text \<open>The pass once all pods are ready.\<close>

definition reconcile_ready ::
    "cluster_env \<Rightarrow> rollout_env \<Rightarrow> 'r redis_ops \<Rightarrow> string \<Rightarrow> ClusterSpec option \<Rightarrow> ClusterSpec \<Rightarrow> statuses \<Rightarrow> 'r \<Rightarrow>
     go_panic + 'r cluster_pass" where
  "reconcile_ready env renv ops name cluster0 cluster sts w =
     (case gatherGroundTruth (ce_Gather env) name cluster0 of
        Inl p \<Rightarrow> Inl p
      | Inr gt \<Rightarrow>
          (case report_auth (ce_AuthWrite env) gt sts of (sts, cs1) \<Rightarrow>
           case advance_rollout renv gt sts of (sts, cs2) \<Rightarrow>
             if needs_repair gt (int32 (GetTotalNodes cluster)) (int32 (cs_Shards cluster))
             then (case cluster0 of
                 None \<Rightarrow> Inl NilDereference
               | Some c \<Rightarrow>
                   (case repairCluster (ce_Repair env) ops name c gt sts w of
                      Inl p \<Rightarrow> Inl p
                    | Inr (Done r e, sts, cs3, w) \<Rightarrow> Inr ((r, e), sts, cs1 @ cs2 @ cs3, w)
                    | Inr (step, sts, cs3, w) \<Rightarrow>
                        (case (if step = BootstrapNext then bootstrapCluster (ce_Boot env) name cluster0 else Inr []) of
                           Inl r \<Rightarrow> Inr (r, sts, cs1 @ cs2 @ cs3, w)
                         | Inr cs4 \<Rightarrow>
                             (case gatherGroundTruth (ce_Regather env) name cluster0 of
                                Inl p \<Rightarrow> Inl p
                              | Inr gt' \<Rightarrow>
                                  (case updateClusterStatus (ce_Status env) name cluster0 gt' sts of
                                     (r, sts) \<Rightarrow> Inr (r, sts, cs1 @ cs2 @ cs3 @ cs4, w))))))
             else (case updateClusterStatus (ce_Status env) name cluster0 gt sts of
                 (r, sts) \<Rightarrow> Inr (r, sts, cs1 @ cs2, w))))"

text \<open>The pass after the migration and the guard.\<close>

definition reconcile_steady ::
    "cluster_env \<Rightarrow> 'r redis_ops \<Rightarrow> string \<Rightarrow> ClusterSpec option \<Rightarrow> statuses \<Rightarrow> 'r \<Rightarrow> go_panic + 'r cluster_pass" where
  "reconcile_steady env ops name cluster0 sts w =
     (let renv = (ce_Rollout env)\<lparr>rl_Name := name, rl_Cluster := cluster0\<rparr>;
          cluster = (case cluster0 of None \<Rightarrow> ClusterSpec_SetDefaults empty_cluster_spec | Some c \<Rightarrow> c)
      in case ensureClusterResources env renv of
           (Some e, cs0) \<Rightarrow> Inr ((NoRequeue, Some e), sts, cs0, w)
         | (None, cs0) \<Rightarrow>
             (case clusterShardStatefulSets (ce_ShardSTS env) cluster0 of
                Inl e \<Rightarrow> Inr ((NoRequeue, Some e), sts, cs0, w)
              | Inr (_, allExist, ready, tot) \<Rightarrow>
                  if \<not> allExist then Inr ((RequeueAfter (ce_Fast env), None), sts, cs0, w)
                  else if ready \<noteq> int32 (GetTotalNodes cluster)
                  then (case wait_for_pods env ((ce_Wipe env)\<lparr>we_Name := name, we_Cluster := cluster0\<rparr>) ready tot sts of
                      (r, sts, cs) \<Rightarrow> Inr (r, sts, cs0 @ cs, w))
                  else (case reconcile_ready env renv ops name cluster0 cluster sts w of
                      Inl p \<Rightarrow> Inl p
                    | Inr (r, sts, cs, w) \<Rightarrow> Inr (r, sts, cs0 @ cs, w))))"

definition reconcileCluster ::
    "cluster_env \<Rightarrow> 'r redis_ops \<Rightarrow> string \<Rightarrow> ClusterSpec option \<Rightarrow> cluster_status \<Rightarrow> 'r \<Rightarrow> go_panic + 'r cluster_pass" where
  "reconcileCluster env ops name cluster stored w =
     (let mem = (if mt_Phase stored = PhaseUnset then stored\<lparr>mt_Phase := PhasePending\<rparr> else stored);
          menv = (ce_Migration env)\<lparr>me_Cluster := cluster\<rparr>
      in case migrateLegacyCluster menv name (migration_status.truncate mem) of
           Inl p \<Rightarrow> Inl p
         | Inr ((requeue, handled, err), st, mcs) \<Rightarrow>
             let mem' = mem\<lparr>mt_Phase := mt_Phase st, mt_Status := mt_Status st, mt_NotReady := mt_NotReady st,
                            mt_Cluster := mt_Cluster st, ct_Ready := (ct_Ready mem \<and> mt_NotReady st = None)\<rparr>
             in if handled \<or> err \<noteq> None
                then Inr ((case requeue of None \<Rightarrow> NoRequeue | Some d \<Rightarrow> RequeueAfter d, err),
                  (mem', if err = None \<and> me_UpdateStatus menv = None then mem' else stored), map NodeCmd mcs, w)
                else case detectOrphanedShardStatefulSets (ce_ListSTS env) cluster of
                    Inl e \<Rightarrow> Inr ((NoRequeue, Some e), (mem, stored), [], w)
                  | Inr [] \<Rightarrow> reconcile_steady env ops name cluster (mem, stored) w
                  | Inr os \<Rightarrow>
                      (case reportShardScaleDown (ce_ScaleDownUpdate env) (ce_Steady env) cluster os (mem, stored) of
                         (r, sts) \<Rightarrow> Inr (r, sts, [], w)))"

section \<open>The marker of the wipe recovery\<close>

definition marker_is :: "time option \<Rightarrow> cluster_status \<Rightarrow> bool" where
  "marker_is u st \<longleftrightarrow> mt_Cluster st = Some None \<and> ct_WipeDeadlockSince st = u"

lemma with_cluster_marker [simp]: "marker_is u st \<Longrightarrow> with_cluster st = st"
  by (auto simp: marker_is_def with_cluster_def)

lemma marker_updates [simp]:
  "marker_is u (st\<lparr>mt_Phase := a\<rparr>) = marker_is u st" "marker_is u (st\<lparr>mt_Status := b\<rparr>) = marker_is u st"
  "marker_is u (st\<lparr>mt_NotReady := c\<rparr>) = marker_is u st" "marker_is u (st\<lparr>ct_State := d\<rparr>) = marker_is u st"
  "marker_is u (st\<lparr>ct_Nodes := e\<rparr>) = marker_is u st" "marker_is u (st\<lparr>ct_OrphanedReplicas := f\<rparr>) = marker_is u st"
  "marker_is u (st\<lparr>ct_RedisReady := g\<rparr>) = marker_is u st" "marker_is u (st\<lparr>ct_RedisTotal := h\<rparr>) = marker_is u st"
  "marker_is u (st\<lparr>ct_Ready := i\<rparr>) = marker_is u st" "marker_is u (st\<lparr>ct_Blocked := j\<rparr>) = marker_is u st"
  "marker_is u (st\<lparr>ct_Auth := k\<rparr>) = marker_is u st"
  by (simp_all add: marker_is_def)

abbreviation both_marked :: "time option \<Rightarrow> statuses \<Rightarrow> bool" where
  "both_marked u sts \<equiv> marker_is u (fst sts) \<and> marker_is u (snd sts)"

lemma report_auth_marker: "both_marked u sts \<Longrightarrow> both_marked u (fst (report_auth write gt sts))"
  by (auto simp: report_auth_def split: prod.splits option.splits)

lemma advance_rollout_marker: "both_marked u sts \<Longrightarrow> both_marked u (fst (advance_rollout renv gt sts))"
  by (auto simp: advance_rollout_def split: prod.splits)

lemma status_now_marker: "marker_is u st \<Longrightarrow> marker_is u (cluster_status_now name cluster gt ready tot st)"
  by (simp add: cluster_status_now_def Let_def)

lemma update_status_marker: "both_marked u sts \<Longrightarrow> both_marked u (snd (updateClusterStatus env name cluster gt sts))"
  by (cases sts) (simp add: updateClusterStatus_def Let_def status_now_marker split: sum.split prod.split)

lemma heal_marker:
  "both_marked u sts \<Longrightarrow> heal_partitions env cluster gt sts = Inr (nx, sts', cs) \<Longrightarrow> both_marked u sts'"
  by (auto simp: heal_partitions_def Let_def split: prod.splits sum.splits if_splits)

lemma repair_marker:
  assumes "both_marked u sts" "repairCluster env ops name cluster gt sts w = Inr (nx, sts', cs, w')"
  shows "both_marked u sts'"
proof -
  obtain ok cs0 where q: "quorum_recovery env gt (cs_Shards cluster) = (ok, cs0)" by fastforce
  show ?thesis
  proof (cases "\<not> ok \<and> HasPartitions gt")
    case True
    then obtain cs1 where "heal_partitions env cluster gt sts = Inr (nx, sts', cs1)"
      using assms(2) q by (auto simp: repairCluster_def split: sum.splits)
    with heal_marker [OF assms(1)] show ?thesis by blast
  next
    case False
    then have "sts' = sts"
      using assms(2) q by (cases ok) (auto simp: repairCluster_def split: if_splits prod.splits)
    with assms(1) show ?thesis by simp
  qed
qed

lemma reconcile_no_legacy:
  assumes "me_GetSTS (ce_Migration env) = Inl NotFound" "mt_Cluster st = Some None"
  shows "reconcileCluster env ops name cluster st w =
    (let mem = (if mt_Phase st = PhaseUnset then st\<lparr>mt_Phase := PhasePending\<rparr> else st)
     in case detectOrphanedShardStatefulSets (ce_ListSTS env) cluster of
          Inl e \<Rightarrow> Inr ((NoRequeue, Some e), (mem, st), [], w)
        | Inr [] \<Rightarrow> reconcile_steady env ops name cluster (mem, st) w
        | Inr os \<Rightarrow>
            (case reportShardScaleDown (ce_ScaleDownUpdate env) (ce_Steady env) cluster os (mem, st) of
               (r, sts) \<Rightarrow> Inr (r, sts, [], w)))"
  using assms
  by (simp add: reconcileCluster_def migrateLegacyCluster_def detectLegacyClusterStatefulSet_def Let_def
      migration_status.truncate_def)

lemma reconcile_ready_marker:
  assumes "both_marked u sts" "reconcile_ready env renv ops name cluster0 cluster sts w = Inr (r, sts', cs, w')"
  shows "both_marked u sts'"
proof -
  obtain gt where g: "gatherGroundTruth (ce_Gather env) name cluster0 = Inr gt"
    using assms(2) by (auto simp: reconcile_ready_def split: sum.splits)
  obtain sts1 cs1 where 1: "report_auth (ce_AuthWrite env) gt sts = (sts1, cs1)" by fastforce
  obtain sts2 cs2 where 2: "advance_rollout renv gt sts1 = (sts2, cs2)" by fastforce
  have m: "both_marked u sts2"
    using report_auth_marker [OF assms(1), of "ce_AuthWrite env" gt] advance_rollout_marker [of u sts1 renv gt] 1 2 by simp
  show ?thesis
  proof (cases "needs_repair gt (int32 (GetTotalNodes cluster)) (int32 (cs_Shards cluster))")
    case False
    then have "sts' = snd (updateClusterStatus (ce_Status env) name cluster0 gt sts2)"
      using assms(2) g 1 2 by (auto simp: reconcile_ready_def split: prod.splits)
    with update_status_marker [OF m] show ?thesis by simp
  next
    case True
    then obtain c where c: "cluster0 = Some c"
      using assms(2) g 1 2 by (auto simp: reconcile_ready_def split: option.splits)
    obtain nx sts3 cs3 w3 where rep: "repairCluster (ce_Repair env) ops name c gt sts2 w = Inr (nx, sts3, cs3, w3)"
      using True assms(2) g 1 2 c by (auto simp: reconcile_ready_def split: sum.splits)
    have m3: "both_marked u sts3" by (rule repair_marker [OF m rep])
    have "sts' = sts3 \<or> (\<exists>gt'. sts' = snd (updateClusterStatus (ce_Status env) name cluster0 gt' sts3))"
      using True assms(2) g 1 2 c rep
      by (cases nx) (auto simp: reconcile_ready_def split: sum.splits prod.splits, (metis snd_conv)+)
    with m3 update_status_marker [OF m3] show ?thesis by auto
  qed
qed

lemma ready_pass_marker:
  assumes "me_GetSTS (ce_Migration env) = Inl NotFound" "marker_is u st"
    "clusterShardStatefulSets (ce_ShardSTS env) (Some c) = Inr (byShard, ex, int32 (GetTotalNodes c), tot)"
    "reconcileCluster env ops name (Some c) st w = Inr (r, (mem, st'), cs, w')"
  shows "marker_is u st'"
proof -
  define mem0 where "mem0 = (if mt_Phase st = PhaseUnset then st\<lparr>mt_Phase := PhasePending\<rparr> else st)"
  have m0: "both_marked u (mem0, st)" using assms(2) by (simp add: mem0_def)
  have cl: "mt_Cluster st = Some None" using assms(2) by (simp add: marker_is_def)
  note R = assms(4) [unfolded reconcile_no_legacy [OF assms(1) cl] Let_def, folded mem0_def]
  show ?thesis
  proof (cases "detectOrphanedShardStatefulSets (ce_ListSTS env) (Some c)")
    case (Inl e)
    with R assms(2) show ?thesis by simp
  next
    case (Inr os)
    show ?thesis
    proof (cases os)
      case Nil
      obtain e cs0 where e: "ensureClusterResources env ((ce_Rollout env)\<lparr>rl_Name := name, rl_Cluster := Some c\<rparr>) = (e, cs0)"
        by fastforce
      have "st' = st \<or> (\<exists>cs1. reconcile_ready env ((ce_Rollout env)\<lparr>rl_Name := name, rl_Cluster := Some c\<rparr>) ops name (Some c) c
          (mem0, st) w = Inr (r, (mem, st'), cs1, w'))"
        using R Inr Nil e assms(3)
        by (cases e) (auto simp: reconcile_steady_def split: sum.splits if_splits)
      with reconcile_ready_marker [OF m0] assms(2) show ?thesis by fastforce
    next
      case (Cons o' os')
      with R Inr m0 assms(2) show ?thesis
        by (auto simp: reportShardScaleDown_def Let_def split: option.splits if_splits)
    qed
  qed
qed

lemma waiting_pass_deletes:
  assumes "me_GetSTS (ce_Migration env) = Inl NotFound" "marker_is (Some u) st" "ce_ListSTS env = Inr []"
    "fst (ensureClusterResources env ((ce_Rollout env)\<lparr>rl_Name := name, rl_Cluster := Some c\<rparr>)) = None"
    "clusterShardStatefulSets (ce_ShardSTS env) (Some c) = Inr (byShard, True, ready, tot)"
    "ready \<noteq> int32 (GetTotalNodes c)"
    "wenv = (ce_Wipe env)\<lparr>we_Name := name, we_Cluster := Some c\<rparr>" "one_redis wenv" "deadlock_seen wenv"
    "120 * second \<le> Sub (we_Now wenv) u"
  shows "\<exists>r sts p cs. reconcileCluster env ops name (Some c) st w = Inr (r, sts, cs, w) \<and> DeletePod p \<in> set cs"
proof -
  define mem0 where "mem0 = (if mt_Phase st = PhaseUnset then st\<lparr>mt_Phase := PhasePending\<rparr> else st)"
  have m0: "marker_is (Some u) mem0" using assms(2) by (simp add: mem0_def)
  have cl: "mt_Cluster st = Some None" using assms(2) by (simp add: marker_is_def)
  obtain cs0 where e: "ensureClusterResources env ((ce_Rollout env)\<lparr>rl_Name := name, rl_Cluster := Some c\<rparr>) = (None, cs0)"
    using assms(4) by (cases "ensureClusterResources env ((ce_Rollout env)\<lparr>rl_Name := name, rl_Cluster := Some c\<rparr>)") simp
  have R: "reconcileCluster env ops name (Some c) st w =
      (case wait_for_pods env wenv ready tot (mem0, st) of (r, sts, cs) \<Rightarrow> Inr (r, sts, cs0 @ cs, w))"
    using assms(3,5,6) e
    by (simp add: reconcile_no_legacy [OF assms(1) cl] reconcile_steady_def mem0_def detectOrphanedShardStatefulSets_def
        Let_def assms(7))
  obtain e' since ds where d: "recoverClusterWipeDeadlock wenv (Some u) = (e', since, ds)" using prod_cases3 by blast
  have "ds \<noteq> []"
    using d assms(9,10) unfolding recover_unfold [OF assms(8)]
    by (auto simp: Let_def deadlock_seen_iff clusterWipeRecoveryCooldown_def split: if_splits prod.splits option.splits)
       (metis recycle_pods_nil snd_conv)+
  then obtain p where p: "p \<in> set ds" by (cases ds) auto
  obtain r sts where "wait_for_pods env wenv ready tot (mem0, st) = (r, sts, map DeletePod ds)"
    using d m0 by (cases e'; cases "ce_WaitUpdate env") (auto simp: wait_for_pods_def Let_def marker_is_def)
  then show ?thesis using p unfolding R by auto
qed


definition ready_sts :: "int \<Rightarrow> shard_sts" where
  "ready_sts ready = \<lparr>sh_Hash = ''h'', sh_Generation = 1, sh_ObservedGeneration = 1, sh_UpdateRevision = ''r'',
     sh_CurrentRevision = ''r'', sh_Partition = None, sh_SpecReplicas = Some 1, sh_UpdatedReplicas = 1,
     sh_ReadyReplicas = ready, sh_Replicas = 1\<rparr>"

definition gather_example :: gather_env where
  "gather_example = \<lparr>ge_GetPodIP = (\<lambda>_. Inr ''10.0.0.1''), ge_GetID = (\<lambda>_ _. Inr ''A''),
     ge_GetRedis = (\<lambda>_ _. Inl (Errorf ''refused'')),
     ge_GetInfo = (\<lambda>_ _. Inr (empty_cluster_info\<lparr>ci_State := ''ok'', ci_SlotsAssigned := 16384\<rparr>)),
     ge_GetNodes = (\<lambda>_ _. Inr [\<lparr>ni_NodeID = ''A'', ni_Addr = [], ni_Hostname = [], ni_Flags = [''myself'', ''master''],
       ni_MasterID = ''-'', ni_PingSent = 0, ni_PongRecv = 0, ni_ConfigEpoch = 0, ni_LinkState = ''connected'',
       ni_Slots = [''0-16383'']\<rparr>])\<rparr>"

definition no_legacy_example :: migration_env where
  "no_legacy_example =
     \<lparr>me_GetSTS = Inl NotFound, me_Annotation = None, me_Cluster = None, me_ListPods = Inr [],
      me_GetID = (\<lambda>_ _. Inr []), me_GetRedis = (\<lambda>_ _. Inl (Errorf ''refused'')), me_GetInfo = (\<lambda>_ _. Inr empty_cluster_info),
      me_GetNodes = (\<lambda>_ _. Inr []), me_GetPod = (\<lambda>_. Inl NotFound), me_GetView = (\<lambda>_. Inr []), me_Ensure = None,
      me_Delete = (\<lambda>_. None), me_UpdateStatus = None, me_Now = 1, me_Fast = 2 * second, me_Steady = 30 * second\<rparr>"

definition cluster_env_example :: "int \<Rightarrow> time \<Rightarrow> cluster_env" where
  "cluster_env_example ready t =
     \<lparr>ce_Migration = no_legacy_example, ce_ListSTS = Inr [], ce_ScaleDownUpdate = None,
      ce_EnsureBefore = None,
      ce_Rollout = \<lparr>rl_Name = [], rl_Cluster = None, rl_DesiredHash = (\<lambda>_. ''h''), rl_Get = (\<lambda>_. Inr (ready_sts ready)),
        rl_GetUncached = (\<lambda>_. Inr (ready_sts ready)), rl_GetPod = (\<lambda>_. Inl NotFound), rl_Apply = (\<lambda>_. None),
        rl_GetLatest = None, rl_UpdateStatus = None, rl_Namespace = [], rl_Now = t\<rparr>,
      ce_EnsureAfter = None, ce_ShardSTS = (\<lambda>_. Inr (ready_sts ready)), ce_Wipe = wipe_env_example t,
      ce_WaitUpdate = None, ce_Gather = gather_example, ce_AuthWrite = None, ce_Repair = orphan_env t,
      ce_Boot = \<lparr>be_GetSTS = (\<lambda>_. Inr (ready_sts ready)), be_GetPod = (\<lambda>_. Inl NotFound), be_MyID = (\<lambda>_. Inr []),
        be_View = (\<lambda>_. Inr []), be_MasterView = (\<lambda>_. Inr []), be_ReplicaView = (\<lambda>_. Inr []), be_SkipSlots = False\<rparr>,
      ce_Regather = gather_example,
      ce_Status = \<lparr>te_GetSTS = (\<lambda>_. Inr (ready_sts ready)), te_Update = None, te_Fast = 2 * second, te_Steady = 30 * second\<rparr>,
      ce_Fast = 2 * second, ce_Steady = 30 * second\<rparr>"

definition one_pod :: ClusterSpec where
  "one_pod = empty_cluster_spec\<lparr>cs_Shards := 1\<rparr>"

lemma healthy_pass_example:
  "case reconcileCluster (cluster_env_example 1 (10 * second)) two_nodes ''c'' (Some one_pod)
      ((status_of [])\<lparr>ct_WipeDeadlockSince := Some 5\<rparr>) ([], []) of
     Inl _ \<Rightarrow> False
   | Inr ((r, e), (mem, st), cs, w) \<Rightarrow> r = RequeueAfter (30 * second) \<and> w = ([], []) \<and> mt_Phase st = PhaseRunning"
  by code_simp


section \<open>Tracked orphans after a partition\<close>

text \<open>
  A pass over a healthy cluster leaves the tracked orphans as they are, and a later orphan of the same
  pod is measured from the old time: when that is past the timeout, its promotion is forced at once.
\<close>

lemma status_now_orphans:
  "mt_Cluster st \<noteq> None \<Longrightarrow> ct_OrphanedReplicas (cluster_status_now name cluster gt ready tot st) = ct_OrphanedReplicas st"
  by (auto simp: cluster_status_now_def with_cluster_def Let_def)

lemma update_status_orphans:
  assumes "mt_Cluster st \<noteq> None"
  shows "ct_OrphanedReplicas (snd (snd (updateClusterStatus env name cluster gt (st, st)))) = ct_OrphanedReplicas st"
  using status_now_orphans [OF assms]
  by (simp add: updateClusterStatus_def Let_def split: sum.split prod.split)

lemma orphan_fold_commands:
  "set cs \<subseteq> set (snd (snd (fold (orphan_node env gt existing timeout) ns (cur, pr, cs))))"
proof (induction ns arbitrary: cur pr cs)
  case (Cons n ns)
  obtain cur1 pr1 cs1 where s: "orphan_node env gt existing timeout n (cur, pr, cs) = (cur1, pr1, cs1)"
    using prod_cases3 by blast
  have "set cs \<subseteq> set cs1" using s by (auto simp: orphan_node_def Let_def split: if_splits)
  with Cons.IH [of cs1 cur1 pr1] s show ?case by auto
qed simp

lemma stale_orphan_promoted:
  assumes "HasPartitions gt" "half (cs_Shards cluster) < CountMasters gt"
    "existing_orphans mem (cn_PodName n) = Some o'" "orphan_timeout cluster \<le> Sub (rv_Now env) (oi_DetectedAt o')"
    "n \<in> set (cluster_nodes gt)" "lost_master gt n" "cn_MasterNodeID n \<in> set (GhostNodes gt)"
    "repairCluster env ops name cluster gt (mem, stored) w = Inr (nx, sts, cs, w')"
  shows "takeover n \<in> set cs"
proof -
  obtain cur pr cs2 where f: "fold (orphan_node env gt (existing_orphans mem) (orphan_timeout cluster))
      (cluster_nodes gt) ([], False, []) = (cur, pr, cs2)" using prod_cases3 by blast
  obtain as bs where ns: "cluster_nodes gt = as @ n # bs" using assms(5) by (metis split_list)
  obtain c1 p1 s1 where a: "fold (orphan_node env gt (existing_orphans mem) (orphan_timeout cluster)) as ([], False, []) = (c1, p1, s1)"
    using prod_cases3 by blast
  have "orphan_node env gt (existing_orphans mem) (orphan_timeout cluster) n (c1, p1, s1) =
      (c1, p1 \<or> rv_OrphanTakeover env (addrOf (cn_PodIP n)) = None, s1 @ [takeover n])"
    using assms(3,4,6,7) by (simp add: orphan_node_def)
  with f a have "takeover n \<in> set cs2"
    using orphan_fold_commands [of "s1 @ [takeover n]" env gt "existing_orphans mem" "orphan_timeout cluster" bs c1
        "p1 \<or> rv_OrphanTakeover env (addrOf (cn_PodIP n)) = None"]
    unfolding ns by auto
  moreover have "set cs2 \<subseteq> set cs"
    using assms(1,2,8) f
    by (auto simp: repairCluster_def quorum_recovery_def heal_partitions_def Let_def split: if_splits sum.splits)
  ultimately show ?thesis by blast
qed

section \<open>What a bootstrap does\<close>

definition assigned :: "cluster_cmd list \<Rightarrow> (string \<times> int list) list" where
  "assigned cs = List.map_filter (\<lambda>c. case c of ClusterAddSlots a slots \<Rightarrow> Some (a, slots) | _ \<Rightarrow> None) cs"

text \<open>A pod object, read uncached, that is not going away and belongs to its StatefulSet.\<close>

definition boot_current :: "boot_env \<Rightarrow> (int \<rightharpoonup> shard_sts) \<Rightarrow> ClusterPodRef \<Rightarrow> string \<Rightarrow> bool" where
  "boot_current env shardSTSs ref ip \<longleftrightarrow>
     (case be_GetPod env (cp_Name ref) of
        Inl _ \<Rightarrow> False
      | Inr pod \<Rightarrow> bp_PodIP pod = ip \<and> ip \<noteq> [] \<and> \<not> bp_Terminating pod \<and>
          podAtOwnStatefulSetRevision (Some pod) (shardSTSs (cp_ShardIdx ref)))"

lemma boot_pods_facts:
  assumes "boot_pods env stss refs facts0 = Inr facts" "distinct (map cp_Name refs)"
  shows "list_all (\<lambda>ref. boot_current env stss ref (fact_ip facts (cp_Name ref)) \<and>
      be_MyID env (addrOf (fact_ip facts (cp_Name ref))) = Inr (fact_id facts (cp_Name ref))) refs \<and>
    (\<forall>p. p \<notin> set (map cp_Name refs) \<longrightarrow> facts p = facts0 p)"
  using assms
proof (induction refs arbitrary: facts0)
  case (Cons ref refs)
  then obtain pod where g: "be_GetPod env (cp_Name ref) = Inr pod"
    by (auto split: sum.splits api_error.splits)
  have ok: "\<not> bp_Terminating pod" "bp_PodIP pod \<noteq> []" "podAtOwnStatefulSetRevision (Some pod) (stss (cp_ShardIdx ref))"
    using Cons.prems(1) g by (auto split: if_splits)
  obtain i where i: "be_MyID env (addrOf (bp_PodIP pod)) = Inr i"
    using Cons.prems(1) g ok by (auto simp: Let_def split: sum.splits)
  obtain cand where r: "boot_pods env stss refs (facts0(cp_Name ref \<mapsto> (bp_PodIP pod, i, cand))) = Inr facts"
    using Cons.prems(1) g ok i by (auto simp: Let_def)
  have d: "distinct (map cp_Name refs)" "cp_Name ref \<notin> set (map cp_Name refs)" using Cons.prems(2) by auto
  note IH = Cons.IH [OF r d(1)]
  then have "facts (cp_Name ref) = Some (bp_PodIP pod, i, cand)" using d(2) by auto
  with IH g ok i show ?case by (auto simp: boot_current_def fact_ip_def fact_id_def)
qed simp

lemma assigned_append [simp]: "assigned (xs @ ys) = assigned xs @ assigned ys"
  by (simp add: assigned_def map_filter_def)

lemma assigned_meets: "bootstrapMeetRound name refs facts = Some cs \<Longrightarrow> assigned cs = []"
  by (auto simp: bootstrapMeetRound_def Let_def assigned_def map_filter_def filter_empty_conv split: if_splits)

lemma assigned_replicas: "assigned (boot_replicas env name refs facts) = []"
  by (auto simp: boot_replicas_def Let_def assigned_def map_filter_def filter_empty_conv split: if_splits)

definition fresh_masters :: "boot_env \<Rightarrow> bool" where
  "fresh_masters env \<longleftrightarrow> (\<forall>a ns. be_MasterView env a = Inr ns \<longrightarrow> list_all (\<lambda>n. ni_Slots n = []) ns)"

lemma assigned_slots:
  assumes "0 < shards" "shards \<le> 16384" "fresh_masters env"
  shows "assigned (boot_slots env name shards facts) =
    map (\<lambda>k. (addrOf (fact_ip facts (shardMasterPodName name k)), slots_of (GenerateSlotRanges shards ! nat k))) [0..shards - 1]"
proof -
  have h: "\<not> (case be_MasterView env a of Inl _ \<Rightarrow> False
      | Inr nodes \<Rightarrow> list_ex (\<lambda>n. ni_NodeID n = i \<and> length (ni_Slots n) > 0) nodes)" for a i
  proof (cases "be_MasterView env a")
    case (Inr ns)
    with assms(3) have "list_all (\<lambda>n. ni_Slots n = []) ns" by (simp add: fresh_masters_def)
    with Inr show ?thesis by (auto simp: list_all_iff list_ex_iff)
  qed simp
  have "boot_slots env name shards facts = map (\<lambda>k. ClusterAddSlots (addrOf (fact_ip facts (shardMasterPodName name k)))
      (slots_of (GenerateSlotRanges shards ! nat k))) [0..shards - 1]"
    unfolding boot_slots_def Let_def map_filter_def using h range_slots [OF assms(1,2)]
    by (auto intro!: map_cong filter_True)
  then show ?thesis by (simp add: assigned_def map_filter_def o_def)
qed

lemma upto_nat: "0 \<le> n \<Longrightarrow> map nat [0..n - 1] = [0..<nat n]"
  by (rule nth_equalityI) auto

lemma boot_slots_cover:
  assumes "0 < shards"
  shows "concat (map (\<lambda>k. slots_of (GenerateSlotRanges shards ! nat k)) [0..shards - 1]) = [0..16383]"
proof -
  have "map (\<lambda>k. slots_of (GenerateSlotRanges shards ! nat k)) [0..shards - 1] =
      map slots_of (map ((!) (GenerateSlotRanges shards)) (map nat [0..shards - 1]))" by simp
  also have "map ((!) (GenerateSlotRanges shards)) (map nat [0..shards - 1]) = GenerateSlotRanges shards"
    using assms by (simp add: upto_nat map_nth GenerateSlotRanges_length [symmetric] del: map_map)
  finally show ?thesis using ranges_cover [OF assms] by simp
qed

lemma boot_replicas_complete:
  assumes "ref \<in> set refs" "\<not> cp_IsMaster ref"
  shows "NodeCmd (ClusterReplicate (addrOf (fact_ip facts (cp_Name ref)))
      (fact_id facts (shardMasterPodName name (cp_ShardIdx ref)))) \<in> set (boot_replicas env name refs facts) \<or>
    (\<exists>ns. be_ReplicaView env (addrOf (fact_ip facts (cp_Name ref))) = Inr ns \<and>
      list_ex (\<lambda>n. ni_NodeID n = fact_id facts (cp_Name ref) \<and>
        ni_MasterID n = fact_id facts (shardMasterPodName name (cp_ShardIdx ref))) ns)"
proof (cases "case be_ReplicaView env (addrOf (fact_ip facts (cp_Name ref))) of
      Inl _ \<Rightarrow> False
    | Inr nodes \<Rightarrow> list_ex (\<lambda>n. ni_NodeID n = fact_id facts (cp_Name ref) \<and>
        ni_MasterID n = fact_id facts (shardMasterPodName name (cp_ShardIdx ref))) nodes")
  case True
  then show ?thesis by (auto split: sum.splits)
next
  case False
  with assms show ?thesis
    unfolding boot_replicas_def Let_def map_filter_def by (auto simp: image_iff intro!: bexI [of _ ref])
qed

definition pods_ready_to_boot :: "boot_env \<Rightarrow> ClusterSpec \<Rightarrow> ClusterPodRef list \<Rightarrow> (string \<Rightarrow> string) \<Rightarrow> (string \<Rightarrow> string) \<Rightarrow> bool" where
  "pods_ready_to_boot env c refs ip nid \<longleftrightarrow>
     (case clusterShardStatefulSets (be_GetSTS env) (Some c) of
        Inl _ \<Rightarrow> False
      | Inr (stss, _, _, _) \<Rightarrow>
          list_all (\<lambda>ref. boot_current env stss ref (ip (cp_Name ref)) \<and>
            be_MyID env (addrOf (ip (cp_Name ref))) = Inr (nid (cp_Name ref))) refs)"


text \<open>An example: one shard with one replica, both pods fresh.\<close>

definition boot_example :: boot_env where
  "boot_example = \<lparr>be_GetSTS = (\<lambda>_. Inr (ready_sts 2)),
     be_GetPod = (\<lambda>p. Inr \<lparr>bp_PodIP = p, bp_Terminating = False, bp_Revision = ''r''\<rparr>),
     be_MyID = (\<lambda>a. Inr a), be_View = (\<lambda>_. Inr []), be_MasterView = (\<lambda>_. Inr []), be_ReplicaView = (\<lambda>_. Inr []),
     be_SkipSlots = False\<rparr>"

definition two_pods :: ClusterSpec where
  "two_pods = empty_cluster_spec\<lparr>cs_Shards := 1, cs_ReplicasPerShard := Some 1\<rparr>"

lemma boot_example_runs:
  "\<exists>cs. bootstrapCluster boot_example ''c'' (Some two_pods) = Inr cs"
  by (simp add: bootstrapCluster_def boot_example_def two_pods_def empty_cluster_spec_def clusterShardStatefulSets_def
      clusterShardCount_def ClusterPodRefs_def clusterReplicasPerShard_def clusterShardPodName_def shardMasterPodName_def
      Itoa_def nat_digits.simps upto_rec1 ready_sts_def int32_def podAtOwnStatefulSetRevision_def Let_def
      MeetCandidateFromNodes_def bootstrapMeetRound_def AttributeMeetTarget_def fact_cand_def fact_ip_def addrOf_def
      AdmissibleWhenConfirmed_def Allowed_def)


section \<open>A pass returns\<close>

lemma heal_returns:
  "PlanPartitionMeets gt = Inr plan \<Longrightarrow> \<exists>r. heal_partitions env cluster gt sts = Inr r"
  by (simp add: heal_partitions_def Let_def split: prod.split)

lemma repair_returns:
  assumes "PlanPartitionMeets gt = Inr plan"
  shows "\<exists>r. repairCluster env ops name cluster gt sts w = Inr r"
proof -
  obtain r where "heal_partitions env cluster gt sts = Inr r" using heal_returns [OF assms] by blast
  then show ?thesis by (simp add: repairCluster_def split: prod.split bool.split)
qed

lemma gather_returns:
  "\<exists>gt plan. gatherGroundTruth env name (Some c) = Inr gt \<and> PlanPartitionMeets gt = Inr plan"
  using gathered_meets_return by (simp add: gatherGroundTruth_def)

lemma reconcile_ready_returns: "\<exists>r. reconcile_ready env renv ops name (Some c) c sts w = Inr r"
proof -
  obtain gt plan where g: "gatherGroundTruth (ce_Gather env) name (Some c) = Inr gt" "PlanPartitionMeets gt = Inr plan"
    using gather_returns by blast
  obtain gt' where g': "gatherGroundTruth (ce_Regather env) name (Some c) = Inr gt'" using gather_returns by blast
  obtain sts1 cs1 where 1: "report_auth (ce_AuthWrite env) gt sts = (sts1, cs1)" by fastforce
  obtain sts2 cs2 where 2: "advance_rollout renv gt sts1 = (sts2, cs2)" by fastforce
  obtain nx sts3 cs3 w3 where 3: "repairCluster (ce_Repair env) ops name c gt sts2 w = Inr (nx, sts3, cs3, w3)"
    using repair_returns [OF g(2)] by (metis prod_cases4)
  show ?thesis
    by (cases nx; cases "bootstrapCluster (ce_Boot env) name (Some c)")
      (auto simp: reconcile_ready_def g g' 1 2 3 split: prod.split)
qed

lemma reconcile_steady_returns: "\<exists>r. reconcile_steady env ops name (Some c) sts w = Inr r"
proof -
  obtain r where "reconcile_ready env ((ce_Rollout env)\<lparr>rl_Name := name, rl_Cluster := Some c\<rparr>) ops name (Some c) c sts w = Inr r"
    using reconcile_ready_returns [of env "(ce_Rollout env)\<lparr>rl_Name := name, rl_Cluster := Some c\<rparr>" ops name c sts w] by blast
  then show ?thesis by (simp add: reconcile_steady_def Let_def split: prod.split option.split sum.split)
qed

text \<open>
  Go's \<open>make\<close> panics on a negative size. The counts of the specification become sizes in
  \<open>ClusterPodRefs\<close> and \<open>repairCluster\<close>; the schema of the resource (minimum 3 shards, minimum 0
  replicas) keeps them out of that range, and the definitions here are read within it.
\<close>

definition allocatable :: "ClusterSpec \<Rightarrow> bool" where
  "allocatable c \<longleftrightarrow> 0 \<le> cs_Shards c \<and> 0 \<le> clusterReplicasPerShard (Some c)"



end
