(* ===== verification/Forsaken.thy ===== *)
theory Forsaken
  imports Recovery Cooldown
begin

text \<open>
  The capture of a Sentinel-mode instance by another Sentinel deployment that shares its master name:
  the verdict (\<open>internal/controller/forsaken_plan.go\<close>), the quarantine that answers it
  (\<open>internal/controller/quarantine_plan.go\<close>) and the functions of \<open>littlered_controller.go\<close> that persist
  both (\<open>setForsaken\<close>, \<open>clearForsaken\<close>) and turn an armed quarantine into replica counts
  (\<open>sentinelDesiredReplicas\<close>).

  A condition is its status and its reason; the messages are not modelled. A write of the status goes
  to the object that was read again (\<open>latest\<close>, here the stored status) and is mirrored to the object
  in memory; it can fail at the read, which leaves both as they are, or at the write, which leaves the
  fields that were already mirrored.
\<close>

section \<open>The verdict\<close>

definition forsakenCooldown :: duration where
  "forsakenCooldown = 30 * second"

definition sentinelProcessReplicas :: int where
  "sentinelProcessReplicas = 3"

definition SentinelRedisReplicas :: int where
  "SentinelRedisReplicas = 3"

definition forsakenMonitoringFloor :: int where
  "forsakenMonitoringFloor = sentinelProcessReplicas div 2 + 1"

record forsakenPlan =
  fp_Captured :: bool
  fp_Forsaken :: bool
  fp_ForeignMaster :: string

definition no_verdict :: forsakenPlan where
  "no_verdict = \<lparr>fp_Captured = False, fp_Forsaken = False, fp_ForeignMaster = []\<rparr>"

definition monitoredAddresses :: "SentinelNodeState \<Rightarrow> MonitoredMaster list" where
  "monitoredAddresses sn =
     (if sn_Monitoring sn
      then [\<lparr>mm_Name = [], mm_IP = sn_MasterIP sn, mm_Flags = sn_MasterFlags sn, mm_FailoverState = []\<rparr>]
      else []) @ sn_MonitoredMasters sn"

text \<open>
  The two nested loops: the address that all observations so far agree on (empty before the first),
  and the number of the Sentinels that monitor something. \<open>None\<close> is the return without a verdict.
\<close>

fun observe_addresses :: "ReplicationState \<Rightarrow> MonitoredMaster list \<Rightarrow> string \<Rightarrow> string option" where
  "observe_addresses state [] foreign = Some foreign"
| "observe_addresses state (m # ms) foreign =
     (if mm_IP m = [] then None
      else if foreign \<noteq> [] \<and> foreign \<noteq> mm_IP m then None
      else if IsOurs state (mm_IP m) \<or> flaggedDown (mm_Flags m) then None
      else observe_addresses state ms (mm_IP m))"

fun observe_sentinels ::
    "ReplicationState \<Rightarrow> SentinelNodeState list \<Rightarrow> string \<Rightarrow> int \<Rightarrow> (string \<times> int) option" where
  "observe_sentinels state [] foreign monitoring = Some (foreign, monitoring)"
| "observe_sentinels state (sn # sns) foreign monitoring =
     (if \<not> sn_Reachable sn \<or> monitoredAddresses sn = [] then observe_sentinels state sns foreign monitoring
      else case observe_addresses state (monitoredAddresses sn) foreign of
             None \<Rightarrow> None
           | Some foreign' \<Rightarrow> observe_sentinels state sns foreign' (monitoring + 1))"

definition forsakenSignature :: "ReplicationState \<Rightarrow> bool \<times> string" where
  "forsakenSignature state =
     (case observe_sentinels state (sentinel_nodes state) [] 0 of
        None \<Rightarrow> (False, [])
      | Some (foreign, monitoring) \<Rightarrow>
          if monitoring < forsakenMonitoringFloor then (False, [])
          else if list_ex (\<lambda>rn. rn_Reachable rn \<and> rn_Role rn = roleMaster) (redis_nodes state) then (False, [])
          else (True, foreign))"

definition planForsaken :: "ReplicationState \<Rightarrow> time option \<Rightarrow> time \<Rightarrow> bool \<Rightarrow> forsakenPlan" where
  "planForsaken state since now rolling =
     (if rolling \<and> \<not> time_set since then no_verdict
      else if \<not> fst (forsakenSignature state) then no_verdict
      else \<lparr>fp_Captured = True,
             fp_Forsaken = (case since of
                None \<Rightarrow> False | Some t \<Rightarrow> t \<noteq> 0 \<and> forsakenCooldown \<le> Sub now t),
             fp_ForeignMaster = snd (forsakenSignature state)\<rparr>)"

section \<open>The quarantine\<close>

datatype quarantinePhase =
    quarantineNone
  | quarantineHoldSuspected
  | quarantineHoldDataPresent
  | quarantineHoldDataUnknown
  | quarantineStart
  | quarantineSettling
  | quarantineRelease
  | quarantineLatched

definition quarantineSettlePeriod :: duration where
  "quarantineSettlePeriod = 120 * second"

definition quarantineAttemptLimit :: int where
  "quarantineAttemptLimit = 2"

definition quarantineAttemptLimitDangerous :: int where
  "quarantineAttemptLimitDangerous = 1"

record quarantineInput =
  qi_Captured :: bool
  qi_Forsaken :: bool
  qi_DataAtRisk :: bool
  qi_DataUnverified :: bool
  qi_QuarantinedSince :: "time option"
  qi_Attempts :: int
  qi_Dangerous :: bool
  qi_Now :: time

record quarantinePlan =
  qp_Phase :: quarantinePhase
  qp_ScaleToZero :: bool
  qp_Arm :: bool
  qp_Clear :: bool
  qp_NextAttempts :: int
  qp_AttemptLimit :: int

text \<open>The second switch: no quarantine is armed.\<close>

definition plan_unarmed :: "quarantineInput \<Rightarrow> quarantinePlan \<Rightarrow> quarantinePlan" where
  "plan_unarmed inp p =
     (if \<not> qi_Captured inp then p\<lparr>qp_Phase := quarantineNone\<rparr>
      else if qi_DataAtRisk inp then p\<lparr>qp_Phase := quarantineHoldDataPresent\<rparr>
      else if qi_DataUnverified inp then p\<lparr>qp_Phase := quarantineHoldDataUnknown\<rparr>
      else if \<not> qi_Forsaken inp then p\<lparr>qp_Phase := quarantineHoldSuspected\<rparr>
      else p\<lparr>qp_Phase := quarantineStart, qp_ScaleToZero := True, qp_Arm := True,
             qp_NextAttempts := qi_Attempts inp + 1\<rparr>)"

definition planQuarantine :: "quarantineInput \<Rightarrow> quarantinePlan" where
  "planQuarantine inp =
     (let limit = (if qi_Dangerous inp then quarantineAttemptLimitDangerous else quarantineAttemptLimit);
          p = \<lparr>qp_Phase = quarantineNone, qp_ScaleToZero = False, qp_Arm = False, qp_Clear = False,
               qp_NextAttempts = qi_Attempts inp, qp_AttemptLimit = limit\<rparr>
      in if time_set (qi_QuarantinedSince inp)
         then if qi_Attempts inp \<ge> limit then p\<lparr>qp_Phase := quarantineLatched, qp_ScaleToZero := True\<rparr>
              else if Sub (qi_Now inp) (the (qi_QuarantinedSince inp)) < quarantineSettlePeriod
              then p\<lparr>qp_Phase := quarantineSettling, qp_ScaleToZero := True\<rparr>
              else p\<lparr>qp_Phase := quarantineRelease, qp_Clear := True\<rparr>
         else plan_unarmed inp p)"

text \<open>
  \<open>quarantineDataRisk\<close>: whether some pod holds keys that are not the captor's, and whether some pod
  cannot be shown to be empty. The readiness is that of the kubelet, by pod name.
\<close>

definition captors_copy :: "string \<Rightarrow> RedisNodeState \<Rightarrow> bool" where
  "captors_copy foreignMaster rn \<longleftrightarrow>
     foreignMaster \<noteq> [] \<and> rn_MasterHost rn = foreignMaster \<and> rn_LinkStatus rn = ''up''"

definition quarantineDataRisk ::
    "ReplicationState option \<Rightarrow> string \<Rightarrow> (string \<rightharpoonup> bool) \<Rightarrow> bool \<times> bool" where
  "quarantineDataRisk state foreignMaster redisReady =
     (case state of
        None \<Rightarrow> (False, True)
      | Some s \<Rightarrow>
          (list_ex (\<lambda>rn. rn_Reachable rn \<and> rn_Keys rn > 0 \<and> \<not> captors_copy foreignMaster rn) (redis_nodes s),
           list_ex (\<lambda>rn. \<not> rn_Reachable rn \<and>
             (UnprovablyEmpty rn \<or> redisReady (rn_PodName rn) \<noteq> Some False)) (redis_nodes s)))"

definition quarantineReason :: "quarantinePhase \<Rightarrow> string" where
  "quarantineReason p =
     (case p of
        quarantineStart \<Rightarrow> ''Quarantined''
      | quarantineSettling \<Rightarrow> ''Quarantined''
      | quarantineLatched \<Rightarrow> ''QuarantineLatched''
      | quarantineHoldDataPresent \<Rightarrow> ''QuarantineRefusedDataPresent''
      | quarantineHoldDataUnknown \<Rightarrow> ''QuarantineRefusedDataUnknown''
      | _ \<Rightarrow> ''Captured'')"

section \<open>What is persisted\<close>

record capture_status =
  fs_Phase :: LittleRedPhase
  fs_ForsakenSince :: "time option"
  fs_QuarantinedSince :: "time option"
  fs_QuarantineAttempts :: int
  fs_Forsaken :: "(bool \<times> string) option"

datatype status_write = Written | ReadFailed go_error | WriteFailed go_error

text \<open>
  The statuses are the one in memory and the stored one. The result has the error, the statuses and
  the reasons of the events.
\<close>

definition setForsaken ::
    "status_write \<Rightarrow> time \<Rightarrow> bool \<Rightarrow> quarantinePlan \<Rightarrow> ('a capture_status_scheme \<times> 'a capture_status_scheme) \<Rightarrow>
     go_error option \<times> ('a capture_status_scheme \<times> 'a capture_status_scheme) \<times> string list" where
  "setForsaken out t forsaken q sts =
     (case sts of (mem, stored) \<Rightarrow>
      let status = (qp_ScaleToZero q \<or> forsaken);
          reason = (if status then quarantineReason (qp_Phase q) else ''CaptureSuspected'');
          changed = (case fs_Forsaken mem of None \<Rightarrow> True | Some (_, r) \<Rightarrow> r \<noteq> reason);
          stamp = (\<lambda>st. st\<lparr>fs_ForsakenSince := (if fs_ForsakenSince stored = None then Some t else fs_ForsakenSince st)\<rparr>);
          arm = (\<lambda>st. if qp_Arm q
                  then st\<lparr>fs_QuarantinedSince := Some t, fs_QuarantineAttempts := qp_NextAttempts q\<rparr> else st);
          latest = (arm (stamp stored))\<lparr>fs_Forsaken := Some (status, reason)\<rparr>
      in case out of
           ReadFailed e \<Rightarrow> (Some e, sts, [])
         | WriteFailed e \<Rightarrow> (Some e, (arm (stamp mem), stored), [])
         | Written \<Rightarrow>
             (None, ((arm (stamp mem))\<lparr>fs_Forsaken := fs_Forsaken latest\<rparr>, latest),
              if changed \<and> status then [reason] else []))"

definition clearForsaken ::
    "status_write \<Rightarrow> quarantinePlan \<Rightarrow> ('a capture_status_scheme \<times> 'a capture_status_scheme) \<Rightarrow>
     go_error option \<times> ('a capture_status_scheme \<times> 'a capture_status_scheme)" where
  "clearForsaken out q sts =
     (case sts of (mem, stored) \<Rightarrow>
      let clearAttempts = (fs_Phase mem = PhaseRunning \<and> fs_QuarantineAttempts mem \<noteq> 0)
      in if fs_ForsakenSince mem = None \<and> \<not> qp_Clear q \<and> \<not> clearAttempts \<and> fs_Forsaken mem = None then (None, sts)
         else
           let release = (\<lambda>st. if qp_Clear q then st\<lparr>fs_QuarantinedSince := None\<rparr> else st);
               reset = (\<lambda>st. if clearAttempts
                         then st\<lparr>fs_QuarantinedSince := None, fs_QuarantineAttempts := 0\<rparr> else st);
               drop = (\<lambda>st. reset (release (st\<lparr>fs_ForsakenSince := None\<rparr>)));
               latest = (drop stored)\<lparr>fs_Forsaken := Some (False, ''NotCaptured'')\<rparr>
           in case out of
                ReadFailed e \<Rightarrow> (Some e, sts)
              | WriteFailed e \<Rightarrow> (Some e, (drop mem, stored))
              | Written \<Rightarrow> (None, ((drop mem)\<lparr>fs_Forsaken := fs_Forsaken latest\<rparr>, latest)))"

section \<open>The instance\<close>

definition LegacySentinelMasterName :: string where
  "LegacySentinelMasterName = ''mymaster''"

definition SentinelMasterName :: "string option \<Rightarrow> string" where
  "SentinelMasterName name =
     (case name of None \<Rightarrow> LegacySentinelMasterName | Some n \<Rightarrow> if n \<noteq> [] then n else LegacySentinelMasterName)"

definition SentinelMasterNameUnscoped :: "string option \<Rightarrow> bool" where
  "SentinelMasterNameUnscoped name \<longleftrightarrow> name = None \<or> name = Some []"

text \<open>The arguments are \<open>spec.auth.enabled\<close> and, where there is a \<open>spec.sentinel\<close>, its master name.\<close>

definition quarantineConfigDangerous :: "bool \<Rightarrow> string option \<Rightarrow> bool" where
  "quarantineConfigDangerous authEnabled name \<longleftrightarrow>
     \<not> authEnabled \<and> SentinelMasterName name = LegacySentinelMasterName"

definition pregather_input :: "bool \<Rightarrow> 'a capture_status_scheme \<Rightarrow> time \<Rightarrow> quarantineInput" where
  "pregather_input dangerous st now =
     \<lparr>qi_Captured = False, qi_Forsaken = False, qi_DataAtRisk = False, qi_DataUnverified = False,
      qi_QuarantinedSince = fs_QuarantinedSince st, qi_Attempts = fs_QuarantineAttempts st,
      qi_Dangerous = dangerous, qi_Now = now\<rparr>"

definition sentinelDesiredReplicas :: "bool \<Rightarrow> bool \<Rightarrow> 'a capture_status_scheme \<Rightarrow> time \<Rightarrow> int \<times> int" where
  "sentinelDesiredReplicas modeSentinel dangerous st now =
     (if \<not> modeSentinel then (SentinelRedisReplicas, sentinelProcessReplicas)
      else if qp_ScaleToZero (planQuarantine (pregather_input dangerous st now)) then (0, 0)
      else (SentinelRedisReplicas, sentinelProcessReplicas))"

section \<open>The pass\<close>

text \<open>
  Steps 2b to 2d of \<open>reconcileSentinelCluster\<close>, after the gather. The observation is the gathered state,
  the kubelet's readiness, whether the Redis StatefulSet rolls, the clock of the pass and the outcome of
  the write.
\<close>

record capture_obs =
  co_State :: ReplicationState
  co_Ready :: "string \<rightharpoonup> bool"
  co_Rolling :: bool
  co_Dangerous :: bool
  co_Now :: time
  co_SetTime :: time
  co_Write :: status_write

definition capture_plan :: "capture_obs \<Rightarrow> 'a capture_status_scheme \<Rightarrow> forsakenPlan \<times> quarantinePlan" where
  "capture_plan ob st =
     (let f = planForsaken (co_State ob) (fs_ForsakenSince st) (co_Now ob) (co_Rolling ob);
          risk = quarantineDataRisk (Some (co_State ob)) (fp_ForeignMaster f) (co_Ready ob)
      in (f, planQuarantine
           \<lparr>qi_Captured = fp_Captured f, qi_Forsaken = fp_Forsaken f, qi_DataAtRisk = fst risk,
            qi_DataUnverified = snd risk, qi_QuarantinedSince = fs_QuarantinedSince st,
            qi_Attempts = fs_QuarantineAttempts st, qi_Dangerous = co_Dangerous ob, qi_Now = co_Now ob\<rparr>))"

datatype capture_next = HaltQuarantined | HaltForsaken | Proceed

definition capture_step ::
    "capture_obs \<Rightarrow> ('a capture_status_scheme \<times> 'a capture_status_scheme) \<Rightarrow>
     capture_next \<times> ('a capture_status_scheme \<times> 'a capture_status_scheme) \<times> string list" where
  "capture_step ob sts =
     (case capture_plan ob (fst sts) of (f, q) \<Rightarrow>
        if qp_ScaleToZero q
        then (case setForsaken (co_Write ob) (co_SetTime ob) True q sts of
            (_, sts', evs) \<Rightarrow> (HaltQuarantined, sts', evs))
        else if fp_Captured f
        then (case setForsaken (co_Write ob) (co_SetTime ob) (fp_Forsaken f) q sts of
            (_, sts', evs) \<Rightarrow> (if fp_Forsaken f then HaltForsaken else Proceed, sts', evs))
        else (case clearForsaken (co_Write ob) q sts of (_, sts') \<Rightarrow> (Proceed, sts', [])))"

section \<open>The verdict on a gathered state\<close>

definition observations :: "ReplicationState \<Rightarrow> MonitoredMaster list" where
  "observations s = concat (map monitoredAddresses (filter sn_Reachable (sentinel_nodes s)))"

definition speaking :: "ReplicationState \<Rightarrow> SentinelNodeState list" where
  "speaking s = filter (\<lambda>sn. sn_Reachable sn \<and> monitoredAddresses sn \<noteq> []) (sentinel_nodes s)"

text \<open>The four clauses of the signature, for one address.\<close>

definition captured_by :: "ReplicationState \<Rightarrow> string \<Rightarrow> bool" where
  "captured_by s f \<longleftrightarrow> f \<noteq> [] \<and> \<not> IsOurs s f \<and>
     list_all (\<lambda>m. mm_IP m = f \<and> \<not> flaggedDown (mm_Flags m)) (observations s) \<and>
     2 \<le> length (speaking s) \<and>
     \<not> list_ex (\<lambda>rn. rn_Reachable rn \<and> rn_Role rn = roleMaster) (redis_nodes s)"

definition agrees :: "ReplicationState \<Rightarrow> string \<Rightarrow> MonitoredMaster list \<Rightarrow> bool" where
  "agrees s g ms \<longleftrightarrow> g \<noteq> [] \<and> \<not> IsOurs s g \<and> list_all (\<lambda>m. mm_IP m = g \<and> \<not> flaggedDown (mm_Flags m)) ms"

lemma agrees_append [simp]: "agrees s g (xs @ ys) \<longleftrightarrow> agrees s g xs \<and> agrees s g ys"
  by (auto simp: agrees_def)

lemma agrees_nonempty: "agrees s g ms \<Longrightarrow> g \<noteq> []"
  by (simp add: agrees_def)

lemma observe_addresses_iff:
  "observe_addresses s ms foreign = Some g \<longleftrightarrow>
     (if ms = [] then g = foreign else (foreign = [] \<or> foreign = g) \<and> agrees s g ms)"
proof (induction ms arbitrary: foreign)
  case (Cons m ms)
  show ?case
    by (cases "ms = []") (auto simp: Cons.IH agrees_def)
qed auto

lemma observe_sentinels_iff:
  "observe_sentinels s sns foreign n = Some (g, k) \<longleftrightarrow>
     k = n + int (length (filter (\<lambda>sn. sn_Reachable sn \<and> monitoredAddresses sn \<noteq> []) sns)) \<and>
     (let ms = concat (map monitoredAddresses (filter sn_Reachable sns))
      in if ms = [] then g = foreign else (foreign = [] \<or> foreign = g) \<and> agrees s g ms)"
proof (induction sns arbitrary: foreign n)
  case (Cons sn sns)
  define ms where "ms = concat (map monitoredAddresses (filter sn_Reachable sns))"
  define l where "l = int (length (filter (\<lambda>sn. sn_Reachable sn \<and> monitoredAddresses sn \<noteq> []) sns))"
  have IH: "observe_sentinels s sns h m = Some (g, k) \<longleftrightarrow> k = m + l \<and>
      (if ms = [] then g = h else (h = [] \<or> h = g) \<and> agrees s g ms)" for h m
    using Cons.IH by (simp only: ms_def l_def Let_def)
  have ms': "concat (map monitoredAddresses (filter sn_Reachable (sn # sns))) =
      (if sn_Reachable sn then monitoredAddresses sn @ ms else ms)"
    and l': "int (length (filter (\<lambda>sn. sn_Reachable sn \<and> monitoredAddresses sn \<noteq> []) (sn # sns))) =
      (if sn_Reachable sn \<and> monitoredAddresses sn \<noteq> [] then 1 + l else l)"
    by (simp_all add: ms_def l_def)
  let ?M = "if sn_Reachable sn then monitoredAddresses sn @ ms else ms"
  have "observe_sentinels s (sn # sns) foreign n = Some (g, k) \<longleftrightarrow>
      k = n + (if sn_Reachable sn \<and> monitoredAddresses sn \<noteq> [] then 1 + l else l) \<and>
      (if ?M = [] then g = foreign else (foreign = [] \<or> foreign = g) \<and> agrees s g ?M)"
  proof (cases "\<not> sn_Reachable sn \<or> monitoredAddresses sn = []")
    case True
    then show ?thesis by (auto simp: IH)
  next
    case False
    then have "observe_sentinels s (sn # sns) foreign n = Some (g, k) \<longleftrightarrow>
        (\<exists>h. observe_addresses s (monitoredAddresses sn) foreign = Some h \<and> observe_sentinels s sns h (n + 1) = Some (g, k))"
      by (auto split: option.splits)
    also have "\<dots> \<longleftrightarrow> k = n + 1 + l \<and> (foreign = [] \<or> foreign = g) \<and> agrees s g (monitoredAddresses sn @ ms)"
      using False agrees_nonempty [of s] by (cases "ms = []") (auto simp: IH observe_addresses_iff agrees_def)
    finally show ?thesis using False by auto
  qed
  then show ?case unfolding Let_def ms' l' .
qed auto

lemma forsakenSignature_iff: "forsakenSignature s = (True, f) \<longleftrightarrow> captured_by s f"
proof -
  have floor: "forsakenMonitoringFloor = 2" by (simp add: forsakenMonitoringFloor_def sentinelProcessReplicas_def)
  have empty: "speaking s = []" if "observations s = []"
    using that by (auto simp: speaking_def observations_def filter_empty_conv)
  have "forsakenSignature s = (True, f) \<longleftrightarrow>
      (\<exists>k. observe_sentinels s (sentinel_nodes s) [] 0 = Some (f, k) \<and> 2 \<le> k) \<and>
      \<not> list_ex (\<lambda>rn. rn_Reachable rn \<and> rn_Role rn = roleMaster) (redis_nodes s)"
    by (auto simp: forsakenSignature_def floor split: option.splits)
  also have "\<dots> \<longleftrightarrow> captured_by s f"
    unfolding observe_sentinels_iff captured_by_def Let_def observations_def [symmetric] speaking_def [symmetric]
    using empty by (auto simp: agrees_def)
  finally show ?thesis .
qed

lemma forsakenSignature_none: "\<not> fst (forsakenSignature s) \<Longrightarrow> forsakenSignature s = (False, [])"
  by (auto simp: forsakenSignature_def split: option.splits if_splits)

lemma forsakenSignature_captured:
  "fst (forsakenSignature s) \<longleftrightarrow> (\<exists>f. captured_by s f)" "captured_by s f \<Longrightarrow> forsakenSignature s = (True, f)"
  by (cases "forsakenSignature s"; simp flip: forsakenSignature_iff)+

lemma captured_votes:
  assumes "captured_by s f" and "ip \<in> set (master_votes (sentinel_nodes s))"
  shows "ip = f"
proof -
  obtain sn where "sn \<in> set (sentinel_nodes s)" "sn_Reachable sn" "sn_Monitoring sn" "ip = sn_MasterIP sn"
    using assms(2) by (auto simp: master_votes_def)
  then have "\<exists>m \<in> set (observations s). mm_IP m = ip"
    by (force simp: observations_def monitoredAddresses_def)
  with assms(1) show ?thesis by (auto simp: captured_by_def list_all_iff)
qed

lemma captured_leaderless:
  assumes "wf_state s" and "RealMasterIP s = []" and "captured_by (DetermineRealMaster s) f"
  shows "RealMasterIP (DetermineRealMaster s) = []"
proof -
  have same: "RedisNodes (DetermineRealMaster s) = RedisNodes s" "SentinelNodes (DetermineRealMaster s) = SentinelNodes s"
    "OwnedIPs (DetermineRealMaster s) = OwnedIPs s"
    unfolding DetermineRealMaster_cases by (auto split: option.splits)
  have c: "captured_by s f"
    using assms(3) unfolding captured_by_def observations_def speaking_def IsOurs_def same .
  have "\<not> elected s ip" for ip
  proof
    assume e: "elected s ip"
    then have "ip \<in> set (master_votes (sentinel_nodes s))"
      by (intro ccontr [of "ip \<in> _"]) (simp add: elected_def)
    with captured_votes [OF c] have "ip = f" by blast
    with e assms(1) c show False by (auto simp: elected_def wf_state_def captured_by_def IsOurs_def split: if_splits)
  qed
  moreover have "find (\<lambda>rn. rn_Reachable rn \<and> rn_Role rn = roleMaster) (redis_nodes s) = None"
    using c by (auto simp: captured_by_def find_None_iff list_ex_iff)
  ultimately show ?thesis using assms(2) by (simp add: DetermineRealMaster_cases)
qed

definition captor_sentinel :: "string \<Rightarrow> SentinelNodeState" where
  "captor_sentinel ip = (sentinel_example ip ''10.9.9.9'')\<lparr>sn_MasterFlags := ''master''\<rparr>"

definition captured_example :: ReplicationState where
  "captured_example = GatherReplicationState (GetRedisState info_example) (\<lambda>name ip m. Inr (captor_sentinel ip))
     [(''10.0.0.1'', ''r-0'')] [(''10.0.0.4'', ''s-0''), (''10.0.0.5'', ''s-1'')] ''m'' []"

text \<open>
  C33. In the state the operator gathers, the capture signature is exactly this: the reachable Sentinels
  that monitor something are a majority of the deployed three, every master that any of them monitors,
  under whatever name, is at one and the same address, which is not flagged down and is not an address
  of this instance, and no reachable Redis pod of this instance is a master. The address is then
  unique, it is the one that is reported, and the instance has no real master.
\<close>

theorem capture_signature_exact:
  fixes infoCmd getSentinel redisPods sentinelPods masterName ownedIPs
  defines "s \<equiv> GatherReplicationState (GetRedisState infoCmd) getSentinel redisPods sentinelPods
    masterName ownedIPs"
  shows "(fst (forsakenSignature s) \<longleftrightarrow> (\<exists>f. captured_by s f)) \<and>
    (captured_by s f \<longrightarrow> snd (forsakenSignature s) = f \<and> RealMasterIP s = [])"
proof -
  let ?g = "gathered (GetRedisState infoCmd) getSentinel redisPods sentinelPods masterName ownedIPs"
  have wf: "wf_state ?g" by (intro gathered_wf) (rule GetRedisState_IP)
  have none: "RealMasterIP ?g = []"
    by (simp add: gathered_def fold_AddLiveTopologyIP fold_AddOwnedIP NewReplicationState_def)
  have "s = DetermineRealMaster ?g" by (simp add: s_def GatherReplicationState_gathered)
  with captured_leaderless [OF wf none] have "captured_by s f \<Longrightarrow> RealMasterIP s = []" by simp
  then show ?thesis
    using forsakenSignature_captured [of s] by auto
qed

theorem capture_signature_exact_witness:
  "captured_by captured_example ''10.9.9.9'' \<and> snd (forsakenSignature captured_example) = ''10.9.9.9'' \<and>
   RealMasterIP captured_example = []"
proof -
  have c: "captured_by captured_example ''10.9.9.9''" by code_simp
  then show ?thesis
    using capture_signature_exact [of info_example "\<lambda>name ip m. Inr (captor_sentinel ip)" "[(''10.0.0.1'', ''r-0'')]"
        "[(''10.0.0.4'', ''s-0''), (''10.0.0.5'', ''s-1'')]" "''m''" "[]" "''10.9.9.9''"]
    by (simp flip: captured_example_def)
qed

section \<open>The settling period of the verdict\<close>

lemma capture_plan_cases:
  assumes "\<not> time_set (fs_QuarantinedSince st)"
  shows "fp_Captured (fst (capture_plan ob st)) \<longleftrightarrow>
      (time_set (fs_ForsakenSince st) \<or> \<not> co_Rolling ob) \<and> fst (forsakenSignature (co_State ob))"
    and "qp_Arm (snd (capture_plan ob st)) \<longleftrightarrow> qp_ScaleToZero (snd (capture_plan ob st))"
    and "\<not> qp_Clear (snd (capture_plan ob st))"
    and "qp_ScaleToZero (snd (capture_plan ob st)) \<longleftrightarrow>
      fp_Forsaken (fst (capture_plan ob st)) \<and>
      quarantineDataRisk (Some (co_State ob)) (fp_ForeignMaster (fst (capture_plan ob st))) (co_Ready ob) = (False, False)"
  using assms
  by (auto simp: capture_plan_def Let_def planForsaken_def no_verdict_def planQuarantine_def plan_unarmed_def prod_eq_iff)

lemma capture_plan_forsaken:
  "fp_Forsaken (fst (capture_plan ob st)) \<longleftrightarrow> fp_Captured (fst (capture_plan ob st)) \<and>
     (\<exists>u. fs_ForsakenSince st = Some u \<and> u \<noteq> 0 \<and> forsakenCooldown \<le> Sub (co_Now ob) u)"
  by (auto simp: capture_plan_def Let_def planForsaken_def no_verdict_def split: option.splits)

text \<open>
  A pass while no quarantine is armed, on the stored status; it ends the sequence when one is. The
  pass acts when it arms the quarantine.
\<close>

definition unarmed_step :: "capture_obs \<Rightarrow> capture_status \<Rightarrow> unit + capture_status \<times> bool" where
  "unarmed_step ob st =
     (if time_set (fs_QuarantinedSince st) then Inl ()
      else Inr (snd (fst (snd (capture_step ob (st, st)))), qp_Arm (snd (capture_plan ob st))))"

definition persisted :: "capture_obs \<Rightarrow> bool" where
  "persisted ob \<longleftrightarrow> co_Write ob = Written \<and> co_Now ob \<le> co_SetTime ob"

lemma setForsaken_since:
  "fs_ForsakenSince (snd (fst (snd (setForsaken Written t b q (st, st))))) =
     (if fs_ForsakenSince st = None then Some t else fs_ForsakenSince st)"
  by (simp add: setForsaken_def Let_def)

lemma clearForsaken_since: "fs_ForsakenSince (snd (snd (clearForsaken Written q (st, st)))) = None"
  by (simp add: clearForsaken_def Let_def)

lemma unarmed_since:
  assumes "persisted ob" and "unarmed_step ob st = Inr (st', acted)"
  shows "fs_ForsakenSince st' =
      (if \<not> fp_Captured (fst (capture_plan ob st)) then None
       else if fs_ForsakenSince st = None then Some (co_SetTime ob) else fs_ForsakenSince st)"
    and "acted \<longrightarrow> fp_Forsaken (fst (capture_plan ob st))"
    and "acted = qp_Arm (snd (capture_plan ob st))"
proof -
  have u: "\<not> time_set (fs_QuarantinedSince st)" and a: "acted = qp_Arm (snd (capture_plan ob st))"
    and st': "st' = snd (fst (snd (capture_step ob (st, st))))"
    using assms(2) by (auto simp: unarmed_step_def split: if_splits)
  note plan = capture_plan_cases [OF u, of ob]
  from a plan(2,4) show f: "acted \<longrightarrow> fp_Forsaken (fst (capture_plan ob st))" by auto
  show "acted = qp_Arm (snd (capture_plan ob st))" by (rule a)
  have w: "co_Write ob = Written" using assms(1) by (simp add: persisted_def)
  obtain f q where p: "capture_plan ob st = (f, q)" by (cases "capture_plan ob st")
  have "qp_ScaleToZero q \<Longrightarrow> fp_Captured f" using plan(4) capture_plan_forsaken [of ob st] p by auto
  then show "fs_ForsakenSince st' = (if \<not> fp_Captured (fst (capture_plan ob st)) then None
       else if fs_ForsakenSince st = None then Some (co_SetTime ob) else fs_ForsakenSince st)"
    by (auto simp: st' capture_step_def p w case_prod_beta setForsaken_since clearForsaken_since)
qed

lemma Sub_mono: "a \<le> b \<Longrightarrow> Sub a u \<le> Sub b u"
  by (simp add: Sub_def max_def min_def)

interpretation capture_gate: cooldown_gate unarmed_step co_SetTime persisted
  "\<lambda>ob. fst (forsakenSignature (co_State ob))" fs_ForsakenSince forsakenCooldown
proof
  fix ob st st' acted
  assume ok: "persisted ob" and st: "unarmed_step ob st = Inr (st', acted)"
  note since = unarmed_since [OF ok st]
  have u: "\<not> time_set (fs_QuarantinedSince st)" using st by (auto simp: unarmed_step_def split: if_splits)
  note plan = capture_plan_cases [OF u, of ob]
  show "\<not> acted \<and> fs_ForsakenSince st' = None" if "\<not> fst (forsakenSignature (co_State ob))"
    using since plan(1) that capture_plan_forsaken [of ob st] by auto
  show "\<not> acted \<and> (fs_ForsakenSince st' = None \<or> fs_ForsakenSince st' = Some (co_SetTime ob))"
    if "fs_ForsakenSince st = None"
    using since that capture_plan_forsaken [of ob st] by auto
  show "(fs_ForsakenSince st' = None \<or> fs_ForsakenSince st' = Some v) \<and>
      (acted \<longrightarrow> forsakenCooldown \<le> Sub (co_SetTime ob) v)" if "fs_ForsakenSince st = Some v" for v
    using since that capture_plan_forsaken [of ob st] ok Sub_mono [of "co_Now ob" "co_SetTime ob" v]
    by (auto simp: persisted_def)
qed

text \<open>What a pass must have seen to take the pods away: no data can be lost by it.\<close>

definition discardable :: "ReplicationState \<Rightarrow> string \<Rightarrow> (string \<rightharpoonup> bool) \<Rightarrow> bool" where
  "discardable s foreign ready \<longleftrightarrow> list_all (\<lambda>rn.
     if rn_Reachable rn then rn_Keys rn \<le> 0 \<or> rn_MasterHost rn = foreign \<and> rn_LinkStatus rn = ''up''
     else rn_ProbeFailure rn \<noteq> ProbeAuthFailed \<and> ready (rn_PodName rn) = Some False) (redis_nodes s)"

lemma no_risk_discardable:
  "quarantineDataRisk (Some s) f ready = (False, False) \<Longrightarrow> discardable s f ready"
  by (auto simp: quarantineDataRisk_def discardable_def captors_copy_def UnprovablyEmpty_def list_ex_iff list_all_iff not_less)

lemma arming_pass_safe:
  assumes "unarmed_step ob st = Inr (st', True)"
  shows "\<exists>f. captured_by (co_State ob) f \<and> discardable (co_State ob) f (co_Ready ob)"
proof -
  have u: "\<not> time_set (fs_QuarantinedSince st)" and a: "qp_Arm (snd (capture_plan ob st))"
    using assms by (auto simp: unarmed_step_def split: if_splits)
  note plan = capture_plan_cases [OF u, of ob]
  from a plan(2,4) have r: "fp_Forsaken (fst (capture_plan ob st))"
    "quarantineDataRisk (Some (co_State ob)) (fp_ForeignMaster (fst (capture_plan ob st))) (co_Ready ob) = (False, False)"
    by auto
  from r(1) plan(1) capture_plan_forsaken have c: "fst (forsakenSignature (co_State ob))"
    "fp_Captured (fst (capture_plan ob st))" by blast+
  have "fp_ForeignMaster (fst (capture_plan ob st)) = snd (forsakenSignature (co_State ob))"
    using c(2) by (auto simp: capture_plan_def Let_def planForsaken_def no_verdict_def split: if_splits)
  moreover have "captured_by (co_State ob) (snd (forsakenSignature (co_State ob)))"
    using c(1) by (simp flip: forsakenSignature_iff add: prod_eq_iff)
  ultimately show ?thesis using no_risk_discardable [OF r(2)] by auto
qed

lemma passes_unarmed:
  "i < length (passes unarmed_step st obs) \<Longrightarrow>
   \<exists>s. unarmed_step (obs ! i) s = Inr (passes unarmed_step st obs ! i)"
proof (induction obs arbitrary: st i)
  case (Cons ob obs)
  then show ?case by (cases i) (auto split: sum.splits)
qed simp

definition quarantine_obs :: "time \<Rightarrow> capture_obs" where
  "quarantine_obs t = \<lparr>co_State = captured_example, co_Ready = [''r-0'' \<mapsto> False], co_Rolling = False,
     co_Dangerous = False, co_Now = t, co_SetTime = t, co_Write = Written\<rparr>"

definition fresh_capture :: capture_status where
  "fresh_capture = \<lparr>fs_Phase = PhaseInitializing, fs_ForsakenSince = None, fs_QuarantinedSince = None,
     fs_QuarantineAttempts = 0, fs_Forsaken = None\<rparr>"

text \<open>
  C10. A pass that takes the pods of an instance away has seen the capture signature, and every pod of
  the instance has nothing to lose: a reachable one has no keys or is a synchronised replica of the
  captor, an unreachable one did not refuse the credential and is not ready for the kubelet. The
  signature was there in every pass for at least the settling period of the verdict before.
\<close>

theorem quarantine_discards_nothing:
  assumes "fs_ForsakenSince st = None" and "list_all persisted obs"
    and "i < length (passes unarmed_step st obs)" and "snd (passes unarmed_step st obs ! i)"
  shows "(\<exists>f. captured_by (co_State (obs ! i)) f \<and> discardable (co_State (obs ! i)) f (co_Ready (obs ! i))) \<and>
    (\<exists>j < i. (\<forall>k. j \<le> k \<and> k \<le> i \<longrightarrow> (\<exists>f. captured_by (co_State (obs ! k)) f)) \<and>
       30 * second \<le> Sub (co_SetTime (obs ! i)) (co_SetTime (obs ! j)))"
proof -
  obtain s where "unarmed_step (obs ! i) s = Inr (passes unarmed_step st obs ! i)"
    using passes_unarmed [OF assms(3)] by blast
  with assms(4) have "unarmed_step (obs ! i) s = Inr (fst (passes unarmed_step st obs ! i), True)"
    by (metis prod.collapse)
  from arming_pass_safe [OF this] capture_gate.act_after_cooldown [OF assms] show ?thesis
    by (simp add: forsakenSignature_captured forsakenCooldown_def)
qed

theorem quarantine_discards_nothing_witness:
  "snd (passes unarmed_step fresh_capture [quarantine_obs 5, quarantine_obs (31 * second)] ! 1) \<and>
   discardable captured_example ''10.9.9.9'' [''r-0'' \<mapsto> False] \<and>
   30 * second \<le> Sub (31 * second) 5"
proof -
  let ?obs = "[quarantine_obs 5, quarantine_obs (31 * second)]"
  have p: "list_all persisted ?obs" "1 < length (passes unarmed_step fresh_capture ?obs)"
    "snd (passes unarmed_step fresh_capture ?obs ! 1)" by code_simp+
  have n: "fs_ForsakenSince fresh_capture = None" by code_simp
  from quarantine_discards_nothing [OF n p]
  obtain f where "captured_by captured_example f" "discardable captured_example f [''r-0'' \<mapsto> False]"
    "30 * second \<le> Sub (31 * second) 5"
    by (auto simp: quarantine_obs_def)
  moreover have "forsakenSignature captured_example = (True, ''10.9.9.9'')" by code_simp
  with calculation(1) have "f = ''10.9.9.9''" by (simp flip: forsakenSignature_iff)
  ultimately show ?thesis using p by simp
qed

section \<open>The life of a quarantine\<close>

text \<open>
  A pass on the stored status, and the phase that the status update at its end leaves. A failed write
  leaves the stored status as it is.
\<close>

definition capture_pass :: "capture_obs \<times> LittleRedPhase \<Rightarrow> capture_status \<Rightarrow> capture_status" where
  "capture_pass x st = (snd (fst (snd (capture_step (fst x) (st, st)))))\<lparr>fs_Phase := snd x\<rparr>"

definition capture_run :: "capture_status \<Rightarrow> (capture_obs \<times> LittleRedPhase) list \<Rightarrow> capture_status" where
  "capture_run st xs = fold capture_pass xs st"

text \<open>The quarantines that were started are counted, and after the second the pods stay away.\<close>

definition within_budget :: "capture_status \<Rightarrow> bool" where
  "within_budget st \<longleftrightarrow> fs_Phase st \<noteq> PhaseRunning \<and>
     (fs_QuarantineAttempts st \<in> {0, 1} \<or> fs_QuarantineAttempts st = 2 \<and> time_set (fs_QuarantinedSince st))"

definition recovering :: "capture_obs \<times> LittleRedPhase \<Rightarrow> bool" where
  "recovering x \<longleftrightarrow> snd x \<noteq> PhaseRunning \<and> co_SetTime (fst x) \<noteq> 0"

lemma setForsaken_stored:
  "fs_QuarantinedSince (snd (fst (snd (setForsaken out t b q (st, st))))) =
     (if out = Written \<and> qp_Arm q then Some t else fs_QuarantinedSince st)"
  "fs_QuarantineAttempts (snd (fst (snd (setForsaken out t b q (st, st))))) =
     (if out = Written \<and> qp_Arm q then qp_NextAttempts q else fs_QuarantineAttempts st)"
  "fs_Phase (snd (fst (snd (setForsaken out t b q (st, st))))) = fs_Phase st"
  by (cases out; simp add: setForsaken_def Let_def)+

lemma clearForsaken_stored:
  "fs_Phase st \<noteq> PhaseRunning \<Longrightarrow> fs_QuarantinedSince (snd (snd (clearForsaken out q (st, st)))) =
     (if out = Written \<and> qp_Clear q then None else fs_QuarantinedSince st)"
  "fs_Phase st \<noteq> PhaseRunning \<Longrightarrow>
     fs_QuarantineAttempts (snd (snd (clearForsaken out q (st, st)))) = fs_QuarantineAttempts st"
  by (cases out; simp add: clearForsaken_def Let_def)+

lemma capture_pass_stored:
  assumes "fs_Phase st \<noteq> PhaseRunning" and "capture_plan ob st = (f, q)"
  shows "fs_QuarantinedSince (capture_pass (ob, ph) st) =
      (if co_Write ob \<noteq> Written then fs_QuarantinedSince st
       else if qp_ScaleToZero q \<or> fp_Captured f
       then if qp_Arm q then Some (co_SetTime ob) else fs_QuarantinedSince st
       else if qp_Clear q then None else fs_QuarantinedSince st)"
    and "fs_QuarantineAttempts (capture_pass (ob, ph) st) =
      (if co_Write ob = Written \<and> (qp_ScaleToZero q \<or> fp_Captured f) \<and> qp_Arm q then qp_NextAttempts q
       else fs_QuarantineAttempts st)"
    and "fs_Phase (capture_pass (ob, ph) st) = ph"
  using assms
  by (simp_all add: capture_pass_def capture_step_def case_prod_beta setForsaken_stored clearForsaken_stored)

lemma planQuarantine_armed:
  "time_set (qi_QuarantinedSince inp) \<Longrightarrow> \<not> qp_Arm (planQuarantine inp)"
  "time_set (qi_QuarantinedSince inp) \<Longrightarrow> qi_Attempts inp = 2 \<Longrightarrow> qp_ScaleToZero (planQuarantine inp)"
  by (auto simp: Let_def planQuarantine_def quarantineAttemptLimit_def quarantineAttemptLimitDangerous_def)

lemma planQuarantine_attempts: "qp_Arm (planQuarantine inp) \<Longrightarrow> qp_NextAttempts (planQuarantine inp) = qi_Attempts inp + 1"
  by (auto simp: planQuarantine_def plan_unarmed_def Let_def split: if_splits)

lemma capture_plan_input:
  assumes "capture_plan ob st = (f, q)"
  obtains inp where "q = planQuarantine inp" "qi_QuarantinedSince inp = fs_QuarantinedSince st"
    "qi_Attempts inp = fs_QuarantineAttempts st" "qi_Now inp = co_Now ob" "qi_Dangerous inp = co_Dangerous ob"
  using assms by (auto simp: capture_plan_def Let_def)

lemma capture_plan_armed:
  assumes "time_set (fs_QuarantinedSince st)" and "capture_plan ob st = (f, q)"
  shows "\<not> qp_Arm q" and "fs_QuarantineAttempts st = 2 \<Longrightarrow> qp_ScaleToZero q"
  using assms(1) planQuarantine_armed by (metis capture_plan_input [OF assms(2)])+

lemma capture_plan_attempts:
  "capture_plan ob st = (f, q) \<Longrightarrow> qp_Arm q \<Longrightarrow> qp_NextAttempts q = fs_QuarantineAttempts st + 1"
  using planQuarantine_attempts by (metis capture_plan_input)

lemma latched_stays:
  assumes "fs_Phase st \<noteq> PhaseRunning" and "fs_QuarantineAttempts st = 2" and "time_set (fs_QuarantinedSince st)"
  shows "fs_QuarantineAttempts (capture_pass (ob, ph) st) = 2 \<and>
    fs_QuarantinedSince (capture_pass (ob, ph) st) = fs_QuarantinedSince st"
proof -
  obtain f q where p: "capture_plan ob st = (f, q)" by (cases "capture_plan ob st")
  show ?thesis
    using capture_plan_armed [OF assms(3) p] assms(2) by (simp add: capture_pass_stored [OF assms(1) p])
qed

lemma budget_step:
  assumes "within_budget st" and "recovering x"
  shows "within_budget (capture_pass x st)"
proof -
  obtain ob ph where x: "x = (ob, ph)" by (cases x)
  obtain f q where p: "capture_plan ob st = (f, q)" by (cases "capture_plan ob st")
  have ph: "fs_Phase st \<noteq> PhaseRunning" using assms(1) by (simp add: within_budget_def)
  show ?thesis
  proof (cases "fs_QuarantineAttempts st = 2")
    case True
    with assms latched_stays [OF ph True, of ob ph] capture_pass_stored(3) [OF ph p] show ?thesis
      by (auto simp: within_budget_def recovering_def x)
  next
    case False
    with assms capture_plan_attempts [OF p] show ?thesis
      by (auto simp: within_budget_def recovering_def x capture_pass_stored [OF ph p] time_set_def)
  qed
qed

lemma budget_run: "within_budget st \<Longrightarrow> list_all recovering xs \<Longrightarrow> within_budget (capture_run st xs)"
  by (induction xs arbitrary: st) (auto simp: capture_run_def budget_step)

lemma latched_run:
  assumes "within_budget st" and "list_all recovering xs" and "fs_QuarantineAttempts st = 2"
  shows "fs_QuarantineAttempts (capture_run st xs) = 2"
  using assms
proof (induction xs arbitrary: st)
  case (Cons x xs)
  have "fs_QuarantineAttempts (capture_pass x st) = 2"
    using Cons.prems latched_stays [of st "fst x" "snd x"] by (auto simp: within_budget_def)
  with Cons budget_step [of st x] show ?case by (simp add: capture_run_def)
qed (simp add: capture_run_def)


definition two_quarantines :: "(capture_obs \<times> LittleRedPhase) list" where
  "two_quarantines = map (\<lambda>(t, seen). ((quarantine_obs (t * second))
       \<lparr>co_State := if seen then captured_example else NewReplicationState\<rparr>, PhaseInitializing))
     [(1, True), (40, True), (60, False), (170, False), (180, True), (220, True)]"


section \<open>A quarantine that is never carried out\<close>

lemma planQuarantine_late:
  assumes "qi_QuarantinedSince inp = Some t" and "t \<noteq> 0" and "qi_Attempts inp = 1" and "\<not> qi_Dangerous inp"
    and "120 * second \<le> Sub (qi_Now inp) t"
  shows "\<not> qp_ScaleToZero (planQuarantine inp) \<and> \<not> qp_Arm (planQuarantine inp)"
  using assms by (simp add: planQuarantine_def time_set_def quarantineAttemptLimit_def quarantineSettlePeriod_def Let_def)

text \<open>A pass that still sees the capture, after the settling period of the quarantine that was armed at \<open>t\<close>.\<close>

definition late_pass :: "time \<Rightarrow> capture_obs \<times> LittleRedPhase \<Rightarrow> bool" where
  "late_pass t x \<longleftrightarrow> fst (forsakenSignature (co_State (fst x))) \<and> \<not> co_Dangerous (fst x) \<and>
     120 * second \<le> Sub (co_Now (fst x)) t \<and> snd x \<noteq> PhaseRunning"

definition stuck :: "time \<Rightarrow> capture_status \<Rightarrow> bool" where
  "stuck t st \<longleftrightarrow> fs_QuarantinedSince st = Some t \<and> fs_QuarantineAttempts st = 1 \<and>
     time_set (fs_ForsakenSince st) \<and> fs_Phase st \<noteq> PhaseRunning"

lemma stuck_step:
  assumes "stuck t st" and "t \<noteq> 0" and "late_pass t x"
  shows "stuck t (capture_pass x st)"
proof -
  obtain ob ph where x: "x = (ob, ph)" by (cases x)
  obtain f q where p: "capture_plan ob st = (f, q)" by (cases "capture_plan ob st")
  have ph: "fs_Phase st \<noteq> PhaseRunning" using assms(1) by (simp add: stuck_def)
  have c: "fp_Captured f"
    using p assms(1,3) by (auto simp: capture_plan_def Let_def planForsaken_def stuck_def late_pass_def x)
  have q: "\<not> qp_ScaleToZero q \<and> \<not> qp_Arm q"
  proof -
    obtain inp where "q = planQuarantine inp" "qi_QuarantinedSince inp = fs_QuarantinedSince st"
      "qi_Attempts inp = fs_QuarantineAttempts st" "qi_Now inp = co_Now ob" "qi_Dangerous inp = co_Dangerous ob"
      by (rule capture_plan_input [OF p])
    then show ?thesis
      using planQuarantine_late [of inp t] assms by (simp add: stuck_def late_pass_def x)
  qed
  have "fs_ForsakenSince (capture_pass x st) = fs_ForsakenSince st"
    using p c q assms(1)
    by (cases "co_Write ob") (auto simp: x capture_pass_def capture_step_def setForsaken_def Let_def stuck_def time_set_def
        split: option.splits)
  then show ?thesis
    using assms c q by (simp add: stuck_def x capture_pass_stored [OF ph p] late_pass_def)
qed

lemma stuck_run: "stuck t st \<Longrightarrow> t \<noteq> 0 \<Longrightarrow> list_all (late_pass t) xs \<Longrightarrow> stuck t (capture_run st xs)"
  by (induction xs arbitrary: st) (auto simp: capture_run_def stuck_step)

lemma stuck_keeps_pods:
  assumes "stuck t st" and "t \<noteq> 0" and "120 * second \<le> Sub now t"
  shows "sentinelDesiredReplicas True False st now = (3, 3)"
  using planQuarantine_late [of "pregather_input False st now" t] assms
  by (simp add: sentinelDesiredReplicas_def pregather_input_def stuck_def SentinelRedisReplicas_def
      sentinelProcessReplicas_def)



end
