(* ===== verification/Stale_Names.thy ===== *)
theory Stale_Names
  imports Forsaken "HOL-Library.Product_Lexorder"
begin

text \<open>
  Rule N of the Sentinel mode: every Sentinel monitors the desired master name and nothing else. The plan
  (\<open>internal/controller/stale_master_name_plan.go\<close>), its executor and the condition that reports it
  (\<open>reconcileStaleMasterNames\<close>, \<open>executeStaleMasterNamePrune\<close>, \<open>setStaleMasterNameCondition\<close> in
  \<open>littlered_controller.go\<close>).

  A message is represented by the arguments it is rendered from.
\<close>

section \<open>The plan\<close>

datatype stale_reason = staleNamesConverged | staleNamesPruning | staleNamesDeferred | staleNamesForeign

datatype stale_gate = GateNone | G1 | G2 | G3 | G4 | G5 | G6

record staleEntry =
  se_SentinelIP :: string
  se_SentinelPod :: string
  se_Names :: "string list"

text \<open>A stale master name with the address it is monitored at.\<close>

type_synonym stale_address = "string \<times> string"

datatype stale_why =
    NoGroundTruth
  | EmptyDesired
  | Unattributable "stale_address list"
  | NoLivingMaster
  | MasterNotLive string
  | MasterNotReachable string
  | FailoverInFlight "string list"
  | QuorumLost nat int
  | NoCarrier string

datatype stale_message =
    CapturedMsg
  | ConvergedMsg string
  | ForeignMsg "stale_address list"
  | DeferredMsg stale_gate stale_why "string list"
  | PruningMsg "string list" "staleEntry list" string "string list"
  | ReconfirmMsg stale_message string "string list"

record StaleMasterNamePlan =
  sm_Prune :: "staleEntry list"
  sm_Skipped :: "string list"
  sm_Reason :: stale_reason
  sm_Message :: stale_message
  sm_Gate :: stale_gate

definition deferStaleNames :: "stale_gate \<Rightarrow> stale_why \<Rightarrow> string list \<Rightarrow> StaleMasterNamePlan" where
  "deferStaleNames gate why stale =
     \<lparr>sm_Prune = [], sm_Skipped = [], sm_Reason = staleNamesDeferred, sm_Message = DeferredMsg gate why stale,
      sm_Gate = gate\<rparr>"

definition dedupSorted :: "'a::linorder list \<Rightarrow> 'a list" where
  "dedupSorted xs = sort (remdups xs)"

text \<open>
  The loop over the reachable Sentinels, by what it collects: the master names other than the desired
  one, whether the desired one is there, and the stale entries that are at an address that is neither
  ours nor flagged down.
\<close>

definition stale_masters :: "string \<Rightarrow> SentinelNodeState \<Rightarrow> MonitoredMaster list" where
  "stale_masters desired sn = filter (\<lambda>m. mm_Name m \<noteq> desired) (sn_MonitoredMasters sn)"

definition carries :: "string \<Rightarrow> SentinelNodeState \<Rightarrow> bool" where
  "carries desired sn \<longleftrightarrow> list_ex (\<lambda>m. mm_Name m = desired) (sn_MonitoredMasters sn)"

definition stale_entries :: "string \<Rightarrow> SentinelNodeState list \<Rightarrow> staleEntry list" where
  "stale_entries desired sns =
     map (\<lambda>sn. \<lparr>se_SentinelIP = sn_IP sn, se_SentinelPod = sn_PodName sn,
               se_Names = sort (map mm_Name (stale_masters desired sn))\<rparr>)
       (filter (\<lambda>sn. stale_masters desired sn \<noteq> [] \<and> carries desired sn) sns)"

definition stale_skipped :: "string \<Rightarrow> SentinelNodeState list \<Rightarrow> string list" where
  "stale_skipped desired sns =
     map sn_PodName (filter (\<lambda>sn. stale_masters desired sn \<noteq> [] \<and> \<not> carries desired sn) sns)"

definition all_stale :: "string \<Rightarrow> SentinelNodeState list \<Rightarrow> string list" where
  "all_stale desired sns = map mm_Name (concat (map (stale_masters desired) sns))"

definition failovers_under :: "SentinelNodeState list \<Rightarrow> string list" where
  "failovers_under sns =
     map mm_Name (filter MonitoredMaster_FailoverInProgress (concat (map sn_MonitoredMasters sns)))"

definition alive_elsewhere :: "ReplicationState \<Rightarrow> string \<Rightarrow> SentinelNodeState list \<Rightarrow> stale_address list" where
  "alive_elsewhere state desired sns =
     map (\<lambda>m. (mm_Name m, mm_IP m))
       (filter (\<lambda>m. \<not> IsOurs state (mm_IP m) \<and> \<not> flaggedDown (mm_Flags m))
         (concat (map (stale_masters desired) sns)))"

text \<open>The gates after the scan, in their order.\<close>

definition master_gate :: "ReplicationState \<Rightarrow> stale_why option" where
  "master_gate state =
     (if RealMasterIP state = [] then Some NoLivingMaster
      else if RealMasterIP state \<notin> LiveTopologyIPs state then Some (MasterNotLive (RealMasterIP state))
      else case map_of (RedisNodes state) (RealMasterIP state) of
             None \<Rightarrow> Some (MasterNotReachable (RealMasterIP state))
           | Some m \<Rightarrow>
               if \<not> rn_Reachable m \<or> rn_Role m \<noteq> roleMaster then Some (MasterNotReachable (RealMasterIP state))
               else None)"

definition plan_prune ::
    "ReplicationState \<Rightarrow> string \<Rightarrow> int \<Rightarrow> SentinelNodeState list \<Rightarrow> string list \<Rightarrow> StaleMasterNamePlan" where
  "plan_prune state desired quorum sns staleList =
     (let entries = sort_key se_SentinelPod (stale_entries desired sns);
          skipped = sort (stale_skipped desired sns);
          reachable = ReachableSentinels state
      in case master_gate state of
           Some why \<Rightarrow> deferStaleNames G2 why staleList
         | None \<Rightarrow>
             if failovers_under sns \<noteq> [] \<or> FailoverReported state
             then deferStaleNames G3 (FailoverInFlight (dedupSorted (failovers_under sns))) staleList
             else if int reachable < quorum \<or> reachable = 0
             then deferStaleNames G4 (QuorumLost reachable quorum) staleList
             else if entries = [] then deferStaleNames G6 (NoCarrier desired) staleList
             else \<lparr>sm_Prune = entries, sm_Skipped = skipped, sm_Reason = staleNamesPruning,
                   sm_Message = PruningMsg staleList entries desired skipped, sm_Gate = GateNone\<rparr>)"

definition planStaleMasterNames ::
    "ReplicationState option \<Rightarrow> string \<Rightarrow> int \<Rightarrow> bool \<Rightarrow> bool \<Rightarrow> StaleMasterNamePlan" where
  "planStaleMasterNames state0 desired quorum captured rolling =
     (if captured
      then \<lparr>sm_Prune = [], sm_Skipped = [], sm_Reason = staleNamesForeign, sm_Message = CapturedMsg, sm_Gate = GateNone\<rparr>
      else case state0 of
        None \<Rightarrow> deferStaleNames G2 NoGroundTruth []
      | Some state \<Rightarrow>
          if desired = [] then deferStaleNames G1 EmptyDesired []
          else
            let sns = filter sn_Reachable (sentinel_nodes state);
                staleList = dedupSorted (all_stale desired sns);
                elsewhere = alive_elsewhere state desired sns
            in if staleList = []
               then \<lparr>sm_Prune = [], sm_Skipped = [], sm_Reason = staleNamesConverged,
                     sm_Message = ConvergedMsg desired, sm_Gate = GateNone\<rparr>
               else if elsewhere \<noteq> []
               then (if rolling then deferStaleNames G5 (Unattributable (dedupSorted elsewhere)) staleList
                     else \<lparr>sm_Prune = [], sm_Skipped = [], sm_Reason = staleNamesForeign,
                           sm_Message = ForeignMsg (dedupSorted elsewhere), sm_Gate = GateNone\<rparr>)
               else plan_prune state desired quorum sns staleList)"

section \<open>The executor\<close>

text \<open>
  The Sentinel at an IP is asked once more whether it monitors the desired name. The result of a REMOVE
  is only logged.
\<close>

type_synonym remove_cmd = "string \<times> string"

definition confirms :: "(string \<Rightarrow> go_error + bool) \<Rightarrow> staleEntry \<Rightarrow> bool" where
  "confirms isMonitoring entry \<longleftrightarrow> isMonitoring (se_SentinelIP entry) = Inr True"

definition executeStaleMasterNamePrune ::
    "(string \<Rightarrow> go_error + bool) \<Rightarrow> StaleMasterNamePlan \<Rightarrow> string list \<times> remove_cmd list" where
  "executeStaleMasterNamePrune isMonitoring plan =
     (if sm_Reason plan \<noteq> staleNamesPruning then ([], [])
      else (map se_SentinelPod (filter (\<lambda>e. \<not> confirms isMonitoring e) (sm_Prune plan)),
            concat (map (\<lambda>e. map (\<lambda>name. (se_SentinelIP e, name)) (se_Names e))
              (filter (confirms isMonitoring) (sm_Prune plan)))))"

record staleNameReport =
  sq_Status :: bool
  sq_Reason :: stale_reason
  sq_Message :: stale_message
  sq_Warn :: bool

definition planStaleMasterNameReport :: "StaleMasterNamePlan \<Rightarrow> staleNameReport" where
  "planStaleMasterNameReport plan =
     (if sm_Reason plan = staleNamesConverged
      then \<lparr>sq_Status = False, sq_Reason = sm_Reason plan, sq_Message = sm_Message plan, sq_Warn = False\<rparr>
      else \<lparr>sq_Status = True, sq_Reason = sm_Reason plan, sq_Message = sm_Message plan,
            sq_Warn = (sm_Reason plan = staleNamesForeign)\<rparr>)"

text \<open>The condition: status, reason and message. The result has the error, the condition that is stored when
  one is written, and whether a warning is sent.\<close>

type_synonym stale_condition = "(bool \<times> stale_reason \<times> stale_message) option"

definition setStaleMasterNameCondition ::
    "status_write \<Rightarrow> staleNameReport \<Rightarrow> stale_condition \<Rightarrow> go_error option \<times> stale_condition \<times> bool" where
  "setStaleMasterNameCondition out rep prev =
     (let new = (sq_Status rep, sq_Reason rep, sq_Message rep);
          changed = (case prev of None \<Rightarrow> True | Some (_, reason, _) \<Rightarrow> reason \<noteq> sq_Reason rep)
      in if prev = Some new then (None, prev, False)
         else case out of
             ReadFailed e \<Rightarrow> (Some e, prev, False)
           | WriteFailed e \<Rightarrow> (Some e, prev, False)
           | Written \<Rightarrow> (None, Some new, changed \<and> sq_Warn rep))"

record stale_env =
  sx_IsMonitoring :: "string \<Rightarrow> go_error + bool"
  sx_Write :: status_write

definition reconcileStaleMasterNames ::
    "stale_env \<Rightarrow> ReplicationState option \<Rightarrow> string \<Rightarrow> int \<Rightarrow> bool \<Rightarrow> bool \<Rightarrow> stale_condition \<Rightarrow>
     StaleMasterNamePlan \<times> go_error option \<times> stale_condition \<times> bool \<times> remove_cmd list" where
  "reconcileStaleMasterNames env state desired quorum captured rolling prev =
     (let plan = planStaleMasterNames state desired quorum captured rolling
      in case executeStaleMasterNamePrune (sx_IsMonitoring env) plan of
           (skipped, cmds) \<Rightarrow>
             let plan = (if skipped = [] then plan
                         else plan\<lparr>sm_Message := ReconfirmMsg (sm_Message plan) desired (sort skipped)\<rparr>)
             in case setStaleMasterNameCondition (sx_Write env) (planStaleMasterNameReport plan) prev of
                  (err, cond, warned) \<Rightarrow> (plan, err, cond, warned, cmds))"

section \<open>What is removed\<close>

text \<open>A master name that may be removed at a Sentinel.\<close>

definition removable :: "ReplicationState \<Rightarrow> string \<Rightarrow> remove_cmd \<Rightarrow> bool" where
  "removable state desired c \<longleftrightarrow> snd c \<noteq> desired \<and>
     list_ex (\<lambda>sn. sn_Reachable sn \<and> sn_IP sn = fst c \<and> carries desired sn \<and>
       list_ex (\<lambda>m. mm_Name m = snd c \<and> (IsOurs state (mm_IP m) \<or> flaggedDown (mm_Flags m))) (sn_MonitoredMasters sn))
       (sentinel_nodes state)"

text \<open>The instance has a living master of its own, no failover is in flight, and the Sentinels have a quorum.\<close>

definition prune_gates :: "ReplicationState \<Rightarrow> int \<Rightarrow> bool" where
  "prune_gates state quorum \<longleftrightarrow> RealMasterIP state \<in> LiveTopologyIPs state \<and>
     (case map_of (RedisNodes state) (RealMasterIP state) of
        None \<Rightarrow> False | Some m \<Rightarrow> rn_Reachable m \<and> rn_Role m = roleMaster) \<and>
     \<not> FailoverReported state \<and>
     list_all (\<lambda>sn. sn_Reachable sn \<longrightarrow> list_all (\<lambda>m. \<not> MonitoredMaster_FailoverInProgress m) (sn_MonitoredMasters sn))
       (sentinel_nodes state) \<and>
     quorum \<le> int (ReachableSentinels state)"

lemma pruning_plan:
  fixes state defines "sns \<equiv> filter sn_Reachable (sentinel_nodes state)"
  assumes "sm_Reason (planStaleMasterNames (Some state) desired quorum captured rolling) = staleNamesPruning"
  shows "\<not> captured" and "desired \<noteq> []" and "alive_elsewhere state desired sns = []"
    and "planStaleMasterNames (Some state) desired quorum captured rolling =
      plan_prune state desired quorum sns (dedupSorted (all_stale desired sns))"
proof -
  have "\<not> captured \<and> desired \<noteq> [] \<and> dedupSorted (all_stale desired sns) \<noteq> [] \<and> alive_elsewhere state desired sns = []"
    using assms(2) unfolding planStaleMasterNames_def sns_def [symmetric] Let_def option.case
    by (simp add: deferStaleNames_def split: if_splits)
  then show "\<not> captured" and "desired \<noteq> []" and "alive_elsewhere state desired sns = []"
    and "planStaleMasterNames (Some state) desired quorum captured rolling =
      plan_prune state desired quorum sns (dedupSorted (all_stale desired sns))"
    by (simp_all add: planStaleMasterNames_def sns_def Let_def)
qed

lemma converged_plan:
  assumes "\<not> captured" and "desired \<noteq> []" and "all_stale desired (filter sn_Reachable (sentinel_nodes state)) = []"
  shows "sm_Reason (planStaleMasterNames (Some state) desired quorum captured rolling) = staleNamesConverged"
  using assms by (simp add: planStaleMasterNames_def dedupSorted_def)

lemma plan_prune_pruning:
  assumes "sm_Reason (plan_prune state desired quorum sns l) = staleNamesPruning"
  shows "master_gate state = None" and "failovers_under sns = []" and "\<not> FailoverReported state"
    and "quorum \<le> int (ReachableSentinels state)" and "stale_entries desired sns \<noteq> []"
    and "sm_Prune (plan_prune state desired quorum sns l) = sort_key se_SentinelPod (stale_entries desired sns)"
    and "sm_Skipped (plan_prune state desired quorum sns l) = sort (stale_skipped desired sns)"
  using assms
  by (auto simp: plan_prune_def deferStaleNames_def Let_def split: option.splits if_splits)

lemma pruning_gates:
  assumes "sm_Reason (planStaleMasterNames (Some state) desired quorum captured rolling) = staleNamesPruning"
  shows "prune_gates state quorum"
proof -
  note p = pruning_plan(4) [OF assms]
  note g = plan_prune_pruning [OF assms [unfolded p]]
  show ?thesis
    using g(1-4)
    by (auto simp: prune_gates_def master_gate_def failovers_under_def list_all_iff filter_empty_conv
        split: option.splits if_splits)
qed

lemma removed_removable:
  assumes "c \<in> set (snd (executeStaleMasterNamePrune isMonitoring (planStaleMasterNames (Some state) desired quorum captured rolling)))"
  shows "sm_Reason (planStaleMasterNames (Some state) desired quorum captured rolling) = staleNamesPruning \<and>
    \<not> captured \<and> removable state desired c \<and> isMonitoring (fst c) = Inr True"
proof -
  let ?plan = "planStaleMasterNames (Some state) desired quorum captured rolling"
  have r: "sm_Reason ?plan = staleNamesPruning"
    using assms by (auto simp: executeStaleMasterNamePrune_def split: if_splits)
  obtain e where e: "e \<in> set (sm_Prune ?plan)" "confirms isMonitoring e" "fst c = se_SentinelIP e" "snd c \<in> set (se_Names e)"
    using assms r by (auto simp: executeStaleMasterNamePrune_def)
  note nc = pruning_plan(1) [OF r] and ae = pruning_plan(3) [OF r] and p = pruning_plan(4) [OF r]
  from e(1) plan_prune_pruning(6) [OF r [unfolded p]] p
  have "e \<in> set (stale_entries desired (filter sn_Reachable (sentinel_nodes state)))" by simp
  then obtain sn where sn: "sn \<in> set (sentinel_nodes state)" "sn_Reachable sn" "carries desired sn" "se_SentinelIP e = sn_IP sn"
    "set (se_Names e) = mm_Name ` set (stale_masters desired sn)"
    by (force simp: stale_entries_def)
  with e(4) obtain m where m: "m \<in> set (stale_masters desired sn)" "mm_Name m = snd c" by auto
  then have "m \<in> set (sn_MonitoredMasters sn)" "mm_Name m \<noteq> desired" by (auto simp: stale_masters_def)
  moreover have "IsOurs state (mm_IP m) \<or> flaggedDown (mm_Flags m)"
    using ae m(1) sn(1,2) by (auto simp: alive_elsewhere_def filter_empty_conv)
  ultimately have "removable state desired c"
    using sn m(2) e(3) by (auto simp: removable_def list_ex_iff)
  with r nc e(2,3) show ?thesis by (simp add: confirms_def)
qed

section \<open>The names after a prune\<close>

text \<open>The Sentinels after the removals have been carried out.\<close>

definition after_removals :: "remove_cmd list \<Rightarrow> ReplicationState \<Rightarrow> ReplicationState" where
  "after_removals cs state = state\<lparr>SentinelNodes := map (\<lambda>(ip, sn). (ip, sn\<lparr>sn_MonitoredMasters :=
     filter (\<lambda>m. (sn_IP sn, mm_Name m) \<notin> set cs) (sn_MonitoredMasters sn)\<rparr>)) (SentinelNodes state)\<rparr>"

lemma pruned_names:
  assumes "sm_Reason (planStaleMasterNames (Some state) desired quorum captured rolling) = staleNamesPruning"
    and "sm_Skipped (planStaleMasterNames (Some state) desired quorum captured rolling) = []"
    and "sn \<in> set (sentinel_nodes state)" and "sn_Reachable sn" and "m \<in> set (sn_MonitoredMasters sn)" "mm_Name m \<noteq> desired"
    and "isMonitoring (sn_IP sn) = Inr True"
  shows "(sn_IP sn, mm_Name m) \<in> set (snd (executeStaleMasterNamePrune isMonitoring
    (planStaleMasterNames (Some state) desired quorum captured rolling)))"
proof -
  let ?plan = "planStaleMasterNames (Some state) desired quorum captured rolling"
  let ?sns = "filter sn_Reachable (sentinel_nodes state)"
  note p = pruning_plan(4) [OF assms(1)]
  note g = plan_prune_pruning(6,7) [OF assms(1) [unfolded p], folded p]
  have m: "m \<in> set (stale_masters desired sn)" using assms(5,6) by (simp add: stale_masters_def)
  have "stale_skipped desired ?sns = []" using arg_cong [OF g(2), of set] assms(2) by simp
  then have "carries desired sn"
    using assms(3,4) m by (auto simp: stale_skipped_def filter_empty_conv)
  then have "\<lparr>se_SentinelIP = sn_IP sn, se_SentinelPod = sn_PodName sn,
      se_Names = sort (map mm_Name (stale_masters desired sn))\<rparr> \<in> set (sm_Prune ?plan)"
    using assms(3,4) m unfolding g(1) by (auto simp: stale_entries_def)
  with assms(1,7) m show ?thesis
    by (force simp: executeStaleMasterNamePrune_def confirms_def)
qed

lemma pruned_converged:
  assumes "sm_Reason (planStaleMasterNames (Some state) desired quorum captured rolling) = staleNamesPruning"
    and "sm_Skipped (planStaleMasterNames (Some state) desired quorum captured rolling) = []"
    and "list_all (\<lambda>sn. sn_Reachable sn \<longrightarrow> isMonitoring (sn_IP sn) = Inr True) (sentinel_nodes state)"
  shows "sm_Reason (planStaleMasterNames (Some (after_removals (snd (executeStaleMasterNamePrune isMonitoring
    (planStaleMasterNames (Some state) desired quorum captured rolling))) state)) desired quorum captured rolling) = staleNamesConverged"
proof -
  define cs where "cs = snd (executeStaleMasterNamePrune isMonitoring (planStaleMasterNames (Some state) desired quorum captured rolling))"
  let ?sns = "filter sn_Reachable (sentinel_nodes (after_removals cs state))"
  have "stale_masters desired sn' = []" if a: "sn' \<in> set ?sns" for sn'
  proof -
    obtain sn where sn: "sn \<in> set (sentinel_nodes state)"
      "sn' = sn\<lparr>sn_MonitoredMasters := filter (\<lambda>m. (sn_IP sn, mm_Name m) \<notin> set cs) (sn_MonitoredMasters sn)\<rparr>"
      using a by (force simp: after_removals_def)
    then have "sn_Reachable sn" using a by auto
    with pruned_names [OF assms(1,2) sn(1), folded cs_def] assms(3) sn(1)
    have "(sn_IP sn, mm_Name m) \<in> set cs" if "m \<in> set (sn_MonitoredMasters sn)" "mm_Name m \<noteq> desired" for m
      using that by (auto simp: list_all_iff cs_def)
    then show ?thesis by (auto simp: sn(2) stale_masters_def filter_empty_conv)
  qed
  then have "all_stale desired ?sns = []" by (simp add: all_stale_def)
  from converged_plan [OF pruning_plan(1,2) [OF assms(1)] this] show ?thesis by (simp only: cs_def)
qed

definition rename_sentinel :: "string \<Rightarrow> SentinelNodeState" where
  "rename_sentinel ip = (sentinel_example ip ''10.0.0.1'')\<lparr>sn_MonitoredMasters :=
     [\<lparr>mm_Name = ''old'', mm_IP = ''10.0.0.1'', mm_Flags = ''master'', mm_FailoverState = []\<rparr>,
      \<lparr>mm_Name = ''new'', mm_IP = ''10.0.0.1'', mm_Flags = ''master'', mm_FailoverState = []\<rparr>]\<rparr>"

definition rename_example :: ReplicationState where
  "rename_example = NewReplicationState\<lparr>
     RedisNodes := [(''10.0.0.1'', (unreachable_redis ''r-0'' ''10.0.0.1'' (Errorf ''x''))
       \<lparr>rn_Reachable := True, rn_Role := roleMaster\<rparr>)],
     SentinelNodes := [(''10.0.0.4'', rename_sentinel ''10.0.0.4''), (''10.0.0.5'', rename_sentinel ''10.0.0.5'')],
     LiveTopologyIPs := {''10.0.0.1'', ''10.0.0.4'', ''10.0.0.5''}, OwnedIPs := {''10.0.0.1'', ''10.0.0.4'', ''10.0.0.5''},
     RealMasterIP := ''10.0.0.1''\<rparr>"



text \<open>
  When every reachable Sentinel that carries a stale name also carries the desired one and confirms
  it, one pass of Rule N is enough: after its removals have been carried out, the next pass finds that
  the names have converged.
\<close>

lemma stale_prune_converges:
  assumes "reconcileStaleMasterNames env (Some state) desired quorum captured rolling prev = (plan, err, cond, warned, cs)"
    and "sm_Reason plan = staleNamesPruning" and "sm_Skipped plan = []"
    and "list_all (\<lambda>sn. sn_Reachable sn \<longrightarrow> sx_IsMonitoring env (sn_IP sn) = Inr True) (sentinel_nodes state)"
    and "reconcileStaleMasterNames env' (Some (after_removals cs state)) desired quorum captured rolling prev' =
      (plan', err', cond', warned', cs')"
  shows "sm_Reason plan' = staleNamesConverged \<and> cs' = []"
proof -
  let ?plan = "planStaleMasterNames (Some state) desired quorum captured rolling"
  let ?plan' = "planStaleMasterNames (Some (after_removals cs state)) desired quorum captured rolling"
  have cs: "cs = snd (executeStaleMasterNamePrune (sx_IsMonitoring env) ?plan)"
    and p: "sm_Reason plan = sm_Reason ?plan" "sm_Skipped plan = sm_Skipped ?plan"
    using assms(1) by (auto simp: reconcileStaleMasterNames_def Let_def split: prod.splits if_splits)
  have cs': "cs' = snd (executeStaleMasterNamePrune (sx_IsMonitoring env') ?plan')"
    and p': "sm_Reason plan' = sm_Reason ?plan'"
    using assms(5) by (auto simp: reconcileStaleMasterNames_def Let_def split: prod.splits if_splits)
  have "sm_Reason ?plan' = staleNamesConverged"
    unfolding cs using pruned_converged p assms(2-4) by simp
  then show ?thesis by (simp add: p' cs' executeStaleMasterNamePrune_def)
qed

lemma stale_prune_converges_witness:
  "\<exists>plan' err' cond' warned' cs. (''10.0.0.5'', ''old'') \<in> set cs \<and>
     reconcileStaleMasterNames \<lparr>sx_IsMonitoring = (\<lambda>_. Inr True), sx_Write = Written\<rparr>
       (Some (after_removals cs rename_example)) ''new'' 2 False False None = (plan', err', cond', warned', []) \<and>
     sm_Reason plan' = staleNamesConverged"
proof -
  let ?env = "\<lparr>sx_IsMonitoring = (\<lambda>_. Inr True), sx_Write = Written\<rparr>"
  obtain plan err cond warned cs where r: "reconcileStaleMasterNames ?env (Some rename_example) ''new'' 2 False False None =
      (plan, err, cond, warned, cs)" by (metis prod_cases5)
  have "case reconcileStaleMasterNames ?env (Some rename_example) ''new'' 2 False False None of
      (plan, err, cond, warned, cs) \<Rightarrow> (''10.0.0.5'', ''old'') \<in> set cs \<and> sm_Reason plan = staleNamesPruning \<and>
        sm_Skipped plan = []" by code_simp
  with r have c: "(''10.0.0.5'', ''old'') \<in> set cs" "sm_Reason plan = staleNamesPruning" "sm_Skipped plan = []" by simp_all
  have m: "list_all (\<lambda>sn. sn_Reachable sn \<longrightarrow> sx_IsMonitoring ?env (sn_IP sn) = Inr True) (sentinel_nodes rename_example)"
    by (simp add: list_all_iff)
  obtain plan' err' cond' warned' cs' where r': "reconcileStaleMasterNames ?env (Some (after_removals cs rename_example)) ''new'' 2 False False None =
      (plan', err', cond', warned', cs')" by (metis prod_cases5)
  from r' c(1) stale_prune_converges [OF r c(2,3) m r'] show ?thesis by blast
qed

end
