(* ===== verification/Operations.thy ===== *)
theory Operations
  imports Stale_Names Cluster_Rollout
begin

text \<open>
  Declared heavy operations: the registry (\<open>internal/controller/operation_registry.go\<close>), the decision
  which of them runs and which is acknowledged (\<open>operation_plan.go\<close>), the fingerprint that names a
  declared value (\<open>api/v1alpha1/operation_fingerprint.go\<close>), and the wiring that persists the decision
  (\<open>operation_wiring.go\<close>).

  The keyed digest of the fingerprint comes from Go's \<open>crypto\<close> packages; it is a parameter \<open>hmac\<close>. A detail
  text is represented by the arguments it is rendered from.
\<close>

section \<open>The fingerprint\<close>

definition framed :: "string \<Rightarrow> string \<Rightarrow> string" where
  "framed name v = Itoa (int (length name)) @ '':'' @ name @ Itoa (int (length v)) @ '':'' @ v"

definition OperationFingerprint :: "(string \<Rightarrow> string \<Rightarrow> string) \<Rightarrow> string \<Rightarrow> string \<Rightarrow> string \<Rightarrow> string" where
  "OperationFingerprint hmac uid name v = take 16 (hmac uid (framed name v))"

section \<open>The registry\<close>

text \<open>The part of an instance that the registry reads; the master name is that of \<open>spec.sentinel\<close>, if there is one.\<close>

record op_instance =
  lr_UID :: string
  lr_Mode :: string
  lr_MasterName :: "string option"

record heavyOperation =
  ho_Name :: string
  ho_FieldPath :: string
  ho_Modes :: "string list"
  ho_Citation :: string
  ho_Requires :: "string list"
  ho_StallAfter :: duration
  ho_Fingerprint :: "op_instance \<Rightarrow> string"
  ho_Applies :: "(op_instance \<Rightarrow> bool) option"

definition heavyOperations :: "(string \<Rightarrow> string \<Rightarrow> string) \<Rightarrow> heavyOperation list" where
  "heavyOperations hmac =
     [\<lparr>ho_Name = ''SentinelMasterNameRename'', ho_FieldPath = ''spec.sentinel.masterName'', ho_Modes = [''sentinel''],
       ho_Citation = ''LR-050: measured 42.5s in which planForsaken read our own rename churn as a capture'',
       ho_Requires = [], ho_StallAfter = 15 * 60 * second,
       ho_Fingerprint = (\<lambda>lr. OperationFingerprint hmac (lr_UID lr) ''SentinelMasterNameRename''
         (SentinelMasterName (lr_MasterName lr))),
       ho_Applies = Some (\<lambda>lr. lr_Mode lr = ''sentinel'')\<rparr>]"

definition operationsMissingCitation :: "heavyOperation list \<Rightarrow> string list" where
  "operationsMissingCitation ops = sort (map ho_Name (filter (\<lambda>op. TrimSpace (ho_Citation op) = []) ops))"

definition operationsWithDanglingRequires :: "heavyOperation list \<Rightarrow> string list" where
  "operationsWithDanglingRequires ops =
     sort (concat (map (\<lambda>op. map (\<lambda>req. ho_Name op @ '' -> '' @ req)
       (filter (\<lambda>req. req \<notin> ho_Name ` set ops) (ho_Requires op))) ops))"

definition crResidentFieldPaths :: "heavyOperation list \<Rightarrow> string list" where
  "crResidentFieldPaths ops = sort (filter (\<lambda>p. p \<noteq> []) (map ho_FieldPath ops))"

text \<open>
  The search for a cycle. \<open>visit\<close> is the loop over the requirements of the node on top of the stack; a
  call for a requirement that is not visited yet pushes it, runs its loop, pops it and marks it done.
  \<open>Inl\<close> is the cycle that was found. A map that is built by assignments in a loop keeps the last row.
\<close>

datatype visit_state = unvisited | onStack | done_visit

type_synonym visit_map = "string \<Rightarrow> visit_state"

definition requires_of :: "heavyOperation list \<Rightarrow> (string \<rightharpoonup> string list)" where
  "requires_of ops = map_of (rev (map (\<lambda>op. (ho_Name op, ho_Requires op)) ops))"

fun cut_stack :: "string list \<Rightarrow> string \<Rightarrow> string list" where
  "cut_stack [] req = []"
| "cut_stack (n # ns) req = (if n = req then (n # ns) @ [req] else cut_stack ns req)"

definition to_visit :: "heavyOperation list \<Rightarrow> visit_map \<Rightarrow> string set" where
  "to_visit ops state = {n \<in> ho_Name ` set ops. state n = unvisited}"

function (domintros) visit ::
    "heavyOperation list \<Rightarrow> visit_map \<Rightarrow> string list \<Rightarrow> string list \<Rightarrow> string list + visit_map" where
  "visit ops state stack [] = Inr state"
| "visit ops state stack (req # reqs) =
     (case requires_of ops req of
        None \<Rightarrow> visit ops state stack reqs
      | Some deps \<Rightarrow>
          (case state req of
             onStack \<Rightarrow> Inl (cut_stack stack req)
           | done_visit \<Rightarrow> visit ops state stack reqs
           | unvisited \<Rightarrow>
               (case visit ops (state(req := onStack)) (stack @ [req]) deps of
                  Inl cycle \<Rightarrow> Inl cycle
                | Inr state' \<Rightarrow> visit ops (state'(req := done_visit)) stack reqs)))"
  by pat_completeness auto

lemma requires_of_name: "requires_of ops n = Some ds \<Longrightarrow> n \<in> ho_Name ` set ops"
  by (force simp: requires_of_def dest: map_of_SomeD)

lemma finite_to_visit [simp]: "finite (to_visit ops state)"
  by (simp add: to_visit_def)

lemma visit_push:
  "requires_of ops req = Some deps \<Longrightarrow> state req = unvisited \<Longrightarrow>
   to_visit ops (state(req := onStack)) \<subset> to_visit ops state"
  using requires_of_name [of ops req deps] by (auto simp: to_visit_def)

lemma visit_shrinks:
  "visit_dom (ops, state, stack, reqs) \<Longrightarrow> visit ops state stack reqs = Inr state' \<Longrightarrow>
   to_visit ops state' \<subseteq> to_visit ops state"
proof (induction arbitrary: state' rule: visit.pinduct)
  case (2 ops state stack req reqs)
  show ?case
  proof (cases "requires_of ops req")
    case None
    with 2 show ?thesis by (simp add: visit.psimps)
  next
    case (Some deps)
    show ?thesis
    proof (cases "state req")
      case unvisited
      then obtain st where st: "visit ops (state(req := onStack)) (stack @ [req]) deps = Inr st"
        "visit ops (st(req := done_visit)) stack reqs = Inr state'"
        using 2(1) 2(6) Some by (auto simp: visit.psimps split: sum.splits)
      have "to_visit ops st \<subseteq> to_visit ops (state(req := onStack))"
        using 2(3) [OF Some unvisited st(1)] .
      moreover have "to_visit ops state' \<subseteq> to_visit ops (st(req := done_visit))"
        using 2(4) [OF Some unvisited st(1) st(2)] .
      ultimately show ?thesis by (auto simp: to_visit_def split: if_splits)
    qed (use 2 Some in \<open>simp_all add: visit.psimps\<close>)
  qed
qed (simp add: visit.psimps)

lemma visit_pop:
  assumes "requires_of ops req = Some deps" and "state req = unvisited"
    and "visit_dom (ops, state(req := onStack), stack @ [req], deps)"
    and "visit ops (state(req := onStack)) (stack @ [req]) deps = Inr state'"
  shows "to_visit ops (state'(req := done_visit)) \<subset> to_visit ops state"
proof -
  have "to_visit ops (state'(req := done_visit)) \<subseteq> to_visit ops state'" by (auto simp: to_visit_def)
  also have "\<dots> \<subseteq> to_visit ops (state(req := onStack))" using visit_shrinks [OF assms(3,4)] .
  also have "\<dots> \<subset> to_visit ops state" using visit_push [of ops req deps state] assms(1,2) by simp
  finally show ?thesis .
qed

termination visit
proof (relation "inv_image (finite_psubset <*lex*> less_than) (\<lambda>(ops, state, stack, reqs). (to_visit ops state, length reqs))", goal_cases)
  case 1
  then show ?case by auto
next
  case (3 ops state stack req reqs deps)
  with visit_push [of ops req deps state] show ?case by (simp add: finite_psubset_def)
next
  case (4 ops state stack req reqs deps state')
  with visit_pop [of ops req deps state stack state'] show ?case by (simp add: finite_psubset_def)
qed simp_all

fun visit_roots :: "heavyOperation list \<Rightarrow> visit_map \<Rightarrow> heavyOperation list \<Rightarrow> string list option" where
  "visit_roots ops state [] = None"
| "visit_roots ops state (op # rest) =
     (if state (ho_Name op) = unvisited
      then case visit ops (state(ho_Name op := onStack)) [ho_Name op]
                 (case requires_of ops (ho_Name op) of None \<Rightarrow> [] | Some deps \<Rightarrow> deps) of
             Inl cycle \<Rightarrow> Some cycle
           | Inr state' \<Rightarrow> visit_roots ops (state'(ho_Name op := done_visit)) rest
      else visit_roots ops state rest)"

definition operationRequiresCycle :: "heavyOperation list \<Rightarrow> string list option" where
  "operationRequiresCycle ops = visit_roots ops (\<lambda>_. unvisited) ops"

section \<open>The decision\<close>

datatype operation_reason =
    operationReasonConverged
  | operationReasonRunning
  | operationReasonBlocked
  | operationReasonStalled
  | operationReasonQuarantined
  | operationReasonSeeded

record operationCandidate =
  oc_Name :: string
  oc_Fingerprint :: string
  oc_Requires :: "string list"
  oc_StallAfter :: duration

record OperationStatus =
  os_Name :: string
  os_StartedAt :: time
  os_Reason :: operation_reason
  os_Pending :: "string list"

record operationInput =
  on_Candidates :: "operationCandidate list"
  on_Acks :: "string \<rightharpoonup> string"
  on_Quarantined :: bool
  on_Bootstrapping :: bool
  on_Settled :: bool
  on_DriverDone :: bool
  on_DriverBlocked :: bool
  on_Active :: "OperationStatus option"
  on_Now :: time

datatype operation_detail =
    NoDetail
  | HeldByQuarantine string
  | SeededAtBootstrap
  | SeededWithoutRecord
  | AllWaiting
  | CompletedDetail string
  | CompletedQueueBlocked string
  | PastStallAfter string
  | ReportedBlocked string
  | ConvergedStillRolling string
  | InProgress string

record operationPlan =
  op_Run :: string
  op_Report :: string
  op_Pending :: "string list"
  op_Reason :: operation_reason
  op_Ack :: "operationCandidate list"
  op_Detail :: operation_detail

definition operation_plan :: "operation_reason \<Rightarrow> operationPlan" where
  "operation_plan reason =
     \<lparr>op_Run = [], op_Report = [], op_Pending = [], op_Reason = reason, op_Ack = [], op_Detail = NoDetail\<rparr>"

definition operationRunnable :: "operationCandidate list \<Rightarrow> operationCandidate list" where
  "operationRunnable pending =
     filter (\<lambda>c. \<not> list_ex (\<lambda>req. req \<in> oc_Name ` set pending) (oc_Requires c)) pending"

definition operationStalled :: "operationInput \<Rightarrow> operationCandidate \<Rightarrow> bool" where
  "operationStalled inp c =
     (case on_Active inp of
        None \<Rightarrow> False
      | Some a \<Rightarrow> oc_StallAfter c > 0 \<and> os_Name a = oc_Name c \<and> os_StartedAt a \<noteq> 0 \<and>
          Sub (on_Now inp) (os_StartedAt a) > oc_StallAfter c)"

definition operationNames :: "operationCandidate list \<Rightarrow> string list" where
  "operationNames cands = map oc_Name cands"

definition operationExcept :: "operationCandidate list \<Rightarrow> string \<Rightarrow> operationCandidate list" where
  "operationExcept cands name = filter (\<lambda>c. oc_Name c \<noteq> name) cands"

definition unseeded_candidates :: "operationInput \<Rightarrow> operationCandidate list" where
  "unseeded_candidates inp =
     filter (\<lambda>c. on_Acks inp (oc_Name c) = None) (sort_key oc_Name (on_Candidates inp))"

definition pending_candidates :: "operationInput \<Rightarrow> operationCandidate list" where
  "pending_candidates inp =
     filter (\<lambda>c. case on_Acks inp (oc_Name c) of None \<Rightarrow> False | Some ack \<Rightarrow> ack \<noteq> oc_Fingerprint c)
       (sort_key oc_Name (on_Candidates inp))"

text \<open>Row 8: the picked operation is complete, and the queue behind it is released.\<close>

definition complete_operation :: "operationCandidate list \<Rightarrow> operationCandidate \<Rightarrow> operationPlan" where
  "complete_operation pending pick =
     (let remaining = operationExcept pending (oc_Name pick);
          plan = (operation_plan operationReasonConverged)\<lparr>op_Ack := [pick], op_Detail := CompletedDetail (oc_Name pick)\<rparr>
      in case remaining of
           [] \<Rightarrow> plan
         | r # rs \<Rightarrow>
             (case operationRunnable remaining of
                [] \<Rightarrow> plan\<lparr>op_Reason := operationReasonBlocked, op_Report := oc_Name r, op_Pending := operationNames rs,
                      op_Detail := CompletedQueueBlocked (oc_Name pick)\<rparr>
              | n # _ \<Rightarrow> plan\<lparr>op_Reason := operationReasonRunning, op_Run := oc_Name n, op_Report := oc_Name n,
                      op_Pending := operationNames (operationExcept remaining (oc_Name n))\<rparr>))"

text \<open>Rows 7, 9 and 10: the picked operation goes on running.\<close>

definition continue_operation ::
    "operationInput \<Rightarrow> operationCandidate list \<Rightarrow> operationCandidate \<Rightarrow> operationPlan" where
  "continue_operation inp pending pick =
     (let name = oc_Name pick;
          plan = (operation_plan operationReasonRunning)\<lparr>op_Run := name, op_Report := name,
                   op_Pending := operationNames (operationExcept pending name)\<rparr>
      in if operationStalled inp pick then plan\<lparr>op_Reason := operationReasonStalled, op_Detail := PastStallAfter name\<rparr>
         else if on_DriverBlocked inp then plan\<lparr>op_Reason := operationReasonBlocked, op_Detail := ReportedBlocked name\<rparr>
         else if on_DriverDone inp then plan\<lparr>op_Detail := ConvergedStillRolling name\<rparr>
         else plan\<lparr>op_Detail := InProgress name\<rparr>)"

definition planOperation :: "operationInput \<Rightarrow> operationPlan" where
  "planOperation inp =
     (let cands = sort_key oc_Name (on_Candidates inp);
          unseeded = unseeded_candidates inp;
          pending = pending_candidates inp
      in if on_Quarantined inp
         then (case pending of
             [] \<Rightarrow> operation_plan operationReasonConverged
           | c # cs \<Rightarrow> (operation_plan operationReasonQuarantined)\<lparr>op_Report := oc_Name c, op_Pending := operationNames cs,
                 op_Detail := HeldByQuarantine (oc_Name c)\<rparr>)
         else if on_Bootstrapping inp \<and> cands \<noteq> []
         then (operation_plan operationReasonSeeded)\<lparr>op_Ack := cands, op_Detail := SeededAtBootstrap\<rparr>
         else if unseeded \<noteq> []
         then (operation_plan operationReasonSeeded)\<lparr>op_Ack := unseeded, op_Detail := SeededWithoutRecord\<rparr>
         else case pending of
             [] \<Rightarrow> operation_plan operationReasonConverged
           | c # cs \<Rightarrow>
               (case operationRunnable pending of
                  [] \<Rightarrow> (operation_plan operationReasonBlocked)\<lparr>op_Report := oc_Name c, op_Pending := operationNames cs,
                       op_Detail := AllWaiting\<rparr>
                | pick # _ \<Rightarrow>
                    if on_DriverDone inp \<and> on_Settled inp then complete_operation pending pick
                    else continue_operation inp pending pick))"

section \<open>The wiring\<close>

definition operationCandidates :: "op_instance \<Rightarrow> heavyOperation list \<Rightarrow> operationCandidate list" where
  "operationCandidates lr ops =
     map (\<lambda>op. \<lparr>oc_Name = ho_Name op, oc_Fingerprint = ho_Fingerprint op lr, oc_Requires = ho_Requires op,
               oc_StallAfter = ho_StallAfter op\<rparr>)
       (filter (\<lambda>op. case ho_Applies op of None \<Rightarrow> False | Some applies \<Rightarrow> applies lr) ops)"

record OperationAck =
  oa_Name :: string
  oa_Fingerprint :: string
  oa_AcknowledgedAt :: time

text \<open>The condition: status, reason and detail.\<close>

record operation_status =
  ox_Acks :: "OperationAck list"
  ox_Operation :: "OperationStatus option"
  ox_Condition :: "(bool \<times> operation_reason \<times> operation_detail) option"

definition ack_map :: "OperationAck list \<Rightarrow> (string \<rightharpoonup> string)" where
  "ack_map acks = fold (\<lambda>a m. m(oa_Name a \<mapsto> oa_Fingerprint a)) acks Map.empty"

text \<open>The arguments after the status: \<open>quarantinedSince\<close> is set, the instance is being bootstrapped, both
  StatefulSets have settled, and the clock. The driver reports later.\<close>

definition buildOperationInput ::
    "(string \<Rightarrow> string \<Rightarrow> string) \<Rightarrow> op_instance \<Rightarrow> 'a operation_status_scheme \<Rightarrow> bool \<Rightarrow> bool \<Rightarrow> bool \<Rightarrow> time \<Rightarrow> operationInput" where
  "buildOperationInput hmac lr st quarantined bootstrapping rolled now =
     \<lparr>on_Candidates = operationCandidates lr (heavyOperations hmac), on_Acks = ack_map (ox_Acks st),
      on_Quarantined = quarantined, on_Bootstrapping = bootstrapping, on_Settled = rolled,
      on_DriverDone = False, on_DriverBlocked = False, on_Active = ox_Operation st, on_Now = now\<rparr>"

definition instanceStatefulSetsSettled :: "(string \<Rightarrow> api_error + shard_sts) \<Rightarrow> string list \<Rightarrow> bool" where
  "instanceStatefulSetsSettled get names =
     list_all (\<lambda>name. case get name of
        Inr sts \<Rightarrow> statefulSetRolloutSettled (Some sts)
      | Inl NotFound \<Rightarrow> True
      | Inl _ \<Rightarrow> False) names"

definition operationConditionFor :: "operationPlan \<Rightarrow> bool \<times> operation_reason \<times> operation_detail" where
  "operationConditionFor plan = (op_Report plan \<noteq> [], op_Reason plan, op_Detail plan)"

fun upsert_ack :: "operationCandidate \<Rightarrow> time \<Rightarrow> OperationAck list \<Rightarrow> OperationAck list" where
  "upsert_ack c at [] = [\<lparr>oa_Name = oc_Name c, oa_Fingerprint = oc_Fingerprint c, oa_AcknowledgedAt = at\<rparr>]"
| "upsert_ack c at (a # as) =
     (if oa_Name a = oc_Name c then a\<lparr>oa_Fingerprint := oc_Fingerprint c, oa_AcknowledgedAt := at\<rparr> # as
      else a # upsert_ack c at as)"

definition upsertOperationAcks :: "OperationAck list \<Rightarrow> operationCandidate list \<Rightarrow> time \<Rightarrow> OperationAck list" where
  "upsertOperationAcks existing ack at = fold (\<lambda>c. upsert_ack c at) ack existing"

definition operationStatusFor :: "operationPlan \<Rightarrow> OperationStatus option \<Rightarrow> time \<Rightarrow> OperationStatus option" where
  "operationStatusFor plan current at =
     (if op_Report plan = [] then None
      else Some \<lparr>os_Name = op_Report plan,
        os_StartedAt = (case current of
           None \<Rightarrow> at
         | Some c \<Rightarrow> if os_Name c = op_Report plan \<and> os_StartedAt c \<noteq> 0 then os_StartedAt c else at),
        os_Reason = op_Reason plan, os_Pending = op_Pending plan\<rparr>)"

definition operationName :: "OperationStatus option \<Rightarrow> string" where
  "operationName s = (case s of None \<Rightarrow> [] | Some o' \<Rightarrow> os_Name o')"

definition operationStatusEqual :: "OperationStatus option \<Rightarrow> OperationStatus option \<Rightarrow> bool" where
  "operationStatusEqual a b =
     (case (a, b) of
        (Some x, Some y) \<Rightarrow> os_Name x = os_Name y \<and> os_Reason x = os_Reason y \<and> os_Pending x = os_Pending y
      | (None, None) \<Rightarrow> True
      | _ \<Rightarrow> False)"

datatype op_event = WarningEvent operation_reason | NormalEvent operation_reason

definition applyOperationStatus ::
    "status_write \<Rightarrow> operationPlan \<Rightarrow> time \<Rightarrow> ('a operation_status_scheme \<times> 'a operation_status_scheme) \<Rightarrow>
     go_error option \<times> ('a operation_status_scheme \<times> 'a operation_status_scheme) \<times> op_event list" where
  "applyOperationStatus out plan at sts =
     (case sts of (mem, stored) \<Rightarrow>
      let cond = operationConditionFor plan;
          prev = ox_Condition mem;
          desiredOp = operationStatusFor plan (ox_Operation mem) at;
          unchanged = (prev = Some cond \<and> op_Ack plan = [] \<and> operationStatusEqual (ox_Operation mem) desiredOp);
          changed = ((case prev of None \<Rightarrow> True | Some (_, r, _) \<Rightarrow> r \<noteq> op_Reason plan) \<or>
                     operationName (ox_Operation mem) \<noteq> operationName desiredOp);
          latest = stored\<lparr>ox_Acks := (if op_Ack plan = [] then ox_Acks stored
                                      else upsertOperationAcks (ox_Acks stored) (op_Ack plan) at),
                         ox_Operation := operationStatusFor plan (ox_Operation stored) at,
                         ox_Condition := Some cond\<rparr>
      in if unchanged then (None, sts, [])
         else case out of
             ReadFailed e \<Rightarrow> (Some e, sts, [])
           | WriteFailed e \<Rightarrow> (Some e, sts, [])
           | Written \<Rightarrow>
               (None, (mem\<lparr>ox_Acks := ox_Acks latest, ox_Operation := ox_Operation latest, ox_Condition := ox_Condition latest\<rparr>,
                       latest),
                if \<not> changed then []
                else case op_Reason plan of
                    operationReasonBlocked \<Rightarrow> [WarningEvent (op_Reason plan)]
                  | operationReasonStalled \<Rightarrow> [WarningEvent (op_Reason plan)]
                  | operationReasonRunning \<Rightarrow> [NormalEvent (op_Reason plan)]
                  | operationReasonQuarantined \<Rightarrow> [NormalEvent (op_Reason plan)]
                  | _ \<Rightarrow> []))"

definition reconcileOperation ::
    "status_write \<Rightarrow> operationInput \<Rightarrow> ('a operation_status_scheme \<times> 'a operation_status_scheme) \<Rightarrow>
     operationPlan \<times> go_error option \<times> ('a operation_status_scheme \<times> 'a operation_status_scheme) \<times> op_event list" where
  "reconcileOperation out inp sts = (planOperation inp, applyOperationStatus out (planOperation inp) (on_Now inp) sts)"

definition operationDriverReport :: "StaleMasterNamePlan \<Rightarrow> bool \<times> bool" where
  "operationDriverReport plan =
     (case sm_Reason plan of
        staleNamesConverged \<Rightarrow> (True, False)
      | staleNamesForeign \<Rightarrow> (False, True)
      | staleNamesDeferred \<Rightarrow> (False, sm_Gate plan \<noteq> G6)
      | staleNamesPruning \<Rightarrow> (False, False))"

section \<open>The registry has no cycle exactly when the search finds none\<close>

definition requires_edges :: "heavyOperation list \<Rightarrow> (string \<times> string) set" where
  "requires_edges ops = {(a, b). requires_of ops b \<noteq> None \<and>
     (case requires_of ops a of None \<Rightarrow> False | Some deps \<Rightarrow> b \<in> set deps)}"

fun walk :: "('a \<times> 'a) set \<Rightarrow> 'a list \<Rightarrow> bool" where
  "walk r (a # b # ns) = ((a, b) \<in> r \<and> walk r (b # ns))"
| "walk r _ = True"

lemma walk_snoc: "walk r ns \<Longrightarrow> ns \<noteq> [] \<Longrightarrow> (last ns, b) \<in> r \<Longrightarrow> walk r (ns @ [b])"
  by (induction r ns rule: walk.induct) auto

lemma walk_append: "walk r (ms @ ns) \<Longrightarrow> walk r ns"
proof (induction ms)
  case (Cons a ms)
  then show ?case by (cases "ms @ ns") auto
qed simp

lemma walk_trancl: "walk r (a # ns) \<Longrightarrow> ns \<noteq> [] \<Longrightarrow> (a, last ns) \<in> r\<^sup>+"
proof (induction ns arbitrary: a)
  case (Cons b ns)
  then show ?case by (cases "ns = []") (auto intro: trancl_into_trancl2)
qed simp

lemma cut_stack_split:
  assumes "req \<in> set stack"
  obtains ms ns where "stack = ms @ req # ns" and "cut_stack stack req = req # ns @ [req]"
proof -
  have "\<exists>ms ns. stack = ms @ req # ns \<and> cut_stack stack req = req # ns @ [req]"
    using assms
  proof (induction stack)
    case (Cons n stack)
    then show ?case
    proof (cases "n = req")
      case False
      with Cons obtain ms ns where "stack = ms @ req # ns" "cut_stack stack req = req # ns @ [req]" by auto
      then have "n # stack = (n # ms) @ req # ns" "cut_stack (n # stack) req = req # ns @ [req]" using False by auto
      then show ?thesis by blast
    qed force
  qed simp
  then show ?thesis using that by blast
qed

definition closed_walk :: "('a \<times> 'a) set \<Rightarrow> 'a list \<Rightarrow> bool" where
  "closed_walk r c = (2 \<le> length c \<and> hd c = last c \<and> walk r c)"

text \<open>Nodes on the stack form a walk, and the requirements still to be looked at are those of its top.\<close>

definition search_ok :: "heavyOperation list \<Rightarrow> visit_map \<Rightarrow> string list \<Rightarrow> string list \<Rightarrow> bool" where
  "search_ok ops state stack reqs =
     (stack \<noteq> [] \<and> walk (requires_edges ops) stack \<and> (\<forall>n. state n = onStack \<longrightarrow> n \<in> set stack) \<and>
      (\<forall>req \<in> set reqs. requires_of ops req \<noteq> None \<longrightarrow> (last stack, req) \<in> requires_edges ops))"

lemma search_ok_next: "search_ok ops state stack (req # reqs) \<Longrightarrow> search_ok ops state stack reqs"
  by (simp add: search_ok_def)

lemma search_ok_push:
  assumes "search_ok ops state stack (req # reqs)" and "requires_of ops req = Some deps"
  shows "search_ok ops (state(req := onStack)) (stack @ [req]) deps"
proof -
  have e: "(last stack, req) \<in> requires_edges ops" using assms by (auto simp: search_ok_def)
  have "walk (requires_edges ops) (stack @ [req])"
    using assms(1) walk_snoc [OF _ _ e] by (simp add: search_ok_def)
  then show ?thesis using assms by (auto simp: search_ok_def requires_edges_def)
qed

lemma search_ok_hit:
  assumes "search_ok ops state stack (req # reqs)" and "state req = onStack" and "requires_of ops req = Some deps"
  shows "closed_walk (requires_edges ops) (cut_stack stack req)"
proof -
  have "req \<in> set stack" using assms by (simp add: search_ok_def)
  then obtain ms ns where s: "stack = ms @ req # ns" "cut_stack stack req = req # ns @ [req]"
    by (rule cut_stack_split)
  have e: "(last (req # ns), req) \<in> requires_edges ops" using assms s by (auto simp: search_ok_def)
  have w: "walk (requires_edges ops) (req # ns)" using assms(1) walk_append s(1) by (fastforce simp: search_ok_def)
  then have "walk (requires_edges ops) ((req # ns) @ [req])" using e by (intro walk_snoc) simp_all
  then show ?thesis using s(2) by (simp add: closed_walk_def)
qed

text \<open>The states that hold on the stack are untouched by a search that finds nothing.\<close>

lemma visit_stack:
  "visit ops state stack reqs = Inr state' \<Longrightarrow> state' n = onStack \<longleftrightarrow> state n = onStack"
proof (induction ops state stack reqs arbitrary: state' rule: visit.induct)
  case (2 ops state stack req reqs)
  show ?case
    using 2 by (fastforce split: option.splits visit_state.splits sum.splits if_splits)
qed simp

lemma visit_sound:
  "search_ok ops state stack reqs \<Longrightarrow> visit ops state stack reqs = Inl c \<Longrightarrow> closed_walk (requires_edges ops) c"
proof (induction ops state stack reqs rule: visit.induct)
  case (2 ops state stack req reqs)
  show ?case
  proof (cases "requires_of ops req")
    case None
    with 2(1) [OF None search_ok_next [OF 2(5)]] 2(6) show ?thesis by simp
  next
    case (Some deps)
    show ?thesis
    proof (cases "state req")
      case unvisited
      show ?thesis
      proof (cases "visit ops (state(req := onStack)) (stack @ [req]) deps")
        case (Inl c')
        then have "c' = c" using 2(6) Some unvisited by simp
        with 2(2) [OF Some unvisited search_ok_push [OF 2(5) Some]] Inl show ?thesis by blast
      next
        case (Inr st)
        have "search_ok ops (st(req := done_visit)) stack reqs"
          using 2(5) visit_stack [OF Inr] by (auto simp: search_ok_def split: if_splits)
        moreover have "visit ops (st(req := done_visit)) stack reqs = Inl c" using 2(6) Some unvisited Inr by simp
        ultimately show ?thesis using 2(3) [OF Some unvisited Inr] by blast
      qed
    next
      case onStack
      with search_ok_hit [OF 2(5) onStack Some] 2(6) Some show ?thesis by simp
    next
      case done_visit
      with 2(4) [OF Some done_visit search_ok_next [OF 2(5)]] 2(6) Some show ?thesis by simp
    qed
  qed
qed simp

text \<open>A node that is done starts no infinite walk.\<close>

definition done_safe :: "heavyOperation list \<Rightarrow> visit_map \<Rightarrow> bool" where
  "done_safe ops state = (\<forall>n. state n = done_visit \<longrightarrow> n \<in> Wellfounded.acc ((requires_edges ops)\<inverse>))"

lemma done_safe_finish:
  assumes "done_safe ops state" and "requires_of ops n = Some deps"
    and "\<forall>req \<in> set deps. requires_of ops req \<noteq> None \<longrightarrow> state req = done_visit"
  shows "done_safe ops (state(n := done_visit))"
proof -
  have "n \<in> Wellfounded.acc ((requires_edges ops)\<inverse>)"
    using assms by - (rule accI, auto simp: requires_edges_def done_safe_def)
  then show ?thesis using assms(1) by (simp add: done_safe_def)
qed

lemma visit_complete:
  "visit ops state stack reqs = Inr state' \<Longrightarrow> done_safe ops state \<Longrightarrow>
   done_safe ops state' \<and> (\<forall>n. state n = done_visit \<longrightarrow> state' n = done_visit) \<and>
   (\<forall>req \<in> set reqs. requires_of ops req \<noteq> None \<longrightarrow> state' req = done_visit)"
proof (induction ops state stack reqs arbitrary: state' rule: visit.induct)
  case (2 ops state stack req reqs)
  show ?case
  proof (cases "requires_of ops req")
    case None
    with 2 show ?thesis by auto
  next
    case (Some deps)
    show ?thesis
    proof (cases "state req")
      case unvisited
      then obtain st where st: "visit ops (state(req := onStack)) (stack @ [req]) deps = Inr st"
        "visit ops (st(req := done_visit)) stack reqs = Inr state'"
        using 2(5) Some by (auto split: sum.splits)
      have "done_safe ops (state(req := onStack))" using 2(6) by (simp add: done_safe_def)
      note i = 2(2) [OF Some unvisited st(1) this]
      have "done_safe ops (st(req := done_visit))" using i Some by (blast intro: done_safe_finish)
      note j = 2(3) [OF Some unvisited st(1) st(2) this]
      show ?thesis using i j unvisited by auto
    next
      case onStack
      with 2(5) Some show ?thesis by simp
    next
      case done_visit
      with 2(4) [OF Some done_visit] 2(5,6) Some show ?thesis by auto
    qed
  qed
qed simp

lemma requires_of_Some: "op \<in> set ops \<Longrightarrow> \<exists>deps. requires_of ops (ho_Name op) = Some deps"
  by (auto simp: requires_of_def map_of_eq_None_iff image_iff
      simp flip: not_None_eq)

text \<open>The loop over the roots, at whose head every state is done or unvisited.\<close>

lemma visit_roots_exact:
  assumes "set rest \<subseteq> set ops" and "done_safe ops state" and "\<forall>n. state n \<noteq> onStack"
  shows "(\<forall>c. visit_roots ops state rest = Some c \<longrightarrow> closed_walk (requires_edges ops) c) \<and>
    (visit_roots ops state rest = None \<longrightarrow> (\<forall>op \<in> set rest. ho_Name op \<in> Wellfounded.acc ((requires_edges ops)\<inverse>)) \<and>
       (\<forall>n. state n = done_visit \<longrightarrow> n \<in> Wellfounded.acc ((requires_edges ops)\<inverse>)))"
  using assms
proof (induction rest arbitrary: state)
  case Nil
  then show ?case by (simp add: done_safe_def)
next
  case (Cons op rest)
  obtain deps where deps: "requires_of ops (ho_Name op) = Some deps" using requires_of_Some [of op ops] Cons(2) by auto
  show ?case
  proof (cases "state (ho_Name op) = unvisited")
    case False
    then have "state (ho_Name op) = done_visit" using Cons(4) by (cases "state (ho_Name op)") auto
    then show ?thesis using False Cons by (auto simp: done_safe_def)
  next
    case True
    define st0 where "st0 = state(ho_Name op := onStack)"
    have ok: "search_ok ops st0 [ho_Name op] deps"
      using Cons(4) deps by (auto simp: search_ok_def st0_def requires_edges_def)
    have safe0: "done_safe ops st0" using Cons(3) by (simp add: done_safe_def st0_def)
    have step: "visit_roots ops state (op # rest) = (case visit ops st0 [ho_Name op] deps of Inl c \<Rightarrow> Some c
        | Inr st \<Rightarrow> visit_roots ops (st(ho_Name op := done_visit)) rest)"
      using True deps by (simp add: st0_def)
    show ?thesis
    proof (cases "visit ops st0 [ho_Name op] deps")
      case (Inl c)
      then show ?thesis using step visit_sound [OF ok Inl] by simp
    next
      case (Inr st)
      define st1 where "st1 = st(ho_Name op := done_visit)"
      note c = visit_complete [OF Inr safe0]
      have s1: "done_safe ops st1" unfolding st1_def using c deps by (blast intro: done_safe_finish)
      have n1: "\<forall>n. st1 n \<noteq> onStack" using visit_stack [OF Inr] Cons(4) by (auto simp: st1_def st0_def)
      have keep: "\<forall>n. state n = done_visit \<longrightarrow> st1 n = done_visit" using c True by (auto simp: st1_def st0_def)
      have "ho_Name op \<in> Wellfounded.acc ((requires_edges ops)\<inverse>)" using s1 by (simp add: done_safe_def st1_def)
      then show ?thesis using Cons(1) [OF _ s1 n1] Cons(2) Inr step keep by (auto simp flip: st1_def)
    qed
  qed
qed

lemma acyclic_if_acc:
  assumes "\<forall>op \<in> set ops. ho_Name op \<in> Wellfounded.acc ((requires_edges ops)\<inverse>)"
  shows "acyclic (requires_edges ops)"
proof -
  have "n \<in> Wellfounded.acc ((requires_edges ops)\<inverse>)" for n
  proof (cases "n \<in> ho_Name ` set ops")
    case True
    then show ?thesis using assms by auto
  next
    case False
    then have "requires_of ops n = None" using requires_of_name [of ops n] by (cases "requires_of ops n") auto
    then show ?thesis by - (rule accI, simp add: requires_edges_def)
  qed
  then have "wf ((requires_edges ops)\<inverse>)" by (simp add: acc_wfI)
  then show ?thesis using wf_acyclic by (fastforce simp: acyclic_converse)
qed

lemma closed_walk_cyclic: "closed_walk r c \<Longrightarrow> \<not> acyclic r"
proof
  assume c: "closed_walk r c" and a: "acyclic r"
  then obtain x ns where x: "c = x # ns" "ns \<noteq> []" "last ns = x"
    by (cases c) (auto simp: closed_walk_def split: if_splits)
  then have "(x, x) \<in> r\<^sup>+" using walk_trancl [of r x ns] c by (simp add: closed_walk_def)
  then show False using a by (simp add: acyclic_def)
qed

lemmas visit_all = visit_roots_exact [of ops ops "\<lambda>_. unvisited" for ops, simplified]

lemma no_cycle_acyclic: "operationRequiresCycle ops = None \<Longrightarrow> acyclic (requires_edges ops)"
  using visit_all [of ops] acyclic_if_acc [of ops] by (simp add: operationRequiresCycle_def done_safe_def)

text \<open>C37: The check of the registry is exact. The recursive search over the \<open>Requires\<close> edges terminates on every
  registry, including one with cycles, repeated names and edges to unknown operations. It returns nothing exactly
  when the relation of the known edges is acyclic, and what it returns otherwise is a cycle of that relation: a
  closed walk along known edges.\<close>

theorem operationRequiresCycle_exact:
  "(operationRequiresCycle ops = None \<longleftrightarrow> acyclic (requires_edges ops)) \<and>
   (case operationRequiresCycle ops of None \<Rightarrow> True | Some c \<Rightarrow> closed_walk (requires_edges ops) c)"
proof (cases "operationRequiresCycle ops")
  case None
  then show ?thesis using no_cycle_acyclic by simp
next
  case (Some c)
  then have "closed_walk (requires_edges ops) c"
    using visit_all [of ops] by (simp add: operationRequiresCycle_def done_safe_def)
  then show ?thesis using Some closed_walk_cyclic by auto
qed

section \<open>Fingerprints\<close>

lemma Itoa_no_colon [simp]: "CHR '':'' \<notin> set (Itoa i)"
  using Itoa_plain [of "CHR '':''" i] by (auto simp: is_digit_def)

lemma length_prefix_unique:
  "Itoa (int (length a)) @ '':'' @ a @ x = Itoa (int (length b)) @ '':'' @ b @ y \<longleftrightarrow> a = b \<and> x = y"
proof
  assume e: "Itoa (int (length a)) @ '':'' @ a @ x = Itoa (int (length b)) @ '':'' @ b @ y"
  define ta where "ta = takeWhile (\<lambda>c. c \<noteq> CHR '':'')"
  have ta: "ta (Itoa i @ CHR '':'' # z) = Itoa i" for i z
    unfolding ta_def by (subst takeWhile_append2) (auto dest: Itoa_no_colon [THEN notE])
  have "Itoa (int (length a)) = Itoa (int (length b))" using arg_cong [OF e, of ta] by (simp add: ta del: Itoa_nat_inj)
  then show "a = b \<and> x = y" using e by simp
qed simp

text \<open>The bytes that an operation's fingerprint digests identify the pair of its name and its declared value:
  both are written with their length in front, so no two pairs of strings share an encoding, whatever colons or
  digits they hold. The fingerprint of an operation therefore never mistakes one operation's value for another's
  other than by a collision of the truncated digest.\<close>

lemma fingerprint_framing_injective:
  "(framed name v = framed name' v') = (name = name' \<and> v = v')"
  using length_prefix_unique [of name "Itoa (int (length v)) @ '':'' @ v" name' "Itoa (int (length v')) @ '':'' @ v'"]
    length_prefix_unique [of v "[]" v' "[]"]
  by (simp add: framed_def)

section \<open>Acknowledgments\<close>

abbreviation ack_names :: "OperationAck list \<Rightarrow> string list" where
  "ack_names acks \<equiv> map oa_Name acks"

lemma ack_map_map_of: "ack_map acks = map_of (rev (map (\<lambda>a. (oa_Name a, oa_Fingerprint a)) acks))"
proof -
  have "fold (\<lambda>a m. m(oa_Name a \<mapsto> oa_Fingerprint a)) acks m =
      m ++ map_of (rev (map (\<lambda>a. (oa_Name a, oa_Fingerprint a)) acks))" for m
    by (induction acks arbitrary: m) (auto simp: fun_eq_iff map_add_def split: option.splits)
  from this [of Map.empty] show ?thesis by (simp add: ack_map_def)
qed

lemma upsert_ack_names:
  "set (ack_names (upsert_ack c at acks)) = insert (oc_Name c) (set (ack_names acks))"
  "distinct (ack_names acks) \<Longrightarrow> distinct (ack_names (upsert_ack c at acks))"
proof -
  show n: "set (ack_names (upsert_ack c at acks)) = insert (oc_Name c) (set (ack_names acks))" for acks
    by (induction acks) auto
  show "distinct (ack_names acks) \<Longrightarrow> distinct (ack_names (upsert_ack c at acks))"
    using n by (induction acks) auto
qed

lemma map_of_rev_distinct: "distinct (map fst kvs) \<Longrightarrow> map_of (rev kvs) = map_of kvs"
  by (subst map_of_inject_set) (simp_all flip: rev_map)

lemma ack_map_distinct:
  "distinct (ack_names acks) \<Longrightarrow> ack_map acks = map_of (map (\<lambda>a. (oa_Name a, oa_Fingerprint a)) acks)"
  unfolding ack_map_map_of
  by (rule map_of_rev_distinct) (simp add: comp_def)

lemma ack_map_upsert:
  assumes "distinct (ack_names acks)"
  shows "ack_map (upsert_ack c at acks) = (ack_map acks)(oc_Name c \<mapsto> oc_Fingerprint c)"
proof -
  have "map_of (map (\<lambda>a. (oa_Name a, oa_Fingerprint a)) (upsert_ack c at acks)) =
      (map_of (map (\<lambda>a. (oa_Name a, oa_Fingerprint a)) acks))(oc_Name c \<mapsto> oc_Fingerprint c)"
    by (induction acks) (auto simp: fun_eq_iff)
  then show ?thesis using ack_map_distinct assms upsert_ack_names(2) by metis
qed

definition record_ack :: "operationCandidate \<Rightarrow> (string \<rightharpoonup> string) \<Rightarrow> (string \<rightharpoonup> string)" where
  "record_ack c m = m(oc_Name c \<mapsto> oc_Fingerprint c)"

lemma record_ack_apply: "record_ack c m n = (if n = oc_Name c then Some (oc_Fingerprint c) else m n)"
  by (simp add: record_ack_def)

lemma ack_map_upserts:
  assumes "distinct (ack_names acks)"
  shows "distinct (ack_names (upsertOperationAcks acks cs at)) \<and>
    ack_map (upsertOperationAcks acks cs at) = fold record_ack cs (ack_map acks)"
  using assms
proof (induction cs arbitrary: acks)
  case (Cons c cs)
  from Cons(1) [OF upsert_ack_names(2) [OF Cons(2)]] show ?case
    by (simp add: upsertOperationAcks_def ack_map_upsert [OF Cons(2)] record_ack_def)
qed (simp add: upsertOperationAcks_def)

lemma fold_upd_other: "n \<notin> oc_Name ` set cs \<Longrightarrow> fold record_ack cs m n = m n"
  by (induction cs arbitrary: m) (simp_all add: record_ack_def)

lemma fold_upd_member:
  "c \<in> set cs \<Longrightarrow> distinct (map oc_Name cs) \<Longrightarrow> fold record_ack cs m (oc_Name c) = Some (oc_Fingerprint c)"
proof (induction cs arbitrary: m)
  case (Cons d cs)
  show ?case
  proof (cases "c \<in> set cs")
    case True
    then show ?thesis using Cons by simp
  next
    case False
    then have "d = c" using Cons(2) by simp
    moreover have "record_ack c m (oc_Name c) = Some (oc_Fingerprint c)" by (simp add: record_ack_apply)
    ultimately show ?thesis using fold_upd_other [of "oc_Name c" cs "record_ack c m"] Cons(3) by simp
  qed
qed simp

lemma fold_upd_source:
  "fold record_ack cs m n \<noteq> m n \<Longrightarrow> \<exists>c \<in> set cs. oc_Name c = n \<and> fold record_ack cs m n = Some (oc_Fingerprint c)"
proof (induction cs rule: rev_induct)
  case (snoc c cs)
  then show ?case by (cases "n = oc_Name c") (auto simp: record_ack_apply)
qed simp

lemma set_unseeded: "set (unseeded_candidates inp) = {c \<in> set (on_Candidates inp). on_Acks inp (oc_Name c) = None}"
  by (auto simp: unseeded_candidates_def)

lemma set_pending:
  "set (pending_candidates inp) =
     {c \<in> set (on_Candidates inp). \<exists>a. on_Acks inp (oc_Name c) = Some a \<and> a \<noteq> oc_Fingerprint c}"
  by (auto simp: pending_candidates_def split: option.splits)

lemma operationRunnable_iff:
  "c \<in> set (operationRunnable pending) \<longleftrightarrow>
   c \<in> set pending \<and> (\<forall>req \<in> set (oc_Requires c). req \<notin> oc_Name ` set pending)"
  by (auto simp: operationRunnable_def list_ex_iff)

text \<open>What the decision acknowledges: a seed, or the one operation it picked.\<close>

lemma complete_operation_ack [simp]: "op_Ack (complete_operation pending pick) = [pick]"
  by (simp add: complete_operation_def Let_def operation_plan_def split: list.split)

lemma continue_operation_ack [simp]: "op_Ack (continue_operation inp pending pick) = []"
  by (simp add: continue_operation_def Let_def operation_plan_def)

lemma operation_plan_fields [simp]:
  "op_Ack (operation_plan r) = []" "op_Run (operation_plan r) = []" "op_Report (operation_plan r) = []"
  "op_Reason (operation_plan r) = r"
  by (simp_all add: operation_plan_def)

lemma planOperation_ack:
  "op_Ack (planOperation inp) =
     (if on_Quarantined inp then []
      else if on_Bootstrapping inp \<and> on_Candidates inp \<noteq> [] then sort_key oc_Name (on_Candidates inp)
      else if unseeded_candidates inp \<noteq> [] then unseeded_candidates inp
      else if on_DriverDone inp \<and> on_Settled inp then take 1 (operationRunnable (pending_candidates inp))
      else [])"
proof -
  have "sort_key oc_Name (on_Candidates inp) = [] \<longleftrightarrow> on_Candidates inp = []"
    by (metis length_0_conv length_sort)
  moreover have "operationRunnable [] = []" by (simp add: operationRunnable_def)
  ultimately show ?thesis
    by (auto simp: planOperation_def Let_def split: list.split)
qed

text \<open>The acknowledgments that a pass leaves behind in the stored status.\<close>

lemma reconcileOperation_acks:
  assumes "reconcileOperation out inp sts = (plan, err, sts', ev)"
  shows "ox_Acks (snd sts') =
    (if out = Written \<and> op_Ack (planOperation inp) \<noteq> []
     then upsertOperationAcks (ox_Acks (snd sts)) (op_Ack (planOperation inp)) (on_Now inp) else ox_Acks (snd sts))"
    and "ox_Acks (fst sts) = ox_Acks (snd sts) \<Longrightarrow> ox_Acks (fst sts') = ox_Acks (snd sts')"
  using assms
  by (auto simp: reconcileOperation_def applyOperationStatus_def Let_def split: prod.splits if_splits status_write.splits)

text \<open>C38: No acknowledgment without the work. When a pass changes the recorded fingerprint of an operation, the
  instance was not quarantined, the new value is the fingerprint that a candidate of that name declares, and one
  of two things holds. Either it is a seed: the instance is being bootstrapped, or the pass saw no record at all
  for the name. Or it is a completion: the driver reported done, every StatefulSet had settled, the recorded value
  differed, no operation it requires was still pending, and it is the only operation acknowledged in that pass.\<close>

theorem operation_ack_safe:
  assumes "reconcileOperation out inp sts = (plan, err, sts', ev)"
    and "distinct (map oa_Name (ox_Acks (snd sts)))"
    and "ack_map (ox_Acks (snd sts')) n \<noteq> ack_map (ox_Acks (snd sts)) n"
  shows "\<not> on_Quarantined inp \<and>
    (\<exists>c \<in> set (on_Candidates inp). oc_Name c = n \<and> ack_map (ox_Acks (snd sts')) n = Some (oc_Fingerprint c) \<and>
       c \<in> set (op_Ack plan) \<and>
       (on_Bootstrapping inp \<or> on_Acks inp n = None \<or>
        on_DriverDone inp \<and> on_Settled inp \<and> (\<exists>a. on_Acks inp n = Some a \<and> a \<noteq> oc_Fingerprint c) \<and>
        (\<forall>req \<in> set (oc_Requires c). \<forall>d \<in> set (on_Candidates inp). oc_Name d = req \<longrightarrow>
           on_Acks inp req = Some (oc_Fingerprint d)) \<and>
        op_Ack plan = [c]))"
proof -
  have plan: "plan = planOperation inp" using assms(1) by (simp add: reconcileOperation_def)
  define acks where "acks = op_Ack (planOperation inp)"
  have up: "ack_map (ox_Acks (snd sts')) = fold record_ack acks (ack_map (ox_Acks (snd sts)))"
    using reconcileOperation_acks(1) [OF assms(1)] assms(3) ack_map_upserts [OF assms(2), of acks "on_Now inp"]
    by (auto simp: acks_def split: if_splits)
  obtain c where c: "c \<in> set acks" "oc_Name c = n" "ack_map (ox_Acks (snd sts')) n = Some (oc_Fingerprint c)"
    using fold_upd_source [of acks "ack_map (ox_Acks (snd sts))" n] assms(3) up by auto
  have q: "\<not> on_Quarantined inp" using c(1) by (auto simp: acks_def planOperation_ack)
  have in_cands: "c \<in> set (on_Candidates inp)"
    using c(1) by (auto simp: acks_def planOperation_ack set_unseeded set_pending operationRunnable_iff
        split: if_splits dest!: in_set_takeD)
  show ?thesis
  proof (cases "on_Bootstrapping inp \<or> on_Acks inp n = None")
    case True
    then show ?thesis using q c in_cands plan by (auto simp: acks_def)
  next
    case False
    then have u: "unseeded_candidates inp = []" and d: "on_DriverDone inp" "on_Settled inp"
      and t: "acks = take 1 (operationRunnable (pending_candidates inp))"
      using c(1,2) by (auto simp: acks_def planOperation_ack set_unseeded split: if_splits)
    have one: "acks = [c]" using c(1) t by (cases "operationRunnable (pending_candidates inp)") auto
    have run: "c \<in> set (operationRunnable (pending_candidates inp))" using c(1) t in_set_takeD by metis
    have seen: "\<exists>a. on_Acks inp (oc_Name d') = Some a" if "d' \<in> set (on_Candidates inp)" for d'
      using that u set_unseeded [of inp] by (cases "on_Acks inp (oc_Name d')") auto
    have "on_Acks inp req = Some (oc_Fingerprint d')"
      if "req \<in> set (oc_Requires c)" "d' \<in> set (on_Candidates inp)" "oc_Name d' = req" for req d'
      using run that seen [OF that(2)] by (auto simp: operationRunnable_iff set_pending)
    moreover have "\<exists>a. on_Acks inp n = Some a \<and> a \<noteq> oc_Fingerprint c"
      using run c(2) by (auto simp: operationRunnable_iff set_pending)
    ultimately show ?thesis using q c in_cands plan d one by (auto simp: acks_def)
  qed
qed

section \<open>The queue drains\<close>

definition ready_input ::
    "heavyOperation list \<Rightarrow> op_instance \<Rightarrow> time \<Rightarrow> 'a operation_status_scheme \<Rightarrow> operationInput" where
  "ready_input ops lr now st =
     \<lparr>on_Candidates = operationCandidates lr ops, on_Acks = ack_map (ox_Acks st), on_Quarantined = False,
      on_Bootstrapping = False, on_Settled = True, on_DriverDone = True, on_DriverBlocked = False,
      on_Active = ox_Operation st, on_Now = now\<rparr>"

text \<open>\<open>n\<close> passes in which each driver that runs completes, each pass on the object that the last one left.\<close>

fun ready_passes ::
    "heavyOperation list \<Rightarrow> op_instance \<Rightarrow> (nat \<Rightarrow> time) \<Rightarrow> nat \<Rightarrow>
     ('a operation_status_scheme \<times> 'a operation_status_scheme) \<Rightarrow> ('a operation_status_scheme \<times> 'a operation_status_scheme)" where
  "ready_passes ops lr now 0 sts = sts"
| "ready_passes ops lr now (Suc n) sts =
     (case reconcileOperation Written (ready_input ops lr (now n) (fst (ready_passes ops lr now n sts)))
             (ready_passes ops lr now n sts) of
        (plan, err, sts', ev) \<Rightarrow> sts')"

definition unfinished :: "operationCandidate list \<Rightarrow> (string \<rightharpoonup> string) \<Rightarrow> operationCandidate set" where
  "unfinished cands acks = {c \<in> set cands. acks (oc_Name c) \<noteq> Some (oc_Fingerprint c)}"

lemma candidate_of:
  assumes "c \<in> set (operationCandidates lr ops)"
  obtains op where "op \<in> set ops" "oc_Name c = ho_Name op" "oc_Requires c = ho_Requires op"
  using assms by (auto simp: operationCandidates_def)

lemma requires_of_distinct:
  assumes "distinct (map ho_Name ops)" and "op \<in> set ops"
  shows "requires_of ops (ho_Name op) = Some (ho_Requires op)"
proof -
  have "requires_of ops = map_of (map (\<lambda>op. (ho_Name op, ho_Requires op)) ops)"
    unfolding requires_of_def by (rule map_of_rev_distinct) (simp add: comp_def assms(1))
  then show ?thesis using assms by (simp add: map_of_eq_Some_iff comp_def)
qed

lemma distinct_candidates:
  "distinct (map ho_Name ops) \<Longrightarrow> distinct (map oc_Name (operationCandidates lr ops))"
  by (auto simp: operationCandidates_def comp_def intro: distinct_map_filter)

lemma some_runnable:
  assumes "acyclic (requires_edges ops)" and "distinct (map ho_Name ops)"
    and "set pending \<subseteq> set (operationCandidates lr ops)" and "pending \<noteq> []"
  shows "operationRunnable pending \<noteq> []"
proof -
  have "requires_edges ops \<subseteq> ho_Name ` set ops \<times> ho_Name ` set ops"
    using requires_of_name [of ops] by (fastforce simp: requires_edges_def split: option.splits)
  then have "finite (requires_edges ops)" by (rule finite_subset) simp
  then have wf: "wf ((requires_edges ops)\<inverse>)" using assms(1) by (rule finite_acyclic_wf_converse)
  obtain z where z: "z \<in> oc_Name ` set pending" "\<And>y. (y, z) \<in> (requires_edges ops)\<inverse> \<Longrightarrow> y \<notin> oc_Name ` set pending"
    using wfE_min' [OF wf, of "oc_Name ` set pending"] assms(4) by blast
  then obtain c where c: "c \<in> set pending" "oc_Name c = z" by auto
  obtain op where op: "op \<in> set ops" "oc_Name c = ho_Name op" "oc_Requires c = ho_Requires op"
    using assms(3) c(1) candidate_of by blast
  have "req \<notin> oc_Name ` set pending" if "req \<in> set (oc_Requires c)" for req
  proof
    assume req: "req \<in> oc_Name ` set pending"
    then obtain op' where "op' \<in> set ops" "req = ho_Name op'" using assms(3) candidate_of by (metis imageE subsetD)
    then have "(z, req) \<in> requires_edges ops"
      using requires_of_distinct [OF assms(2)] op c that by (auto simp: requires_edges_def)
    then show False using z(2) [of req] req by simp
  qed
  then have "c \<in> set (operationRunnable pending)" using c(1) by (simp add: operationRunnable_iff)
  then show ?thesis by auto
qed

text \<open>One pass acknowledges at least one candidate that is not finished, and undoes none.\<close>

lemma ready_acks:
  fixes ops lr now st
  defines "inp \<equiv> ready_input ops lr now st"
  assumes "distinct (map ho_Name ops)"
  shows "set (op_Ack (planOperation inp)) \<subseteq> unfinished (operationCandidates lr ops) (ack_map (ox_Acks st))"
    and "distinct (map oc_Name (op_Ack (planOperation inp)))"
proof -
  have cands: "distinct (map oc_Name (on_Candidates inp))"
    using distinct_candidates [OF assms(2)] by (simp add: inp_def ready_input_def)
  have ack: "op_Ack (planOperation inp) = (if unseeded_candidates inp \<noteq> [] then unseeded_candidates inp
      else take 1 (operationRunnable (pending_candidates inp)))"
    by (simp add: planOperation_ack inp_def ready_input_def)
  have "set (op_Ack (planOperation inp)) \<subseteq> unfinished (on_Candidates inp) (on_Acks inp)"
    unfolding ack by (auto simp: unfinished_def set_unseeded set_pending operationRunnable_iff dest!: in_set_takeD)
  then show "set (op_Ack (planOperation inp)) \<subseteq> unfinished (operationCandidates lr ops) (ack_map (ox_Acks st))"
    by (simp add: inp_def ready_input_def)
  have "distinct (map oc_Name (filter P (sort_key oc_Name (on_Candidates inp))))" for P
    using cands by (auto simp: distinct_map intro: inj_on_subset)
  moreover have "length (take 1 xs) \<le> 1 \<Longrightarrow> distinct (map f (take 1 xs))" for f :: "operationCandidate \<Rightarrow> string" and xs
    by (cases xs) auto
  ultimately show "distinct (map oc_Name (op_Ack (planOperation inp)))"
    unfolding ack by (auto simp: unseeded_candidates_def)
qed

lemma ready_pass_progress:
  fixes ops lr now st
  defines "inp \<equiv> ready_input ops lr now st"
  assumes "acyclic (requires_edges ops)" and "distinct (map ho_Name ops)"
    and "unfinished (operationCandidates lr ops) (ack_map (ox_Acks st)) \<noteq> {}"
  shows "op_Ack (planOperation inp) \<noteq> []"
proof (cases "unseeded_candidates inp = []")
  case True
  have "unfinished (on_Candidates inp) (on_Acks inp) \<noteq> {}" using assms(4) by (simp add: inp_def ready_input_def)
  then obtain c where c: "c \<in> set (on_Candidates inp)" "on_Acks inp (oc_Name c) \<noteq> Some (oc_Fingerprint c)"
    by (auto simp: unfinished_def)
  moreover have "on_Acks inp (oc_Name c) \<noteq> None" using True c(1) set_unseeded [of inp] by auto
  ultimately have "c \<in> set (pending_candidates inp)" unfolding set_pending by auto
  then have "pending_candidates inp \<noteq> []" by auto
  then have "operationRunnable (pending_candidates inp) \<noteq> []"
    using some_runnable [OF assms(2,3)] set_pending [of inp] by (auto simp: inp_def ready_input_def)
  then show ?thesis using True by (simp add: planOperation_ack inp_def ready_input_def)
qed (simp add: planOperation_ack inp_def ready_input_def)

lemma unfinished_shrinks:
  assumes "set acks \<subseteq> unfinished cands m" and "distinct (map oc_Name acks)" and "distinct (map oc_Name cands)"
  shows "unfinished cands (fold record_ack acks m) = unfinished cands m - set acks"
proof -
  have "fold record_ack acks m (oc_Name c) = (if c \<in> set acks then Some (oc_Fingerprint c) else m (oc_Name c))"
    if "c \<in> set cands" for c
  proof (cases "c \<in> set acks")
    case True
    then show ?thesis using fold_upd_member [OF _ assms(2)] by simp
  next
    case False
    have "oc_Name c \<notin> oc_Name ` set acks"
      using False that assms(1,3) by (auto simp: unfinished_def distinct_map dest: inj_onD)
    then show ?thesis using False fold_upd_other by simp
  qed
  then show ?thesis by (auto simp: unfinished_def split: if_splits)
qed

lemma card_unfinished: "card (unfinished (operationCandidates lr ops) m) \<le> length ops"
proof -
  have "card (unfinished (operationCandidates lr ops) m) \<le> card (set (operationCandidates lr ops))"
    by (rule card_mono) (auto simp: unfinished_def)
  also have "\<dots> \<le> length (operationCandidates lr ops)" by (rule card_length)
  also have "\<dots> \<le> length ops" by (simp add: operationCandidates_def)
  finally show ?thesis .
qed

lemma ready_passes_acks:
  fixes sts :: "'a operation_status_scheme \<times> 'a operation_status_scheme"
    and ops lr and now :: "nat \<Rightarrow> time"
  assumes "acyclic (requires_edges ops)" and "distinct (map ho_Name ops)"
    and "ox_Acks (fst sts) = ox_Acks (snd sts)" and "distinct (map oa_Name (ox_Acks (snd sts)))"
  defines "s n \<equiv> ready_passes ops lr now n sts"
  shows "ox_Acks (fst (s n)) = ox_Acks (snd (s n)) \<and> distinct (map oa_Name (ox_Acks (snd (s n)))) \<and>
    card (unfinished (operationCandidates lr ops) (ack_map (ox_Acks (snd (s n))))) \<le> length ops - n"
proof (induction n)
  case 0
  then show ?case using assms card_unfinished by (simp add: s_def)
next
  case (Suc n)
  define todo where "todo acks = unfinished (operationCandidates lr ops) (ack_map acks)" for acks
  define inp where "inp = ready_input ops lr (now n) (fst (s n))"
  define acks where "acks = op_Ack (planOperation inp)"
  obtain plan err s' ev where r: "reconcileOperation Written inp (s n) = (plan, err, s', ev)" by (metis prod_cases4)
  have s': "s (Suc n) = s'" using r by (simp add: s_def inp_def)
  have same: "ox_Acks (fst s') = ox_Acks (snd s')" using reconcileOperation_acks(2) [OF r] Suc by simp
  have acks': "ox_Acks (snd s') = upsertOperationAcks (ox_Acks (snd (s n))) acks (on_Now inp)"
    using reconcileOperation_acks(1) [OF r] by (auto simp: acks_def upsertOperationAcks_def)
  have sub: "set acks \<subseteq> todo (ox_Acks (snd (s n)))"
    using ready_acks(1) [OF assms(2), of lr "now n" "fst (s n)"] Suc by (simp add: acks_def inp_def todo_def)
  have up: "distinct (map oa_Name (ox_Acks (snd s')))" "todo (ox_Acks (snd s')) = todo (ox_Acks (snd (s n))) - set acks"
    using ack_map_upserts [of "ox_Acks (snd (s n))" acks "on_Now inp"] Suc acks' sub
      ready_acks(2) [OF assms(2), of lr "now n" "fst (s n)"]
      unfinished_shrinks [OF _ _ distinct_candidates [OF assms(2)], of acks lr "ack_map (ox_Acks (snd (s n)))"]
    by (simp_all add: acks_def inp_def todo_def)
  have fin: "finite (todo (ox_Acks (snd (s n))))" by (simp add: todo_def unfinished_def)
  have "card (todo (ox_Acks (snd s'))) \<le> length ops - Suc n"
  proof (cases "todo (ox_Acks (snd (s n))) = {}")
    case False
    then have "acks \<noteq> []"
      using ready_pass_progress [OF assms(1,2), of lr "fst (s n)" "now n"] Suc by (simp add: acks_def inp_def todo_def)
    then have "todo (ox_Acks (snd s')) \<subset> todo (ox_Acks (snd (s n)))" using sub up(2) by (cases acks) auto
    then have "card (todo (ox_Acks (snd s'))) < card (todo (ox_Acks (snd (s n))))" by (rule psubset_card_mono [OF fin])
    moreover have "card (todo (ox_Acks (snd (s n)))) \<le> length ops - n" using Suc by (simp add: todo_def)
    ultimately show ?thesis by linarith
  qed (simp add: up(2))
  then show ?case using same up(1) s' by (simp add: todo_def)
qed

text \<open>C39: The queue drains. Take any registry with distinct names in which the check finds no cycle, and an instance
  that is neither quarantined nor being bootstrapped, whose StatefulSets stay settled and whose drivers complete.
  Then within one pass per registered operation every operation that applies to the instance is acknowledged with
  the value the spec declares, whatever was recorded before, and the decision is \<open>Converged\<close> from then on.\<close>

theorem operation_queue_drains:
  assumes "operationRequiresCycle ops = None" and "distinct (map ho_Name ops)"
    and "ox_Acks mem = ox_Acks stored" and "distinct (map oa_Name (ox_Acks stored))"
    and "length ops \<le> n"
  shows "(\<forall>c \<in> set (operationCandidates lr ops).
      ack_map (ox_Acks (snd (ready_passes ops lr now n (mem, stored)))) (oc_Name c) = Some (oc_Fingerprint c)) \<and>
    op_Reason (planOperation (ready_input ops lr t (fst (ready_passes ops lr now n (mem, stored))))) =
      operationReasonConverged"
proof -
  define s where "s = ready_passes ops lr now n (mem, stored)"
  have s: "ox_Acks (fst s) = ox_Acks (snd s)" "card (unfinished (operationCandidates lr ops) (ack_map (ox_Acks (snd s)))) = 0"
    using ready_passes_acks [OF no_cycle_acyclic [OF assms(1)] assms(2), of "(mem, stored)" lr now n] assms(3-5)
    by (auto simp: s_def)
  then have all: "\<forall>c \<in> set (operationCandidates lr ops). ack_map (ox_Acks (snd s)) (oc_Name c) = Some (oc_Fingerprint c)"
    by (auto simp: unfinished_def)
  define inp where "inp = ready_input ops lr t (fst s)"
  have "set (unseeded_candidates inp) = {}" "set (pending_candidates inp) = {}"
    unfolding set_unseeded set_pending using all s(1) by (auto simp: inp_def ready_input_def)
  then have "unseeded_candidates inp = []" "pending_candidates inp = []" by simp_all
  then have "op_Reason (planOperation inp) = operationReasonConverged"
    by (simp add: planOperation_def inp_def ready_input_def)
  then show ?thesis using all by (simp add: inp_def s_def)
qed

definition enable_op :: heavyOperation where
  "enable_op = \<lparr>ho_Name = ''Enable'', ho_FieldPath = ''spec.auth'', ho_Modes = [''sentinel''], ho_Citation = ''x'',
     ho_Requires = [], ho_StallAfter = 0, ho_Fingerprint = (\<lambda>_. ''e1''), ho_Applies = Some (\<lambda>_. True)\<rparr>"

definition rotate_op :: heavyOperation where
  "rotate_op = \<lparr>ho_Name = ''Alter'', ho_FieldPath = ''spec.auth'', ho_Modes = [''sentinel''], ho_Citation = ''x'',
     ho_Requires = [''Enable''], ho_StallAfter = 0, ho_Fingerprint = (\<lambda>_. ''r1''), ho_Applies = Some (\<lambda>_. True)\<rparr>"

definition stale_acks :: operation_status where
  "stale_acks = \<lparr>ox_Acks = [\<lparr>oa_Name = ''Alter'', oa_Fingerprint = ''r0'', oa_AcknowledgedAt = 1\<rparr>,
     \<lparr>oa_Name = ''Enable'', oa_Fingerprint = ''e0'', oa_AcknowledgedAt = 1\<rparr>], ox_Operation = None, ox_Condition = None\<rparr>"

definition some_instance :: op_instance where
  "some_instance = \<lparr>lr_UID = ''u'', lr_Mode = ''sentinel'', lr_MasterName = None\<rparr>"

lemma example_registry_acyclic: "operationRequiresCycle [rotate_op, enable_op] = None"
  by (simp add: operationRequiresCycle_def requires_of_def rotate_op_def enable_op_def)

lemma example_candidates:
  "operationCandidates some_instance [rotate_op, enable_op] =
     [\<lparr>oc_Name = ''Alter'', oc_Fingerprint = ''r1'', oc_Requires = [''Enable''], oc_StallAfter = 0\<rparr>,
      \<lparr>oc_Name = ''Enable'', oc_Fingerprint = ''e1'', oc_Requires = [], oc_StallAfter = 0\<rparr>]"
  by (simp add: operationCandidates_def rotate_op_def enable_op_def)

theorem operation_queue_drains_witness:
  "ack_map (ox_Acks stale_acks) ''Alter'' = Some ''r0'' \<and>
   ack_map (ox_Acks (snd (ready_passes [rotate_op, enable_op] some_instance int 2 (stale_acks, stale_acks)))) ''Alter'' = Some ''r1'' \<and>
   ack_map (ox_Acks (snd (ready_passes [rotate_op, enable_op] some_instance int 2 (stale_acks, stale_acks)))) ''Enable'' = Some ''e1''"
proof -
  have "distinct (map ho_Name [rotate_op, enable_op])" "distinct (map oa_Name (ox_Acks stale_acks))"
    by (simp_all add: rotate_op_def enable_op_def stale_acks_def)
  from operation_queue_drains [OF example_registry_acyclic this(1) refl this(2), of 2 some_instance int 0]
  show ?thesis by (simp add: example_candidates stale_acks_def ack_map_def)
qed

theorem operation_ack_safe_witness:
  "\<exists>c \<in> set (operationCandidates some_instance [rotate_op, enable_op]). oc_Name c = ''Enable'' \<and>
     op_Ack (planOperation (ready_input [rotate_op, enable_op] some_instance 5 stale_acks)) = [c]"
proof -
  define inp where "inp = ready_input [rotate_op, enable_op] some_instance 5 stale_acks"
  obtain plan err sts' ev where r: "reconcileOperation Written inp (stale_acks, stale_acks) = (plan, err, sts', ev)"
    by (metis prod_cases4)
  have ack: "op_Ack (planOperation inp) = [\<lparr>oc_Name = ''Enable'', oc_Fingerprint = ''e1'', oc_Requires = [], oc_StallAfter = 0\<rparr>]"
    unfolding inp_def by code_simp
  have "ack_map (ox_Acks (snd sts')) ''Enable'' \<noteq> ack_map (ox_Acks (snd (stale_acks, stale_acks))) ''Enable''"
    using reconcileOperation_acks(1) [OF r] ack by (simp add: upsertOperationAcks_def stale_acks_def ack_map_def)
  moreover have "distinct (map oa_Name (ox_Acks (snd (stale_acks, stale_acks))))" by (simp add: stale_acks_def)
  ultimately show ?thesis
    using operation_ack_safe [OF r, of "''Enable''"] ack by (auto simp: inp_def ready_input_def example_candidates)
qed

end
