(* ===== verification/Sentinel_Pass.thy ===== *)
theory Sentinel_Pass
  imports Operations Auth_Report "HOL-Library.AList"
begin

text \<open>
  The healing pass of the sentinel mode: \<open>reconcileSentinelCluster\<close> of
  \<open>internal/controller/littlered_controller.go\<close> with everything it calls, and Rule R
  (\<open>replica_rescue_plan.go\<close>).

  The environment holds the outcome of every call. The status is split into the parts that the rules own;
  a part that is mirrored has the copy in memory and the stored one. A command carries the rule that sent it.
  A range over a Go map goes over an association list, in an order that the environment chooses.
\<close>

section \<open>Rule R\<close>

definition planReplicaRescue :: "ReplicationState option \<Rightarrow> RedisNodeState list" where
  "planReplicaRescue state =
     (case state of
        None \<Rightarrow> []
      | Some s \<Rightarrow>
          if RealMasterIP s = [] then []
          else sort_key rn_PodName (map snd (filter (\<lambda>(ip, rn).
                 rn_Reachable rn \<and> ip \<noteq> RealMasterIP s \<and> ip \<notin> PromotedIPs s \<and>
                 (rn_Role rn = roleMaster \<or> rn_MasterHost rn \<noteq> RealMasterIP s)) (RedisNodes s))))"

section \<open>The instance and its environment\<close>

record sentinel_instance = op_instance +
  li_Name :: string
  li_Namespace :: string
  li_AuthEnabled :: bool
  li_AuthSecret :: string
  li_Sentinel :: "SentinelSpec option"

record instance_pod = shard_pod_object +
  pq_Name :: string
  pq_PodIP :: string
  pq_Role :: string
  pq_ReadyCondition :: bool

datatype pass_cmd =
    Register redis_cmd
  | Correct redis_cmd
  | Prune string string
  | ResetSentinels "string list" string
  | Rescue string string
  | Elect redis_cmd

datatype pass_event =
    AuthWarning string
  | CaptureWarning string
  | StaleWarning
  | OperationEvent op_event
  | FailoverStalledWarning "string list"

record sentinel_env =
  px_Recovery :: recovery_env
  px_Secret :: "string \<Rightarrow> api_error + (string \<rightharpoonup> string)"
  px_RedisPods :: "go_error + instance_pod list"
  px_SentinelPods :: "go_error + instance_pod list"
  px_AddressPods :: "go_error + instance_pod list"
  px_GetSTS :: "string \<Rightarrow> api_error + shard_sts"
  px_GetRedis :: redis_probe
  px_GetSentinel :: sentinel_probe
  px_RangePods :: "(string \<times> string) list \<Rightarrow> (string \<times> string) list"
  px_RangeSentinels :: "(string \<times> SentinelNodeState) list \<Rightarrow> (string \<times> SentinelNodeState) list"
  px_AuthWrite :: "api_error option"
  px_CaptureWrite :: status_write
  px_Stale :: stale_env
  px_OperationWrite :: status_write
  px_Hmac :: "string \<Rightarrow> string \<Rightarrow> string"
  px_Now :: time
  px_SetTime :: time

record sentinel_status =
  sg_BootstrapRequired :: bool
  sg_Auth :: blocked_cond
  sg_Capture :: "capture_status \<times> capture_status"
  sg_Stale :: stale_condition
  sg_Operation :: "operation_status \<times> operation_status"
  sg_Recovery :: "recovery_status \<times> recovery_status"
  sg_StallNoted :: bool

definition statefulSetName :: "'a sentinel_instance_scheme \<Rightarrow> string" where
  "statefulSetName lr = li_Name lr @ ''-redis''"

definition sentinelStatefulSetName :: "'a sentinel_instance_scheme \<Rightarrow> string" where
  "sentinelStatefulSetName lr = li_Name lr @ ''-sentinel''"

definition getRedisPassword :: "(string \<Rightarrow> api_error + (string \<rightharpoonup> string)) \<Rightarrow> 'a sentinel_instance_scheme \<Rightarrow> string" where
  "getRedisPassword secrets lr =
     (if \<not> li_AuthEnabled lr then []
      else case secrets (li_AuthSecret lr) of
          Inl _ \<Rightarrow> []
        | Inr data \<Rightarrow> (case data ''password'' of None \<Rightarrow> [] | Some p \<Rightarrow> p))"

definition getSentinelAddresses :: "(go_error + instance_pod list) \<Rightarrow> 'a sentinel_instance_scheme \<Rightarrow> string list" where
  "getSentinelAddresses pods lr =
     (li_Name lr @ ''-sentinel.'' @ li_Namespace lr @ ''.svc:26379'') #
     (case pods of
        Inl _ \<Rightarrow> []
      | Inr ps \<Rightarrow> map (\<lambda>p. pq_PodIP p @ '':26379'')
          (filter (\<lambda>p. pq_PodIP p \<noteq> [] \<and> \<not> po_Terminating p \<and> pq_ReadyCondition p) ps))"

section \<open>What the pass reads\<close>

text \<open>The pods by address, later ones over earlier ones, without those that terminate.\<close>

definition pod_map :: "'a instance_pod_scheme list \<Rightarrow> (string \<times> string) list" where
  "pod_map pods =
     fold (\<lambda>p m. if pq_PodIP p = [] \<or> po_Terminating p then m else AList.update (pq_PodIP p) (pq_Name p) m) pods []"

definition owned_ips :: "'a instance_pod_scheme list \<Rightarrow> string list" where
  "owned_ips pods = filter (\<lambda>ip. ip \<noteq> []) (map pq_PodIP pods)"

definition ready_map :: "instance_pod list \<Rightarrow> (string \<rightharpoonup> bool)" where
  "ready_map pods = map_of (rev (map (\<lambda>p. (pq_Name p, redisContainerReady p)) pods))"

definition rolling_of :: "api_error + shard_sts \<Rightarrow> bool" where
  "rolling_of r =
     (case r of
        Inr sts \<Rightarrow> \<not> statefulSetRolloutSettled (Some sts)
      | Inl NotFound \<Rightarrow> False
      | Inl _ \<Rightarrow> True)"

definition pass_state :: "sentinel_env \<Rightarrow> 'a sentinel_instance_scheme \<Rightarrow> instance_pod list \<Rightarrow> instance_pod list \<Rightarrow> ReplicationState" where
  "pass_state env lr redisPods sentinelPods =
     GatherReplicationState (px_GetRedis env) (px_GetSentinel env)
       (px_RangePods env (pod_map redisPods)) (px_RangePods env (pod_map sentinelPods))
       (SentinelMasterName (lr_MasterName lr)) (owned_ips redisPods @ owned_ips sentinelPods)"

definition any_terminating :: "'a instance_pod_scheme list \<Rightarrow> bool" where
  "any_terminating pods = list_ex po_Terminating pods"

section \<open>The rules\<close>

text \<open>MONITOR at one Sentinel and, when it succeeds, the credential and the settings.\<close>

definition register_master ::
    "recovery_env \<Rightarrow> SentinelSpec option \<Rightarrow> string \<Rightarrow> string \<Rightarrow> string \<Rightarrow> redis_cmd list" where
  "register_master env spec password masterIP ip =
     SentinelMonitor ip masterIP (spec_quorum spec) #
     (case en_monitor env ip of
        Some _ \<Rightarrow> []
      | None \<Rightarrow> (if password \<noteq> [] then [SentinelSet ip ''auth-pass'' password] else []) @ applySentinelSettings ip spec)"

definition rule_0 ::
    "recovery_env \<Rightarrow> SentinelSpec option \<Rightarrow> string \<Rightarrow> ReplicationState \<Rightarrow> (string \<times> SentinelNodeState) list \<Rightarrow> redis_cmd list" where
  "rule_0 env spec password state sentinels =
     (if RealMasterIP state = [] then []
      else concat (map (\<lambda>(ip, sn). register_master env spec password (RealMasterIP state) ip)
             (filter (\<lambda>(ip, sn). sn_Reachable sn \<and> \<not> sn_Monitoring sn) sentinels)))"

definition living_master :: "ReplicationState \<Rightarrow> bool" where
  "living_master state \<longleftrightarrow>
     \<not> IsGhost state (RealMasterIP state) \<and>
     (case map_of (RedisNodes state) (RealMasterIP state) of None \<Rightarrow> False | Some rn \<Rightarrow> rn_Reachable rn)"

definition on_ghost_master :: "ReplicationState \<Rightarrow> SentinelNodeState \<Rightarrow> bool" where
  "on_ghost_master state sn \<longleftrightarrow> RealMasterIP state \<noteq> [] \<and> IsGhost state (sn_MasterIP sn) \<and> living_master state"

definition on_wrong_master :: "ReplicationState \<Rightarrow> SentinelNodeState \<Rightarrow> bool" where
  "on_wrong_master state sn \<longleftrightarrow>
     RealMasterIP state \<noteq> [] \<and> sn_MasterIP sn \<noteq> RealMasterIP state \<and> living_master state"

definition ghost_replica :: "ReplicationState \<Rightarrow> SentinelNodeState \<Rightarrow> bool" where
  "ghost_replica state sn \<longleftrightarrow>
     list_ex (\<lambda>r. IsGhost state (ri_IP r) \<and> (Contains (ri_Flags r) ''s_down'' \<or> Contains (ri_Flags r) ''o_down'')) (sn_Replicas sn)"

text \<open>The loop over the Sentinels: its commands, whether one was corrected and whether a ghost replica was seen.\<close>

fun ghost_loop ::
    "recovery_env \<Rightarrow> SentinelSpec option \<Rightarrow> string \<Rightarrow> ReplicationState \<Rightarrow> (string \<times> SentinelNodeState) list \<Rightarrow>
     redis_cmd list \<times> bool \<times> bool" where
  "ghost_loop env spec password state [] = ([], False, False)"
| "ghost_loop env spec password state ((ip, sn) # rest) =
     (if \<not> sn_Reachable sn \<or> \<not> sn_Monitoring sn then ghost_loop env spec password state rest
      else if on_ghost_master state sn \<or> on_wrong_master state sn
      then (case ghost_loop env spec password state rest of
          (cs, _, ghostFound) \<Rightarrow>
            (SentinelRemove ip # register_master env spec password (RealMasterIP state) ip @ cs, True, ghostFound))
      else if ghost_replica state sn then ([], False, True)
      else ghost_loop env spec password state rest)"

definition cluster_whole :: "ReplicationState \<Rightarrow> bool" where
  "cluster_whole state \<longleftrightarrow> int (length (filter rn_Reachable (redis_nodes state))) = SentinelRedisReplicas"

definition applyReplicaRescue :: "ReplicationState \<Rightarrow> pass_cmd list" where
  "applyReplicaRescue state = map (\<lambda>rn. Rescue (rn_IP rn) (RealMasterIP state)) (planReplicaRescue (Some state))"

text \<open>The report of a stalled failover: the in-memory note and the event, sent once.\<close>

definition noteStalledFailover :: "ReplicationState \<Rightarrow> bool \<Rightarrow> bool \<times> pass_event list" where
  "noteStalledFailover state already =
     (True, if already then []
            else [FailoverStalledWarning (sort (map sn_PodName (filter FailoverStalled (sentinel_nodes state))))])"

definition clearStalledFailover :: "bool \<Rightarrow> bool \<times> pass_event list" where
  "clearStalledFailover already = (False, [])"

section \<open>The pass\<close>

text \<open>What was read once and is used throughout: the pods, the state, and the values derived from them.\<close>

record pass_ctx =
  pc_State :: ReplicationState
  pc_RedisMap :: "(string \<times> string) list"
  pc_Terminating :: bool
  pc_Rolling :: bool
  pc_Password :: string

definition recovery_ctx_of :: "sentinel_env \<Rightarrow> 'a sentinel_instance_scheme \<Rightarrow> pass_ctx \<Rightarrow> recovery_ctx" where
  "recovery_ctx_of env lr cx =
     \<lparr>cx_name = li_Name lr, cx_spec = li_Sentinel lr, cx_password = pc_Password cx,
      cx_redisMap = px_RangePods env (pc_RedisMap cx), cx_now = px_Now env\<rparr>"

text \<open>After Rule A: the corrections, the recoveries or the clearing of their markers, Rule D and Rule R.\<close>

definition heal_topology ::
    "sentinel_env \<Rightarrow> 'a sentinel_instance_scheme \<Rightarrow> pass_ctx \<Rightarrow> sentinel_status \<Rightarrow>
     go_panic + (sentinel_status \<times> pass_cmd list)" where
  "heal_topology env lr cx st =
     (let state = pc_State cx in
      case ghost_loop (px_Recovery env) (li_Sentinel lr) (pc_Password cx) state (px_RangeSentinels env (SentinelNodes state)) of
        (corrections, ghostMasterFound, ghostFound) \<Rightarrow>
          if ghostMasterFound then Inr (st, map Correct corrections)
          else case recoverNoMaster (px_Recovery env) (recovery_ctx_of env lr cx) state (sg_Recovery st) of
              Inl p \<Rightarrow> Inl p
            | Inr (leaderless, ghost, elections) \<Rightarrow>
                let st' = st\<lparr>sg_Recovery := (leaderless, ghost)\<rparr>
                in if RealMasterIP state = [] then Inr (st', map Elect elections)
                   else Inr (st',
                     (if GhostReplicaResetSafe state ghostFound (cluster_whole state)
                      then [ResetSentinels (getSentinelAddresses (px_AddressPods env) lr) (SentinelMasterName (lr_MasterName lr))]
                      else []) @ applyReplicaRescue state))"

text \<open>Rule A, and the report of a failover that cannot progress.\<close>

definition guard_and_heal ::
    "sentinel_env \<Rightarrow> 'a sentinel_instance_scheme \<Rightarrow> pass_ctx \<Rightarrow> sentinel_status \<Rightarrow>
     go_panic + (sentinel_status \<times> pass_cmd list \<times> pass_event list)" where
  "guard_and_heal env lr cx st =
     (let state = pc_State cx in
      if pc_Terminating cx \<or> FailoverProgressing state
      then Inr (st, if pc_Terminating cx then [] else applyReplicaRescue state, [])
      else
        case (if FailoverReported state \<and> \<not> FailoverProgressing state then noteStalledFailover state (sg_StallNoted st)
              else clearStalledFailover (sg_StallNoted st)) of
          (noted, evs) \<Rightarrow>
            (case heal_topology env lr cx (st\<lparr>sg_StallNoted := noted\<rparr>) of
               Inl p \<Rightarrow> Inl p
             | Inr (st', cs) \<Rightarrow> Inr (st', cs, evs)))"

text \<open>Step 3: Rule 0, Rule N, the declared operation, and then Rule A.\<close>

definition heal ::
    "sentinel_env \<Rightarrow> 'a sentinel_instance_scheme \<Rightarrow> pass_ctx \<Rightarrow> bool \<Rightarrow> operationInput \<Rightarrow> sentinel_status \<Rightarrow>
     go_panic + (sentinel_status \<times> pass_cmd list \<times> pass_event list)" where
  "heal env lr cx captured opInput st =
     (let state = pc_State cx;
          registrations = rule_0 (px_Recovery env) (li_Sentinel lr) (pc_Password cx) state
            (px_RangeSentinels env (SentinelNodes state))
      in case reconcileStaleMasterNames (px_Stale env) (Some state) (SentinelMasterName (lr_MasterName lr))
                (spec_quorum (li_Sentinel lr)) captured (pc_Rolling cx) (sg_Stale st) of
           (stalePlan, _, staleCond, warned, removals) \<Rightarrow>
             (case operationDriverReport stalePlan of (opDone, opBlocked) \<Rightarrow>
              case reconcileOperation (px_OperationWrite env)
                     (opInput\<lparr>on_DriverDone := opDone, on_DriverBlocked := opBlocked\<rparr>) (sg_Operation st) of
                (opPlan, _, operation, opEvents) \<Rightarrow>
                  (case guard_and_heal env lr cx (st\<lparr>sg_Stale := staleCond, sg_Operation := operation\<rparr>) of
                     Inl p \<Rightarrow> Inl p
                   | Inr (st', cs, evs) \<Rightarrow>
                       Inr (st', map Register registrations @ map (\<lambda>(ip, name). Prune ip name) removals @ cs,
                            (if warned then [StaleWarning] else []) @ map OperationEvent opEvents @ evs))))"

text \<open>Steps 2a to 2d: the report of refused credentials, the capture and the quarantine.\<close>

definition judge_and_heal ::
    "sentinel_env \<Rightarrow> 'a sentinel_instance_scheme \<Rightarrow> pass_ctx \<Rightarrow> (string \<rightharpoonup> bool) \<Rightarrow> sentinel_status \<Rightarrow>
     go_panic + (sentinel_status \<times> pass_cmd list \<times> pass_event list)" where
  "judge_and_heal env lr cx redisReady st =
     (let state = pc_State cx;
          dangerous = quarantineConfigDangerous (li_AuthEnabled lr) (lr_MasterName lr);
          ob = \<lparr>co_State = state, co_Ready = redisReady, co_Rolling = pc_Rolling cx, co_Dangerous = dangerous,
                co_Now = px_Now env, co_SetTime = px_SetTime env, co_Write = px_CaptureWrite env\<rparr>;
          mem = fst (sg_Capture st);
          captured = fp_Captured (fst (capture_plan ob mem));
          opInput = buildOperationInput (px_Hmac env) (op_instance.truncate lr) (fst (sg_Operation st))
            (fs_QuarantinedSince mem \<noteq> None) (fs_Phase mem = PhaseUnset \<or> sg_BootstrapRequired st)
            (instanceStatefulSetsSettled (px_GetSTS env) [statefulSetName lr, sentinelStatefulSetName lr]) (px_Now env)
      in case reportOperatorAuth (px_AuthWrite env) (replicationAuthFailures (Some state)) (sg_Auth st) of
           (_, written, authEvents) \<Rightarrow>
             let st1 = (case written of None \<Rightarrow> st | Some c \<Rightarrow> st\<lparr>sg_Auth := Some c\<rparr>)
             in case capture_step ob (sg_Capture st1) of
                  (next, capture, captureEvents) \<Rightarrow>
                    let st2 = st1\<lparr>sg_Capture := capture\<rparr>;
                        evs = map AuthWarning authEvents @ map CaptureWarning captureEvents
                    in case next of
                         HaltQuarantined \<Rightarrow>
                           (case reconcileOperation (px_OperationWrite env) (opInput\<lparr>on_Quarantined := True\<rparr>) (sg_Operation st2) of
                              (_, _, operation, opEvents) \<Rightarrow>
                                Inr (st2\<lparr>sg_Operation := operation\<rparr>, [], evs @ map OperationEvent opEvents))
                       | HaltForsaken \<Rightarrow> Inr (st2, [], evs)
                       | Proceed \<Rightarrow>
                           (case heal env lr cx captured opInput st2 of
                              Inl p \<Rightarrow> Inl p
                            | Inr (st', cs, evs') \<Rightarrow> Inr (st', cs, evs @ evs')))"

definition pass_ctx_of :: "sentinel_env \<Rightarrow> 'a sentinel_instance_scheme \<Rightarrow> instance_pod list \<Rightarrow> instance_pod list \<Rightarrow> pass_ctx" where
  "pass_ctx_of env lr redisPods sentinelPods =
     \<lparr>pc_State = pass_state env lr redisPods sentinelPods, pc_RedisMap = pod_map redisPods,
      pc_Terminating = any_terminating (redisPods @ sentinelPods),
      pc_Rolling = rolling_of (px_GetSTS env (statefulSetName lr)),
      pc_Password = getRedisPassword (px_Secret env) lr\<rparr>"

definition reconcileSentinelCluster ::
    "sentinel_env \<Rightarrow> 'a sentinel_instance_scheme \<Rightarrow> sentinel_status \<Rightarrow>
     go_panic + (go_error option \<times> sentinel_status \<times> pass_cmd list \<times> pass_event list)" where
  "reconcileSentinelCluster env lr st =
     (if sg_BootstrapRequired st then Inr (None, st, [], [])
      else case px_RedisPods env of
          Inl e \<Rightarrow> Inr (Some e, st, [], [])
        | Inr redisPods \<Rightarrow>
            (case px_SentinelPods env of
               Inl e \<Rightarrow> Inr (Some e, st, [], [])
             | Inr sentinelPods \<Rightarrow>
                 (case judge_and_heal env lr (pass_ctx_of env lr redisPods sentinelPods) (ready_map redisPods) st of
                    Inl p \<Rightarrow> Inl p
                  | Inr (st', cs, evs) \<Rightarrow> Inr (None, st', cs, evs))))"

section \<open>Every command is justified\<close>

fun cmd_ip :: "redis_cmd \<Rightarrow> string" where
  "cmd_ip (ReplicaOfNoOne ip) = ip"
| "cmd_ip (SentinelRemove ip) = ip"
| "cmd_ip (SentinelMonitor ip m q) = ip"
| "cmd_ip (SentinelSet ip k v) = ip"

text \<open>A command at a Sentinel that names no master other than \<open>m\<close>.\<close>

fun points_at :: "string \<Rightarrow> redis_cmd \<Rightarrow> bool" where
  "points_at m (SentinelMonitor ip m' q) = (m' = m)"
| "points_at m (ReplicaOfNoOne ip) = False"
| "points_at m _ = True"

definition quiet :: "pass_ctx \<Rightarrow> bool" where
  "quiet cx \<longleftrightarrow> \<not> pc_Terminating cx \<and> \<not> FailoverProgressing (pc_State cx)"

fun pass_justified ::
    "sentinel_env \<Rightarrow> 'a sentinel_instance_scheme \<Rightarrow> pass_ctx \<Rightarrow> sentinel_status \<Rightarrow> pass_cmd \<Rightarrow> bool" where
  "pass_justified env lr cx st (Register c) =
     (RealMasterIP (pc_State cx) \<noteq> [] \<and> points_at (RealMasterIP (pc_State cx)) c \<and>
      (\<exists>sn. (cmd_ip c, sn) \<in> set (SentinelNodes (pc_State cx)) \<and> sn_Reachable sn \<and> \<not> sn_Monitoring sn))"
| "pass_justified env lr cx st (Correct c) =
     (quiet cx \<and> RealMasterIP (pc_State cx) \<noteq> [] \<and> living_master (pc_State cx) \<and> points_at (RealMasterIP (pc_State cx)) c \<and>
      (\<exists>sn. (cmd_ip c, sn) \<in> set (SentinelNodes (pc_State cx)) \<and> sn_Reachable sn \<and> sn_Monitoring sn \<and>
         sn_MasterIP sn \<noteq> RealMasterIP (pc_State cx)))"
| "pass_justified env lr cx st (Prune ip name) =
     (removable (pc_State cx) (SentinelMasterName (lr_MasterName lr)) (ip, name) \<and>
      prune_gates (pc_State cx) (spec_quorum (li_Sentinel lr)) \<and> sx_IsMonitoring (px_Stale env) ip = Inr True)"
| "pass_justified env lr cx st (ResetSentinels addrs name) =
     (quiet cx \<and> RealMasterIP (pc_State cx) \<noteq> [] \<and> living_master (pc_State cx) \<and> cluster_whole (pc_State cx) \<and>
      HasHealthyKnownReplica (pc_State cx) \<and>
      (\<exists>sn \<in> set (sentinel_nodes (pc_State cx)). sn_Reachable sn \<and> sn_Monitoring sn \<and> ghost_replica (pc_State cx) sn))"
| "pass_justified env lr cx st (Rescue ip m) =
     (\<not> pc_Terminating cx \<and> m = RealMasterIP (pc_State cx) \<and> m \<noteq> [] \<and>
      (\<exists>key rn. (key, rn) \<in> set (RedisNodes (pc_State cx)) \<and> rn_IP rn = ip \<and> rn_Reachable rn \<and> key \<noteq> m \<and>
         key \<notin> PromotedIPs (pc_State cx) \<and> (rn_Role rn = roleMaster \<or> rn_MasterHost rn \<noteq> m)))"
| "pass_justified env lr cx st (Elect c) =
     (quiet cx \<and> RealMasterIP (pc_State cx) = [] \<and>
      (leaderless_signature (pc_State cx) (spec_quorum (li_Sentinel lr)) \<and>
        (\<exists>u. rs_since (fst (sg_Recovery st)) = Some u \<and> leaderlessRecoveryCooldown \<le> Sub (px_Now env) u) \<or>
       ghost_signature (pc_State cx) (spec_quorum (li_Sentinel lr)) \<and>
        (\<exists>u. rs_since (snd (sg_Recovery st)) = Some u \<and> ghostMasterRecoveryCooldown \<le> Sub (px_Now env) u)))"

lemma register_master_points:
  "c \<in> set (register_master env spec password m ip) \<Longrightarrow> cmd_ip c = ip \<and> points_at m c"
  by (auto simp: register_master_def applySentinelSettings_def split: option.splits if_splits)

lemma rule_0_justified:
  assumes "c \<in> set (rule_0 renv (li_Sentinel lr) (pc_Password cx) (pc_State cx) sentinels)"
    and "set sentinels \<subseteq> set (SentinelNodes (pc_State cx))"
  shows "pass_justified env lr cx st (Register c)"
  using assms by (auto simp: rule_0_def split: if_splits dest!: register_master_points)

lemma wrong_master: "on_ghost_master state sn \<or> on_wrong_master state sn \<Longrightarrow>
   RealMasterIP state \<noteq> [] \<and> living_master state \<and> sn_MasterIP sn \<noteq> RealMasterIP state"
  by (auto simp: on_ghost_master_def on_wrong_master_def living_master_def)

lemma ghost_loop_commands:
  "c \<in> set (fst (ghost_loop renv spec password state sentinels)) \<Longrightarrow>
   RealMasterIP state \<noteq> [] \<and> living_master state \<and> points_at (RealMasterIP state) c \<and>
   (\<exists>sn. (cmd_ip c, sn) \<in> set sentinels \<and> sn_Reachable sn \<and> sn_Monitoring sn \<and> sn_MasterIP sn \<noteq> RealMasterIP state)"
proof (induction renv spec password state sentinels rule: ghost_loop.induct)
  case (2 renv spec password state ip sn rest)
  show ?case
  proof (cases "sn_Reachable sn \<and> sn_Monitoring sn \<and> (on_ghost_master state sn \<or> on_wrong_master state sn)")
    case True
    then have "c = SentinelRemove ip \<or> c \<in> set (register_master renv spec password (RealMasterIP state) ip) \<or>
        c \<in> set (fst (ghost_loop renv spec password state rest))"
      using 2(4) by (auto split: prod.splits)
    then show ?thesis
      using True 2(2) wrong_master [of state sn] register_master_points [of c renv spec password "RealMasterIP state" ip]
      by auto
  next
    case False
    then have "c \<in> set (fst (ghost_loop renv spec password state rest))" and
      "\<not> sn_Reachable sn \<or> \<not> sn_Monitoring sn \<or> \<not> ghost_replica state sn"
      using 2(4) by (auto split: if_splits)
    then show ?thesis using False 2(1,3) by auto
  qed
qed simp

lemma ghost_loop_uncorrected:
  "\<not> fst (snd (ghost_loop renv spec password state sentinels)) \<Longrightarrow> fst (ghost_loop renv spec password state sentinels) = []"
  by (induction renv spec password state sentinels rule: ghost_loop.induct) (auto split: prod.splits if_splits)

lemma ghost_loop_ghost:
  "snd (snd (ghost_loop renv spec password state sentinels)) \<Longrightarrow>
   \<exists>x \<in> set sentinels. sn_Reachable (snd x) \<and> sn_Monitoring (snd x) \<and> ghost_replica state (snd x)"
  by (induction renv spec password state sentinels rule: ghost_loop.induct) (auto split: prod.splits if_splits)

lemma rescue_justified:
  assumes "c \<in> set (applyReplicaRescue (pc_State cx))" and "\<not> pc_Terminating cx"
  shows "pass_justified env lr cx st c"
  using assms by (force simp: applyReplicaRescue_def planReplicaRescue_def split: if_splits)

lemma reset_safe:
  assumes "GhostReplicaResetSafe state ghostFound (cluster_whole state)"
  shows "ghostFound \<and> RealMasterIP state \<noteq> [] \<and> living_master state \<and> cluster_whole state \<and> HasHealthyKnownReplica state"
  using assms by (auto simp: GhostReplicaResetSafe_def living_master_def split: if_splits option.splits)

lemma election_justified:
  assumes "recoverNoMaster (px_Recovery env) (recovery_ctx_of env lr cx) (pc_State cx) (sg_Recovery st) = Inr (l, g, cs)"
    and "RealMasterIP (pc_State cx) = []" and "quiet cx" and "c \<in> set cs"
  shows "pass_justified env lr cx st (Elect c)"
proof -
  let ?rx = "recovery_ctx_of env lr cx"
  obtain s1 s2 where sts: "sg_Recovery st = (s1, s2)" by (cases "sg_Recovery st")
  obtain e1 cs1 e2 cs2 where l: "leaderless_pass (px_Recovery env) ?rx (pc_State cx) s1 = Inr (e1, l, cs1)"
    and g: "ghost_pass (px_Recovery env) ?rx (pc_State cx) s2 = Inr (e2, g, cs2)" and cs: "cs = cs1 @ cs2"
    using assms(1) sts by (auto simp: recoverNoMaster_def split: sum.splits)
  have "pass_step leaderless_pass (px_Recovery env, ?rx, pc_State cx) s1 = Inr (l, cs1 \<noteq> [])"
    "pass_step ghost_pass (px_Recovery env, ?rx, pc_State cx) s2 = Inr (g, cs2 \<noteq> [])"
    by (simp_all add: pass_step_def l g)
  note laws = leaderless_pass_law [OF this(1)] ghost_pass_law [OF this(2)]
  from cs assms(4) have "cs1 \<noteq> [] \<or> cs2 \<noteq> []" by auto
  then show ?thesis
    using laws assms(2,3) sts by (auto simp: leaderless_seen_def ghost_seen_def recovery_ctx_of_def)
qed

lemma heal_topology_justified:
  assumes "heal_topology env lr cx st = Inr (st', cs)" and "quiet cx"
    and "set (px_RangeSentinels env (SentinelNodes (pc_State cx))) = set (SentinelNodes (pc_State cx))" and "c \<in> set cs"
  shows "pass_justified env lr cx st c"
proof -
  let ?loop = "ghost_loop (px_Recovery env) (li_Sentinel lr) (pc_Password cx) (pc_State cx)
    (px_RangeSentinels env (SentinelNodes (pc_State cx)))"
  obtain corrections corrected ghostFound where loop: "?loop = (corrections, corrected, ghostFound)" by (cases ?loop)
  show ?thesis
  proof (cases corrected)
    case True
    then obtain r where "c = Correct r" "r \<in> set corrections"
      using assms(1,4) loop by (auto simp: heal_topology_def Let_def)
    then show ?thesis
      using ghost_loop_commands [of r "px_Recovery env" "li_Sentinel lr" "pc_Password cx" "pc_State cx"
          "px_RangeSentinels env (SentinelNodes (pc_State cx))"] loop assms(2,3) by auto
  next
    case False
    then obtain l g elections where r: "recoverNoMaster (px_Recovery env) (recovery_ctx_of env lr cx) (pc_State cx)
        (sg_Recovery st) = Inr (l, g, elections)"
      using assms(1) loop by (auto simp: heal_topology_def Let_def split: sum.splits)
    show ?thesis
    proof (cases "RealMasterIP (pc_State cx) = []")
      case True
      then have "c \<in> Elect ` set elections"
        using assms(1,4) loop r False by (auto simp: heal_topology_def Let_def)
      then show ?thesis using election_justified [OF r True assms(2)] by auto
    next
      case real: False
      then have "c \<in> set (applyReplicaRescue (pc_State cx)) \<or>
          GhostReplicaResetSafe (pc_State cx) ghostFound (cluster_whole (pc_State cx)) \<and> (\<exists>a n. c = ResetSentinels a n)"
        using assms(1,4) loop r False by (auto simp: heal_topology_def Let_def split: if_splits)
      then show ?thesis
        using rescue_justified [of c cx env lr st] assms(2,3) reset_safe [of "pc_State cx" ghostFound]
          ghost_loop_ghost [of "px_Recovery env" "li_Sentinel lr" "pc_Password cx" "pc_State cx"
            "px_RangeSentinels env (SentinelNodes (pc_State cx))"] loop
        by (auto simp: quiet_def)
    qed
  qed
qed

text \<open>The commands after Rule A are of one kind: corrections alone, elections alone, or a reset and rescues.\<close>

fun same_step :: "pass_cmd \<Rightarrow> pass_cmd \<Rightarrow> bool" where
  "same_step (Correct _) (Correct _) = True"
| "same_step (Elect _) (Elect _) = True"
| "same_step (ResetSentinels _ _) (Rescue _ _) = True"
| "same_step (Rescue _ _) (ResetSentinels _ _) = True"
| "same_step (Rescue _ _) (Rescue _ _) = True"
| "same_step (ResetSentinels _ _) (ResetSentinels _ _) = True"
| "same_step (Register _) _ = True"
| "same_step _ (Register _) = True"
| "same_step (Prune _ _) _ = True"
| "same_step _ (Prune _ _) = True"
| "same_step _ _ = False"

lemma same_step_free [simp]:
  "same_step (Register r) d" "same_step d (Register r)" "same_step (Prune ip n) d" "same_step d (Prune ip n)"
  by (cases d; simp)+

lemma rescue_is: "c \<in> set (applyReplicaRescue state) \<Longrightarrow> \<exists>ip m. c = Rescue ip m"
  by (auto simp: applyReplicaRescue_def)

lemma heal_topology_steps:
  assumes "heal_topology env lr cx st = Inr (st', cs)" and "c \<in> set cs" and "d \<in> set cs"
  shows "same_step c d"
  using assms
  by (auto simp: heal_topology_def Let_def split: prod.splits if_splits sum.splits dest!: rescue_is)

lemma justified_status:
  "sg_Recovery st' = sg_Recovery st \<Longrightarrow> pass_justified env lr cx st' c = pass_justified env lr cx st c"
  by (cases c) auto

lemma rescue_steps: "c \<in> set (applyReplicaRescue state) \<Longrightarrow> d \<in> set (applyReplicaRescue state) \<Longrightarrow> same_step c d"
  by (auto simp: applyReplicaRescue_def)

lemma guard_and_heal_justified:
  assumes "guard_and_heal env lr cx st = Inr (st', cs, evs)"
    and "set (px_RangeSentinels env (SentinelNodes (pc_State cx))) = set (SentinelNodes (pc_State cx))"
  shows "(\<forall>c \<in> set cs. pass_justified env lr cx st c) \<and> (\<forall>c \<in> set cs. \<forall>d \<in> set cs. same_step c d)"
proof (cases "quiet cx")
  case False
  then have "cs = (if pc_Terminating cx then [] else applyReplicaRescue (pc_State cx))"
    using assms(1) by (auto simp: guard_and_heal_def Let_def quiet_def)
  then show ?thesis using rescue_justified [of _ cx env lr st] rescue_steps [of _ "pc_State cx"] by auto
next
  case True
  then obtain noted where h: "heal_topology env lr cx (st\<lparr>sg_StallNoted := noted\<rparr>) = Inr (st', cs)"
    using assms(1) by (auto simp: guard_and_heal_def Let_def quiet_def split: prod.splits sum.splits)
  have "pass_justified env lr cx st c" if "c \<in> set cs" for c
    using heal_topology_justified [OF h True assms(2) that] justified_status [of "st\<lparr>sg_StallNoted := noted\<rparr>" st env lr cx c] by simp
  then show ?thesis using heal_topology_steps [OF h] by blast
qed

lemma heal_justified:
  assumes "heal env lr cx captured opInput st = Inr (st', cs, evs)"
    and "set (px_RangeSentinels env (SentinelNodes (pc_State cx))) = set (SentinelNodes (pc_State cx))"
  shows "(\<forall>c \<in> set cs. pass_justified env lr cx st c) \<and> (\<forall>c \<in> set cs. \<forall>d \<in> set cs. same_step c d) \<and>
    (captured \<longrightarrow> (\<forall>ip name. Prune ip name \<notin> set cs))"
proof -
  let ?desired = "SentinelMasterName (lr_MasterName lr)" and ?quorum = "spec_quorum (li_Sentinel lr)"
  let ?regs = "rule_0 (px_Recovery env) (li_Sentinel lr) (pc_Password cx) (pc_State cx) (px_RangeSentinels env (SentinelNodes (pc_State cx)))"
  obtain stalePlan e staleCond warned removals where n:
    "reconcileStaleMasterNames (px_Stale env) (Some (pc_State cx)) ?desired ?quorum captured (pc_Rolling cx) (sg_Stale st) =
       (stalePlan, e, staleCond, warned, removals)" by (metis prod_cases5)
  obtain stc oc cs' evs' where g: "guard_and_heal env lr cx (st\<lparr>sg_Stale := stc, sg_Operation := oc\<rparr>) = Inr (st', cs', evs')"
    and cs: "cs = map Register ?regs @ map (\<lambda>(ip, name). Prune ip name) removals @ cs'"
    using assms(1) n by (auto simp: heal_def Let_def split: prod.splits sum.splits)
  have pr: "removals = snd (executeStaleMasterNamePrune (sx_IsMonitoring (px_Stale env))
      (planStaleMasterNames (Some (pc_State cx)) ?desired ?quorum captured (pc_Rolling cx)))"
    using n by (auto simp: reconcileStaleMasterNames_def Let_def split: prod.splits)
  have prune: "pass_justified env lr cx st (Prune ip name) \<and> \<not> captured" if "(ip, name) \<in> set removals" for ip name
    using removed_removable [OF that [unfolded pr]] pruning_gates by auto
  have rest: "pass_justified env lr cx st c" if "c \<in> set cs'" for c
    using guard_and_heal_justified [OF g assms(2)] that justified_status [of "st\<lparr>sg_Stale := stc, sg_Operation := oc\<rparr>" st env lr cx c] by simp
  have kinds: "(\<exists>r \<in> set ?regs. c = Register r) \<or> (\<exists>ip n. (ip, n) \<in> set removals \<and> c = Prune ip n) \<or> c \<in> set cs'"
    if "c \<in> set cs" for c
    using that cs by auto
  have "Prune ip name \<notin> set cs'" for ip name
    using g by (auto simp: guard_and_heal_def heal_topology_def Let_def split: prod.splits if_splits sum.splits dest!: rescue_is)
  moreover have "same_step c d" if "c \<in> set cs" "d \<in> set cs" for c d
  proof (cases "c \<in> set cs' \<and> d \<in> set cs'")
    case True
    then show ?thesis using guard_and_heal_justified [OF g assms(2)] by blast
  next
    case False
    then show ?thesis using kinds [OF that(1)] kinds [OF that(2)] by auto
  qed
  moreover have "pass_justified env lr cx st c" if "c \<in> set cs" for c
    using kinds [OF that] prune rest rule_0_justified [of _ "px_Recovery env" lr cx "px_RangeSentinels env (SentinelNodes (pc_State cx))" env st]
      assms(2) by blast
  moreover have "\<not> captured" if "Prune ip name \<in> set cs" for ip name
    using kinds [OF that] prune calculation(1) by blast
  ultimately show ?thesis by blast
qed

lemma judge_justified:
  assumes "judge_and_heal env lr cx ready st = Inr (st', cs, evs)"
    and "set (px_RangeSentinels env (SentinelNodes (pc_State cx))) = set (SentinelNodes (pc_State cx))"
  shows "(\<forall>c \<in> set cs. pass_justified env lr cx st c) \<and> (\<forall>c \<in> set cs. \<forall>d \<in> set cs. same_step c d)"
proof (cases "cs = []")
  case False
  then obtain captured opInput st2 evs' where h: "heal env lr cx captured opInput st2 = Inr (st', cs, evs')"
    and s: "sg_Recovery st2 = sg_Recovery st"
    using assms(1)
    by (auto simp: judge_and_heal_def Let_def split: prod.splits option.splits capture_next.splits sum.splits)
  show ?thesis using heal_justified [OF h assms(2)] justified_status [OF s] by blast
qed simp

text \<open>C2: Every command of a healing pass in sentinel mode is justified by the pods and the state that the pass gathered.
  A bare Sentinel is registered only with the real master. A Sentinel is corrected only away from another address, to
  a real master that is one of the live pods and answered. A name is pruned only at a Sentinel that confirms the
  desired one, with the gates of the prune holding. \<open>SENTINEL RESET\<close> is sent only with a ghost replica in evidence, a
  living master, all three Redis pods reachable and a healthy replica known. A pod is pointed at the real master only
  when it follows another address or claims to be a master, is not the master itself and not one that Sentinel has
  just promoted. A master is elected only when none is known, with the signature of its deadlock and after its
  cooldown. While a pod terminates, only registrations and prunes are sent; while a failover progresses, only these
  and rescues. Corrections, elections and the pair of reset and rescues exclude each other in one pass.\<close>

theorem sentinel_pass_justified:
  assumes "reconcileSentinelCluster env lr st = Inr (err, st', cs, evs)" and "cs \<noteq> []"
    and "\<And>xs. set (px_RangeSentinels env xs) = set xs"
  shows "\<exists>redisPods sentinelPods. px_RedisPods env = Inr redisPods \<and> px_SentinelPods env = Inr sentinelPods \<and>
    \<not> sg_BootstrapRequired st \<and>
    (\<forall>c \<in> set cs. pass_justified env lr (pass_ctx_of env lr redisPods sentinelPods) st c) \<and>
    (\<forall>c \<in> set cs. \<forall>d \<in> set cs. same_step c d)"
proof -
  obtain redisPods sentinelPods where p: "px_RedisPods env = Inr redisPods" "px_SentinelPods env = Inr sentinelPods"
    and j: "judge_and_heal env lr (pass_ctx_of env lr redisPods sentinelPods) (ready_map redisPods) st = Inr (st', cs, evs)"
    and b: "\<not> sg_BootstrapRequired st"
    using assms(1,2) by (auto simp: reconcileSentinelCluster_def split: if_splits sum.splits)
  from p b judge_justified [OF j assms(3)] show ?thesis by blast
qed

definition pass_pod :: "string \<Rightarrow> string \<Rightarrow> instance_pod" where
  "pass_pod name ip = \<lparr>po_Revision = ''r'', po_Containers = [(''redis'', True)], po_Conditions = [], po_Terminating = False,
     pq_Name = name, pq_PodIP = ip, pq_Role = [], pq_ReadyCondition = True\<rparr>"

definition pass_redis :: redis_probe where
  "pass_redis name ip = Inr \<lparr>rn_PodName = name, rn_IP = ip, rn_Role = (if ip = ''1'' then ''master'' else ''slave''),
     rn_MasterHost = (if ip = ''1'' then [] else ''9''), rn_LinkStatus = ''up'', rn_Offset = 5, rn_Keys = 1, rn_Replid = ''a'',
     rn_Replid2 = [], rn_Reachable = True, rn_ProbeFailure = ProbeOK, rn_ProbeError = []\<rparr>"

definition pass_sentinel :: sentinel_probe where
  "pass_sentinel name ip masterName = Inr \<lparr>sn_PodName = name, sn_IP = ip, sn_Monitoring = True, sn_MasterIP = ''1'',
     sn_Reachable = True, sn_Replicas = [], sn_MasterFailoverState = [], sn_MasterFlags = ''master'', sn_NumOtherSentinels = 2,
     sn_NumSlaves = 1, sn_MonitoredMasters = [\<lparr>mm_Name = masterName, mm_IP = ''1'', mm_Flags = ''master'', mm_FailoverState = []\<rparr>],
     sn_ProbeFailure = ProbeOK, sn_ProbeError = []\<rparr>"

definition pass_env :: sentinel_env where
  "pass_env = \<lparr>px_Recovery = env_example, px_Secret = (\<lambda>_. Inl NotFound),
     px_RedisPods = Inr [pass_pod ''c-redis-0'' ''1'', pass_pod ''c-redis-1'' ''2''],
     px_SentinelPods = Inr [pass_pod ''c-sentinel-0'' ''5''], px_AddressPods = Inr [],
     px_GetSTS = (\<lambda>_. Inl NotFound), px_GetRedis = pass_redis, px_GetSentinel = pass_sentinel,
     px_RangePods = (\<lambda>m. m), px_RangeSentinels = (\<lambda>m. m), px_AuthWrite = None, px_CaptureWrite = Written,
     px_Stale = \<lparr>sx_IsMonitoring = (\<lambda>_. Inr True), sx_Write = Written\<rparr>, px_OperationWrite = Written,
     px_Hmac = (\<lambda>_ _. ''h''), px_Now = 100, px_SetTime = 100\<rparr>"

definition pass_instance :: sentinel_instance where
  "pass_instance = \<lparr>lr_UID = ''u'', lr_Mode = ''sentinel'', lr_MasterName = Some ''m'', li_Name = ''c'', li_Namespace = ''n'',
     li_AuthEnabled = False, li_AuthSecret = [], li_Sentinel = None\<rparr>"

definition pass_status :: sentinel_status where
  "pass_status = \<lparr>sg_BootstrapRequired = False, sg_Auth = None,
     sg_Capture = (let s = \<lparr>fs_Phase = PhaseRunning, fs_ForsakenSince = None, fs_QuarantinedSince = None, fs_QuarantineAttempts = 0, fs_Forsaken = None\<rparr> in (s, s)),
     sg_Stale = None, sg_Operation = (let s = \<lparr>ox_Acks = [], ox_Operation = None, ox_Condition = None\<rparr> in (s, s)),
     sg_Recovery = (status_example, status_example), sg_StallNoted = False\<rparr>"

lemma pass_example_commands:
  "map_sum (\<lambda>_. ()) (\<lambda>(e, s, cs, evs). (e, cs)) (reconcileSentinelCluster pass_env pass_instance pass_status) =
   Inr (None, [Rescue ''2'' ''1''])"
  by code_simp

lemma pass_example:
  obtains st' evs where "reconcileSentinelCluster pass_env pass_instance pass_status = Inr (None, st', [Rescue ''2'' ''1''], evs)"
  using pass_example_commands by (cases "reconcileSentinelCluster pass_env pass_instance pass_status") auto

theorem sentinel_pass_justified_witness:
  "\<exists>redisPods sentinelPods. px_RedisPods pass_env = Inr redisPods \<and> px_SentinelPods pass_env = Inr sentinelPods \<and>
    pass_justified pass_env pass_instance (pass_ctx_of pass_env pass_instance redisPods sentinelPods) pass_status (Rescue ''2'' ''1'')"
proof -
  obtain st' evs where r: "reconcileSentinelCluster pass_env pass_instance pass_status = Inr (None, st', [Rescue ''2'' ''1''], evs)"
    by (rule pass_example)
  have "set (px_RangeSentinels pass_env xs) = set xs" for xs by (simp add: pass_env_def)
  from sentinel_pass_justified [OF r _ this] show ?thesis by auto
qed

section \<open>A declared operation suppresses nothing\<close>

abbreviation other_operation :: "status_write \<Rightarrow> (string \<Rightarrow> string \<Rightarrow> string) \<Rightarrow> sentinel_env \<Rightarrow> sentinel_env" where
  "other_operation w h env \<equiv> env\<lparr>px_OperationWrite := w, px_Hmac := h\<rparr>"

lemma heal_topology_operation:
  "heal_topology (other_operation w h env) lr cx (st\<lparr>sg_Operation := ops\<rparr>) =
     map_sum id (\<lambda>(st', cs). (st'\<lparr>sg_Operation := ops\<rparr>, cs)) (heal_topology env lr cx st)"
  by (auto simp: heal_topology_def recovery_ctx_of_def Let_def split: prod.splits sum.splits)

lemma operation_last:
  "(st :: sentinel_status)\<lparr>sg_Operation := ops, sg_StallNoted := n\<rparr> = st\<lparr>sg_StallNoted := n, sg_Operation := ops\<rparr>"
  "(st :: sentinel_status)\<lparr>sg_Operation := ops, sg_Stale := c\<rparr> = st\<lparr>sg_Stale := c, sg_Operation := ops\<rparr>"
  "(st :: sentinel_status)\<lparr>sg_Operation := ops, sg_Auth := a\<rparr> = st\<lparr>sg_Auth := a, sg_Operation := ops\<rparr>"
  "(st :: sentinel_status)\<lparr>sg_Operation := ops, sg_Capture := k\<rparr> = st\<lparr>sg_Capture := k, sg_Operation := ops\<rparr>"
  by simp_all

lemma guard_and_heal_operation:
  "guard_and_heal (other_operation w h env) lr cx (st\<lparr>sg_Operation := ops\<rparr>) =
     map_sum id (\<lambda>(st', cs, evs). (st'\<lparr>sg_Operation := ops\<rparr>, cs, evs)) (guard_and_heal env lr cx st)"
  by (auto simp: guard_and_heal_def Let_def noteStalledFailover_def clearStalledFailover_def operation_last(1)
      heal_topology_operation split: sum.splits)

text \<open>The result of a pass without the status of the operation and the events.\<close>

definition forget_operation :: "(operation_status \<times> operation_status) \<Rightarrow> sentinel_status \<times> pass_cmd list \<times> pass_event list \<Rightarrow> sentinel_status \<times> pass_cmd list" where
  "forget_operation x r = ((fst r)\<lparr>sg_Operation := x\<rparr>, fst (snd r))"

lemma guard_forget:
  "map_sum id (forget_operation x) (guard_and_heal (other_operation w h env) lr cx (st\<lparr>sg_Operation := ops\<rparr>)) =
   map_sum id (forget_operation x) (guard_and_heal env lr cx st)"
  unfolding guard_and_heal_operation by (cases "guard_and_heal env lr cx st") (auto simp: forget_operation_def)

lemma guard_forget_same:
  "map_sum id (forget_operation x) (guard_and_heal env lr cx (st\<lparr>sg_Operation := ops\<rparr>)) =
   map_sum id (forget_operation x) (guard_and_heal env lr cx st)"
  using guard_forget [where w = "px_OperationWrite env" and h = "px_Hmac env" and env = env] by simp

definition with_prefix :: "pass_cmd list \<Rightarrow> sentinel_status \<times> pass_cmd list \<Rightarrow> sentinel_status \<times> pass_cmd list" where
  "with_prefix pre r = (fst r, pre @ snd r)"

lemma heal_forget:
  fixes st :: sentinel_status and env cx and captured and lr :: "'a sentinel_instance_scheme"
  defines "n \<equiv> reconcileStaleMasterNames (px_Stale env) (Some (pc_State cx)) (SentinelMasterName (lr_MasterName lr))
    (spec_quorum (li_Sentinel lr)) captured (pc_Rolling cx) (sg_Stale st)"
  shows "map_sum id (forget_operation x) (heal env lr cx captured opInput st) =
    map_sum id (with_prefix (map Register (rule_0 (px_Recovery env) (li_Sentinel lr) (pc_Password cx) (pc_State cx)
          (px_RangeSentinels env (SentinelNodes (pc_State cx)))) @
        map (\<lambda>(ip, name). Prune ip name) (snd (snd (snd (snd n))))))
      (map_sum id (forget_operation x) (guard_and_heal env lr cx (st\<lparr>sg_Stale := fst (snd (snd n))\<rparr>)))"
proof -
  obtain plan e c warned removals where n: "n = (plan, e, c, warned, removals)" by (metis prod_cases5)
  obtain d b where r: "operationDriverReport plan = (d, b)" by (cases "operationDriverReport plan")
  obtain p e' op evs where o: "reconcileOperation (px_OperationWrite env) (opInput\<lparr>on_DriverDone := d, on_DriverBlocked := b\<rparr>)
      (sg_Operation st) = (p, e', op, evs)" by (metis prod_cases4)
  have "map_sum id (forget_operation x) (heal env lr cx captured opInput st) =
    map_sum id (with_prefix (map Register (rule_0 (px_Recovery env) (li_Sentinel lr) (pc_Password cx) (pc_State cx)
          (px_RangeSentinels env (SentinelNodes (pc_State cx)))) @ map (\<lambda>(ip, name). Prune ip name) removals))
      (map_sum id (forget_operation x) (guard_and_heal env lr cx (st\<lparr>sg_Stale := c, sg_Operation := op\<rparr>)))"
    using n r o unfolding n_def
    by (cases "guard_and_heal env lr cx (st\<lparr>sg_Stale := c, sg_Operation := op\<rparr>)")
       (auto simp: heal_def Let_def forget_operation_def with_prefix_def)
  then show ?thesis unfolding guard_forget_same by (simp add: n)
qed

lemma heal_operation:
  "map_sum id (forget_operation x) (heal (other_operation w h env) lr cx captured opInput' (st\<lparr>sg_Operation := ops\<rparr>)) =
   map_sum id (forget_operation x) (heal env lr cx captured opInput st)"
  unfolding heal_forget operation_last(2) guard_forget by simp

lemma forget_events [simp]:
  "map_sum id (forget_operation x) (case r of Inl p \<Rightarrow> Inl p | Inr (s, cs, evs') \<Rightarrow> Inr (s, cs, evs @ evs')) =
   map_sum id (forget_operation x) r"
  by (cases r) (auto simp: forget_operation_def)

lemma judge_operation:
  "map_sum id (forget_operation x) (judge_and_heal (other_operation w h env) lr cx ready (st\<lparr>sg_Operation := ops\<rparr>)) =
   map_sum id (forget_operation x) (judge_and_heal env lr cx ready st)"
proof -
  let ?ob = "\<lparr>co_State = pc_State cx, co_Ready = ready, co_Rolling = pc_Rolling cx,
    co_Dangerous = quarantineConfigDangerous (li_AuthEnabled lr) (lr_MasterName lr),
    co_Now = px_Now env, co_SetTime = px_SetTime env, co_Write = px_CaptureWrite env\<rparr>"
  obtain e written authEvents where a: "reportOperatorAuth (px_AuthWrite env) (replicationAuthFailures (Some (pc_State cx))) (sg_Auth st) =
    (e, written, authEvents)" by (metis prod_cases3)
  define st1 where "st1 = (case written of None \<Rightarrow> st | Some c \<Rightarrow> st\<lparr>sg_Auth := Some c\<rparr>)"
  have st1: "(case written of None \<Rightarrow> st\<lparr>sg_Operation := ops\<rparr> | Some c \<Rightarrow> st\<lparr>sg_Operation := ops, sg_Auth := Some c\<rparr>) =
      st1\<lparr>sg_Operation := ops\<rparr>" "sg_Capture st1 = sg_Capture st"
    by (auto simp: st1_def split: option.split)
  obtain nx capture evs where c: "capture_step ?ob (sg_Capture st) = (nx, capture, evs)" by (metis prod_cases3)
  note heal = heal_operation [where x = x and w = w and h = h and env = env and lr = lr and cx = cx and st = "st1\<lparr>sg_Capture := capture\<rparr>" and ops = ops]
  show ?thesis
  proof (cases nx)
    case HaltQuarantined
    then show ?thesis
      by (simp add: judge_and_heal_def Let_def a c st1 st1_def [symmetric] operation_last(4) split: prod.split)
         (simp add: forget_operation_def)
  next
    case HaltForsaken
    then show ?thesis
      by (simp add: judge_and_heal_def Let_def a c st1 st1_def [symmetric] operation_last(4) forget_operation_def)
  next
    case Proceed
    then show ?thesis
      using heal by (simp add: judge_and_heal_def Let_def a c st1 st1_def [symmetric] operation_last(4))
  qed
qed


section \<open>The healing converges\<close>

text \<open>What the commands do to the pods: MONITOR registers a master, REMOVE forgets it, SLAVEOF makes a replica.\<close>

fun apply_sentinel :: "redis_cmd \<Rightarrow> SentinelNodeState \<Rightarrow> SentinelNodeState" where
  "apply_sentinel (SentinelRemove ip) sn = sn\<lparr>sn_Monitoring := False, sn_MasterIP := []\<rparr>"
| "apply_sentinel (SentinelMonitor ip m q) sn =
     sn\<lparr>sn_Monitoring := True, sn_MasterIP := m, sn_MasterFlags := ''master'', sn_MasterFailoverState := [], sn_Replicas := []\<rparr>"
| "apply_sentinel _ sn = sn"

fun sentinel_part :: "pass_cmd \<Rightarrow> redis_cmd list" where
  "sentinel_part (Register c) = [c]"
| "sentinel_part (Correct c) = [c]"
| "sentinel_part (Elect c) = [c]"
| "sentinel_part _ = []"

definition sentinel_after :: "pass_cmd list \<Rightarrow> string \<Rightarrow> SentinelNodeState \<Rightarrow> SentinelNodeState" where
  "sentinel_after cs ip sn = fold apply_sentinel (filter (\<lambda>c. cmd_ip c = ip) (concat (map sentinel_part cs))) sn"

definition redis_after :: "pass_cmd list \<Rightarrow> RedisNodeState \<Rightarrow> RedisNodeState" where
  "redis_after cs rn =
     fold (\<lambda>c rn. case c of Rescue ip m \<Rightarrow> if rn_IP rn = ip then rn\<lparr>rn_Role := ''slave'', rn_MasterHost := m\<rparr> else rn | _ \<Rightarrow> rn) cs rn"

definition next_state :: "pass_cmd list \<Rightarrow> ReplicationState \<Rightarrow> ReplicationState" where
  "next_state cs s = DetermineRealMaster (s\<lparr>RedisNodes := map (\<lambda>(ip, rn). (ip, redis_after cs rn)) (RedisNodes s),
     SentinelNodes := map (\<lambda>(ip, sn). (ip, sentinel_after cs ip sn)) (SentinelNodes s),
     RealMasterIP := [], FailoverReported := False, FailoverProgressing := False\<rparr>)"

text \<open>The commands of Rule 0 and of everything from Rule A on.\<close>

definition healing :: "sentinel_env \<Rightarrow> 'a sentinel_instance_scheme \<Rightarrow> pass_ctx \<Rightarrow> sentinel_status \<Rightarrow> pass_cmd list" where
  "healing env lr cx st =
     map Register (rule_0 (px_Recovery env) (li_Sentinel lr) (pc_Password cx) (pc_State cx)
       (px_RangeSentinels env (SentinelNodes (pc_State cx)))) @
     (case guard_and_heal env lr cx st of Inl _ \<Rightarrow> [] | Inr (_, cs, _) \<Rightarrow> cs)"

text \<open>An instance with a living master, at rest.\<close>

definition at_rest :: "string \<Rightarrow> ReplicationState \<Rightarrow> bool" where
  "at_rest m s \<longleftrightarrow> m \<noteq> [] \<and> RealMasterIP s = m \<and> living_master s \<and> keyed_by_ip s \<and>
     distinct (map fst (RedisNodes s)) \<and> distinct (map fst (SentinelNodes s)) \<and>
     list_ex sn_Reachable (sentinel_nodes s) \<and> \<not> FailoverReported s \<and> \<not> FailoverProgressing s \<and>
     list_all (\<lambda>sn. \<not> reports_failover sn \<and> \<not> ghost_replica s sn \<and>
       list_all (\<lambda>r. \<not> hasFlag (ri_Flags r) ''promoted'') (sn_Replicas sn)) (sentinel_nodes s)"

lemma at_rest_promoted: "at_rest m s \<Longrightarrow> PromotedIPs s = {}"
  by (force simp: at_rest_def PromotedIPs_def list_all_iff)

text \<open>The Sentinels that the pass changes.\<close>

definition astray :: "string \<Rightarrow> SentinelNodeState \<Rightarrow> bool" where
  "astray m sn \<longleftrightarrow> sn_Reachable sn \<and> (\<not> sn_Monitoring sn \<or> sn_MasterIP sn \<noteq> m)"

lemma register_block:
  "fold apply_sentinel (register_master env spec password m ip) sn =
     sn\<lparr>sn_Monitoring := True, sn_MasterIP := m, sn_MasterFlags := ''master'', sn_MasterFailoverState := [], sn_Replicas := []\<rparr>"
  by (auto simp: register_master_def applySentinelSettings_def split: option.splits)

lemma filter_register_block:
  "filter (\<lambda>c. cmd_ip c = ip) (register_master env spec password m ip') =
     (if ip = ip' then register_master env spec password m ip' else [])"
proof -
  have "cmd_ip c = ip'" if "c \<in> set (register_master env spec password m ip')" for c
    using register_master_points [OF that] by simp
  then show ?thesis by (auto simp: filter_empty_conv intro!: filter_True)
qed

lemma rule_0_at:
  assumes "(ip, sn) \<in> set sentinels" and "distinct (map fst sentinels)" and "RealMasterIP s \<noteq> []"
  shows "filter (\<lambda>c. cmd_ip c = ip) (rule_0 env spec password s sentinels) =
     (if sn_Reachable sn \<and> \<not> sn_Monitoring sn then register_master env spec password (RealMasterIP s) ip else [])"
  using assms
proof (induction sentinels)
  case (Cons x xs)
  obtain ip' sn' where x: "x = (ip', sn')" by (cases x)
  show ?case
  proof (cases "(ip, sn) = x")
    case True
    have "filter (\<lambda>c. cmd_ip c = ip) (rule_0 env spec password s xs) = []"
      using Cons(3,4) True x
      by (auto simp: rule_0_def filter_concat filter_register_block comp_def case_prod_beta' filter_empty_conv image_iff
          dest!: register_master_points)
    then show ?thesis using True x Cons(4) by (auto simp: rule_0_def filter_register_block)
  next
    case False
    then have "ip \<noteq> ip'" using Cons(2,3) x by (auto simp: image_iff)
    then show ?thesis using Cons False x by (auto simp: rule_0_def filter_register_block)
  qed
qed simp

lemma ghost_loop_at:
  assumes "(ip, sn) \<in> set sentinels" and "distinct (map fst sentinels)" and "living_master s" and "RealMasterIP s \<noteq> []"
    and "list_all (\<lambda>x. \<not> ghost_replica s (snd x)) sentinels"
  shows "filter (\<lambda>c. cmd_ip c = ip) (fst (ghost_loop env spec password s sentinels)) =
     (if sn_Reachable sn \<and> sn_Monitoring sn \<and> sn_MasterIP sn \<noteq> RealMasterIP s
      then SentinelRemove ip # register_master env spec password (RealMasterIP s) ip else [])"
  using assms
proof (induction env spec password s sentinels rule: ghost_loop.induct)
  case (2 env spec password s ip' sn' rest)
  have w: "on_ghost_master s sn' \<or> on_wrong_master s sn' \<longleftrightarrow> sn_MasterIP sn' \<noteq> RealMasterIP s"
  proof
    assume "sn_MasterIP sn' \<noteq> RealMasterIP s"
    then have "on_wrong_master s sn'" using 2(6,7) by (simp add: on_wrong_master_def)
    then show "on_ghost_master s sn' \<or> on_wrong_master s sn'" ..
  qed (use wrong_master [of s sn'] in blast)
  have none: "filter (\<lambda>c. cmd_ip c = ip) (fst (ghost_loop env spec password s rest)) = []" if "ip = ip'"
  proof -
    have "cmd_ip c \<in> fst ` set rest" if "c \<in> set (fst (ghost_loop env spec password s rest))" for c
      using ghost_loop_commands [OF that] by force
    with that 2(5) show ?thesis by (auto simp: filter_empty_conv)
  qed
  have step: "fst (ghost_loop env spec password s ((ip', sn') # rest)) =
      (if sn_Reachable sn' \<and> sn_Monitoring sn' \<and> sn_MasterIP sn' \<noteq> RealMasterIP s
       then SentinelRemove ip' # register_master env spec password (RealMasterIP s) ip' else []) @
      fst (ghost_loop env spec password s rest)"
    using w 2(8) by (simp split: prod.split)
  show ?case
  proof (cases "ip = ip'")
    case True
    then have "sn = sn'" using 2(4,5) by (force simp: image_iff)
    then show ?thesis unfolding step using True none by (simp add: filter_register_block)
  next
    case False
    then have in_rest: "(ip, sn) \<in> set rest" using 2(4) by auto
    have "filter (\<lambda>c. cmd_ip c = ip) (fst (ghost_loop env spec password s rest)) =
     (if sn_Reachable sn \<and> sn_Monitoring sn \<and> sn_MasterIP sn \<noteq> RealMasterIP s
      then SentinelRemove ip # register_master env spec password (RealMasterIP s) ip else [])"
      using 2(1-3) in_rest 2(5-8) w by (cases "sn_Reachable sn' \<and> sn_Monitoring sn'"; cases "sn_MasterIP sn' = RealMasterIP s") auto
    then show ?thesis unfolding step using False by (simp add: filter_register_block)
  qed
qed simp

lemma ghost_loop_flags:
  assumes "living_master s" and "RealMasterIP s \<noteq> []" and "list_all (\<lambda>x. \<not> ghost_replica s (snd x)) sentinels"
  shows "\<not> snd (snd (ghost_loop env spec password s sentinels))"
    and "fst (snd (ghost_loop env spec password s sentinels)) \<longleftrightarrow>
      list_ex (\<lambda>x. sn_Reachable (snd x) \<and> sn_Monitoring (snd x) \<and> sn_MasterIP (snd x) \<noteq> RealMasterIP s) sentinels"
proof -
  show "\<not> snd (snd (ghost_loop env spec password s sentinels))"
    using ghost_loop_ghost [of env spec password s sentinels] assms(3) by (auto simp: list_all_iff)
  have w: "on_ghost_master s sn \<or> on_wrong_master s sn \<longleftrightarrow> sn_MasterIP sn \<noteq> RealMasterIP s" for sn
    using wrong_master [of s sn] assms(1,2) by (auto simp: on_wrong_master_def)
  show "fst (snd (ghost_loop env spec password s sentinels)) \<longleftrightarrow>
      list_ex (\<lambda>x. sn_Reachable (snd x) \<and> sn_Monitoring (snd x) \<and> sn_MasterIP (snd x) \<noteq> RealMasterIP s) sentinels"
    using assms(3)
  proof (induction sentinels)
    case (Cons x xs)
    obtain ip sn where x: "x = (ip, sn)" by (cases x)
    show ?case
      using Cons w [of sn] by (auto simp: x split: prod.splits)
  qed simp
qed

definition settled_master :: "string \<Rightarrow> SentinelNodeState \<Rightarrow> SentinelNodeState" where
  "settled_master m sn = (if astray m sn
     then sn\<lparr>sn_Monitoring := True, sn_MasterIP := m, sn_MasterFlags := ''master'', sn_MasterFailoverState := [], sn_Replicas := []\<rparr>
     else sn)"

lemma healing_at_rest:
  assumes "at_rest m s" and "pc_State cx = s" and "\<not> pc_Terminating cx"
    and "mset (px_RangeSentinels env (SentinelNodes s)) = mset (SentinelNodes s)"
  defines "sentinels \<equiv> px_RangeSentinels env (SentinelNodes s)"
  shows "healing env lr cx st =
    map Register (rule_0 (px_Recovery env) (li_Sentinel lr) (pc_Password cx) s sentinels) @
    (if list_ex (\<lambda>sn. sn_Reachable sn \<and> sn_Monitoring sn \<and> sn_MasterIP sn \<noteq> m) (sentinel_nodes s)
     then map Correct (fst (ghost_loop (px_Recovery env) (li_Sentinel lr) (pc_Password cx) s sentinels))
     else applyReplicaRescue s)"
proof -
  have set: "set sentinels = set (SentinelNodes s)" unfolding sentinels_def by (rule mset_eq_setD [OF assms(4)])
  have nog: "list_all (\<lambda>x. \<not> ghost_replica s (snd x)) sentinels" using assms(1) set by (auto simp: at_rest_def list_all_iff)
  have real: "RealMasterIP s = m" "m \<noteq> []" "living_master s" using assms(1) by (auto simp: at_rest_def)
  note flags = ghost_loop_flags [OF real(3) real(2) [folded real(1)] nog, of "px_Recovery env" "li_Sentinel lr" "pc_Password cx"]
  have ex: "list_ex (\<lambda>x. sn_Reachable (snd x) \<and> sn_Monitoring (snd x) \<and> sn_MasterIP (snd x) \<noteq> RealMasterIP s) sentinels =
      list_ex (\<lambda>sn. sn_Reachable sn \<and> sn_Monitoring sn \<and> sn_MasterIP sn \<noteq> m) (sentinel_nodes s)"
    using set real(1) by (auto simp: list_ex_iff)
  have rec: "recoverNoMaster (px_Recovery env) (recovery_ctx_of env lr cx) s sts =
      Inr (snd (clearSince (px_Recovery env) ''Recovered'' ''A consensus master is known again.'' (fst sts)),
           snd (clearSince (px_Recovery env) ''Recovered'' ''A consensus master is known again.'' (snd sts)), [])" for sts
    using real by (auto simp: recoverNoMaster_def leaderless_pass_def ghost_pass_def no_cmds_def split: prod.split)
  have "FailoverReported s = False" "FailoverProgressing s = False" using assms(1) by (auto simp: at_rest_def)
  then show ?thesis
    using flags ex rec real assms(2,3)
    by (auto simp: healing_def guard_and_heal_def heal_topology_def Let_def clearStalledFailover_def GhostReplicaResetSafe_def
        sentinels_def [symmetric] split: prod.split)
qed

lemma sentinel_parts [simp]:
  "concat (map (sentinel_part \<circ> Register) xs) = xs" "concat (map (sentinel_part \<circ> Correct) xs) = xs"
  "concat (map sentinel_part (applyReplicaRescue s)) = []"
proof -
  show "concat (map (sentinel_part \<circ> Register) xs) = xs" "concat (map (sentinel_part \<circ> Correct) xs) = xs"
    by (induction xs) auto
  show "concat (map sentinel_part (applyReplicaRescue s)) = []" by (auto simp: applyReplicaRescue_def)
qed

lemma sentinel_after_healing:
  assumes "at_rest m s" and "pc_State cx = s" and "\<not> pc_Terminating cx"
    and "mset (px_RangeSentinels env (SentinelNodes s)) = mset (SentinelNodes s)"
    and "(ip, sn) \<in> set (SentinelNodes s)"
  shows "sentinel_after (healing env lr cx st) ip sn = settled_master m sn"
proof -
  define sentinels where "sentinels = px_RangeSentinels env (SentinelNodes s)"
  define loop where "loop = ghost_loop (px_Recovery env) (li_Sentinel lr) (pc_Password cx) s sentinels"
  have ms: "mset sentinels = mset (SentinelNodes s)" using assms(4) by (simp add: sentinels_def)
  have set: "set sentinels = set (SentinelNodes s)" by (rule mset_eq_setD [OF ms])
  have dist: "distinct (map fst sentinels)"
    using assms(1) mset_eq_imp_distinct_iff [of "map fst sentinels" "map fst (SentinelNodes s)"] ms by (simp add: at_rest_def)
  have nog: "list_all (\<lambda>x. \<not> ghost_replica s (snd x)) sentinels" using assms(1) set by (auto simp: at_rest_def list_all_iff)
  have real: "RealMasterIP s = m" "m \<noteq> []" "living_master s" using assms(1) by (auto simp: at_rest_def)
  have "fst loop = []" if "\<not> list_ex (\<lambda>sn. sn_Reachable sn \<and> sn_Monitoring sn \<and> sn_MasterIP sn \<noteq> m) (sentinel_nodes s)"
  proof -
    have "\<not> fst (snd loop)"
      using that ghost_loop_flags(2) [OF real(3) _ nog] real set unfolding loop_def by (auto simp: list_ex_iff)
    then show ?thesis using ghost_loop_uncorrected unfolding loop_def by blast
  qed
  then have "concat (map sentinel_part (healing env lr cx st)) =
      rule_0 (px_Recovery env) (li_Sentinel lr) (pc_Password cx) s sentinels @ fst loop"
    unfolding healing_at_rest [OF assms(1-4)] loop_def sentinels_def by auto
  then have "filter (\<lambda>c. cmd_ip c = ip) (concat (map sentinel_part (healing env lr cx st))) =
      (if sn_Reachable sn \<and> \<not> sn_Monitoring sn then register_master (px_Recovery env) (li_Sentinel lr) (pc_Password cx) m ip else []) @
      (if sn_Reachable sn \<and> sn_Monitoring sn \<and> sn_MasterIP sn \<noteq> m
       then SentinelRemove ip # register_master (px_Recovery env) (li_Sentinel lr) (pc_Password cx) m ip else [])"
    using rule_0_at [OF _ dist, of ip sn s] ghost_loop_at [OF _ dist real(3) _ nog, of ip sn] assms(5) set real
    by (simp add: loop_def)
  then show ?thesis by (auto simp: sentinel_after_def settled_master_def astray_def register_block)
qed

definition strayed :: "string \<Rightarrow> RedisNodeState \<Rightarrow> bool" where
  "strayed m rn \<longleftrightarrow> rn_Reachable rn \<and> rn_IP rn \<noteq> m \<and> (rn_Role rn = roleMaster \<or> rn_MasterHost rn \<noteq> m)"

definition follower :: "string \<Rightarrow> RedisNodeState \<Rightarrow> RedisNodeState" where
  "follower m rn = (if strayed m rn then rn\<lparr>rn_Role := ''slave'', rn_MasterHost := m\<rparr> else rn)"

lemma redis_after_other [simp]:
  "redis_after (map Register xs @ ys) rn = redis_after ys rn" "redis_after (map Correct xs) rn = rn"
proof -
  show c: "redis_after (map Correct xs) rn = rn" by (induction xs arbitrary: rn) (auto simp: redis_after_def)
  show "redis_after (map Register xs @ ys) rn = redis_after ys rn"
    by (induction xs arbitrary: rn) (auto simp: redis_after_def)
qed

lemma redis_after_rescues:
  "redis_after (map (\<lambda>x. Rescue (rn_IP x) m) xs) rn =
     (if rn_IP rn \<in> rn_IP ` set xs then rn\<lparr>rn_Role := ''slave'', rn_MasterHost := m\<rparr> else rn)"
proof (induction xs arbitrary: rn)
  case (Cons x xs)
  show ?case using Cons [of "rn\<lparr>rn_Role := ''slave'', rn_MasterHost := m\<rparr>"] Cons [of rn] by (auto simp: redis_after_def)
qed (simp add: redis_after_def)

lemma keyed_unique:
  assumes "keyed_by_ip s" and "distinct (map fst (RedisNodes s))" and "(a, x) \<in> set (RedisNodes s)" "(b, y) \<in> set (RedisNodes s)"
    and "rn_IP x = rn_IP y"
  shows "x = y"
proof -
  have "rn_IP x = a" "rn_IP y = b" using assms(1,3,4) by (auto simp: keyed_by_ip_def list_all_iff)
  then have "(a, y) \<in> set (RedisNodes s)" using assms(4,5) by simp
  from eq_key_imp_eq_value [OF assms(2,3) this] show ?thesis .
qed

lemma rescue_set:
  assumes "at_rest m s"
  shows "set (planReplicaRescue (Some s)) = {x \<in> set (redis_nodes s). strayed m x}"
proof -
  have r: "RealMasterIP s = m" "m \<noteq> []" "keyed_by_ip s" using assms by (auto simp: at_rest_def)
  have "filter (\<lambda>(ip, rn). rn_Reachable rn \<and> ip \<noteq> RealMasterIP s \<and> ip \<notin> PromotedIPs s \<and>
      (rn_Role rn = roleMaster \<or> rn_MasterHost rn \<noteq> RealMasterIP s)) (RedisNodes s) = filter (\<lambda>x. strayed m (snd x)) (RedisNodes s)"
    using r at_rest_promoted [OF assms] by (intro filter_cong) (auto simp: strayed_def keyed_by_ip_def list_all_iff)
  then have "set (planReplicaRescue (Some s)) = snd ` set (filter (\<lambda>x. strayed m (snd x)) (RedisNodes s))"
    using r by (simp add: planReplicaRescue_def)
  then show ?thesis by (auto simp: image_iff)
qed

lemma redis_after_rescue:
  assumes "at_rest m s" and "(ip, rn) \<in> set (RedisNodes s)"
  shows "redis_after (applyReplicaRescue s) rn = follower m rn"
proof -
  have r: "RealMasterIP s = m" "m \<noteq> []" "keyed_by_ip s" "distinct (map fst (RedisNodes s))"
    using assms(1) by (auto simp: at_rest_def)
  have "rn_IP rn \<in> rn_IP ` set (planReplicaRescue (Some s)) \<longleftrightarrow> strayed m rn"
    using keyed_unique [OF r(3,4) assms(2)] assms(2) unfolding rescue_set [OF assms(1)] by force
  then show ?thesis using r(1) by (simp add: applyReplicaRescue_def redis_after_rescues follower_def)
qed

text \<open>The state after a pass, before the real master is determined anew.\<close>

lemma remdups_replicate_pos: "n > 0 \<Longrightarrow> remdups (replicate n x) = [x]"
proof (induction n)
  case (Suc n)
  then show ?case by (cases n) auto
qed simp

lemma real_master_unanimous:
  assumes "m \<noteq> []" and "m \<in> LiveTopologyIPs s" and "list_ex sn_Reachable (sentinel_nodes s)"
    and "list_all (\<lambda>sn. sn_Reachable sn \<longrightarrow> sn_Monitoring sn \<and> sn_MasterIP sn = m) (sentinel_nodes s)"
  shows "RealMasterIP (DetermineRealMaster s) = m"
proof -
  define n where "n = length (filter sn_Reachable (sentinel_nodes s))"
  have "n > 0" using assms(3) by (auto simp: n_def list_ex_iff filter_empty_conv)
  have f: "filter (\<lambda>sn. sn_Reachable sn \<and> sn_Monitoring sn \<and> sn_MasterIP sn \<noteq> []) (sentinel_nodes s) = filter sn_Reachable (sentinel_nodes s)"
    using assms(1,4) by (auto simp: list_all_iff intro!: filter_cong)
  have votes: "master_votes (sentinel_nodes s) = replicate n m"
  proof -
    have "\<forall>v \<in> set (map sn_MasterIP (filter sn_Reachable (sentinel_nodes s))). v = m"
      using assms(4) by (auto simp: list_all_iff)
    from replicate_length_same [OF this] show ?thesis unfolding master_votes_def f n_def length_map by (rule sym)
  qed
  then have r: "remdups (master_votes (sentinel_nodes s)) = [m]" using remdups_replicate_pos [OF \<open>n > 0\<close>] by simp
  have "count_list (replicate n m) m = n" by (induction n) auto
  moreover have "reachable_sentinels (sentinel_nodes s) = n" by (simp add: reachable_sentinels_def n_def)
  moreover have "Suc (n div 2) \<le> n" using \<open>n > 0\<close> by linarith
  ultimately show ?thesis
    using votes r assms(2) by (simp add: DetermineRealMaster_def Let_def)
qed

text \<open>A pass keeps the instance at rest; its effect on each node is the one computed above.\<close>

definition healed :: "string \<Rightarrow> bool \<Rightarrow> ReplicationState \<Rightarrow> ReplicationState" where
  "healed m rescued s = s\<lparr>RedisNodes := map (\<lambda>(ip, rn). (ip, if rescued then follower m rn else rn)) (RedisNodes s),
     SentinelNodes := map (\<lambda>(ip, sn). (ip, settled_master m sn)) (SentinelNodes s),
     RealMasterIP := [], FailoverReported := False, FailoverProgressing := False\<rparr>"

abbreviation corrections_due :: "string \<Rightarrow> ReplicationState \<Rightarrow> bool" where
  "corrections_due m s \<equiv> list_ex (\<lambda>sn. sn_Reachable sn \<and> sn_Monitoring sn \<and> sn_MasterIP sn \<noteq> m) (sentinel_nodes s)"

lemma next_state_healed:
  assumes "at_rest m s" and "pc_State cx = s" and "\<not> pc_Terminating cx"
    and "mset (px_RangeSentinels env (SentinelNodes s)) = mset (SentinelNodes s)"
  shows "next_state (healing env lr cx st) s = DetermineRealMaster (healed m (\<not> corrections_due m s) s)"
proof -
  have r: "redis_after (healing env lr cx st) rn = (if corrections_due m s then rn else follower m rn)"
    if "(ip, rn) \<in> set (RedisNodes s)" for ip rn
    using redis_after_rescue [OF assms(1) that] unfolding healing_at_rest [OF assms] by simp
  have "map (\<lambda>(ip, rn). (ip, redis_after (healing env lr cx st) rn)) (RedisNodes s) =
      map (\<lambda>(ip, rn). (ip, if \<not> corrections_due m s then follower m rn else rn)) (RedisNodes s)"
    using r by (auto intro!: map_cong)
  moreover have "map (\<lambda>(ip, sn). (ip, sentinel_after (healing env lr cx st) ip sn)) (SentinelNodes s) =
      map (\<lambda>(ip, sn). (ip, settled_master m sn)) (SentinelNodes s)"
    using sentinel_after_healing [OF assms] by (auto intro!: map_cong)
  ultimately show ?thesis by (simp only: next_state_def healed_def)
qed

lemma settled_fields [simp]:
  "sn_Reachable (settled_master m sn) = sn_Reachable sn" "\<not> astray m (settled_master m sn)"
  by (auto simp: settled_master_def astray_def)

lemma settled_calm:
  assumes "\<not> reports_failover sn" and "\<not> ghost_replica s sn" and "list_all (\<lambda>r. \<not> hasFlag (ri_Flags r) ''promoted'') (sn_Replicas sn)"
  shows "\<not> reports_failover (settled_master m sn)" and "\<not> ghost_replica s (settled_master m sn)"
    and "list_all (\<lambda>r. \<not> hasFlag (ri_Flags r) ''promoted'') (sn_Replicas (settled_master m sn))"
proof -
  have "\<not> failoverInProgress ''master'' []" by code_simp
  then show "\<not> reports_failover (settled_master m sn)"
    using assms(1) by (auto simp: settled_master_def reports_failover_def MasterFailoverInProgress_def)
qed (use assms in \<open>auto simp: settled_master_def ghost_replica_def\<close>)

lemma DetermineRealMaster_fields [simp]:
  "RedisNodes (DetermineRealMaster s) = RedisNodes s" "SentinelNodes (DetermineRealMaster s) = SentinelNodes s"
  "LiveTopologyIPs (DetermineRealMaster s) = LiveTopologyIPs s"
  "FailoverReported (DetermineRealMaster s) \<longleftrightarrow> FailoverReported s \<or> list_ex reports_failover (sentinel_nodes s)"
  "FailoverProgressing (DetermineRealMaster s) \<longleftrightarrow> FailoverProgressing s \<or>
     list_ex (\<lambda>sn. reports_failover sn \<and> \<not> FailoverStalled sn) (sentinel_nodes s)"
  by (simp_all add: DetermineRealMaster_def Let_def split: prod.split option.split)

lemma healed_nodes [simp]:
  "map fst (RedisNodes (healed m b s)) = map fst (RedisNodes s)" "map fst (SentinelNodes (healed m b s)) = map fst (SentinelNodes s)"
  "LiveTopologyIPs (healed m b s) = LiveTopologyIPs s"
  by (simp_all add: healed_def case_prod_beta comp_def)

lemma follower_fields [simp]: "rn_IP (follower m rn) = rn_IP rn" "rn_Reachable (follower m rn) = rn_Reachable rn"
  by (simp_all add: follower_def)

lemma follower_follows [simp]: "\<not> strayed m (follower m rn)"
  by (cases "strayed m rn") (auto simp: follower_def, simp add: strayed_def roleMaster_def)

lemma healed_at_rest:
  assumes "at_rest m s"
  shows "at_rest m (DetermineRealMaster (healed m b s))"
proof -
  let ?h = "healed m b s"
  have r: "m \<noteq> []" "m \<in> LiveTopologyIPs s" "living_master s" "RealMasterIP s = m"
    using assms by (auto simp: at_rest_def living_master_def IsGhost_def split: if_splits)
  have calm: "\<not> reports_failover sn" "\<not> ghost_replica s sn" "list_all (\<lambda>r. \<not> hasFlag (ri_Flags r) ''promoted'') (sn_Replicas sn)"
    if a: "sn \<in> set (sentinel_nodes ?h)" for sn
  proof -
    obtain ip sn0 where "(ip, sn0) \<in> set (SentinelNodes s)" "sn = settled_master m sn0" using a by (auto simp: healed_def)
    with assms settled_calm [of sn0 s m]
    show "\<not> reports_failover sn" "\<not> ghost_replica s sn" "list_all (\<lambda>r. \<not> hasFlag (ri_Flags r) ''promoted'') (sn_Replicas sn)"
      by (auto simp: at_rest_def list_all_iff)
  qed
  have real: "RealMasterIP (DetermineRealMaster ?h) = m"
  proof (rule real_master_unanimous [OF r(1)])
    show "list_all (\<lambda>sn. sn_Reachable sn \<longrightarrow> sn_Monitoring sn \<and> sn_MasterIP sn = m) (sentinel_nodes ?h)"
      by (auto simp: healed_def list_all_iff settled_master_def astray_def)
    show "list_ex sn_Reachable (sentinel_nodes ?h)" using assms by (force simp: healed_def at_rest_def list_ex_iff)
  qed (simp add: healed_def r(2))
  have ghost: "ghost_replica (DetermineRealMaster ?h) = ghost_replica s" "IsGhost (DetermineRealMaster ?h) = IsGhost s"
    by (simp_all add: ghost_replica_def IsGhost_def fun_eq_iff)
  have key: "keyed_by_ip (DetermineRealMaster ?h)"
    using assms by (auto simp: at_rest_def keyed_by_ip_def healed_def list_all_iff)
  obtain rn where rn: "map_of (RedisNodes s) m = Some rn" "rn_Reachable rn"
    using r(3,4) by (auto simp: living_master_def split: option.splits)
  have "map_of (RedisNodes ?h) m = Some (if b then follower m rn else rn)"
    using rn(1) map_of_map [of "\<lambda>rn. if b then follower m rn else rn" "RedisNodes s"] by (simp add: healed_def)
  then have live: "living_master (DetermineRealMaster ?h)"
    using r(3,4) rn(2) by (auto simp: living_master_def real ghost)
  have "list_ex sn_Reachable (sentinel_nodes ?h)" using assms by (force simp: healed_def at_rest_def list_ex_iff)
  then show ?thesis
    using assms r(1) real live key calm
    by (auto simp: at_rest_def ghost list_all_iff list_ex_iff) (auto simp: healed_def)
qed

lemma healing_nothing:
  assumes "at_rest m s" and "pc_State cx = s" and "\<not> pc_Terminating cx"
    and "mset (px_RangeSentinels env (SentinelNodes s)) = mset (SentinelNodes s)"
    and "\<forall>sn \<in> set (sentinel_nodes s). \<not> astray m sn" and "\<forall>rn \<in> set (redis_nodes s). \<not> strayed m rn"
  shows "healing env lr cx st = []"
proof -
  have set: "set (px_RangeSentinels env (SentinelNodes s)) = set (SentinelNodes s)" by (rule mset_eq_setD [OF assms(4)])
  have "rule_0 (px_Recovery env) (li_Sentinel lr) (pc_Password cx) s (px_RangeSentinels env (SentinelNodes s)) = []"
    using assms(5) set by (force simp: rule_0_def astray_def filter_empty_conv)
  moreover have "applyReplicaRescue s = []"
  proof -
    have "set (planReplicaRescue (Some s)) = {}" unfolding rescue_set [OF assms(1)] using assms(6) by blast
    then show ?thesis by (simp add: applyReplicaRescue_def)
  qed
  moreover have "\<not> corrections_due m s" using assms(5) by (auto simp: list_ex_iff astray_def)
  ultimately show ?thesis unfolding healing_at_rest [OF assms(1-4)] by simp
qed


definition stray_state :: ReplicationState where
  "stray_state = NewReplicationState\<lparr>RedisNodes := [(''1'', projr (pass_redis ''c-redis-0'' ''1'')), (''2'', projr (pass_redis ''c-redis-1'' ''2''))],
     SentinelNodes := [(''5'', projr (pass_sentinel ''c-sentinel-0'' ''5'' ''m'')),
       (''6'', (projr (pass_sentinel ''c-sentinel-1'' ''6'' ''m''))\<lparr>sn_MasterIP := ''2''\<rparr>),
       (''7'', (projr (pass_sentinel ''c-sentinel-2'' ''7'' ''m''))\<lparr>sn_Monitoring := False, sn_MasterIP := []\<rparr>)],
     LiveTopologyIPs := {''1'', ''2'', ''5'', ''6'', ''7''}, RealMasterIP := ''1''\<rparr>"

definition stray_ctx :: pass_ctx where
  "stray_ctx = \<lparr>pc_State = stray_state, pc_RedisMap = [], pc_Terminating = False, pc_Rolling = False, pc_Password = []\<rparr>"


end
