(* ===== verification/Sentinel_Reconcile.thy ===== *)
theory Sentinel_Reconcile
  imports Sentinel_Pass Cluster_Reconcile
begin

text \<open>
  The pass of the sentinel mode around the healing: \<open>reconcileSentinel\<close>, \<open>bootstrapSentinel\<close>,
  \<open>updateMasterLabel\<close> and \<open>updateSentinelStatus\<close> of \<open>internal/controller/littlered_controller.go\<close>, and the
  condition of \<open>sentinel_master_name_condition.go\<close>.

  Resources are applied by calls whose outcome is in the environment. The status is the stored one; the parts
  that the healing pass keeps in memory are loaded from it. The time stamps of conditions are left out.
\<close>

section \<open>The master and the labels\<close>

datatype SentinelErrorCode = SentinelUnreachable | SentinelNoMaster | SentinelGhostMaster

definition getMasterPodName ::
    "(string \<Rightarrow> string \<Rightarrow> go_error + string list) \<Rightarrow> string list \<Rightarrow> string \<Rightarrow> instance_pod list \<Rightarrow> SentinelErrorCode + string" where
  "getMasterPodName addrByName addresses masterName pods =
     (case GetMaster addrByName addresses masterName of
        Inl e \<Rightarrow> Inl (if Contains (er_msg e) ''redis: nil'' then SentinelNoMaster else SentinelUnreachable)
      | Inr info \<Rightarrow>
          (case find (\<lambda>p. pq_PodIP p = mi_IP info \<and> \<not> po_Terminating p) pods of
             Some p \<Rightarrow> Inr (pq_Name p)
           | None \<Rightarrow> Inl SentinelGhostMaster))"

definition expected_role :: "string \<Rightarrow> 'a instance_pod_scheme \<Rightarrow> string" where
  "expected_role masterPodName pod =
     (if masterPodName \<noteq> [] then (if pq_Name pod = masterPodName then roleMaster else roleReplica)
      else if pq_Role pod = roleMaster then roleReplica else pq_Role pod)"

text \<open>The loop stops at the first update that fails. The result has the error and the pods as they are stored.\<close>

fun applyRoleLabels ::
    "(string \<Rightarrow> api_error option) \<Rightarrow> string \<Rightarrow> 'a instance_pod_scheme list \<Rightarrow> api_error option \<times> 'a instance_pod_scheme list" where
  "applyRoleLabels update masterPodName [] = (None, [])"
| "applyRoleLabels update masterPodName (pod # pods) =
     (let expectedRole = expected_role masterPodName pod in
      if pq_Role pod = expectedRole
      then (case applyRoleLabels update masterPodName pods of (err, ps) \<Rightarrow> (err, pod # ps))
      else case update (pq_Name pod) of
          Some e \<Rightarrow> (Some e, pod # pods)
        | None \<Rightarrow> (case applyRoleLabels update masterPodName pods of (err, ps) \<Rightarrow> (err, pod\<lparr>pq_Role := expectedRole\<rparr> # ps)))"

text \<open>The pods, the Sentinel pods for the addresses, what a Sentinel answers, and the updates of the pods.\<close>

record label_env =
  lb_Pods :: "api_error + instance_pod list"
  lb_AddressPods :: "go_error + instance_pod list"
  lb_AddrByName :: "string \<Rightarrow> string \<Rightarrow> go_error + string list"
  lb_Update :: "string \<Rightarrow> api_error option"

text \<open>The result has the error and, when the labels were looked at, the pods as they are stored.\<close>

definition updateMasterLabel :: "label_env \<Rightarrow> 'a sentinel_instance_scheme \<Rightarrow> api_error option \<times> instance_pod list option" where
  "updateMasterLabel env lr =
     (case lb_Pods env of
        Inl e \<Rightarrow> (Some e, None)
      | Inr pods \<Rightarrow>
          if pods = [] \<or> list_ex po_Terminating pods then (None, None)
          else let relabel = (\<lambda>m. case applyRoleLabels (lb_Update env) m pods of (err, ps) \<Rightarrow> (err, Some ps))
               in case getMasterPodName (lb_AddrByName env) (getSentinelAddresses (lb_AddressPods env) lr)
                         (SentinelMasterName (lr_MasterName lr)) pods of
                    Inr m \<Rightarrow> relabel m
                  | Inl SentinelUnreachable \<Rightarrow> (None, None)
                  | Inl SentinelNoMaster \<Rightarrow> relabel []
                  | Inl SentinelGhostMaster \<Rightarrow> relabel [])"

section \<open>The bootstrap\<close>

text \<open>
  The outcomes: the reads of the object, of the StatefulSet and of pod 0, the calls at the Sentinels, and the
  write of the flag. The result has the error, the flag in memory, the stored flag and the commands. The
  object in memory is read again exactly when its flag becomes false.
\<close>

record bootstrap_env =
  bz_Latest :: "api_error option"
  bz_GetSTS :: "api_error + shard_sts"
  bz_GetPod0 :: "api_error + instance_pod"
  bz_Recovery :: recovery_env
  bz_ClearWrite :: status_write
  bz_Refetch :: "api_error option"

datatype pass_error = FromApi api_error | FromGo go_error

definition bootstrap_ready :: "shard_sts \<Rightarrow> 'a instance_pod_scheme \<Rightarrow> bool" where
  "bootstrap_ready sts pod0 \<longleftrightarrow>
     pq_PodIP pod0 \<noteq> [] \<and> sh_CurrentRevision sts \<noteq> [] \<and> po_Revision pod0 = sh_CurrentRevision sts"

definition clear_bootstrap :: "status_write \<Rightarrow> api_error option \<Rightarrow> bool \<Rightarrow> pass_error option \<times> bool \<times> bool" where
  "clear_bootstrap out refetch stored =
     (case out of
        ReadFailed e \<Rightarrow> (Some (FromGo (wrapf ''failed to clear bootstrap flag'' e)), True, stored)
      | WriteFailed e \<Rightarrow> (Some (FromGo (wrapf ''failed to clear bootstrap flag'' e)), True, stored)
      | Written \<Rightarrow>
          (case refetch of
             Some e \<Rightarrow> (Some (FromApi e), True, False)
           | None \<Rightarrow> (None, False, False)))"

definition bootstrapSentinel ::
    "bootstrap_env \<Rightarrow> SentinelSpec option \<Rightarrow> string \<Rightarrow> bool \<Rightarrow> pass_error option \<times> bool \<times> bool \<times> redis_cmd list" where
  "bootstrapSentinel env spec password stored =
     (case bz_Latest env of
        Some e \<Rightarrow> (Some (FromApi e), True, stored, [])
      | None \<Rightarrow>
          if \<not> stored then (None, False, stored, [])
          else case bz_GetSTS env of
              Inl e \<Rightarrow> (Some (FromApi e), True, stored, [])
            | Inr sts \<Rightarrow>
                (case bz_GetPod0 env of
                   Inl e \<Rightarrow> (Some (FromApi e), True, stored, [])
                 | Inr pod0 \<Rightarrow>
                     if \<not> bootstrap_ready sts pod0 then (None, True, stored, [])
                     else case seedSentinelsWithMaster (bz_Recovery env) spec (pq_PodIP pod0) password (spec_quorum spec) of
                         (Some e, cs, _, _) \<Rightarrow> (Some (FromGo e), True, stored, cs)
                       | (None, cs, configured, totalPods) \<Rightarrow>
                           if configured = 0 then (None, True, stored, cs)
                           else (case clear_bootstrap (bz_ClearWrite env) (bz_Refetch env) stored of (err, mem, stored') \<Rightarrow> (err, mem, stored', cs))))"

section \<open>The status\<close>

text \<open>The fields of the object that only this pass reads, and the part of its status that the pass reports.\<close>

record sentinel_cr = sentinel_instance +
  lc_Generation :: int
  lc_DisablePolling :: bool
  lc_DisableEvents :: bool
  lc_Fast :: "duration option"
  lc_Steady :: "duration option"
  lc_PDBCreate :: "bool option"
  lc_MetricsEnabled :: "bool option"
  lc_ServiceMonitor :: bool

record sentinel_summary =
  su_Phase :: LittleRedPhase
  su_BootstrapRequired :: bool
  su_RedisReady :: int
  su_RedisTotal :: int
  su_Sentinels :: "(int \<times> int) option"
  su_Replicas :: "(int \<times> int) option"
  su_Master :: "(string \<times> string) option"
  su_ObservedGeneration :: int
  su_Status :: string
  su_ConfigValid :: "(bool \<times> string) option"
  su_Ready :: "(bool \<times> string) option"
  su_SentinelReady :: "(bool \<times> string) option"
  su_Initialized :: "(bool \<times> string) option"
  su_Unscoped :: "bool option"

definition phase_name :: "LittleRedPhase \<Rightarrow> string" where
  "phase_name p =
     (case p of PhaseUnset \<Rightarrow> [] | PhasePending \<Rightarrow> ''Pending'' | PhaseInitializing \<Rightarrow> ''Initializing''
      | PhaseRunning \<Rightarrow> ''Running'' | PhaseFailed \<Rightarrow> ''Failed'' | PhaseTerminating \<Rightarrow> ''Terminating'')"

text \<open>The condition of an unscoped master name, and whether a Warning is sent: only on the way into it.\<close>

definition reconcileSentinelMasterNameCondition :: "string option \<Rightarrow> bool option \<Rightarrow> bool option \<times> bool" where
  "reconcileSentinelMasterNameCondition name prev =
     (if \<not> SentinelMasterNameUnscoped name then (Some False, False)
      else (Some True, prev \<noteq> Some True))"

record status_reads =
  sd_RedisSTS :: "api_error + int \<times> int"
  sd_SentinelSTS :: "api_error + int \<times> int"
  sd_Pods :: "api_error + instance_pod list"
  sd_AddressPods :: "go_error + instance_pod list"
  sd_AddrByName :: "string \<Rightarrow> string \<Rightarrow> go_error + string list"
  sd_MasterPod :: "api_error + string"
  sd_Replicas :: "go_error + ReplicaInfo list"

definition replica_up :: "ReplicaInfo \<Rightarrow> bool" where
  "replica_up rep \<longleftrightarrow> \<not> Contains (ri_Flags rep) ''s_down'' \<and> \<not> Contains (ri_Flags rep) ''o_down'' \<and>
     \<not> Contains (ri_Flags rep) ''disconnected''"

definition sts_counts :: "api_error + int \<times> int \<Rightarrow> api_error + int \<times> int" where
  "sts_counts r = (case r of Inl NotFound \<Rightarrow> Inr (0, 3) | _ \<Rightarrow> r)"

definition all_ready :: "int \<times> int \<Rightarrow> int \<times> int \<Rightarrow> string \<Rightarrow> int \<Rightarrow> bool" where
  "all_ready redis sentinels masterPodName sentinelReplicasOK \<longleftrightarrow>
     fst redis = snd redis \<and> fst sentinels = snd sentinels \<and> fst redis > 0 \<and> masterPodName \<noteq> [] \<and>
     sentinelReplicasOK \<ge> snd redis - 1"

definition report_counts :: "int \<times> int \<Rightarrow> int \<times> int \<Rightarrow> string \<times> string \<Rightarrow> sentinel_summary \<Rightarrow> sentinel_summary" where
  "report_counts redis sentinels master latest =
     latest\<lparr>su_RedisReady := fst redis, su_RedisTotal := snd redis, su_Sentinels := Some sentinels,
       su_Replicas := Some (if fst redis > 0 then fst redis - 1 else 0, if snd redis > 0 then snd redis - 1 else 0),
       su_Master := Some master\<rparr>"

definition report_phase :: "bool \<Rightarrow> sentinel_summary \<Rightarrow> sentinel_summary" where
  "report_phase ready st =
     (if ready
      then st\<lparr>su_Phase := PhaseRunning, su_BootstrapRequired := False, su_Ready := Some (True, ''AllPodsReady''),
             su_SentinelReady := Some (True, ''QuorumEstablished''), su_Initialized := Some (True, ''Initialized'')\<rparr>
      else st\<lparr>su_Phase := PhaseInitializing, su_Ready := Some (False, ''PodsNotReady'')\<rparr>)"

definition report_generation :: "bool option \<Rightarrow> int \<Rightarrow> sentinel_summary \<Rightarrow> sentinel_summary" where
  "report_generation unscoped generation st =
     st\<lparr>su_Unscoped := unscoped, su_ObservedGeneration := generation,
       su_Status := (if su_Phase st = PhaseRunning then ''Ready'' else phase_name (su_Phase st))\<rparr>"

definition known_master :: "status_reads \<Rightarrow> 'a sentinel_instance_scheme \<Rightarrow> string" where
  "known_master rd lr =
     (case getMasterPodName (sd_AddrByName rd) (getSentinelAddresses (sd_AddressPods rd) lr)
             (SentinelMasterName (lr_MasterName lr)) (case sd_Pods rd of Inl _ \<Rightarrow> [] | Inr pods \<Rightarrow> pods) of
        Inl _ \<Rightarrow> [] | Inr m \<Rightarrow> m)"

definition known_address :: "status_reads \<Rightarrow> string \<Rightarrow> sentinel_summary \<Rightarrow> string" where
  "known_address rd masterPodName latest =
     (if masterPodName = [] then []
      else case sd_MasterPod rd of
          Inl _ \<Rightarrow> (case su_Master latest of None \<Rightarrow> [] | Some (_, ip) \<Rightarrow> ip)
        | Inr ip \<Rightarrow> ip)"

definition replicas_ok :: "status_reads \<Rightarrow> string \<Rightarrow> int" where
  "replicas_ok rd masterPodName =
     (if masterPodName = [] then 0
      else case sd_Replicas rd of Inl _ \<Rightarrow> 0 | Inr reps \<Rightarrow> int (length (filter replica_up reps)))"

text \<open>The new status, from the stored one and what was read; \<open>Inl\<close> is the error of a read.\<close>

definition sentinel_summary_now ::
    "status_reads \<Rightarrow> 'a sentinel_cr_scheme \<Rightarrow> sentinel_summary \<Rightarrow> api_error + sentinel_summary \<times> bool" where
  "sentinel_summary_now rd lr latest =
     (case sts_counts (sd_RedisSTS rd) of
        Inl e \<Rightarrow> Inl e
      | Inr redis \<Rightarrow>
          (case sts_counts (sd_SentinelSTS rd) of
             Inl e \<Rightarrow> Inl e
           | Inr sentinels \<Rightarrow>
               let m = known_master rd lr;
                   st = report_phase (all_ready redis sentinels m (replicas_ok rd m))
                          (report_counts redis sentinels (m, known_address rd m latest) latest)
               in (case reconcileSentinelMasterNameCondition (lr_MasterName lr) (su_Unscoped st) of
                     (unscoped, warned) \<Rightarrow> Inr (report_generation unscoped (lc_Generation lr) st, warned))))"

definition requeueAfterNotRunning ::
    "LittleRedPhase \<Rightarrow> (bool \<times> operation_reason \<times> operation_detail) option \<Rightarrow> (bool \<times> string) option \<Rightarrow> duration \<Rightarrow> duration \<Rightarrow> duration" where
  "requeueAfterNotRunning phase operation forsaken fast steady =
     (if (case operation of Some (True, operationReasonRunning, _) \<Rightarrow> True | _ \<Rightarrow> False) then fast
      else if phase = PhaseRunning then steady
      else if (case forsaken of Some (True, _) \<Rightarrow> True | _ \<Rightarrow> False) then steady
      else fast)"

definition GetRequeueIntervals :: "'a sentinel_cr_scheme \<Rightarrow> duration \<times> duration" where
  "GetRequeueIntervals lr =
     (case lc_Fast lr of None \<Rightarrow> 2 * second | Some d \<Rightarrow> d, case lc_Steady lr of None \<Rightarrow> 30 * second | Some d \<Rightarrow> d)"

section \<open>The pass\<close>

text \<open>
  The stored status between passes, with what the operator keeps in memory: whether it reported a stalled
  failover and whether the monitor of this instance runs.
\<close>

record sentinel_store =
  sw_Summary :: sentinel_summary
  sw_Auth :: blocked_cond
  sw_Capture :: capture_status
  sw_Stale :: stale_condition
  sw_Operation :: operation_status
  sw_Recovery :: "recovery_status \<times> recovery_status"
  sw_StallNoted :: bool
  sw_Monitor :: bool

text \<open>The status in memory, with the given phase, and the store after the healing.\<close>

definition load_status :: "LittleRedPhase \<Rightarrow> sentinel_store \<Rightarrow> sentinel_status" where
  "load_status phase w =
     \<lparr>sg_BootstrapRequired = su_BootstrapRequired (sw_Summary w), sg_Auth = sw_Auth w,
      sg_Capture = ((sw_Capture w)\<lparr>fs_Phase := phase\<rparr>, (sw_Capture w)\<lparr>fs_Phase := su_Phase (sw_Summary w)\<rparr>),
      sg_Stale = sw_Stale w, sg_Operation = (sw_Operation w, sw_Operation w), sg_Recovery = sw_Recovery w,
      sg_StallNoted = sw_StallNoted w\<rparr>"

definition save_status :: "sentinel_status \<Rightarrow> sentinel_store \<Rightarrow> sentinel_store" where
  "save_status st w =
     w\<lparr>sw_Auth := sg_Auth st, sw_Capture := snd (sg_Capture st), sw_Stale := sg_Stale st,
       sw_Operation := snd (sg_Operation st), sw_Recovery := sg_Recovery st, sw_StallNoted := sg_StallNoted st\<rparr>"

text \<open>The resources, in the order in which the pass applies them; a budget is deleted when it is turned off.\<close>

datatype sentinel_resource =
    RedisConfigMap | SentinelConfigMap | ReplicasService | SentinelService
  | RedisStatefulSet int | SentinelStatefulSet int | MasterService
  | RedisPDB bool | SentinelPDB bool | ServiceMonitorResource

fun apply_all :: "(sentinel_resource \<Rightarrow> api_error option) \<Rightarrow> sentinel_resource list \<Rightarrow> api_error option \<times> sentinel_resource list" where
  "apply_all f [] = (None, [])"
| "apply_all f (x # xs) =
     (case f x of
        Some e \<Rightarrow> (Some e, [x])
      | None \<Rightarrow> (case apply_all f xs of (err, ys) \<Rightarrow> (err, x # ys)))"

definition pdbEnabled :: "'a sentinel_cr_scheme \<Rightarrow> bool" where
  "pdbEnabled lr \<longleftrightarrow> (case lc_PDBCreate lr of None \<Rightarrow> True | Some b \<Rightarrow> b)"

definition metrics_IsEnabled :: "'a sentinel_cr_scheme \<Rightarrow> bool" where
  "metrics_IsEnabled lr \<longleftrightarrow> (case lc_MetricsEnabled lr of None \<Rightarrow> True | Some b \<Rightarrow> b)"

definition apply_pdb :: "(sentinel_resource \<Rightarrow> api_error option) \<Rightarrow> sentinel_resource \<Rightarrow> api_error option" where
  "apply_pdb f x = (case x of RedisPDB False \<Rightarrow> ignore_not_found (f x) | SentinelPDB False \<Rightarrow> ignore_not_found (f x) | _ \<Rightarrow> f x)"

definition ensureSentinelMonitor :: "bool \<Rightarrow> 'a sentinel_cr_scheme \<Rightarrow> bool \<Rightarrow> bool" where
  "ensureSentinelMonitor channel lr running = (if lc_DisableEvents lr then False else running \<or> channel)"

datatype sentinel_step =
    Applied sentinel_resource
  | Seeded redis_cmd
  | Relabelled "instance_pod list"
  | Healed pass_cmd
  | Reported pass_event
  | UnscopedWarning

record sentinel_pass_env =
  sz_Now :: time
  sz_Apply :: "sentinel_resource \<Rightarrow> api_error option"
  sz_Bootstrap :: bootstrap_env
  sz_Label :: label_env
  sz_Heal :: sentinel_env
  sz_Channel :: bool
  sz_Latest :: "api_error option"
  sz_Reads :: status_reads
  sz_StatusWrite :: "api_error option"
  sz_Refetch :: "api_error option"

text \<open>The last attempt of the update; an attempt that met a conflict leaves nothing behind but its event.\<close>

definition updateSentinelStatus ::
    "sentinel_pass_env \<Rightarrow> 'a sentinel_cr_scheme \<Rightarrow> sentinel_store \<Rightarrow> ctrl_result \<times> pass_error option \<times> sentinel_store \<times> sentinel_step list" where
  "updateSentinelStatus env lr w =
     (case sz_Latest env of
        Some e \<Rightarrow> (NoRequeue, Some (FromApi e), w, [])
      | None \<Rightarrow>
          (case sentinel_summary_now (sz_Reads env) lr (sw_Summary w) of
             Inl e \<Rightarrow> (NoRequeue, Some (FromApi e), w, [])
           | Inr (now, warned) \<Rightarrow>
               let evs = (if warned then [UnscopedWarning] else [])
               in case (if now = sw_Summary w then None else sz_StatusWrite env) of
                    Some e \<Rightarrow> (NoRequeue, Some (FromApi e), w, evs)
                  | None \<Rightarrow>
                      let w' = w\<lparr>sw_Summary := now\<rparr>; (fast, steady) = GetRequeueIntervals lr;
                          after = RequeueAfter (requeueAfterNotRunning (su_Phase now) (ox_Condition (sw_Operation w))
                            (fs_Forsaken (sw_Capture w)) fast steady)
                      in case sz_Refetch env of
                           Some e \<Rightarrow> (NoRequeue, Some (FromApi e), w', evs)
                         | None \<Rightarrow>
                             if su_Phase now \<noteq> PhaseRunning then (after, None, w', evs)
                             else if lc_DisablePolling lr then (NoRequeue, None, w', evs)
                             else (after, None, w', evs)))"

definition finish_sentinel ::
    "sentinel_pass_env \<Rightarrow> 'a sentinel_cr_scheme \<Rightarrow> sentinel_store \<Rightarrow> ctrl_result \<times> pass_error option \<times> sentinel_store \<times> sentinel_step list" where
  "finish_sentinel env lr w =
     (case apply_all (apply_pdb (sz_Apply env)) [RedisPDB (pdbEnabled lr), SentinelPDB (pdbEnabled lr)] of
        (Some e, xs) \<Rightarrow> (NoRequeue, Some (FromApi e), w, map Applied xs)
      | (None, xs) \<Rightarrow>
          let monitor = (if metrics_IsEnabled lr \<and> lc_ServiceMonitor lr then [ServiceMonitorResource] else []);
              w' = w\<lparr>sw_Monitor := ensureSentinelMonitor (sz_Channel env) lr (sw_Monitor w)\<rparr>
          in case updateSentinelStatus env lr w' of
               (res, err, w'', evs) \<Rightarrow> (res, err, w'', map Applied (xs @ monitor) @ evs))"

text \<open>The labels, the healing and the rest, with the status in memory.\<close>

definition label_and_heal ::
    "sentinel_pass_env \<Rightarrow> 'a sentinel_cr_scheme \<Rightarrow> sentinel_status \<Rightarrow> sentinel_store \<Rightarrow>
     go_panic + ctrl_result \<times> pass_error option \<times> sentinel_store \<times> sentinel_step list" where
  "label_and_heal env lr mem w =
     (let labels = (case snd (updateMasterLabel (sz_Label env) lr) of None \<Rightarrow> [] | Some ps \<Rightarrow> [Relabelled ps])
      in case reconcileSentinelCluster (sz_Heal env) lr mem of
           Inl p \<Rightarrow> Inl p
         | Inr (_, st, cs, evs) \<Rightarrow>
             (case finish_sentinel env lr (save_status st w) of
                (res, err, w', steps) \<Rightarrow> Inr (res, err, w', labels @ map Healed cs @ map Reported evs @ steps)))"

definition initial_phase :: "LittleRedPhase \<Rightarrow> LittleRedPhase" where
  "initial_phase p = (if p = PhaseUnset then PhasePending else p)"

definition sentinel_resources :: "int \<times> int \<Rightarrow> sentinel_resource list" where
  "sentinel_resources replicas =
     [RedisConfigMap, SentinelConfigMap, ReplicasService, SentinelService, RedisStatefulSet (fst replicas),
      SentinelStatefulSet (snd replicas), MasterService]"

definition reconcileSentinel ::
    "sentinel_pass_env \<Rightarrow> 'a sentinel_cr_scheme \<Rightarrow> sentinel_store \<Rightarrow>
     go_panic + ctrl_result \<times> pass_error option \<times> sentinel_store \<times> sentinel_step list" where
  "reconcileSentinel env lr w =
     (let mem = load_status (initial_phase (su_Phase (sw_Summary w))) w;
          replicas = sentinelDesiredReplicas True (quarantineConfigDangerous (li_AuthEnabled lr) (lr_MasterName lr))
            (fst (sg_Capture mem)) (sz_Now env)
      in case apply_all (sz_Apply env) (sentinel_resources replicas) of
           (Some e, xs) \<Rightarrow> Inr (NoRequeue, Some (FromApi e), w, map Applied xs)
         | (None, xs) \<Rightarrow>
             if \<not> sg_BootstrapRequired mem
             then (case label_and_heal env lr mem w of
                     Inl p \<Rightarrow> Inl p
                   | Inr (res, err, w', steps) \<Rightarrow> Inr (res, err, w', map Applied xs @ steps))
             else case bootstrapSentinel (sz_Bootstrap env) (li_Sentinel lr) (getRedisPassword (px_Secret (sz_Heal env)) lr)
                         (su_BootstrapRequired (sw_Summary w)) of
                 (err, memFlag, stored, seeds) \<Rightarrow>
                   let w1 = w\<lparr>sw_Summary := (sw_Summary w)\<lparr>su_BootstrapRequired := stored\<rparr>\<rparr>;
                       mem1 = (if memFlag then mem else load_status (su_Phase (sw_Summary w)) w1);
                       pre = map Applied xs @ map Seeded seeds
                   in (case err of
                         Some e \<Rightarrow> Inr (NoRequeue, Some e, w1, pre)
                       | None \<Rightarrow>
                           (case label_and_heal env lr mem1 w1 of
                              Inl p \<Rightarrow> Inl p
                            | Inr (res, err', w', steps) \<Rightarrow> Inr (res, err', w', pre @ steps))))"

section \<open>The labels\<close>

abbreviation relabelled :: "string \<Rightarrow> 'a instance_pod_scheme \<Rightarrow> 'a instance_pod_scheme" where
  "relabelled m p \<equiv> p\<lparr>pq_Role := expected_role m p\<rparr>"

lemma relabelled_same: "pq_Role p = expected_role m p \<Longrightarrow> relabelled m p = p"
  by (cases p) simp

lemma applyRoleLabels_ok:
  "applyRoleLabels update m pods = (None, ps) \<Longrightarrow> ps = map (relabelled m) pods"
  by (induction pods arbitrary: ps)
    (auto simp: Let_def relabelled_same split: if_splits option.splits prod.splits)

text \<open>After a failed update the pods before the failing one have the new label and the others the old one.\<close>

lemma applyRoleLabels_error:
  "applyRoleLabels update m pods = (Some e, ps) \<Longrightarrow>
   \<exists>pre p post. pods = pre @ p # post \<and> update (pq_Name p) = Some e \<and> ps = map (relabelled m) pre @ p # post"
proof (induction pods arbitrary: ps)
  case (Cons q pods)
  show ?case
  proof (cases "pq_Role q = expected_role m q \<or> update (pq_Name q) = None")
    case True
    then obtain ps' where "applyRoleLabels update m pods = (Some e, ps')" "ps = relabelled m q # ps'"
      using Cons.prems by (auto simp: Let_def relabelled_same split: if_splits option.splits prod.splits)
    moreover from Cons.IH [OF this(1)] obtain pre p post where
      "pods = pre @ p # post" "update (pq_Name p) = Some e" "ps' = map (relabelled m) pre @ p # post" by blast
    ultimately show ?thesis by (intro exI [of _ "q # pre"]) auto
  next
    case False
    then have "update (pq_Name q) = Some e" "ps = q # pods" using Cons.prems by (auto simp: Let_def)
    then show ?thesis by (intro exI [of _ "[]"]) auto
  qed
qed simp

text \<open>Two pods carry the label of the master when the update of the former one fails.\<close>

lemma two_masters_labelled:
  assumes "pods = [a, b]" "pq_Role a \<noteq> roleMaster" "pq_Role b = roleMaster" "pq_Name a \<noteq> []" "pq_Name b \<noteq> pq_Name a"
    and "update (pq_Name a) = None" "update (pq_Name b) = Some e"
  shows "map pq_Role (snd (applyRoleLabels update (pq_Name a) pods)) = [roleMaster, roleMaster]"
  using assms by (auto simp: expected_role_def roleMaster_def roleReplica_def)

lemma find_living:
  "\<not> list_ex po_Terminating pods \<Longrightarrow> find (\<lambda>p. P p \<and> \<not> po_Terminating p) pods = find P pods"
  by (induction pods) auto

lemma filter_name_distinct:
  "distinct (map f xs) \<Longrightarrow> x \<in> set xs \<Longrightarrow> filter (\<lambda>y. f y = f x) xs = [x]"
  by (induction xs) (auto simp: filter_empty_conv image_iff)

definition masters_labelled :: "'a instance_pod_scheme list \<Rightarrow> string list" where
  "masters_labelled pods = map pq_Name (filter (\<lambda>p. pq_Role p = roleMaster) pods)"

lemma masters_relabelled:
  "masters_labelled (map (relabelled m) pods) = (if m = [] then [] else map pq_Name (filter (\<lambda>p. pq_Name p = m) pods))"
  by (induction pods) (auto simp: masters_labelled_def expected_role_def roleMaster_def roleReplica_def)

lemma masters_relabelled_none: "masters_labelled (map (relabelled []) pods) = []"
  by (simp add: masters_relabelled)

lemma masters_relabelled_found:
  assumes "find P pods = Some p" "distinct (map pq_Name pods)" "list_all (\<lambda>p. pq_Name p \<noteq> []) pods"
  shows "masters_labelled (map (relabelled (pq_Name p)) pods) = [pq_Name p]"
proof -
  have p: "p \<in> set pods" using assms(1) by (auto simp: find_Some_iff)
  then show ?thesis using assms(3) filter_name_distinct [OF assms(2) p] by (auto simp: masters_relabelled list_all_iff)
qed

text \<open>C21: After a pass over the role labels that updates every pod it has to, the label of the master is on
  exactly the pod at the address that a Sentinel reports, or on no pod when no Sentinel knows a master or the
  address is not one of a living pod. Nothing but the labels changes, and the labels are not looked at while a
  pod terminates or no Sentinel can be reached.\<close>

theorem master_label_exact:
  assumes "lb_Pods env = Inr pods" "distinct (map pq_Name pods)" "list_all (\<lambda>p. pq_Name p \<noteq> []) pods"
    and "updateMasterLabel env lr = (None, Some ps)"
  defines "answer \<equiv> GetMaster (lb_AddrByName env) (getSentinelAddresses (lb_AddressPods env) lr) (SentinelMasterName (lr_MasterName lr))"
  shows "map (\<lambda>p. p\<lparr>pq_Role := []\<rparr>) ps = map (\<lambda>p. p\<lparr>pq_Role := []\<rparr>) pods \<and> \<not> list_ex po_Terminating pods \<and>
    (case answer of
       Inr info \<Rightarrow> masters_labelled ps = (case find (\<lambda>p. pq_PodIP p = mi_IP info) pods of None \<Rightarrow> [] | Some p \<Rightarrow> [pq_Name p])
     | Inl e \<Rightarrow> Contains (er_msg e) ''redis: nil'' \<and> masters_labelled ps = [])"
proof -
  from assms(1,4) have nt: "\<not> list_ex po_Terminating pods" by (auto simp: updateMasterLabel_def split: if_splits)
  obtain m where m: "ps = map (relabelled m) pods"
    and "m = (case getMasterPodName (lb_AddrByName env) (getSentinelAddresses (lb_AddressPods env) lr)
                (SentinelMasterName (lr_MasterName lr)) pods of Inl _ \<Rightarrow> [] | Inr n \<Rightarrow> n)"
    and "getMasterPodName (lb_AddrByName env) (getSentinelAddresses (lb_AddressPods env) lr)
                (SentinelMasterName (lr_MasterName lr)) pods \<noteq> Inl SentinelUnreachable"
    using assms(1,4)
    by (auto simp: updateMasterLabel_def Let_def dest: applyRoleLabels_ok split: if_splits sum.splits SentinelErrorCode.splits prod.splits)
  then have *: "case answer of
           Inr info \<Rightarrow> m = (case find (\<lambda>p. pq_PodIP p = mi_IP info) pods of None \<Rightarrow> [] | Some p \<Rightarrow> pq_Name p)
         | Inl e \<Rightarrow> Contains (er_msg e) ''redis: nil'' \<and> m = []"
    by (auto simp: getMasterPodName_def answer_def find_living [OF nt] split: sum.splits option.splits if_splits)
  show ?thesis
    using * nt masters_relabelled_found [OF _ assms(2,3)] by (auto simp: m masters_relabelled_none split: sum.splits option.splits)
qed

definition example_instance_pod :: "string \<Rightarrow> string \<Rightarrow> string \<Rightarrow> instance_pod" where
  "example_instance_pod name ip role =
     \<lparr>po_Revision = ''r1'', po_Containers = [], po_Conditions = [], po_Terminating = False, pq_Name = name,
      pq_PodIP = ip, pq_Role = role, pq_ReadyCondition = True\<rparr>"

definition example_label_env :: label_env where
  "example_label_env =
     \<lparr>lb_Pods = Inr [example_instance_pod ''a-redis-0'' ''10.0.0.1'' ''master'', example_instance_pod ''a-redis-1'' ''10.0.0.2'' ''replica''],
      lb_AddressPods = Inr [], lb_AddrByName = (\<lambda>_ _. Inr [''10.0.0.2'', ''6379'']), lb_Update = (\<lambda>_. None)\<rparr>"

theorem master_label_exact_witness:
  "masters_labelled [example_instance_pod ''a-redis-0'' ''10.0.0.1'' ''replica'', example_instance_pod ''a-redis-1'' ''10.0.0.2'' ''master''] = [''a-redis-1'']"
proof -
  have "updateMasterLabel example_label_env pass_instance = (None, Some [example_instance_pod ''a-redis-0'' ''10.0.0.1'' ''replica'',
      example_instance_pod ''a-redis-1'' ''10.0.0.2'' ''master''])"
    by code_simp
  from master_label_exact [OF _ _ _ this] show ?thesis
    by (simp add: example_label_env_def example_instance_pod_def getSentinelAddresses_def GetMaster_def getMasterFromSentinel_def)
qed

section \<open>What a pass keeps of the status\<close>

text \<open>The parts of the summary that a pass never takes back, and those that it never writes.\<close>

definition summary_step :: "sentinel_summary \<Rightarrow> sentinel_summary \<Rightarrow> bool" where
  "summary_step s s' \<longleftrightarrow>
     su_ConfigValid s' = su_ConfigValid s \<and>
     (su_BootstrapRequired s' \<longrightarrow> su_BootstrapRequired s) \<and>
     (su_SentinelReady s' = su_SentinelReady s \<or> su_SentinelReady s' = Some (True, ''QuorumEstablished'')) \<and>
     (su_Phase s' = su_Phase s \<or> su_Phase s' = PhaseRunning \<or> su_Phase s' = PhaseInitializing)"

lemma summary_step_refl [simp]: "summary_step s s"
  by (simp add: summary_step_def)

lemma summary_step_trans: "summary_step s t \<Longrightarrow> summary_step t u \<Longrightarrow> summary_step s u"
  unfolding summary_step_def by metis

lemma report_step:
  "summary_step s (report_generation u g (report_phase ready (report_counts r t m s)))"
  "su_Phase (report_generation u g (report_phase ready (report_counts r t m s))) = (if ready then PhaseRunning else PhaseInitializing)"
  by (simp_all add: summary_step_def report_generation_def report_phase_def report_counts_def)

lemma sentinel_summary_now_step:
  "sentinel_summary_now rd lr s = Inr (s', warned) \<Longrightarrow> summary_step s s' \<and> (su_Phase s' = PhaseRunning \<or> su_Phase s' = PhaseInitializing)"
  by (auto simp: sentinel_summary_now_def Let_def report_step split: sum.splits prod.splits if_splits)

lemma updateSentinelStatus_step:
  assumes "updateSentinelStatus env lr w = (res, err, w', steps)"
  shows "summary_step (sw_Summary w) (sw_Summary w') \<and>
         (err = None \<longrightarrow> su_Phase (sw_Summary w') = PhaseRunning \<or> su_Phase (sw_Summary w') = PhaseInitializing)"
  using assms
  by (auto simp: updateSentinelStatus_def Let_def dest!: sentinel_summary_now_step split: option.splits sum.splits prod.splits if_splits)

lemma save_status_summary [simp]: "sw_Summary (save_status st w) = sw_Summary w"
  by (simp add: save_status_def)

lemma finish_sentinel_step:
  assumes "finish_sentinel env lr w = (res, err, w', steps)"
  shows "summary_step (sw_Summary w) (sw_Summary w') \<and>
         (err = None \<longrightarrow> su_Phase (sw_Summary w') = PhaseRunning \<or> su_Phase (sw_Summary w') = PhaseInitializing)"
proof (cases "apply_all (apply_pdb (sz_Apply env)) [RedisPDB (pdbEnabled lr), SentinelPDB (pdbEnabled lr)]")
  case (Pair e xs)
  show ?thesis
  proof (cases e)
    case None
    define w1 where "w1 = w\<lparr>sw_Monitor := ensureSentinelMonitor (sz_Channel env) lr (sw_Monitor w)\<rparr>"
    obtain evs where "updateSentinelStatus env lr w1 = (res, err, w', evs)"
      using assms unfolding finish_sentinel_def Pair None Let_def w1_def [symmetric] by (auto split: prod.splits)
    from updateSentinelStatus_step [OF this] show ?thesis by (simp add: w1_def)
  next
    case (Some a)
    then show ?thesis using assms Pair by (auto simp: finish_sentinel_def)
  qed
qed

lemma label_and_heal_step:
  assumes "label_and_heal env lr mem w = Inr (res, err, w', steps)"
  shows "summary_step (sw_Summary w) (sw_Summary w') \<and>
         (err = None \<longrightarrow> su_Phase (sw_Summary w') = PhaseRunning \<or> su_Phase (sw_Summary w') = PhaseInitializing)"
  using assms unfolding label_and_heal_def Let_def
  by (auto dest: finish_sentinel_step split: sum.splits prod.splits)

lemma bootstrapSentinel_flags:
  assumes "bootstrapSentinel env spec pw stored = (err, mem, stored', cs)"
  shows "(stored' \<longrightarrow> stored) \<and> (err = None \<and> stored \<longrightarrow> mem = stored')"
  using assms
  by (auto simp: bootstrapSentinel_def clear_bootstrap_def split: option.splits sum.splits prod.splits if_splits status_write.splits)

lemma with_flag_step: "b \<longrightarrow> su_BootstrapRequired s \<Longrightarrow> summary_step s (s\<lparr>su_BootstrapRequired := b\<rparr>)"
  by (simp add: summary_step_def)

text \<open>A pass ends in the failed application of a resource, or in the steps after a bootstrap, if there is one.\<close>

lemma reconcileSentinel_cases [consumes 1, case_names Resource Steady BootstrapFailed Bootstrapped]:
  assumes "reconcileSentinel env lr w = r"
  obtains e xs where "r = Inr (NoRequeue, Some (FromApi e), w, map Applied xs)"
  | mem xs where "\<not> su_BootstrapRequired (sw_Summary w)" "sg_BootstrapRequired mem = su_BootstrapRequired (sw_Summary w)"
      "r = map_sum id (\<lambda>(res, err, w', steps). (res, err, w', map Applied xs @ steps)) (label_and_heal env lr mem w)"
  | e mem stored seeds xs pw where "su_BootstrapRequired (sw_Summary w)"
      "bootstrapSentinel (sz_Bootstrap env) (li_Sentinel lr) pw True = (Some e, mem, stored, seeds)"
      "r = Inr (NoRequeue, Some e, w\<lparr>sw_Summary := (sw_Summary w)\<lparr>su_BootstrapRequired := stored\<rparr>\<rparr>, map Applied xs @ map Seeded seeds)"
  | mem stored seeds xs pw where "su_BootstrapRequired (sw_Summary w)"
      "bootstrapSentinel (sz_Bootstrap env) (li_Sentinel lr) pw True = (None, sg_BootstrapRequired mem, stored, seeds)"
      "r = map_sum id (\<lambda>(res, err, w', steps). (res, err, w', (map Applied xs @ map Seeded seeds) @ steps))
             (label_and_heal env lr mem (w\<lparr>sw_Summary := (sw_Summary w)\<lparr>su_BootstrapRequired := stored\<rparr>\<rparr>))"
proof -
  define mem0 where "mem0 = load_status (initial_phase (su_Phase (sw_Summary w))) w"
  define replicas where "replicas = sentinelDesiredReplicas True (quarantineConfigDangerous (li_AuthEnabled lr) (lr_MasterName lr))
    (fst (sg_Capture mem0)) (sz_Now env)"
  define pw where "pw = getRedisPassword (px_Secret (sz_Heal env)) lr"
  obtain e xs where xs: "apply_all (sz_Apply env) (sentinel_resources replicas) = (e, xs)" by fastforce
  have flag0: "sg_BootstrapRequired mem0 = su_BootstrapRequired (sw_Summary w)" by (simp add: mem0_def load_status_def)
  note eq = assms [unfolded reconcileSentinel_def Let_def, folded mem0_def, folded replicas_def pw_def, unfolded xs]
  show thesis
  proof (cases e)
    case (Some e')
    then show thesis using eq that(1) [of e' xs] by simp
  next
    case None
    show thesis
    proof (cases "su_BootstrapRequired (sw_Summary w)")
      case False
      then have "r = map_sum id (\<lambda>(res, err, w', steps). (res, err, w', map Applied xs @ steps)) (label_and_heal env lr mem0 w)"
        using eq None flag0 by (cases "label_and_heal env lr mem0 w") auto
      then show thesis using that(2) [of mem0] False flag0 by simp
    next
      case True
      obtain err mem stored seeds where boot: "bootstrapSentinel (sz_Bootstrap env) (li_Sentinel lr) pw True = (err, mem, stored, seeds)"
        by (metis prod_cases3)
      define w1 where "w1 = w\<lparr>sw_Summary := (sw_Summary w)\<lparr>su_BootstrapRequired := stored\<rparr>\<rparr>"
      define mem1 where "mem1 = (if mem then mem0 else load_status (su_Phase (sw_Summary w)) w1)"
      note eq' = eq [unfolded flag0, simplified None True boot option.case prod.case, folded w1_def, folded mem1_def]
      show thesis
      proof (cases err)
        case (Some e')
        then show thesis using that(3) [OF True boot [unfolded Some], of xs] eq' by (simp add: w1_def)
      next
        case None
        have "mem = stored" using bootstrapSentinel_flags [OF boot] None by simp
        then have "mem = sg_BootstrapRequired mem1" using True flag0 by (simp add: mem1_def load_status_def w1_def)
        then show thesis using that(4) [OF True, of pw mem1 stored seeds xs] boot eq' None
          by (cases "label_and_heal env lr mem1 w1") (auto simp: w1_def [symmetric])
      qed
    qed
  qed
qed

lemma reconcileSentinel_step:
  assumes "reconcileSentinel env lr w = Inr (res, err, w', steps)"
  shows "summary_step (sw_Summary w) (sw_Summary w') \<and>
         (err = None \<longrightarrow> su_Phase (sw_Summary w') = PhaseRunning \<or> su_Phase (sw_Summary w') = PhaseInitializing)"
  using assms
proof (cases rule: reconcileSentinel_cases)
  case (Steady mem xs)
  then obtain steps' where "label_and_heal env lr mem w = Inr (res, err, w', steps')"
    by (cases "label_and_heal env lr mem w") auto
  from label_and_heal_step [OF this] show ?thesis .
next
  case (BootstrapFailed e mem stored seeds xs pw)
  then show ?thesis by (auto intro: with_flag_step)
next
  case (Bootstrapped mem stored seeds xs pw)
  define w1 where "w1 = w\<lparr>sw_Summary := (sw_Summary w)\<lparr>su_BootstrapRequired := stored\<rparr>\<rparr>"
  obtain steps' where "label_and_heal env lr mem w1 = Inr (res, err, w', steps')"
    using Bootstrapped(3) unfolding w1_def [symmetric] by (cases "label_and_heal env lr mem w1") auto
  moreover have "summary_step (sw_Summary w) (sw_Summary w1)" using Bootstrapped(1) by (auto simp: w1_def intro: with_flag_step)
  ultimately show ?thesis using label_and_heal_step summary_step_trans by blast
qed auto

section \<open>What the bootstrap registers\<close>

definition seeds_of :: "sentinel_step list \<Rightarrow> redis_cmd list" where
  "seeds_of steps = concat (map (\<lambda>s. case s of Seeded c \<Rightarrow> [c] | _ \<Rightarrow> []) steps)"

definition heals_of :: "sentinel_step list \<Rightarrow> pass_cmd list" where
  "heals_of steps = concat (map (\<lambda>s. case s of Healed c \<Rightarrow> [c] | _ \<Rightarrow> []) steps)"

lemma seeds_of_simps [simp]:
  "seeds_of (xs @ ys) = seeds_of xs @ seeds_of ys" "seeds_of (map Applied rs) = []" "seeds_of (map Seeded cs) = cs"
  "seeds_of (map Healed hs) = []" "seeds_of (map Reported es) = []" "seeds_of (Relabelled ps # xs) = seeds_of xs"
  "seeds_of (UnscopedWarning # xs) = seeds_of xs" "seeds_of (Applied r # xs) = seeds_of xs" "seeds_of [] = []"
  by (simp_all add: seeds_of_def comp_def concat_map_singleton)

lemma heals_of_simps [simp]:
  "heals_of (xs @ ys) = heals_of xs @ heals_of ys" "heals_of (map Applied rs) = []" "heals_of (map Seeded cs) = []"
  "heals_of (map Healed hs) = hs" "heals_of (map Reported es) = []" "heals_of (Relabelled ps # xs) = heals_of xs"
  "heals_of (UnscopedWarning # xs) = heals_of xs" "heals_of (Applied r # xs) = heals_of xs" "heals_of [] = []"
  by (simp_all add: heals_of_def comp_def concat_map_singleton)

lemma updateSentinelStatus_quiet:
  "updateSentinelStatus env lr w = (res, err, w', steps) \<Longrightarrow> seeds_of steps = [] \<and> heals_of steps = []"
  by (auto simp: updateSentinelStatus_def Let_def split: option.splits sum.splits prod.splits if_splits)

lemma finish_sentinel_quiet:
  assumes "finish_sentinel env lr w = (res, err, w', steps)"
  shows "seeds_of steps = []" "heals_of steps = []"
  using assms by (auto simp: finish_sentinel_def Let_def dest: updateSentinelStatus_quiet split: option.splits prod.splits)

lemma label_and_heal_steps:
  assumes "label_and_heal env lr mem w = Inr (res, err, w', steps)"
  shows "seeds_of steps = []" "sg_BootstrapRequired mem \<Longrightarrow> heals_of steps = []"
  using assms unfolding label_and_heal_def Let_def reconcileSentinelCluster_def
  by (auto dest: finish_sentinel_quiet split: sum.splits prod.splits option.splits if_splits)

text \<open>The calls of one Sentinel in a bootstrap, for the address of the master.\<close>

definition registers :: "string \<Rightarrow> redis_cmd \<Rightarrow> bool" where
  "registers ip c \<longleftrightarrow> (case c of SentinelMonitor _ m _ \<Rightarrow> m = ip | ReplicaOfNoOne _ \<Rightarrow> False | _ \<Rightarrow> True)"

lemma applySentinelSettings_registers: "list_all (registers ip) (applySentinelSettings s spec)"
  by (auto simp: applySentinelSettings_def registers_def split: option.splits)

lemma seed_pod_registers: "list_all (registers ip) (fst (seed_pod env spec ip pw q pod))"
  using applySentinelSettings_registers [of ip "pd_PodIP pod" spec]
  by (auto simp: seed_pod_def Let_def registers_def split: option.splits sum.splits)

lemma seedSentinels_registers:
  "seedSentinelsWithMaster env spec ip pw q = (e, cs, n, t) \<Longrightarrow> list_all (registers ip) cs"
  using seed_pod_registers [of ip env spec pw q]
  by (fastforce simp: seedSentinelsWithMaster_def Let_def list_all_iff split: sum.splits)

lemma bootstrapSentinel_seeds:
  assumes "bootstrapSentinel env spec pw stored = (err, mem, stored', cs)"
  shows "cs = [] \<or> (\<exists>sts pod0. bz_GetSTS env = Inr sts \<and> bz_GetPod0 env = Inr pod0 \<and> bootstrap_ready sts pod0 \<and>
           list_all (registers (pq_PodIP pod0)) cs)"
  using assms seedSentinels_registers
  by (auto simp: bootstrapSentinel_def split: option.splits sum.splits prod.splits if_splits)

text \<open>C19: The Sentinels are registered by a bootstrap only while the stored flag asks for one, and only with the
  address of pod 0, which has one and belongs to the current revision of its StatefulSet; no server is
  promoted. The healing sends nothing before the flag is cleared: a pass that leaves the flag set, in memory
  or stored, ends without a command of the healing.\<close>

theorem bootstrap_registers_pod0:
  assumes "reconcileSentinel env lr w = Inr (res, err, w', steps)"
  shows "(seeds_of steps \<noteq> [] \<longrightarrow> su_BootstrapRequired (sw_Summary w) \<and>
           (\<exists>sts pod0. bz_GetSTS (sz_Bootstrap env) = Inr sts \<and> bz_GetPod0 (sz_Bootstrap env) = Inr pod0 \<and>
              pq_PodIP pod0 \<noteq> [] \<and> po_Revision pod0 = sh_CurrentRevision sts \<and> list_all (registers (pq_PodIP pod0)) (seeds_of steps))) \<and>
         (su_BootstrapRequired (sw_Summary w') \<longrightarrow> heals_of steps = [])"
proof -
  have "(seeds_of steps \<noteq> [] \<longrightarrow> su_BootstrapRequired (sw_Summary w) \<and>
           (\<exists>sts pod0. bz_GetSTS (sz_Bootstrap env) = Inr sts \<and> bz_GetPod0 (sz_Bootstrap env) = Inr pod0 \<and>
              bootstrap_ready sts pod0 \<and> list_all (registers (pq_PodIP pod0)) (seeds_of steps))) \<and>
        (su_BootstrapRequired (sw_Summary w') \<longrightarrow> heals_of steps = [])"
    using assms
  proof (cases rule: reconcileSentinel_cases)
    case (Steady mem xs)
    then obtain steps' where "label_and_heal env lr mem w = Inr (res, err, w', steps')" "steps = map Applied xs @ steps'"
      by (cases "label_and_heal env lr mem w") auto
    with label_and_heal_steps [OF this(1)] label_and_heal_step [OF this(1)] Steady(1) show ?thesis
      by (simp add: summary_step_def)
  next
    case (BootstrapFailed e mem stored seeds xs pw)
    then show ?thesis using bootstrapSentinel_seeds [OF BootstrapFailed(2)] by auto
  next
    case (Bootstrapped mem stored seeds xs pw)
    define w1 where "w1 = w\<lparr>sw_Summary := (sw_Summary w)\<lparr>su_BootstrapRequired := stored\<rparr>\<rparr>"
    obtain steps' where l: "label_and_heal env lr mem w1 = Inr (res, err, w', steps')"
      and "steps = (map Applied xs @ map Seeded seeds) @ steps'"
      using Bootstrapped(3) unfolding w1_def [symmetric] by (cases "label_and_heal env lr mem w1") auto
    moreover have "su_BootstrapRequired (sw_Summary w') \<longrightarrow> sg_BootstrapRequired mem"
      using label_and_heal_step [OF l] bootstrapSentinel_flags [OF Bootstrapped(2)] by (simp add: summary_step_def w1_def)
    ultimately show ?thesis
      using label_and_heal_steps [OF l] bootstrapSentinel_seeds [OF Bootstrapped(2)] Bootstrapped(1) by auto
  qed auto
  then show ?thesis by (auto simp: bootstrap_ready_def)
qed

definition sentinel_cr_example :: sentinel_cr where
  "sentinel_cr_example = sentinel_instance.extend pass_instance
     \<lparr>lc_Generation = 1, lc_DisablePolling = False, lc_DisableEvents = False, lc_Fast = None, lc_Steady = None,
      lc_PDBCreate = None, lc_MetricsEnabled = None, lc_ServiceMonitor = False\<rparr>"

definition summary_example :: sentinel_summary where
  "summary_example =
     \<lparr>su_Phase = PhaseUnset, su_BootstrapRequired = True, su_RedisReady = 0, su_RedisTotal = 0, su_Sentinels = None,
      su_Replicas = None, su_Master = None, su_ObservedGeneration = 0, su_Status = [], su_ConfigValid = None,
      su_Ready = None, su_SentinelReady = None, su_Initialized = None, su_Unscoped = None\<rparr>"

definition sentinel_store_example :: sentinel_store where
  "sentinel_store_example =
     \<lparr>sw_Summary = summary_example, sw_Auth = None, sw_Capture = snd (sg_Capture pass_status), sw_Stale = None,
      sw_Operation = snd (sg_Operation pass_status), sw_Recovery = (status_example, status_example),
      sw_StallNoted = False, sw_Monitor = False\<rparr>"

definition sentinel_sts_example :: shard_sts where
  "sentinel_sts_example = \<lparr>sh_Hash = [], sh_Generation = 1, sh_ObservedGeneration = 1, sh_UpdateRevision = ''r1'',
     sh_CurrentRevision = ''r1'', sh_Partition = None, sh_SpecReplicas = Some 3, sh_UpdatedReplicas = 3, sh_ReadyReplicas = 3, sh_Replicas = 3\<rparr>"

definition bootstrap_env_example :: bootstrap_env where
  "bootstrap_env_example =
     \<lparr>bz_Latest = None, bz_GetSTS = Inr sentinel_sts_example, bz_GetPod0 = Inr (example_instance_pod ''c-redis-0'' ''1'' []),
      bz_Recovery = env_example, bz_ClearWrite = Written, bz_Refetch = None\<rparr>"

definition status_reads_example :: status_reads where
  "status_reads_example = \<lparr>sd_RedisSTS = Inr (3, 3), sd_SentinelSTS = Inr (3, 3), sd_Pods = Inr [example_instance_pod ''c-redis-0'' ''1'' []],
     sd_AddressPods = Inr [], sd_AddrByName = (\<lambda>_ _. Inr [''1'', ''6379'']), sd_MasterPod = Inr ''1'', sd_Replicas = Inr []\<rparr>"

definition sentinel_pass_example :: sentinel_pass_env where
  "sentinel_pass_example =
     \<lparr>sz_Now = 100, sz_Apply = (\<lambda>_. None), sz_Bootstrap = bootstrap_env_example, sz_Label = example_label_env,
      sz_Heal = pass_env, sz_Channel = True, sz_Latest = None, sz_Reads = status_reads_example,
      sz_StatusWrite = None, sz_Refetch = None\<rparr>"

lemma sentinel_pass_example_steps:
  "map_sum (\<lambda>_. ()) (\<lambda>(res, err, w, steps). (res, err, su_Phase (sw_Summary w), su_BootstrapRequired (sw_Summary w), seeds_of steps))
     (reconcileSentinel sentinel_pass_example sentinel_cr_example sentinel_store_example) =
   Inr (RequeueAfter (2 * second), None, PhaseInitializing, False, [SentinelMonitor ''s1'' ''1'' 2])"
  by code_simp

lemma sentinel_pass_example_pass:
  obtains w steps where "reconcileSentinel sentinel_pass_example sentinel_cr_example sentinel_store_example =
      Inr (RequeueAfter (2 * second), None, w, steps)"
    "seeds_of steps = [SentinelMonitor ''s1'' ''1'' 2]" "su_Phase (sw_Summary w) = PhaseInitializing" "\<not> su_BootstrapRequired (sw_Summary w)"
  using sentinel_pass_example_steps by (cases "reconcileSentinel sentinel_pass_example sentinel_cr_example sentinel_store_example") auto

theorem bootstrap_registers_pod0_witness:
  "su_BootstrapRequired (sw_Summary sentinel_store_example) \<and> registers ''1'' (SentinelMonitor ''s1'' ''1'' 2)"
proof -
  obtain w steps where "reconcileSentinel sentinel_pass_example sentinel_cr_example sentinel_store_example =
      Inr (RequeueAfter (2 * second), None, w, steps)" "seeds_of steps = [SentinelMonitor ''s1'' ''1'' 2]"
    by (rule sentinel_pass_example_pass)
  from bootstrap_registers_pod0 [OF this(1)] this(2) show ?thesis
    by (auto simp: sentinel_pass_example_def bootstrap_env_example_def example_instance_pod_def)
qed

end
