(* ===== verification/Failover_Plan.thy ===== *)
theory Failover_Plan
  imports Recovery
begin

text \<open>
  The pure decisions of the failover mode, in which the operator itself detects the death of a master and
  elects the next one: \<open>internal/controller/failover_plan.go\<close>, \<open>failover_intent.go\<close> and the streak of
  \<open>failover_monitor.go\<close>.

  The intent is derived from the assignments that the pods carry as annotations. An epoch is an \<open>int64\<close>; its
  increment is written with the wrap-around of that type.
\<close>

section \<open>The death of a master\<close>

datatype masterDeathAction =
    masterDeathClearMarker | masterDeathStartWindow | masterDeathWait | masterDeathHold
  | masterDeathDeclareK8s | masterDeathDeclareProbe

record masterPodView =
  mv_present :: bool
  mv_ready :: bool
  mv_terminating :: bool

definition linkStatusDown :: string where
  "linkStatusDown = ''down''"

definition planMasterDeath ::
    "masterPodView \<Rightarrow> bool \<Rightarrow> string list \<Rightarrow> time option \<Rightarrow> time \<Rightarrow> duration \<Rightarrow> masterDeathAction" where
  "planMasterDeath pod masterReachable replicaLinks downSince now downAfter =
     (if \<not> mv_present pod \<or> \<not> mv_ready pod \<or> mv_terminating pod then masterDeathDeclareK8s
      else if masterReachable then masterDeathClearMarker
      else case downSince of
          None \<Rightarrow> masterDeathStartWindow
        | Some since \<Rightarrow>
            if Sub now since < downAfter then masterDeathWait
            else if length replicaLinks > 0 \<and> list_all (\<lambda>link. link = linkStatusDown) replicaLinks then masterDeathDeclareProbe
            else masterDeathHold)"

section \<open>Who should be master\<close>

datatype failoverAction =
    failoverNone | failoverWait | failoverSeed | failoverPromote | failoverRefuse
  | failoverUnsafeElect | failoverRefuseUnverified

record failoverPlan =
  fv_action :: failoverAction
  fv_masterIP :: string
  fv_diverged :: bool
  fv_forked :: bool
  fv_holders :: nat
  fv_unverified :: "RedisNodeState list"

definition failover_plan :: "failoverAction \<Rightarrow> failoverPlan" where
  "failover_plan a =
     \<lparr>fv_action = a, fv_masterIP = [], fv_diverged = False, fv_forked = False, fv_holders = 0, fv_unverified = []\<rparr>"

definition planFailover ::
    "ReplicationState \<Rightarrow> string \<Rightarrow> bool \<Rightarrow> string \<Rightarrow> bool \<Rightarrow> time option \<Rightarrow> time \<Rightarrow> duration \<Rightarrow> failoverPlan" where
  "planFailover state liveMasterIP allowUnsafe bootstrapMasterIP unsettled transitionSince now cooldown =
     (if liveMasterIP \<noteq> [] then failover_plan failoverNone
      else if unsettled then failover_plan failoverWait
      else if (case transitionSince of None \<Rightarrow> False | Some t \<Rightarrow> Sub now t < cooldown) then failover_plan failoverWait
      else
        let unverified = AuthFailedRedisNodes state; holders = DataHolders state
        in if length unverified > 0 then (failover_plan failoverRefuseUnverified)\<lparr>fv_unverified := unverified\<rparr>
           else if length holders = 0
           then (if bootstrapMasterIP = [] then failover_plan failoverWait
                 else (failover_plan failoverSeed)\<lparr>fv_masterIP := bootstrapMasterIP\<rparr>)
           else case BestDataHolder state of
               (None, _, _) \<Rightarrow> (failover_plan failoverWait)\<lparr>fv_holders := length holders\<rparr>
             | (Some best, diverged, forked) \<Rightarrow>
                 if diverged \<or> forked
                 then (if \<not> allowUnsafe
                       then (failover_plan failoverRefuse)\<lparr>fv_forked := forked, fv_holders := length holders\<rparr>
                       else (failover_plan failoverUnsafeElect)\<lparr>fv_masterIP := rn_IP best, fv_diverged := diverged,
                              fv_forked := forked, fv_holders := length holders\<rparr>)
                 else (failover_plan failoverPromote)\<lparr>fv_masterIP := rn_IP best, fv_holders := length holders\<rparr>)"

definition masterStartAuthorizedFor :: "failoverAction \<Rightarrow> bool" where
  "masterStartAuthorizedFor action \<longleftrightarrow> action = failoverSeed"

section \<open>The intent\<close>

record failoverPodView =
  vw_name :: string
  vw_ip :: string
  vw_terminating :: bool
  vw_ready :: bool
  vw_restarted :: bool
  vw_reachable :: bool
  vw_hasAssignment :: bool
  vw_assignedRole :: string
  vw_assignedMasterIP :: string
  vw_epoch :: int

record failoverIntent =
  fi_masterName :: string
  fi_masterIP :: string
  fi_maxEpoch :: int

record failoverStamp =
  tp_podName :: string
  tp_role :: string
  tp_masterIP :: string
  tp_epoch :: int
  tp_authorizeMasterStart :: bool

definition int64 :: "int \<Rightarrow> int" where
  "int64 x = (x + 2 ^ 63) mod 2 ^ 64 - 2 ^ 63"

lemma int64_code [code]:
  "int64 x = (if - 9223372036854775808 \<le> x \<and> x \<le> 9223372036854775807 then x else (x + 2 ^ 63) mod 2 ^ 64 - 2 ^ 63)"
  by (simp add: int64_def)

text \<open>The body of the loop; the second component is the epoch of the master found so far.\<close>

definition resolve_pod :: "failoverPodView \<Rightarrow> failoverIntent \<times> int \<Rightarrow> failoverIntent \<times> int" where
  "resolve_pod p acc =
     (case acc of (intent0, masterEpoch) \<Rightarrow>
        if \<not> vw_hasAssignment p then (intent0, masterEpoch)
        else
          let intent = (if vw_epoch p > fi_maxEpoch intent0 then intent0\<lparr>fi_maxEpoch := vw_epoch p\<rparr> else intent0)
          in if vw_assignedRole p \<noteq> roleMaster then (intent, masterEpoch)
             else if fi_masterName intent = [] \<or> vw_epoch p > masterEpoch \<or>
                     vw_epoch p = masterEpoch \<and> vw_name p < fi_masterName intent
             then (intent\<lparr>fi_masterName := vw_name p, fi_masterIP := vw_ip p\<rparr>, vw_epoch p)
             else (intent, masterEpoch))"

definition resolveFailoverIntent :: "failoverPodView list \<Rightarrow> failoverIntent" where
  "resolveFailoverIntent pods = fst (fold resolve_pod pods (\<lparr>fi_masterName = [], fi_masterIP = [], fi_maxEpoch = 0\<rparr>, 0))"

definition determineFailoverLiveMaster :: "ReplicationState \<Rightarrow> string \<Rightarrow> string" where
  "determineFailoverLiveMaster state intendedMasterIP =
     (if intendedMasterIP = [] then []
      else case map_of (RedisNodes state) intendedMasterIP of
          None \<Rightarrow> []
        | Some rn \<Rightarrow> if rn_Reachable rn \<and> rn_Role rn = roleMaster then intendedMasterIP else [])"

definition failoverTransitionSettled :: "failoverIntent \<Rightarrow> ReplicationState \<Rightarrow> (string \<rightharpoonup> string) \<Rightarrow> bool" where
  "failoverTransitionSettled intent state roleLabels =
     (if fi_masterName intent = [] then True
      else if determineFailoverLiveMaster state (fi_masterIP intent) = [] then False
      else roleLabels (fi_masterName intent) = Some roleMaster)"

definition failoverPromotionUnsettled :: "failoverIntent \<Rightarrow> ReplicationState \<Rightarrow> (string \<rightharpoonup> string) \<Rightarrow> bool" where
  "failoverPromotionUnsettled intent state roleLabels =
     (if fi_masterName intent = [] then False
      else case map_of (RedisNodes state) (fi_masterIP intent) of
          None \<Rightarrow> False
        | Some rn \<Rightarrow> if \<not> rn_Reachable rn then False else \<not> failoverTransitionSettled intent state roleLabels)"

definition reauth_stamp :: "failoverIntent \<Rightarrow> string \<Rightarrow> failoverPodView \<Rightarrow> failoverStamp option" where
  "reauth_stamp intent liveMasterIP p =
     (let stamp = (\<lambda>epoch. \<lparr>tp_podName = vw_name p, tp_role = roleReplica, tp_masterIP = liveMasterIP, tp_epoch = epoch,
                             tp_authorizeMasterStart = False\<rparr>)
      in if vw_ip p = [] \<or> vw_terminating p \<or> vw_name p = fi_masterName intent \<or> vw_ip p = liveMasterIP then None
         else if \<not> vw_hasAssignment p then Some (stamp (max (fi_maxEpoch intent) 1))
         else if \<not> vw_ready p \<and> vw_restarted p \<and> \<not> vw_reachable p then Some (stamp (int64 (fi_maxEpoch intent + 1)))
         else None)"

definition planFailoverReauth :: "failoverPodView list \<Rightarrow> failoverIntent \<Rightarrow> string \<Rightarrow> failoverStamp list" where
  "planFailoverReauth pods intent liveMasterIP =
     sort_key tp_podName (List.map_filter (reauth_stamp intent liveMasterIP) pods)"

definition planFailoverRepoints :: "ReplicationState \<Rightarrow> string \<Rightarrow> string list" where
  "planFailoverRepoints state liveMasterIP =
     sort (map fst (filter (\<lambda>(ip, rn). rn_Reachable rn \<and> ip \<noteq> liveMasterIP \<and>
       (rn_Role rn = roleMaster \<or> rn_MasterHost rn \<noteq> liveMasterIP)) (RedisNodes state)))"

definition planFailoverFence :: "failoverPodView list \<Rightarrow> string \<Rightarrow> string \<Rightarrow> string" where
  "planFailoverFence views outgoingIP newMasterIP =
     (if outgoingIP = [] \<or> outgoingIP = newMasterIP then []
      else if list_ex (\<lambda>v. vw_ip v = outgoingIP) views then outgoingIP else [])"

section \<open>The watcher\<close>

record failoverProbeStreak =
  fk_masterIP :: string
  fk_failingSince :: time
  fk_fired :: bool

definition no_streak :: failoverProbeStreak where
  "no_streak = \<lparr>fk_masterIP = [], fk_failingSince = 0, fk_fired = False\<rparr>"

definition advanceFailoverProbeStreak ::
    "failoverProbeStreak \<Rightarrow> string \<Rightarrow> bool \<Rightarrow> time \<Rightarrow> duration \<Rightarrow> failoverProbeStreak \<times> bool" where
  "advanceFailoverProbeStreak prev masterIP probeOK now downAfter =
     (if masterIP = [] then (no_streak, False)
      else if probeOK then (no_streak\<lparr>fk_masterIP := masterIP\<rparr>, False)
      else
        let nxt = (if fk_masterIP prev \<noteq> masterIP \<or> fk_failingSince prev = 0
                   then \<lparr>fk_masterIP = masterIP, fk_failingSince = now, fk_fired = False\<rparr> else prev)
        in if \<not> fk_fired nxt \<and> Sub now (fk_failingSince nxt) \<ge> downAfter then (nxt\<lparr>fk_fired := True\<rparr>, True)
           else (nxt, False))"

text \<open>One tick: \<open>None\<close> is a failed read of the object; the window and the address are read with it.\<close>

definition watch_tick :: "(string \<times> bool \<times> duration) option \<Rightarrow> time \<Rightarrow> failoverProbeStreak \<Rightarrow> failoverProbeStreak \<times> bool" where
  "watch_tick ob now streak =
     (case ob of
        None \<Rightarrow> (no_streak, False)
      | Some (masterIP, answers, downAfter) \<Rightarrow>
          advanceFailoverProbeStreak streak masterIP (masterIP \<noteq> [] \<and> answers) now downAfter)"

section \<open>Safety of the decision\<close>

text \<open>The plan as one of the recoveries, whose contract it shares once it acts.\<close>

definition as_recovery :: "failoverPlan \<Rightarrow> leaderlessPlan" where
  "as_recovery p =
     \<lparr>lp_action = (case fv_action p of
        failoverNone \<Rightarrow> recoveryClearMarker | failoverWait \<Rightarrow> recoveryWait | failoverSeed \<Rightarrow> recoverySeedNoData
      | failoverPromote \<Rightarrow> recoveryPromoteSurvivor | failoverRefuse \<Rightarrow> recoveryRefuse
      | failoverUnsafeElect \<Rightarrow> recoveryUnsafeElect | failoverRefuseUnverified \<Rightarrow> recoveryRefuseUnverified),
      lp_masterIP = fv_masterIP p, lp_diverged = fv_diverged p, lp_forked = fv_forked p, lp_holders = fv_holders p,
      lp_unverified = fv_unverified p\<rparr>"

definition cooling :: "time option \<Rightarrow> time \<Rightarrow> duration \<Rightarrow> bool" where
  "cooling since now cd \<longleftrightarrow> (case since of None \<Rightarrow> False | Some t \<Rightarrow> Sub now t < cd)"

lemma planFailover_stages:
  "as_recovery (planFailover s live unsafe b unsettled since now cd) =
     (if live \<noteq> [] then plan_action recoveryClearMarker
      else if unsettled \<or> cooling since now cd then plan_action recoveryWait
      else ghost_act s unsafe b)"
  by (cases s rule: BestDataHolder_cases)
    (auto simp: planFailover_def as_recovery_def failover_plan_def plan_action_def cooling_def ghost_act_def Let_def split: option.splits)

interpretation failover: election_planner
  "\<lambda>s unsafe b. as_recovery (planFailover s live unsafe b unsettled since now cd)" for live unsettled since now cd
proof -
  have act: "elects (as_recovery (planFailover s live unsafe b unsettled since now cd)) \<Longrightarrow>
      as_recovery (planFailover s live unsafe b unsettled since now cd) = ghost_act s unsafe b" for s unsafe b
    unfolding planFailover_stages by (auto simp: elects_def plan_action_def split: if_splits)
  moreover have "elects p" if "lp_action p \<in> {recoverySeedNoData, recoveryPromoteSurvivor, recoveryUnsafeElect}" for p
    using that by (simp add: elects_def)
  ultimately show "election_planner (\<lambda>s unsafe b. as_recovery (planFailover s live unsafe b unsettled since now cd))"
    using ghost_act_planner unfolding election_planner_def by (metis insertI1 insertI2)
qed

definition failover_elects :: "failoverPlan \<Rightarrow> bool" where
  "failover_elects p \<longleftrightarrow> fv_action p \<in> {failoverSeed, failoverPromote, failoverUnsafeElect}"

lemma elects_as_recovery: "elects (as_recovery p) \<longleftrightarrow> failover_elects p"
  by (cases "fv_action p") (auto simp: elects_def failover_elects_def as_recovery_def)

lemma planFailover_elects:
  "failover_elects (planFailover s live unsafe b unsettled since now cd) \<Longrightarrow>
   live = [] \<and> \<not> unsettled \<and> \<not> cooling since now cd \<and>
   as_recovery (planFailover s live unsafe b unsettled since now cd) = ghost_act s unsafe b"
  unfolding elects_as_recovery [symmetric] planFailover_stages
  by (auto simp: elects_def plan_action_def split: if_splits)

text \<open>C7: The failover mode without the unsafe opt-in elects a master only when no live master is known, the last
  transition is settled and its cooldown over, and no pod refuses the credential. Then either no pod that answers
  holds a key and the bootstrap pod is seeded, or the pods with data form one lineage of which at most one is a
  master, and the elected pod is one of them that no other exceeds in replication offset.\<close>

theorem planFailover_lossless:
  assumes "failover_elects (planFailover s live False b unsettled since now cd)" and "list_all proper_replids (DataHolders s)"
  shows "live = [] \<and> \<not> unsettled \<and> \<not> cooling since now cd \<and> AuthFailedRedisNodes s = [] \<and>
    (DataHolders s = [] \<and> b \<noteq> [] \<and> fv_masterIP (planFailover s live False b unsettled since now cd) = b \<or>
     one_lineage (DataHolders s) \<and>
     length (filter (\<lambda>h. rn_Role h = roleMaster) (DataHolders s)) \<le> 1 \<and>
     list_ex (\<lambda>h. rn_IP h = fv_masterIP (planFailover s live False b unsettled since now cd) \<and>
        list_all (\<lambda>d. rn_Offset d \<le> rn_Offset h) (DataHolders s)) (DataHolders s))"
proof -
  have act: "as_recovery (planFailover s live False b unsettled since now cd) = ghost_act s False b"
    using planFailover_elects [OF assms(1)] by blast
  then have "fv_masterIP (planFailover s live False b unsettled since now cd) = lp_masterIP (ghost_act s False b)"
    by (metis as_recovery_def leaderlessPlan.select_convs(2))
  moreover have "elects (ghost_act s False b)" using assms(1) unfolding elects_as_recovery [symmetric] act .
  ultimately show ?thesis
    using ghost_act_lossless [OF _ assms(2), of b] planFailover_elects [OF assms(1)] by simp
qed

theorem planFailover_lossless_witness:
  "one_lineage (DataHolders pinned_example) \<and>
   fv_masterIP (planFailover pinned_example [] False ''10.0.0.1'' False (Some 5) (40 * second) (10 * second)) = ''10.0.0.2''"
proof -
  have "failover_elects (planFailover pinned_example [] False ''10.0.0.1'' False (Some 5) (40 * second) (10 * second))"
    "DataHolders pinned_example \<noteq> []" "list_all proper_replids (DataHolders pinned_example)"
    and ip: "fv_masterIP (planFailover pinned_example [] False ''10.0.0.1'' False (Some 5) (40 * second) (10 * second)) = ''10.0.0.2''"
    by code_simp+
  with planFailover_lossless have "one_lineage (DataHolders pinned_example)" by blast
  with ip show ?thesis by blast
qed

section \<open>The intent that the assignments record\<close>

abbreviation assigned_masters :: "failoverPodView list \<Rightarrow> failoverPodView list" where
  "assigned_masters pods \<equiv> filter (\<lambda>p. vw_hasAssignment p \<and> vw_assignedRole p = roleMaster) pods"

definition intended_by :: "failoverPodView list \<Rightarrow> failoverPodView \<Rightarrow> bool" where
  "intended_by pods p \<longleftrightarrow> p \<in> set (assigned_masters pods) \<and>
     list_all (\<lambda>q. vw_epoch q < vw_epoch p \<or> vw_epoch q = vw_epoch p \<and> vw_name p \<le> vw_name q) (assigned_masters pods)"

definition resolved :: "failoverPodView list \<Rightarrow> failoverIntent \<times> int \<Rightarrow> bool" where
  "resolved pods acc \<longleftrightarrow>
     0 \<le> fi_maxEpoch (fst acc) \<and> list_all (\<lambda>p. vw_hasAssignment p \<longrightarrow> vw_epoch p \<le> fi_maxEpoch (fst acc)) pods \<and>
     (fi_maxEpoch (fst acc) = 0 \<or> list_ex (\<lambda>p. vw_hasAssignment p \<and> vw_epoch p = fi_maxEpoch (fst acc)) pods) \<and>
     (if assigned_masters pods = [] then fi_masterName (fst acc) = [] \<and> fi_masterIP (fst acc) = []
      else \<exists>p. intended_by pods p \<and> fi_masterName (fst acc) = vw_name p \<and> fi_masterIP (fst acc) = vw_ip p \<and> snd acc = vw_epoch p)"

lemma resolved_step:
  assumes "resolved pods acc" "list_all (\<lambda>p. vw_name p \<noteq> []) (pods @ [p])"
  shows "resolved (pods @ [p]) (resolve_pod p acc)"
proof (cases "vw_hasAssignment p \<and> vw_assignedRole p = roleMaster")
  case False
  then have "assigned_masters (pods @ [p]) = assigned_masters pods" by auto
  then have "intended_by (pods @ [p]) = intended_by pods" by (simp add: intended_by_def fun_eq_iff)
  with False assms(1) show ?thesis
    by (cases acc) (auto simp: resolved_def resolve_pod_def Let_def list_all_iff list_ex_iff)
next
  case True
  obtain i e where acc: "acc = (i, e)" by fastforce
  have epochs: "0 \<le> m \<and> list_all (\<lambda>q. vw_hasAssignment q \<longrightarrow> vw_epoch q \<le> m) (pods @ [p]) \<and>
      (m = 0 \<or> list_ex (\<lambda>q. vw_hasAssignment q \<and> vw_epoch q = m) (pods @ [p]))"
    if "m = max (fi_maxEpoch i) (vw_epoch p)" for m
    using assms(1) True unfolding that by (fastforce simp: resolved_def acc list_all_iff list_ex_iff max_def)
  have m: "fi_maxEpoch (fst (resolve_pod p acc)) = max (fi_maxEpoch i) (vw_epoch p)"
    by (auto simp: resolve_pod_def acc Let_def max_def True)
  show ?thesis
  proof (cases "assigned_masters pods = []")
    case empty: True
    then have "fi_masterName i = []" using assms(1) by (simp add: resolved_def acc)
    then have "fi_masterName (fst (resolve_pod p acc)) = vw_name p" "fi_masterIP (fst (resolve_pod p acc)) = vw_ip p"
      "snd (resolve_pod p acc) = vw_epoch p"
      by (auto simp: resolve_pod_def acc Let_def True)
    moreover have "intended_by (pods @ [p]) p" using empty True by (auto simp: intended_by_def list_all_iff)
    ultimately show ?thesis using epochs [OF m] True unfolding resolved_def by auto
  next
    case False
    then obtain r where r: "intended_by pods r" "fi_masterName i = vw_name r" "fi_masterIP i = vw_ip r" "e = vw_epoch r"
      using assms(1) by (auto simp: resolved_def acc)
    then have ne: "vw_name r \<noteq> []" using assms(2) by (auto simp: intended_by_def list_all_iff)
    define taken where "taken \<longleftrightarrow> vw_epoch p > vw_epoch r \<or> vw_epoch p = vw_epoch r \<and> vw_name p < vw_name r"
    have "fi_masterName (fst (resolve_pod p acc)) = (if taken then vw_name p else vw_name r)"
      "fi_masterIP (fst (resolve_pod p acc)) = (if taken then vw_ip p else vw_ip r)"
      "snd (resolve_pod p acc) = (if taken then vw_epoch p else vw_epoch r)"
      using True ne r by (auto simp: resolve_pod_def acc Let_def taken_def)
    moreover have "intended_by (pods @ [p]) (if taken then p else r)"
      using r(1) True by (fastforce simp: intended_by_def list_all_iff taken_def)
    ultimately show ?thesis using epochs [OF m] True unfolding resolved_def
      by (auto intro: exI [of _ "if taken then p else r"])
  qed
qed

lemma resolve_resolved:
  "list_all (\<lambda>p. vw_name p \<noteq> []) pods \<Longrightarrow> resolved pods (fold resolve_pod pods (\<lparr>fi_masterName = [], fi_masterIP = [], fi_maxEpoch = 0\<rparr>, 0))"
proof (induction pods rule: rev_induct)
  case Nil
  then show ?case by (simp add: resolved_def)
next
  case (snoc p pods)
  then show ?case using resolved_step by fastforce
qed

text \<open>The intent is the assigned master of the highest epoch, whatever the order of the pods.\<close>

lemma intent_of:
  assumes "list_all (\<lambda>p. vw_name p \<noteq> []) pods" "p \<in> set (assigned_masters pods)"
    and "\<And>q. q \<in> set (assigned_masters pods) \<Longrightarrow> q \<noteq> p \<Longrightarrow> vw_epoch q < vw_epoch p"
  shows "fi_masterName (resolveFailoverIntent pods) = vw_name p" "fi_masterIP (resolveFailoverIntent pods) = vw_ip p"
proof -
  obtain r where r: "intended_by pods r" "fi_masterName (resolveFailoverIntent pods) = vw_name r"
    "fi_masterIP (resolveFailoverIntent pods) = vw_ip r"
    using resolve_resolved [OF assms(1)] assms(2) unfolding resolved_def resolveFailoverIntent_def
    by (metis empty_iff list.set(1))
  have "r = p"
  proof (rule ccontr)
    assume "r \<noteq> p"
    with r(1) assms(3) have "vw_epoch r < vw_epoch p" by (auto simp: intended_by_def)
    moreover have "vw_epoch p \<le> vw_epoch r" using r(1) assms(2) unfolding intended_by_def list_all_iff by fastforce
    ultimately show False by simp
  qed
  with r show "fi_masterName (resolveFailoverIntent pods) = vw_name p" "fi_masterIP (resolveFailoverIntent pods) = vw_ip p"
    by auto
qed

lemma maxEpoch_bound:
  assumes "list_all (\<lambda>p. vw_name p \<noteq> []) pods" "p \<in> set pods" "vw_hasAssignment p"
  shows "vw_epoch p \<le> fi_maxEpoch (resolveFailoverIntent pods)"
  using resolve_resolved [OF assms(1)] assms(2,3) by (auto simp: resolved_def resolveFailoverIntent_def list_all_iff)

lemma maxEpoch_nonneg:
  "list_all (\<lambda>p. vw_name p \<noteq> []) pods \<Longrightarrow> 0 \<le> fi_maxEpoch (resolveFailoverIntent pods)"
  using resolve_resolved by (fastforce simp: resolved_def resolveFailoverIntent_def)

end
