(* ===== verification/Failover.thy ===== *)
theory Failover
  imports Sentinel_Reconcile Failover_Plan
begin

text \<open>
  The pass of the failover mode: \<open>internal/controller/failover_reconcile.go\<close>, with the start and stop of the
  watcher of \<open>failover_monitor.go\<close> and \<open>failoverSpecOrDefault\<close> of \<open>resources_failover.go\<close>.

  The pods are part of the state, because the intent is what their annotations say; a pass stamps them. The
  status in memory and the stored one are a pair. \<open>Status.Failover\<close> that is nil is the status with empty fields.
  A range over the gathered nodes goes over their association list; what it computes is a count, a list that is
  only tested for all its elements, or a sorted list.
\<close>

section \<open>The pods\<close>

text \<open>The container statuses are name, readiness and restart count.\<close>

record failover_pod = instance_pod +
  fo_Statuses :: "(string \<times> bool \<times> int) list"
  fo_Annotations :: "string \<rightharpoonup> string"

definition AnnotationAssignedRole :: string where
  "AnnotationAssignedRole = ''redis.chuck-chuck-chuck.net/assigned-role''"

definition AnnotationAssignedMasterIP :: string where
  "AnnotationAssignedMasterIP = ''redis.chuck-chuck-chuck.net/assigned-master-ip''"

definition AnnotationAssignmentEpoch :: string where
  "AnnotationAssignmentEpoch = ''redis.chuck-chuck-chuck.net/assignment-epoch''"

definition AnnotationMasterStartAuthorizedEpoch :: string where
  "AnnotationMasterStartAuthorizedEpoch = ''redis.chuck-chuck-chuck.net/master-start-authorized-epoch''"

text \<open>A lookup in a Go map of strings: the empty string where there is no entry.\<close>

definition go_lookup :: "(string \<rightharpoonup> string) \<Rightarrow> string \<Rightarrow> string" where
  "go_lookup m k = (case m k of None \<Rightarrow> [] | Some v \<Rightarrow> v)"

definition redisContainerStatus :: "failover_pod \<Rightarrow> bool \<times> bool" where
  "redisContainerStatus pod =
     (case find (\<lambda>(name, _). name = ''redis'') (fo_Statuses pod) of
        None \<Rightarrow> (False, False)
      | Some (_, ready, restarts) \<Rightarrow> (ready, restarts > 0))"

definition pod_view :: "ReplicationState option \<Rightarrow> failover_pod \<Rightarrow> failoverPodView" where
  "pod_view state p =
     (let role = go_lookup (fo_Annotations p) AnnotationAssignedRole;
          epochStr = go_lookup (fo_Annotations p) AnnotationAssignmentEpoch;
          epoch = ParseInt64 epochStr;
          assigned = (role \<noteq> [] \<and> epochStr \<noteq> [] \<and> snd epoch = None)
      in \<lparr>vw_name = pq_Name p, vw_ip = pq_PodIP p, vw_terminating = po_Terminating p,
          vw_ready = fst (redisContainerStatus p), vw_restarted = snd (redisContainerStatus p),
          vw_reachable = (case state of None \<Rightarrow> False | Some s \<Rightarrow> pq_PodIP p \<noteq> [] \<and>
            (case map_of (RedisNodes s) (pq_PodIP p) of None \<Rightarrow> False | Some rn \<Rightarrow> rn_Reachable rn)),
          vw_hasAssignment = assigned, vw_assignedRole = (if assigned then role else []),
          vw_assignedMasterIP = (if assigned then go_lookup (fo_Annotations p) AnnotationAssignedMasterIP else []),
          vw_epoch = (if assigned then fst epoch else 0)\<rparr>)"

definition buildFailoverPodViews :: "failover_pod list \<Rightarrow> ReplicationState option \<Rightarrow> failoverPodView list" where
  "buildFailoverPodViews pods state = map (pod_view state) pods"

definition failoverMasterPodView :: "failover_pod list \<Rightarrow> failoverIntent \<Rightarrow> masterPodView" where
  "failoverMasterPodView pods intent =
     (case find (\<lambda>p. pq_Name p = fi_masterName intent \<and> pq_PodIP p = fi_masterIP intent) pods of
        None \<Rightarrow> \<lparr>mv_present = False, mv_ready = False, mv_terminating = False\<rparr>
      | Some p \<Rightarrow> \<lparr>mv_present = True, mv_ready = fst (redisContainerStatus p), mv_terminating = po_Terminating p\<rparr>)"

definition podNameForIP :: "failover_pod list \<Rightarrow> string \<Rightarrow> string" where
  "podNameForIP pods ip = (case find (\<lambda>p. pq_PodIP p = ip) pods of None \<Rightarrow> [] | Some p \<Rightarrow> pq_Name p)"

section \<open>The stamps\<close>

definition stamp_annotations :: "failoverStamp \<Rightarrow> (string \<rightharpoonup> string) \<Rightarrow> (string \<rightharpoonup> string)" where
  "stamp_annotations s m =
     (let m' = m(AnnotationAssignedRole \<mapsto> tp_role s, AnnotationAssignedMasterIP \<mapsto> tp_masterIP s,
                 AnnotationAssignmentEpoch \<mapsto> Itoa (tp_epoch s))
      in if tp_authorizeMasterStart s then m'(AnnotationMasterStartAuthorizedEpoch \<mapsto> Itoa (tp_epoch s)) else m')"

definition stamp_satisfied :: "failoverStamp \<Rightarrow> (string \<rightharpoonup> string) \<Rightarrow> bool" where
  "stamp_satisfied s m \<longleftrightarrow>
     go_lookup m AnnotationAssignedRole = tp_role s \<and> go_lookup m AnnotationAssignedMasterIP = tp_masterIP s \<and>
     go_lookup m AnnotationAssignmentEpoch = Itoa (tp_epoch s) \<and>
     (\<not> tp_authorizeMasterStart s \<or> go_lookup m AnnotationMasterStartAuthorizedEpoch = Itoa (tp_epoch s))"

text \<open>The outcomes of the calls on the pods, by name, and of the commands, by address.\<close>

record pod_calls =
  pk_Get :: "string \<Rightarrow> api_error option"
  pk_Patch :: "string \<Rightarrow> api_error option"
  pk_SlaveOf :: "string \<Rightarrow> go_error option"

definition stamp_pod :: "failoverStamp \<Rightarrow> failover_pod \<Rightarrow> failover_pod" where
  "stamp_pod s p = (if pq_Name p = tp_podName s then p\<lparr>fo_Annotations := stamp_annotations s (fo_Annotations p)\<rparr> else p)"

text \<open>The pods are keyed by their names; the first one of a name is the one that is read.\<close>

definition stampFailoverPod :: "pod_calls \<Rightarrow> failoverStamp \<Rightarrow> failover_pod list \<Rightarrow> api_error option \<times> failover_pod list" where
  "stampFailoverPod calls s pods =
     (case pk_Get calls (tp_podName s) of
        Some e \<Rightarrow> (Some e, pods)
      | None \<Rightarrow>
          (case find (\<lambda>p. pq_Name p = tp_podName s) pods of
             None \<Rightarrow> (Some NotFound, pods)
           | Some p \<Rightarrow>
               if stamp_satisfied s (fo_Annotations p) then (None, pods)
               else case pk_Patch calls (tp_podName s) of
                   Some e \<Rightarrow> (Some e, pods)
                 | None \<Rightarrow> (None, map (stamp_pod s) pods)))"

fun stamp_all :: "pod_calls \<Rightarrow> failoverStamp list \<Rightarrow> failover_pod list \<Rightarrow> api_error option \<times> failover_pod list" where
  "stamp_all calls [] pods = (None, pods)"
| "stamp_all calls (s # ss) pods =
     (case stampFailoverPod calls s pods of (e, pods1) \<Rightarrow>
      case stamp_all calls ss pods1 of (e', pods2) \<Rightarrow> (if e = None then e' else e, pods2))"

definition assignment_stamp :: "string \<Rightarrow> string \<Rightarrow> int \<Rightarrow> bool \<Rightarrow> failover_pod \<Rightarrow> failoverStamp" where
  "assignment_stamp masterName masterIP epoch authorize p =
     (if pq_Name p = masterName
      then \<lparr>tp_podName = pq_Name p, tp_role = roleMaster, tp_masterIP = [], tp_epoch = epoch, tp_authorizeMasterStart = authorize\<rparr>
      else \<lparr>tp_podName = pq_Name p, tp_role = roleReplica, tp_masterIP = masterIP, tp_epoch = epoch, tp_authorizeMasterStart = False\<rparr>)"

definition stampFailoverAssignments ::
    "pod_calls \<Rightarrow> string \<Rightarrow> string \<Rightarrow> int \<Rightarrow> bool \<Rightarrow> failover_pod list \<Rightarrow> api_error option \<times> failover_pod list" where
  "stampFailoverAssignments calls masterName masterIP epoch authorize pods =
     stamp_all calls (map (assignment_stamp masterName masterIP epoch authorize)
       (filter (\<lambda>p. pq_PodIP p \<noteq> [] \<and> \<not> po_Terminating p) pods)) pods"

section \<open>The status\<close>

record failover_status =
  fx_MasterDownSince :: "time option"
  fx_TransitionSince :: "time option"
  fx_AssignmentEpoch :: int

type_synonym 'a mirrored = "'a \<times> 'a"

text \<open>A write of the status: the copy in memory is set before the update, which may fail.\<close>

definition setFailoverMasterDownSince :: "status_write \<Rightarrow> time \<Rightarrow> failover_status mirrored \<Rightarrow> go_error option \<times> failover_status mirrored" where
  "setFailoverMasterDownSince out t sts =
     (case out of
        ReadFailed e \<Rightarrow> (Some e, sts)
      | _ \<Rightarrow>
          if fx_MasterDownSince (snd sts) \<noteq> None then (None, snd sts, snd sts)
          else let new = (snd sts)\<lparr>fx_MasterDownSince := Some t\<rparr>
               in case out of WriteFailed e \<Rightarrow> (Some e, new, snd sts) | _ \<Rightarrow> (None, new, new))"

definition clearFailoverMasterDownSince :: "status_write \<Rightarrow> failover_status mirrored \<Rightarrow> go_error option \<times> failover_status mirrored" where
  "clearFailoverMasterDownSince out sts =
     (if fx_MasterDownSince (fst sts) = None then (None, sts)
      else case out of
          ReadFailed e \<Rightarrow> (Some e, sts)
        | _ \<Rightarrow>
            if fx_MasterDownSince (snd sts) = None then (None, snd sts, snd sts)
            else let new = (snd sts)\<lparr>fx_MasterDownSince := None\<rparr>
                 in case out of WriteFailed e \<Rightarrow> (Some e, new, snd sts) | _ \<Rightarrow> (None, new, new))"

definition markFailoverTransition :: "status_write \<Rightarrow> time \<Rightarrow> int \<Rightarrow> failover_status mirrored \<Rightarrow> go_error option \<times> failover_status mirrored" where
  "markFailoverTransition out now epoch sts =
     (case out of
        ReadFailed e \<Rightarrow> (Some e, sts)
      | _ \<Rightarrow>
          let new = \<lparr>fx_MasterDownSince = None, fx_TransitionSince = Some now, fx_AssignmentEpoch = epoch\<rparr>
          in case out of WriteFailed e \<Rightarrow> (Some e, new, snd sts) | _ \<Rightarrow> (None, new, new))"

type_synonym recovery_condition = "(bool \<times> string) option"

definition setFailoverRecoveryCondition ::
    "status_write \<Rightarrow> bool \<Rightarrow> string \<Rightarrow> recovery_condition mirrored \<Rightarrow> go_error option \<times> recovery_condition mirrored" where
  "setFailoverRecoveryCondition out status reason conds =
     (let new = Some (status, reason)
      in case out of
           ReadFailed e \<Rightarrow> (Some e, conds)
         | WriteFailed e \<Rightarrow> (Some e, new, snd conds)
         | Written \<Rightarrow> (None, new, new))"

definition clearFailoverRecoveryCondition ::
    "status_write \<Rightarrow> recovery_condition mirrored \<Rightarrow> go_error option \<times> recovery_condition mirrored" where
  "clearFailoverRecoveryCondition out conds =
     (case fst conds of
        Some (True, _) \<Rightarrow> setFailoverRecoveryCondition out False ''Recovered'' conds
      | _ \<Rightarrow> (None, conds))"

section \<open>The engine\<close>

record FailoverSpec =
  fz_Replicas :: "int option"
  fz_DownAfterMilliseconds :: int
  fz_MinReplicasToWrite :: "int option"
  fz_AllowUnsafe :: bool

record failover_cr = sentinel_cr +
  lx_Failover :: "FailoverSpec option"

definition failoverSpecOrDefault :: "'a failover_cr_scheme \<Rightarrow> FailoverSpec" where
  "failoverSpecOrDefault lr =
     (case lx_Failover lr of
        None \<Rightarrow> \<lparr>fz_Replicas = Some 2, fz_DownAfterMilliseconds = 5000, fz_MinReplicasToWrite = Some 1, fz_AllowUnsafe = False\<rparr>
      | Some f \<Rightarrow> f)"

definition failoverTransitionCooldown :: duration where
  "failoverTransitionCooldown = 10 * second"

record failoverEngineView =
  ev_intent :: failoverIntent
  ev_liveMasterIP :: string
  ev_masterPodName :: string
  ev_replicasLinkedUp :: int
  ev_requeueFast :: bool

datatype failover_cmd =
    Promote string
  | Follow string string

text \<open>
  The outcomes of a pass. The clock is read at the detection, for the marker, at the decision and for the
  transition.
\<close>

record failover_env =
  fe_List :: "api_error option"
  fe_Secret :: "string \<Rightarrow> api_error + (string \<rightharpoonup> string)"
  fe_Probe :: redis_probe
  fe_Range :: "(string \<times> string) list \<Rightarrow> (string \<times> string) list"
  fe_Calls :: pod_calls
  fe_AuthWrite :: "api_error option"
  fe_MarkerWrite :: status_write
  fe_TransitionWrite :: status_write
  fe_ConditionWrite :: status_write
  fe_Now :: time
  fe_SetTime :: time
  fe_PlanNow :: time
  fe_MarkTime :: time

record failover_state =
  ft_Pods :: "failover_pod list"
  ft_Status :: "failover_status mirrored"
  ft_Condition :: "recovery_condition mirrored"
  ft_Auth :: blocked_cond

definition failover_gather :: "failover_env \<Rightarrow> failover_pod list \<Rightarrow> ReplicationState" where
  "failover_gather env pods =
     GatherReplicationState (fe_Probe env) (\<lambda>_ _ _. Inl (Errorf [])) (fe_Range env (pod_map pods)) [] [] (owned_ips pods)"

definition promoteFailoverMaster :: "pod_calls \<Rightarrow> ReplicationState \<Rightarrow> string \<Rightarrow> go_error option \<times> failover_cmd list" where
  "promoteFailoverMaster calls state masterIP =
     (if \<not> needsPromotion state masterIP then (None, [])
      else (map_option (wrapf (''promote elected master '' @ masterIP)) (pk_SlaveOf calls masterIP), [Promote masterIP]))"

definition role_labels :: "failover_pod list \<Rightarrow> (string \<rightharpoonup> string)" where
  "role_labels pods = map_of (rev (map (\<lambda>p. (pq_Name p, pq_Role p)) pods))"

definition linked_up :: "ReplicationState \<Rightarrow> string \<Rightarrow> int" where
  "linked_up state masterIP =
     int (length (filter (\<lambda>(ip, rn). rn_Reachable rn \<and> ip \<noteq> masterIP \<and> rn_MasterHost rn = masterIP \<and> rn_LinkStatus rn = ''up'')
       (RedisNodes state)))"

definition replica_links :: "ReplicationState \<Rightarrow> string \<Rightarrow> string list" where
  "replica_links state masterIP =
     map (rn_LinkStatus \<circ> snd) (filter (\<lambda>(ip, rn). rn_Reachable rn \<and> ip \<noteq> masterIP \<and> rn_MasterHost rn = masterIP) (RedisNodes state))"

definition engine_view :: "ReplicationState \<Rightarrow> failoverIntent \<Rightarrow> failoverEngineView" where
  "engine_view state intent =
     (let live = determineFailoverLiveMaster state (fi_masterIP intent)
      in \<lparr>ev_intent = intent, ev_liveMasterIP = live, ev_masterPodName = (if live \<noteq> [] then fi_masterName intent else []),
          ev_replicasLinkedUp = linked_up state (fi_masterIP intent), ev_requeueFast = False\<rparr>)"

text \<open>
  The execution of a plan: the error, the state, the commands and the reasons of the events.
\<close>

definition elect_failover ::
    "failover_env \<Rightarrow> ReplicationState \<Rightarrow> failoverIntent \<Rightarrow> failoverPlan \<Rightarrow> failover_state \<Rightarrow>
     pass_error option \<times> failover_state \<times> failover_cmd list \<times> string list" where
  "elect_failover env state intent plan st =
     (let epoch = int64 (fi_maxEpoch intent + 1); masterIP = fv_masterIP plan; pods = ft_Pods st;
          masterPod = podNameForIP pods masterIP
      in case stampFailoverAssignments (fe_Calls env) masterPod masterIP epoch (masterStartAuthorizedFor (fv_action plan)) pods of
           (Some e, pods') \<Rightarrow> (Some (FromApi e), st\<lparr>ft_Pods := pods'\<rparr>, [], [])
         | (None, pods') \<Rightarrow>
             (case (if fv_action plan = failoverSeed then (None, []) else promoteFailoverMaster (fe_Calls env) state masterIP) of
                (Some e, cs) \<Rightarrow> (Some (FromGo e), st\<lparr>ft_Pods := pods'\<rparr>, cs, [])
              | (None, cs) \<Rightarrow>
                  let fenceIP = (if fv_action plan = failoverSeed then []
                                 else planFailoverFence (buildFailoverPodViews pods None) (fi_masterIP intent) masterIP);
                      fence = (if fenceIP \<noteq> [] then [Follow fenceIP masterIP] else [])
                  in case markFailoverTransition (fe_TransitionWrite env) (fe_MarkTime env) epoch (ft_Status st) of
                       (Some e, sts) \<Rightarrow> (Some (FromGo e), st\<lparr>ft_Pods := pods', ft_Status := sts\<rparr>, cs @ fence, [])
                     | (None, sts) \<Rightarrow>
                         (None, st\<lparr>ft_Pods := pods', ft_Status := sts\<rparr>, cs @ fence,
                          [case fv_action plan of failoverSeed \<Rightarrow> ''Reseeded'' | failoverUnsafeElect \<Rightarrow> ''UnsafeRebootstrap''
                           | _ \<Rightarrow> ''FailoverPromoted''])))"

definition executeFailoverPlan ::
    "failover_env \<Rightarrow> ReplicationState \<Rightarrow> failoverIntent \<Rightarrow> failoverPlan \<Rightarrow> failover_state \<Rightarrow>
     pass_error option \<times> failover_state \<times> failover_cmd list \<times> string list" where
  "executeFailoverPlan env state intent plan st =
     (let refuse = (\<lambda>reason. case setFailoverRecoveryCondition (fe_ConditionWrite env) True reason (ft_Condition st) of
            (e, conds) \<Rightarrow> (map_option FromGo e, st\<lparr>ft_Condition := conds\<rparr>, [], [reason]))
      in case fv_action plan of
           failoverNone \<Rightarrow> (None, st, [], [])
         | failoverWait \<Rightarrow> (None, st, [], [])
         | failoverRefuse \<Rightarrow> refuse ''RefusedDataPresent''
         | failoverRefuseUnverified \<Rightarrow> refuse ''RefusedDataUnverified''
         | _ \<Rightarrow> elect_failover env state intent plan st)"

text \<open>The detection: whether the master is declared dead, whether to come back soon, and the status.\<close>

definition detect_death ::
    "failover_env \<Rightarrow> 'a failover_cr_scheme \<Rightarrow> ReplicationState \<Rightarrow> failoverIntent \<Rightarrow> failover_state \<Rightarrow> bool \<times> bool \<times> failover_state" where
  "detect_death env lr state intent st =
     (if fi_masterName intent = [] then (False, False, st)
      else
        let reachable = (case map_of (RedisNodes state) (fi_masterIP intent) of None \<Rightarrow> False | Some rn \<Rightarrow> rn_Reachable rn)
        in case planMasterDeath (failoverMasterPodView (ft_Pods st) intent) reachable (replica_links state (fi_masterIP intent))
                  (fx_MasterDownSince (fst (ft_Status st))) (fe_Now env)
                  (int64 (fz_DownAfterMilliseconds (failoverSpecOrDefault lr) * 1000000)) of
             masterDeathClearMarker \<Rightarrow>
               (False, False, st\<lparr>ft_Status := snd (clearFailoverMasterDownSince (fe_MarkerWrite env) (ft_Status st))\<rparr>)
           | masterDeathStartWindow \<Rightarrow>
               (False, True, st\<lparr>ft_Status := snd (setFailoverMasterDownSince (fe_MarkerWrite env) (fe_SetTime env) (ft_Status st))\<rparr>)
           | masterDeathWait \<Rightarrow> (False, True, st)
           | masterDeathHold \<Rightarrow> (False, True, st)
           | _ \<Rightarrow> (True, False, st))"

text \<open>Step 7: the condition, the repoints and the re-authorization.\<close>

definition heal_live ::
    "failover_env \<Rightarrow> ReplicationState \<Rightarrow> failoverIntent \<Rightarrow> string \<Rightarrow> failover_state \<Rightarrow> bool \<times> failover_state \<times> failover_cmd list" where
  "heal_live env state intent live st =
     (let conds = snd (clearFailoverRecoveryCondition (fe_ConditionWrite env) (ft_Condition st));
          repoints = planFailoverRepoints state live;
          settled = failoverTransitionSettled intent state (role_labels (ft_Pods st));
          stamps = (if settled then planFailoverReauth (buildFailoverPodViews (ft_Pods st) (Some state)) intent live else []);
          pods = snd (stamp_all (fe_Calls env) stamps (ft_Pods st))
      in (repoints \<noteq> [] \<or> stamps \<noteq> [], st\<lparr>ft_Condition := conds, ft_Pods := pods\<rparr>, map (\<lambda>ip. Follow ip live) repoints))"

definition failover_decision :: "failover_env \<Rightarrow> 'a failover_cr_scheme \<Rightarrow> ReplicationState \<Rightarrow> failoverIntent \<Rightarrow> failover_state \<Rightarrow> failoverPlan" where
  "failover_decision env lr state intent st =
     planFailover state (determineFailoverLiveMaster state (fi_masterIP intent)) (fz_AllowUnsafe (failoverSpecOrDefault lr))
       (pickBootstrapMasterIP (li_Name lr) (fe_Range env (pod_map (ft_Pods st))))
       (failoverPromotionUnsettled intent state (role_labels (ft_Pods st)))
       (fx_TransitionSince (fst (ft_Status st))) (fe_PlanNow env) failoverTransitionCooldown"

definition run_engine ::
    "failover_env \<Rightarrow> 'a failover_cr_scheme \<Rightarrow> ReplicationState \<Rightarrow> failoverIntent \<Rightarrow> failover_state \<Rightarrow>
     failoverEngineView \<times> pass_error option \<times> failover_state \<times> failover_cmd list \<times> string list" where
  "run_engine env lr state intent st =
     (let eng = engine_view state intent; live = ev_liveMasterIP eng
      in if fi_masterIP intent \<noteq> [] \<and> needsPromotion state (fi_masterIP intent)
         then (case promoteFailoverMaster (fe_Calls env) state (fi_masterIP intent) of
             (Some e, cs) \<Rightarrow> (eng, Some (FromGo e), st, cs, [])
           | (None, cs) \<Rightarrow> (eng\<lparr>ev_requeueFast := True\<rparr>, None, st, cs, []))
         else case detect_death env lr state intent st of
             (dead, soon, st1) \<Rightarrow>
               if fi_masterName intent = [] \<or> dead
               then (case executeFailoverPlan env state intent (failover_decision env lr state intent st1) st1 of
                   (err, st2, cs, evs) \<Rightarrow> (eng\<lparr>ev_requeueFast := True\<rparr>, err, st2, cs, evs))
               else if live = [] then (eng\<lparr>ev_requeueFast := True\<rparr>, None, st1, [], [])
               else case heal_live env state intent live st1 of
                   (acted, st2, cs) \<Rightarrow> (eng\<lparr>ev_requeueFast := soon \<or> acted\<rparr>, None, st2, cs, []))"

definition reconcileFailoverAssignments ::
    "failover_env \<Rightarrow> 'a failover_cr_scheme \<Rightarrow> bool \<Rightarrow> failover_state \<Rightarrow>
     failoverEngineView option \<times> pass_error option \<times> failover_state \<times> failover_cmd list \<times> string list" where
  "reconcileFailoverAssignments env lr bootstrapRequired st =
     (if bootstrapRequired then (None, None, st, [], [])
      else case fe_List env of
          Some e \<Rightarrow> (None, Some (FromApi e), st, [], [])
        | None \<Rightarrow>
            let state = failover_gather env (ft_Pods st)
            in case reportOperatorAuth (fe_AuthWrite env) (replicationAuthFailures (Some state)) (ft_Auth st) of
                 (_, written, authEvents) \<Rightarrow>
                   let st1 = (case written of None \<Rightarrow> st | Some c \<Rightarrow> st\<lparr>ft_Auth := Some c\<rparr>);
                       intent = resolveFailoverIntent (buildFailoverPodViews (ft_Pods st) (Some state))
                   in case run_engine env lr state intent st1 of
                        (eng, err, st2, cs, evs) \<Rightarrow> (Some eng, err, st2, cs, authEvents @ evs))"

section \<open>The bootstrap\<close>

record failover_boot_env =
  fb_Latest :: "api_error option"
  fb_GetSTS :: "api_error + shard_sts"
  fb_GetPod0 :: "api_error option"
  fb_List :: "api_error option"
  fb_Calls :: pod_calls
  fb_TransitionWrite :: status_write
  fb_MarkTime :: time
  fb_ClearWrite :: status_write
  fb_Refetch :: "api_error option"

definition reload :: "failover_state \<Rightarrow> failover_state" where
  "reload st = st\<lparr>ft_Status := (snd (ft_Status st), snd (ft_Status st)), ft_Condition := (snd (ft_Condition st), snd (ft_Condition st))\<rparr>"

text \<open>Steps 3 and 4: the stamps of all pods at a fresh epoch, the transition, and the flag.\<close>

definition stamp_initial ::
    "failover_boot_env \<Rightarrow> string \<Rightarrow> string \<Rightarrow> failover_state \<Rightarrow> pass_error option \<times> bool \<times> bool \<times> failover_state" where
  "stamp_initial env pod0 ip st =
     (let epoch = int64 (fi_maxEpoch (resolveFailoverIntent (buildFailoverPodViews (ft_Pods st) None)) + 1)
      in case stampFailoverAssignments (fb_Calls env) pod0 ip epoch True (ft_Pods st) of
           (Some e, pods) \<Rightarrow> (Some (FromApi e), True, True, st\<lparr>ft_Pods := pods\<rparr>)
         | (None, pods) \<Rightarrow>
             (case markFailoverTransition (fb_TransitionWrite env) (fb_MarkTime env) epoch (ft_Status st) of
                (Some e, sts) \<Rightarrow> (Some (FromGo e), True, True, st\<lparr>ft_Pods := pods, ft_Status := sts\<rparr>)
              | (None, sts) \<Rightarrow>
                  (case clear_bootstrap (fb_ClearWrite env) (fb_Refetch env) True of
                     (err, mem, stored) \<Rightarrow>
                       let st' = st\<lparr>ft_Pods := pods, ft_Status := sts\<rparr>
                       in (err, mem, stored, if mem then st' else reload st'))))"

definition bootstrapFailover ::
    "failover_boot_env \<Rightarrow> 'a failover_cr_scheme \<Rightarrow> bool \<Rightarrow> failover_state \<Rightarrow> pass_error option \<times> bool \<times> bool \<times> failover_state" where
  "bootstrapFailover env lr stored st =
     (case fb_Latest env of
        Some e \<Rightarrow> (Some (FromApi e), True, stored, st)
      | None \<Rightarrow>
          if \<not> stored then (None, False, stored, reload st)
          else case fb_GetSTS env of
              Inl e \<Rightarrow> (Some (FromApi e), True, stored, st)
            | Inr sts \<Rightarrow>
                let pod0Name = li_Name lr @ ''-redis-0''
                in (case (case fb_GetPod0 env of Some e \<Rightarrow> Inl e
                          | None \<Rightarrow> (case find (\<lambda>p. pq_Name p = pod0Name) (ft_Pods st) of None \<Rightarrow> Inl NotFound | Some p \<Rightarrow> Inr p)) of
                      Inl NotFound \<Rightarrow> (None, True, stored, st)
                    | Inl e \<Rightarrow> (Some (FromApi e), True, stored, st)
                    | Inr pod0 \<Rightarrow>
                        if \<not> bootstrap_ready sts pod0 then (None, True, stored, st)
                        else case fb_List env of
                            Some e \<Rightarrow> (Some (FromApi e), True, stored, st)
                          | None \<Rightarrow> stamp_initial env pod0Name (pq_PodIP pod0) st))"

section \<open>The labels and the status\<close>

definition updateFailoverMasterLabel ::
    "api_error option \<Rightarrow> (string \<Rightarrow> api_error option) \<Rightarrow> failoverEngineView option \<Rightarrow> failover_pod list \<Rightarrow> api_error option \<times> failover_pod list" where
  "updateFailoverMasterLabel listErr update eng pods =
     (case listErr of
        Some e \<Rightarrow> (Some e, pods)
      | None \<Rightarrow>
          if pods = [] \<or> list_ex po_Terminating pods then (None, pods)
          else applyRoleLabels update (case eng of None \<Rightarrow> [] | Some v \<Rightarrow> ev_masterPodName v) pods)"

definition failover_counts :: "api_error + int \<times> int \<Rightarrow> int \<Rightarrow> api_error + int \<times> int" where
  "failover_counts r expectedTotal = (case r of Inl NotFound \<Rightarrow> Inr (0, expectedTotal) | _ \<Rightarrow> r)"

definition failover_ready :: "int \<times> int \<Rightarrow> string \<Rightarrow> int \<Rightarrow> bool" where
  "failover_ready redis masterPodName replicasLinkedUp \<longleftrightarrow>
     fst redis = snd redis \<and> fst redis > 0 \<and> masterPodName \<noteq> [] \<and> replicasLinkedUp \<ge> snd redis - 1"

definition report_failover :: "int \<times> int \<Rightarrow> string \<times> string \<Rightarrow> bool \<Rightarrow> int \<Rightarrow> sentinel_summary \<Rightarrow> sentinel_summary" where
  "report_failover redis master ready generation latest =
     (let st1 = latest\<lparr>su_RedisReady := fst redis, su_RedisTotal := snd redis,
                  su_Replicas := Some (if fst redis > 0 then fst redis - 1 else 0, int32 (snd redis - 1)), su_Master := Some master\<rparr>;
          st2 = (if ready
                 then st1\<lparr>su_Phase := PhaseRunning, su_BootstrapRequired := False, su_Ready := Some (True, ''AllPodsReady''),
                        su_Initialized := Some (True, ''Initialized'')\<rparr>
                 else st1\<lparr>su_Phase := PhaseInitializing, su_Ready := Some (False, ''PodsNotReady'')\<rparr>)
      in st2\<lparr>su_ObservedGeneration := generation,
           su_Status := (if su_Phase st2 = PhaseRunning then ''Ready'' else phase_name (su_Phase st2))\<rparr>)"

record failover_pass_env =
  fq_Apply :: "sentinel_resource \<Rightarrow> api_error option"
  fq_Boot :: failover_boot_env
  fq_Engine :: failover_env
  fq_LabelList :: "api_error option"
  fq_LabelUpdate :: "string \<Rightarrow> api_error option"
  fq_Channel :: bool
  fq_Latest :: "api_error option"
  fq_GetSTS :: "api_error + int \<times> int"
  fq_StatusWrite :: "api_error option"
  fq_Refetch :: "api_error option"

text \<open>The stored part between passes: the summary, the pods with the rest of the status, and the watcher.\<close>

record failover_store =
  fw_Summary :: sentinel_summary
  fw_State :: failover_state
  fw_Monitor :: bool

definition failover_summary_now ::
    "failover_pass_env \<Rightarrow> 'a failover_cr_scheme \<Rightarrow> int \<Rightarrow> failoverEngineView option \<Rightarrow> sentinel_summary \<Rightarrow> api_error + sentinel_summary" where
  "failover_summary_now env lr replicas eng latest =
     (case failover_counts (fq_GetSTS env) (int32 (1 + replicas)) of
        Inl e \<Rightarrow> Inl e
      | Inr redis \<Rightarrow>
          let name = (case eng of None \<Rightarrow> [] | Some v \<Rightarrow> ev_masterPodName v);
              linked = (case eng of None \<Rightarrow> 0 | Some v \<Rightarrow> ev_replicasLinkedUp v);
              ip = (if name = [] then [] else case eng of None \<Rightarrow> [] | Some v \<Rightarrow> fi_masterIP (ev_intent v))
          in Inr (report_failover redis (name, ip) (failover_ready redis name linked) (lc_Generation lr) latest))"

definition with_epoch :: "failoverEngineView option \<Rightarrow> failover_state \<Rightarrow> failover_state" where
  "with_epoch eng st =
     (case eng of
        None \<Rightarrow> st
      | Some v \<Rightarrow> st\<lparr>ft_Status := (fst (ft_Status st), (snd (ft_Status st))\<lparr>fx_AssignmentEpoch := fi_maxEpoch (ev_intent v)\<rparr>)\<rparr>)"

text \<open>A \<open>spec.failover\<close> without a replica count is dereferenced: the object is read anew and has no defaults.\<close>

definition updateFailoverStatus ::
    "failover_pass_env \<Rightarrow> 'a failover_cr_scheme \<Rightarrow> failoverEngineView option \<Rightarrow> failover_store \<Rightarrow>
     go_panic + ctrl_result \<times> pass_error option \<times> failover_store" where
  "updateFailoverStatus env lr eng w =
     (case fq_Latest env of
        Some e \<Rightarrow> Inr (NoRequeue, Some (FromApi e), w)
      | None \<Rightarrow>
          (case fz_Replicas (failoverSpecOrDefault lr) of
             None \<Rightarrow> Inl NilDereference
           | Some replicas \<Rightarrow>
               (case failover_summary_now env lr replicas eng (fw_Summary w) of
                  Inl e \<Rightarrow> Inr (NoRequeue, Some (FromApi e), w)
                | Inr now \<Rightarrow>
                    let st = with_epoch eng (fw_State w); w' = w\<lparr>fw_Summary := now, fw_State := st\<rparr>
                    in case (if w' = w then None else fq_StatusWrite env) of
                         Some e \<Rightarrow> Inr (NoRequeue, Some (FromApi e), w)
                       | None \<Rightarrow>
                           (case fq_Refetch env of
                              Some e \<Rightarrow> Inr (NoRequeue, Some (FromApi e), w')
                            | None \<Rightarrow>
                                let (fast, steady) = GetRequeueIntervals lr
                                in if su_Phase now \<noteq> PhaseRunning then Inr (RequeueAfter fast, None, w')
                                   else if lc_DisablePolling lr then Inr (NoRequeue, None, w')
                                   else Inr (RequeueAfter steady, None, w')))))"

section \<open>The pass\<close>

definition ensureFailoverMonitor :: "bool \<Rightarrow> 'a sentinel_cr_scheme \<Rightarrow> bool \<Rightarrow> bool" where
  "ensureFailoverMonitor channel lr running = (if lc_DisableEvents lr then False else running \<or> channel)"

datatype failover_step =
    FApplied sentinel_resource
  | FCommand failover_cmd
  | FEvent string

definition requeue_fast :: "'a failover_cr_scheme \<Rightarrow> failoverEngineView option \<Rightarrow> ctrl_result \<Rightarrow> ctrl_result" where
  "requeue_fast lr eng res =
     (if (case eng of None \<Rightarrow> False | Some v \<Rightarrow> ev_requeueFast v)
      then let fast = fst (GetRequeueIntervals lr);
               after = (case res of RequeueAfter d \<Rightarrow> d | _ \<Rightarrow> 0)
           in if after = 0 \<or> after > fast then RequeueAfter fast else res
      else res)"

definition finish_failover ::
    "failover_pass_env \<Rightarrow> 'a failover_cr_scheme \<Rightarrow> failoverEngineView option \<Rightarrow> failover_store \<Rightarrow>
     go_panic + ctrl_result \<times> pass_error option \<times> failover_store \<times> failover_step list" where
  "finish_failover env lr eng w =
     (case updateFailoverMasterLabel (fq_LabelList env) (fq_LabelUpdate env) eng (ft_Pods (fw_State w)) of
        (_, pods) \<Rightarrow>
          let w1 = w\<lparr>fw_State := (fw_State w)\<lparr>ft_Pods := pods\<rparr>\<rparr>; pdb = RedisPDB (pdbEnabled lr)
          in case apply_pdb (fq_Apply env) pdb of
               Some e \<Rightarrow> Inr (NoRequeue, Some (FromApi e), w1, [FApplied pdb])
             | None \<Rightarrow>
                 let monitor = (if metrics_IsEnabled lr \<and> lc_ServiceMonitor lr then [FApplied ServiceMonitorResource] else []);
                     w2 = w1\<lparr>fw_Monitor := ensureFailoverMonitor (fq_Channel env) lr (fw_Monitor w1)\<rparr>
                 in case updateFailoverStatus env lr eng w2 of
                      Inl p \<Rightarrow> Inl p
                    | Inr (res, err, w3) \<Rightarrow>
                        Inr (if err = None then requeue_fast lr eng res else res, err, w3, FApplied pdb # monitor))"

definition engine_and_finish ::
    "failover_pass_env \<Rightarrow> 'a failover_cr_scheme \<Rightarrow> bool \<Rightarrow> failover_store \<Rightarrow>
     go_panic + ctrl_result \<times> pass_error option \<times> failover_store \<times> failover_step list" where
  "engine_and_finish env lr memFlag w =
     (case reconcileFailoverAssignments (fq_Engine env) lr memFlag (fw_State w) of
        (eng, _, st, cs, evs) \<Rightarrow>
          (case finish_failover env lr eng (w\<lparr>fw_State := st\<rparr>) of
             Inl p \<Rightarrow> Inl p
           | Inr (res, err, w', steps) \<Rightarrow> Inr (res, err, w', map FCommand cs @ map FEvent evs @ steps)))"

definition reconcileFailover ::
    "failover_pass_env \<Rightarrow> 'a failover_cr_scheme \<Rightarrow> failover_store \<Rightarrow>
     go_panic + ctrl_result \<times> pass_error option \<times> failover_store \<times> failover_step list" where
  "reconcileFailover env lr w0 =
     (let w = w0\<lparr>fw_State := reload (fw_State w0)\<rparr>;
          warn = (if su_Phase (fw_Summary w) = PhaseUnset then [FEvent ''ExperimentalMode''] else []);
          flag = su_BootstrapRequired (fw_Summary w)
      in case fz_Replicas (failoverSpecOrDefault lr) of
           None \<Rightarrow> Inl NilDereference
         | Some replicas \<Rightarrow>
             (case apply_all (fq_Apply env) [RedisConfigMap, ReplicasService, RedisStatefulSet (int32 (1 + replicas)), MasterService] of
                (Some e, xs) \<Rightarrow> Inr (NoRequeue, Some (FromApi e), w, warn @ map FApplied xs)
              | (None, xs) \<Rightarrow>
                  (case (if flag then bootstrapFailover (fq_Boot env) lr flag (fw_State w) else (None, False, False, fw_State w)) of
                     (err, memFlag, stored, st) \<Rightarrow>
                       let w1 = w\<lparr>fw_Summary := (fw_Summary w)\<lparr>su_BootstrapRequired := stored\<rparr>, fw_State := st\<rparr>;
                           pre = warn @ map FApplied xs
                       in (case err of
                             Some e \<Rightarrow> Inr (NoRequeue, Some e, w1, pre)
                           | None \<Rightarrow>
                               (case engine_and_finish env lr memFlag w1 of
                                  Inl p \<Rightarrow> Inl p
                                | Inr (res, err', w2, steps) \<Rightarrow> Inr (res, err', w2, pre @ steps))))))"

section \<open>What the stamps record\<close>

definition bears :: "failoverStamp \<Rightarrow> failover_pod \<Rightarrow> bool" where
  "bears s p \<longleftrightarrow> go_lookup (fo_Annotations p) AnnotationAssignedRole = tp_role s \<and>
     go_lookup (fo_Annotations p) AnnotationAssignedMasterIP = tp_masterIP s \<and>
     go_lookup (fo_Annotations p) AnnotationAssignmentEpoch = Itoa (tp_epoch s)"

lemmas annotation_defs = AnnotationAssignedRole_def AnnotationAssignedMasterIP_def AnnotationAssignmentEpoch_def
  AnnotationMasterStartAuthorizedEpoch_def

lemma annotations_distinct [simp]:
  "AnnotationAssignedRole \<noteq> AnnotationAssignedMasterIP" "AnnotationAssignedRole \<noteq> AnnotationAssignmentEpoch"
  "AnnotationAssignedMasterIP \<noteq> AnnotationAssignmentEpoch" "AnnotationAssignedRole \<noteq> AnnotationMasterStartAuthorizedEpoch"
  "AnnotationAssignedMasterIP \<noteq> AnnotationMasterStartAuthorizedEpoch" "AnnotationAssignmentEpoch \<noteq> AnnotationMasterStartAuthorizedEpoch"
  by (simp_all add: annotation_defs)

lemma bears_stamped: "pq_Name p = tp_podName s \<Longrightarrow> bears s (stamp_pod s p)"
  by (simp add: bears_def stamp_pod_def stamp_annotations_def go_lookup_def Let_def annotations_distinct [symmetric])

lemma bears_satisfied: "stamp_satisfied s (fo_Annotations p) \<Longrightarrow> bears s p"
  by (simp add: bears_def stamp_satisfied_def)

lemma stamp_pod_fields [simp]:
  "pq_Name (stamp_pod s p) = pq_Name p" "pq_PodIP (stamp_pod s p) = pq_PodIP p" "po_Terminating (stamp_pod s p) = po_Terminating p"
  "fo_Statuses (stamp_pod s p) = fo_Statuses p" "pq_Role (stamp_pod s p) = pq_Role p"
  by (simp_all add: stamp_pod_def)

lemma Itoa_not_Nil [simp]: "Itoa i \<noteq> []"
  using nat_digits.simps by (auto simp: Itoa_def)

lemma bears_view:
  assumes "bears s p" "tp_role s \<noteq> []" "min_int64 \<le> tp_epoch s" "tp_epoch s \<le> max_int64"
  shows "vw_hasAssignment (pod_view x p)" "vw_assignedRole (pod_view x p) = tp_role s"
    "vw_epoch (pod_view x p) = tp_epoch s" "vw_assignedMasterIP (pod_view x p) = tp_masterIP s"
  using assms by (simp_all add: pod_view_def bears_def Let_def ParseInt64_Itoa)

lemma pod_view_assignment:
  "vw_hasAssignment (pod_view x p) = vw_hasAssignment (pod_view y p)" "vw_epoch (pod_view x p) = vw_epoch (pod_view y p)"
  by (simp_all add: pod_view_def Let_def)

lemma pod_view_fields [simp]:
  "vw_name (pod_view x p) = pq_Name p" "vw_ip (pod_view x p) = pq_PodIP p" "vw_terminating (pod_view x p) = po_Terminating p"
  by (simp_all add: pod_view_def Let_def)

text \<open>A pod after the stamps: as it was, or with the stamp of its name.\<close>

definition touched :: "failoverStamp list \<Rightarrow> failover_pod \<Rightarrow> failover_pod \<Rightarrow> bool" where
  "touched ss p p' \<longleftrightarrow> p' = p \<or> list_ex (\<lambda>s. tp_podName s = pq_Name p \<and> p' = stamp_pod s p) ss"

lemma touched_fields: "touched ss p p' \<Longrightarrow> pq_Name p' = pq_Name p \<and> pq_PodIP p' = pq_PodIP p \<and> po_Terminating p' = po_Terminating p"
  by (auto simp: touched_def list_ex_iff)

lemma stampFailoverPod_cases:
  assumes "stampFailoverPod calls s pods = (e, pods')"
  obtains (failed) "e \<noteq> None" "pods' = pods"
  | (satisfied) p where "e = None" "pods' = pods" "p \<in> set pods" "pq_Name p = tp_podName s" "bears s p"
  | (patched) p where "e = None" "pods' = map (stamp_pod s) pods" "p \<in> set pods" "pq_Name p = tp_podName s"
proof (cases "find (\<lambda>p. pq_Name p = tp_podName s) pods")
  case None
  then have "fst (stampFailoverPod calls s pods) \<noteq> None \<and> snd (stampFailoverPod calls s pods) = pods"
    by (simp add: stampFailoverPod_def split: option.split)
  then show ?thesis using assms failed by simp
next
  case (Some p)
  then have p: "p \<in> set pods" "pq_Name p = tp_podName s" by (auto simp: find_Some_iff)
  have "fst (stampFailoverPod calls s pods) \<noteq> None \<and> snd (stampFailoverPod calls s pods) = pods \<or>
      fst (stampFailoverPod calls s pods) = None \<and> snd (stampFailoverPod calls s pods) = pods \<and> bears s p \<or>
      fst (stampFailoverPod calls s pods) = None \<and> snd (stampFailoverPod calls s pods) = map (stamp_pod s) pods"
    using Some bears_satisfied [of s p] by (simp add: stampFailoverPod_def split: option.split)
  then show ?thesis using assms failed satisfied [OF _ _ p] patched [OF _ _ p] by auto
qed

lemma stampFailoverPod_touched:
  assumes "stampFailoverPod calls s pods = (e, pods')"
  shows "list_all2 (touched [s]) pods pods' \<and> (e = None \<longrightarrow> list_ex (\<lambda>p. pq_Name p = tp_podName s \<and> bears s p) pods')"
  using assms
proof (cases rule: stampFailoverPod_cases)
  case (patched p)
  have "list_all2 (touched [s]) pods (map (stamp_pod s) pods)"
    by (auto simp: list_all2_conv_all_nth touched_def) (simp add: stamp_pod_def)
  then show ?thesis using patched bears_stamped [of p s] by (auto simp: list_ex_iff)
qed (auto simp: list_all2_same touched_def list_ex_iff)

lemma touched_names: "list_all2 (touched ss) pods pods' \<Longrightarrow> map pq_Name pods' = map pq_Name pods"
  by (induction rule: list_all2_induct) (auto dest: touched_fields)

lemma touched_other: "touched ss p p' \<Longrightarrow> pq_Name p \<notin> set (map tp_podName ss) \<Longrightarrow> p' = p"
  by (force simp: touched_def list_ex_iff)

lemma touched_compose:
  assumes "tp_podName s \<notin> set (map tp_podName ss)" "touched [s] p p1" "touched ss p1 p2"
  shows "touched (s # ss) p p2"
proof (cases "p1 = p")
  case True
  then show ?thesis using assms(3) by (auto simp: touched_def)
next
  case False
  then have "tp_podName s = pq_Name p" "p1 = stamp_pod s p" using assms(2) by (auto simp: touched_def)
  moreover then have "p2 = p1" using assms(1) touched_other [OF assms(3)] by simp
  ultimately show ?thesis by (simp add: touched_def)
qed

lemma stamp_all_touched:
  assumes "stamp_all calls ss pods = (e, pods')" "distinct (map pq_Name pods)" "distinct (map tp_podName ss)"
  shows "list_all2 (touched ss) pods pods' \<and>
    (e = None \<longrightarrow> list_all (\<lambda>s. list_ex (\<lambda>p. pq_Name p = tp_podName s \<and> bears s p) pods') ss)"
  using assms
proof (induction ss arbitrary: pods e)
  case Nil
  then show ?case by (simp add: list_all2_same touched_def)
next
  case (Cons s ss)
  obtain e1 pods1 e2 where st: "stampFailoverPod calls s pods = (e1, pods1)" "stamp_all calls ss pods1 = (e2, pods')"
    "e = (if e1 = None then e2 else e1)"
    using Cons.prems(1) by (auto split: prod.splits)
  note one = stampFailoverPod_touched [OF st(1)]
  then have "distinct (map pq_Name pods1)" using touched_names [of "[s]" pods pods1] Cons.prems(2) by simp
  note ih = Cons.IH [OF st(2) this]
  have rest: "list_all2 (touched ss) pods1 pods'" using ih Cons.prems(3) by simp
  have "list_all2 (touched (s # ss)) pods pods'"
  proof (rule list_all2_trans [of "touched [s]" "touched ss"])
    show "touched (s # ss) p p2" if "touched [s] p p1" "touched ss p1 p2" for p p1 p2
      using touched_compose [OF _ that] Cons.prems(3) by simp
  qed (use one rest in auto)
  moreover have "list_ex (\<lambda>p. pq_Name p = tp_podName s \<and> bears s p) pods'" if none: "e = None"
  proof -
    have "e1 = None" using none st(3) by (auto split: if_splits)
    with one obtain i where i: "i < length pods1" "pq_Name (pods1 ! i) = tp_podName s" "bears s (pods1 ! i)"
      by (auto simp: list_ex_iff in_set_conv_nth)
    then have "pods' ! i = pods1 ! i"
      using touched_other [OF list_all2_nthD [OF rest i(1)]] Cons.prems(3) by simp
    moreover have "pods' ! i \<in> set pods'" using i(1) list_all2_lengthD [OF rest] by simp
    ultimately show ?thesis using i(2,3) by (auto simp: list_ex_iff)
  qed
  ultimately show ?case using ih Cons.prems(3) st(3) by (auto split: if_splits)
qed


abbreviation live_pod :: "failover_pod \<Rightarrow> bool" where
  "live_pod p \<equiv> pq_PodIP p \<noteq> [] \<and> \<not> po_Terminating p"

lemma assignment_stamp_fields [simp]:
  "tp_podName (assignment_stamp m ip e a p) = pq_Name p" "tp_epoch (assignment_stamp m ip e a p) = e"
  "tp_role (assignment_stamp m ip e a p) \<noteq> []"
  "tp_role (assignment_stamp m ip e a p) = roleMaster \<longleftrightarrow> pq_Name p = m"
  by (auto simp: assignment_stamp_def roleMaster_def roleReplica_def)

text \<open>After the stamps the pods are as they were but for the assignments of the live ones, and, when
  no write failed, each live pod bears its own.\<close>

lemma stampFailoverAssignments_touched:
  assumes "stampFailoverAssignments calls m ip e a pods = (err, pods')" "distinct (map pq_Name pods)"
  defines "ss \<equiv> map (assignment_stamp m ip e a) (filter live_pod pods)"
  shows "list_all2 (touched ss) pods pods' \<and>
    (err = None \<longrightarrow> list_all (\<lambda>s. list_ex (\<lambda>p. pq_Name p = tp_podName s \<and> bears s p) pods') ss)"
proof (rule stamp_all_touched)
  show "stamp_all calls ss pods = (err, pods')" using assms(1) by (simp add: stampFailoverAssignments_def ss_def)
  have "map tp_podName ss = map pq_Name (filter live_pod pods)" by (simp add: ss_def)
  then show "distinct (map tp_podName ss)" using assms(2) by (simp add: distinct_map_filter)
qed (rule assms(2))

lemma same_name_same: "distinct (map pq_Name ps) \<Longrightarrow> p \<in> set ps \<Longrightarrow> q \<in> set ps \<Longrightarrow> pq_Name p = pq_Name q \<Longrightarrow> p = q"
  by (meson distinct_map inj_on_eq_iff)

lemma list_all2_member:
  assumes "list_all2 R xs ys" "y \<in> set ys"
  obtains x where "x \<in> set xs" "R x y"
  using assms by (induction arbitrary: thesis rule: list_all2_induct) auto

lemma touched_dead:
  assumes "touched (map (assignment_stamp m ip e a) (filter live_pod pods)) p p'" "\<not> live_pod p'" "distinct (map pq_Name pods)" "p \<in> set pods"
  shows "p' = p"
proof (rule touched_other [OF assms(1)], rule notI)
  assume "pq_Name p \<in> set (map tp_podName (map (assignment_stamp m ip e a) (filter live_pod pods)))"
  then obtain q where q: "q \<in> set pods" "live_pod q" "pq_Name q = pq_Name p" by auto
  then have "q = p" using same_name_same [OF assms(3) _ assms(4)] by blast
  then show False using q(2) assms(2) touched_fields [OF assms(1)] by simp
qed

lemma maxEpoch_exact:
  assumes "list_all (\<lambda>p. vw_name p \<noteq> []) pods" "p \<in> set pods" "vw_hasAssignment p" "0 < vw_epoch p"
    and "\<And>q. q \<in> set pods \<Longrightarrow> vw_hasAssignment q \<Longrightarrow> vw_epoch q \<le> vw_epoch p"
  shows "fi_maxEpoch (resolveFailoverIntent pods) = vw_epoch p"
proof (rule antisym)
  show "fi_maxEpoch (resolveFailoverIntent pods) \<le> vw_epoch p"
  proof (cases "fi_maxEpoch (resolveFailoverIntent pods) = 0")
    case False
    then obtain q where "q \<in> set pods" "vw_hasAssignment q" "vw_epoch q = fi_maxEpoch (resolveFailoverIntent pods)"
      using resolve_resolved [OF assms(1)] unfolding resolved_def resolveFailoverIntent_def list_ex_iff by blast
    then show ?thesis using assms(5) [of q] by simp
  qed (use assms(4) in simp)
  show "vw_epoch p \<le> fi_maxEpoch (resolveFailoverIntent pods)" by (rule maxEpoch_bound [OF assms(1-3)])
qed

lemma assigned_bears:
  assumes "stampFailoverAssignments calls m ip e a pods = (None, pods')" "distinct (map pq_Name pods)"
    and "p' \<in> set pods'" "live_pod p'"
  shows "bears (assignment_stamp m ip e a p') p'"
proof -
  note t = stampFailoverAssignments_touched [OF assms(1,2)]
  then obtain p where p: "p \<in> set pods" "touched (map (assignment_stamp m ip e a) (filter live_pod pods)) p p'"
    using list_all2_member [OF _ assms(3)] by blast
  note f = touched_fields [OF p(2)]
  with assms(4) p(1) have "p \<in> set (filter live_pod pods)" by simp
  then have "list_ex (\<lambda>q. pq_Name q = pq_Name p \<and> bears (assignment_stamp m ip e a p) q) pods'"
    using t by (auto simp: list_all_iff)
  then obtain q where q: "q \<in> set pods'" "pq_Name q = pq_Name p'" "bears (assignment_stamp m ip e a p) q"
    using f by (auto simp: list_ex_iff)
  moreover have "distinct (map pq_Name pods')" using touched_names [OF conjunct1 [OF t]] assms(2) by simp
  ultimately have "q = p'" using same_name_same [of pods' q p'] assms(3) by simp
  moreover have "assignment_stamp m ip e a p = assignment_stamp m ip e a p'" using f by (simp add: assignment_stamp_def)
  ultimately show ?thesis using q(3) by simp
qed


text \<open>The intent after the stamps is the pod of the address at the new epoch.\<close>

lemma intent_after:
  assumes stamped: "stampFailoverAssignments calls (pq_Name p) (pq_PodIP p) e a pods = (None, pods')"
    and names: "distinct (map pq_Name pods)" "list_all (\<lambda>p. pq_Name p \<noteq> []) pods"
    and target: "p \<in> set pods" "live_pod p"
    and epoch: "e = fi_maxEpoch (resolveFailoverIntent (buildFailoverPodViews pods x)) + 1" "e \<le> max_int64"
  shows "resolveFailoverIntent (buildFailoverPodViews pods' y) = \<lparr>fi_masterName = pq_Name p, fi_masterIP = pq_PodIP p, fi_maxEpoch = e\<rparr>"
proof -
  let ?ss = "map (assignment_stamp (pq_Name p) (pq_PodIP p) e a) (filter live_pod pods)"
  let ?views = "buildFailoverPodViews pods' y"
  note t = conjunct1 [OF stampFailoverAssignments_touched [OF stamped names(1)]]
  have named: "list_all (\<lambda>v. vw_name v \<noteq> []) (buildFailoverPodViews pods x)" "list_all (\<lambda>v. vw_name v \<noteq> []) ?views"
    using names(2) touched_names [OF t] by (simp_all add: buildFailoverPodViews_def list_all_iff) (metis list.set_map image_iff)
  have e0: "0 < e" "min_int64 \<le> e" using epoch(1) maxEpoch_nonneg [OF named(1)] by (simp_all add: min_int64_def)
  obtain i where i: "i < length pods" "pods ! i = p" using target(1) by (auto simp: in_set_conv_nth)
  define p' where "p' = pods' ! i"
  have p': "p' \<in> set pods'" "pq_Name p' = pq_Name p" "pq_PodIP p' = pq_PodIP p" "live_pod p'"
    using list_all2_nthD [OF t i(1)] list_all2_lengthD [OF t] i target(2) by (auto simp: p'_def dest!: touched_fields)
  note v = bears_view [OF assigned_bears [OF stamped names(1) p'(1,4)] assignment_stamp_fields(3), of y]
  have mine: "vw_hasAssignment (pod_view y p')" "vw_assignedRole (pod_view y p') = roleMaster" "vw_epoch (pod_view y p') = e"
    using v e0 epoch(2) p'(2) by simp_all
  have other: "vw_epoch v \<le> e \<and> (vw_assignedRole v = roleMaster \<and> v \<noteq> pod_view y p' \<longrightarrow> vw_epoch v < e)"
    if "v \<in> set ?views" "vw_hasAssignment v" for v
  proof -
    obtain q' where q': "q' \<in> set pods'" "v = pod_view y q'" using \<open>v \<in> set ?views\<close> by (auto simp: buildFailoverPodViews_def)
    then obtain q where q: "q \<in> set pods" "touched ?ss q q'" using list_all2_member [OF t] by blast
    show ?thesis
    proof (cases "live_pod q'")
      case True
      note w = bears_view [OF assigned_bears [OF stamped names(1) q'(1) True] assignment_stamp_fields(3), of y]
      have "q' = p'" if "pq_Name q' = pq_Name p"
        using same_name_same [of pods' q' p'] touched_names [OF t] names(1) q'(1) p'(1,2) that by simp
      then show ?thesis using w e0 epoch(2) q'(2) by auto
    next
      case False
      then have "q' = q" using touched_dead [OF q(2) _ names(1) q(1)] by blast
      then have "pod_view x q \<in> set (buildFailoverPodViews pods x)" "vw_hasAssignment (pod_view x q)" "vw_epoch (pod_view x q) = vw_epoch v"
        using q(1) q'(2) that(2) pod_view_assignment [of x q y] by (simp_all add: buildFailoverPodViews_def)
      then show ?thesis using maxEpoch_bound [OF named(1)] epoch(1) by fastforce
    qed
  qed
  have mem: "pod_view y p' \<in> set ?views" using p'(1) by (simp add: buildFailoverPodViews_def)
  have "fi_masterName (resolveFailoverIntent ?views) = vw_name (pod_view y p')" "fi_masterIP (resolveFailoverIntent ?views) = vw_ip (pod_view y p')"
    using intent_of [OF named(2), of "pod_view y p'"] mem mine other by simp_all
  moreover have "fi_maxEpoch (resolveFailoverIntent ?views) = e"
    using maxEpoch_exact [OF named(2) mem mine(1)] other e0(1) mine(3) by simp
  ultimately show ?thesis using p' by (simp add: failoverIntent.equality)
qed

section \<open>The assignments are the authority\<close>

definition cmd_master :: "failover_cmd \<Rightarrow> string" where
  "cmd_master c = (case c of Promote ip \<Rightarrow> ip | Follow ip master \<Rightarrow> master)"

definition recorded_master :: "failover_pod list \<Rightarrow> string" where
  "recorded_master pods = fi_masterIP (resolveFailoverIntent (buildFailoverPodViews pods None))"

lemma intent_unique:
  assumes "list_all (\<lambda>p. vw_name p \<noteq> []) vs" "distinct (map vw_name vs)" "intended_by vs p"
  shows "fi_masterName (resolveFailoverIntent vs) = vw_name p \<and> fi_masterIP (resolveFailoverIntent vs) = vw_ip p"
proof -
  have "assigned_masters vs \<noteq> []" using assms(3) by (auto simp: intended_by_def filter_empty_conv)
  then obtain r where r: "intended_by vs r" "fi_masterName (resolveFailoverIntent vs) = vw_name r"
    "fi_masterIP (resolveFailoverIntent vs) = vw_ip r"
    using resolve_resolved [OF assms(1)] unfolding resolved_def resolveFailoverIntent_def by auto
  have "vw_name r = vw_name p" "r \<in> set vs" "p \<in> set vs"
    using r(1) assms(3) by (fastforce simp: intended_by_def list_all_iff)+
  then have "r = p" using assms(2) by (meson distinct_map inj_on_eq_iff)
  with r show ?thesis by simp
qed

lemma named_intent:
  assumes "list_all (\<lambda>p. vw_name p \<noteq> []) vs" "fi_masterName (resolveFailoverIntent vs) \<noteq> [] \<or> fi_masterIP (resolveFailoverIntent vs) \<noteq> []"
  obtains p where "intended_by vs p" "fi_masterName (resolveFailoverIntent vs) = vw_name p" "fi_masterIP (resolveFailoverIntent vs) = vw_ip p"
  using resolve_resolved [OF assms(1)] assms(2) unfolding resolved_def resolveFailoverIntent_def by (auto split: if_splits)

lemma assignment_of_view:
  "vw_hasAssignment (pod_view x p) = vw_hasAssignment (pod_view y p)" "vw_epoch (pod_view x p) = vw_epoch (pod_view y p)"
  "vw_assignedRole (pod_view x p) = vw_assignedRole (pod_view y p)"
  by (simp_all add: pod_view_def Let_def)

lemma stamped_replica:
  "tp_role s = roleReplica \<Longrightarrow> tp_podName s = pq_Name p \<Longrightarrow> vw_assignedRole (pod_view y (stamp_pod s p)) \<noteq> roleMaster"
  using bears_stamped [of p s] by (auto simp: pod_view_def bears_def Let_def roleReplica_def roleMaster_def)

text \<open>Stamps that make replicas of pods other than the intended master leave it intended.\<close>

lemma replica_stamps_keep_intent:
  assumes names: "distinct (map pq_Name pods)" "list_all (\<lambda>p. pq_Name p \<noteq> []) pods"
    and t: "list_all2 (touched ss) pods pods'"
    and ss: "list_all (\<lambda>s. tp_role s = roleReplica \<and> tp_podName s \<noteq> fi_masterName (resolveFailoverIntent (buildFailoverPodViews pods x))) ss"
    and some: "fi_masterName (resolveFailoverIntent (buildFailoverPodViews pods x)) \<noteq> []"
  shows "fi_masterIP (resolveFailoverIntent (buildFailoverPodViews pods' y)) = fi_masterIP (resolveFailoverIntent (buildFailoverPodViews pods x))"
proof -
  have named: "list_all (\<lambda>v. vw_name v \<noteq> []) (buildFailoverPodViews pods x)" "list_all (\<lambda>v. vw_name v \<noteq> []) (buildFailoverPodViews pods' y)"
    using names(2) touched_names [OF t] by (simp_all add: buildFailoverPodViews_def list_all_iff) (metis list.set_map image_iff)
  have "map vw_name (buildFailoverPodViews pods' y) = map pq_Name pods"
    using touched_names [OF t] by (simp add: buildFailoverPodViews_def comp_def)
  then have d: "distinct (map vw_name (buildFailoverPodViews pods' y))" using names(1) by simp
  obtain v where v: "intended_by (buildFailoverPodViews pods x) v" "fi_masterName (resolveFailoverIntent (buildFailoverPodViews pods x)) = vw_name v"
    "fi_masterIP (resolveFailoverIntent (buildFailoverPodViews pods x)) = vw_ip v"
    using named_intent [OF named(1)] some by blast
  then obtain i where i: "i < length pods" "v = pod_view x (pods ! i)"
    by (auto simp: intended_by_def buildFailoverPodViews_def in_set_conv_nth)
  have "pq_Name (pods ! i) \<notin> set (map tp_podName ss)" using ss v(2) i(2) by (auto simp: list_all_iff)
  then have same: "pods' ! i = pods ! i" by (rule touched_other [OF list_all2_nthD [OF t i(1)]])
  have stays: "q' = q \<or> vw_assignedRole (pod_view y q') \<noteq> roleMaster" if "touched ss q q'" for q q'
    using that ss stamped_replica by (fastforce simp: touched_def list_ex_iff list_all_iff)
  have "intended_by (buildFailoverPodViews pods' y) (pod_view y (pods ! i))"
    unfolding intended_by_def
  proof
    have "pods ! i \<in> set pods'" using same i(1) list_all2_lengthD [OF t] nth_mem by metis
    then show "pod_view y (pods ! i) \<in> set (assigned_masters (buildFailoverPodViews pods' y))"
      using v(1) i(2) assignment_of_view [of x "pods ! i" y] by (simp add: intended_by_def buildFailoverPodViews_def)
    show "list_all (\<lambda>q. vw_epoch q < vw_epoch (pod_view y (pods ! i)) \<or> vw_epoch q = vw_epoch (pod_view y (pods ! i)) \<and>
        vw_name (pod_view y (pods ! i)) \<le> vw_name q) (assigned_masters (buildFailoverPodViews pods' y))"
      unfolding list_all_iff
    proof
      fix w assume w: "w \<in> set (assigned_masters (buildFailoverPodViews pods' y))"
      then obtain q' where q': "q' \<in> set pods'" "w = pod_view y q'" by (auto simp: buildFailoverPodViews_def)
      then obtain q where q: "q \<in> set pods" "touched ss q q'" using list_all2_member [OF t] by blast
      then have "q' = q" using stays w q'(2) by auto
      then have "pod_view x q \<in> set (assigned_masters (buildFailoverPodViews pods x))"
        using w q'(2) q(1) assignment_of_view [of x q y] by (simp add: buildFailoverPodViews_def)
      then show "vw_epoch w < vw_epoch (pod_view y (pods ! i)) \<or> vw_epoch w = vw_epoch (pod_view y (pods ! i)) \<and>
          vw_name (pod_view y (pods ! i)) \<le> vw_name w"
        using v(1) i(2) q'(2) \<open>q' = q\<close> assignment_of_view [of x q y] assignment_of_view [of x "pods ! i" y]
        by (auto simp: intended_by_def list_all_iff)
    qed
  qed
  then show ?thesis using intent_unique [OF named(2) d] v(3) i(2) by simp
qed


lemma planFailoverReauth_stamps:
  assumes "distinct (map vw_name vs)"
  shows "distinct (map tp_podName (planFailoverReauth vs intent live)) \<and>
    list_all (\<lambda>s. tp_role s = roleReplica \<and> tp_podName s \<noteq> fi_masterName intent) (planFailoverReauth vs intent live)"
proof -
  have r: "reauth_stamp intent live v = Some s \<Longrightarrow> tp_podName s = vw_name v \<and> tp_role s = roleReplica \<and> vw_name v \<noteq> fi_masterName intent" for v s
    by (auto simp: reauth_stamp_def Let_def split: if_splits)
  have "distinct (map tp_podName (List.map_filter (reauth_stamp intent live) vs)) \<and>
      set (map tp_podName (List.map_filter (reauth_stamp intent live) vs)) \<subseteq> set (map vw_name vs)"
    using assms
  proof (induction vs)
    case (Cons v vs)
    then show ?case using r [of v] by (cases "reauth_stamp intent live v") (auto simp: map_filter_simps)
  qed (simp add: map_filter_simps)
  moreover have "mset (map tp_podName (sort_key tp_podName xs)) = mset (map tp_podName xs)" for xs :: "failoverStamp list"
    by simp
  ultimately have "distinct (map tp_podName (planFailoverReauth vs intent live))"
    unfolding planFailoverReauth_def by (metis mset_eq_imp_distinct_iff)
  moreover have "list_all (\<lambda>s. tp_role s = roleReplica \<and> tp_podName s \<noteq> fi_masterName intent) (planFailoverReauth vs intent live)"
    using r by (fastforce simp: planFailoverReauth_def list_all_iff map_filter_def)
  ultimately show ?thesis by blast
qed

text \<open>An elected address is the one of a live pod.\<close>

lemma pod_map_live:
  assumes "(ip, name) \<in> set (pod_map pods)"
  shows "\<exists>p \<in> set pods. pq_PodIP p = ip \<and> ip \<noteq> [] \<and> \<not> po_Terminating p"
proof -
  let ?add = "\<lambda>p m. if pq_PodIP p = [] \<or> po_Terminating p then m else AList.update (pq_PodIP p) (pq_Name p) m"
  have "ip \<in> fst ` set (fold ?add ps m0) \<Longrightarrow> ip \<in> fst ` set m0 \<or> list_ex (\<lambda>p. pq_PodIP p = ip \<and> ip \<noteq> [] \<and> \<not> po_Terminating p) ps" for ps m0
  proof (induction ps arbitrary: m0)
    case (Cons p ps)
    from Cons.IH [of "?add p m0"] Cons.prems show ?case by (auto simp: dom_update split: if_splits)
  qed simp
  from this [of pods "[]"] assms show ?thesis unfolding pod_map_def list_ex_iff by force
qed

lemma fold_selects: "(\<And>x acc. f x acc = x \<or> f x acc = acc) \<Longrightarrow> fold f xs acc = acc \<or> fold f xs acc \<in> set xs"
  by (induction xs arbitrary: acc) (auto, metis)

lemma pickBootstrapMasterIP_mem: "pickBootstrapMasterIP n m \<noteq> [] \<Longrightarrow> pickBootstrapMasterIP n m \<in> fst ` set m"
proof (cases "find (\<lambda>(ip, name). name = n @ ''-redis-0'') m")
  case None
  have "fold (\<lambda>(ip, name) (fi, fn). if fn = [] \<or> name < fn then (ip, name) else (fi, fn)) m ([], []) = ([], []) \<or>
      fold (\<lambda>(ip, name) (fi, fn). if fn = [] \<or> name < fn then (ip, name) else (fi, fn)) m ([], []) \<in> set m"
    by (rule fold_selects) auto
  then show "pickBootstrapMasterIP n m \<noteq> [] \<Longrightarrow> ?thesis" using None by (auto simp: pickBootstrapMasterIP_def)
next
  case (Some x)
  then obtain a where "x = (a, n @ ''-redis-0'')" "x \<in> set m" by (auto dest: find_in_set)
  with Some show ?thesis by (force simp: pickBootstrapMasterIP_def)
qed

lemma gathered_nodes:
  "RedisNodes (GatherReplicationState getRedis getSentinel redisPods sentinelPods masterName owned) =
   map (\<lambda>(ip, name). (ip, case getRedis name ip of Inl e \<Rightarrow> unreachable_redis name ip e | Inr rs \<Rightarrow> rs)) redisPods"
  by (simp add: GatherReplicationState_gathered DetermineRealMaster_cases gathered_def split: option.splits)

lemma planFailover_target:
  assumes "failover_elects (planFailover s live unsafe b unsettled since now cd)"
  defines "ip \<equiv> fv_masterIP (planFailover s live unsafe b unsettled since now cd)"
  shows "DataHolders s = [] \<and> b \<noteq> [] \<and> ip = b \<or> (\<exists>h \<in> set (DataHolders s). ip = rn_IP h)"
proof (cases s rule: BestDataHolder_cases)
  case 1
  then show ?thesis using assms by (auto simp: planFailover_def failover_elects_def failover_plan_def Let_def split: if_splits)
next
  case (2 h d f)
  then have "h \<in> set (DataHolders s)" using BestDataHolder_Some [of s h] by simp
  with 2 show ?thesis using assms by (auto simp: planFailover_def failover_elects_def failover_plan_def Let_def split: if_splits)
qed

lemma elected_live:
  assumes probe: "fe_Probe env = GetRedisState infoCmd" and range: "set (fe_Range env (pod_map (ft_Pods st))) = set (pod_map (ft_Pods st))"
    and elects: "failover_elects (failover_decision env lr (failover_gather env (ft_Pods st)) intent st)"
  shows "\<exists>p \<in> set (ft_Pods st). live_pod p \<and> pq_PodIP p = fv_masterIP (failover_decision env lr (failover_gather env (ft_Pods st)) intent st)"
proof -
  let ?s = "failover_gather env (ft_Pods st)" and ?b = "pickBootstrapMasterIP (li_Name lr) (fe_Range env (pod_map (ft_Pods st)))"
  let ?p = "failover_decision env lr ?s intent st"
  have "DataHolders ?s = [] \<and> ?b \<noteq> [] \<and> fv_masterIP ?p = ?b \<or> (\<exists>h \<in> set (DataHolders ?s). fv_masterIP ?p = rn_IP h)"
    using elects unfolding failover_decision_def by (rule planFailover_target)
  then have "fv_masterIP ?p \<in> fst ` set (pod_map (ft_Pods st))"
  proof
    assume "DataHolders ?s = [] \<and> ?b \<noteq> [] \<and> fv_masterIP ?p = ?b"
    then show ?thesis using pickBootstrapMasterIP_mem range by metis
  next
    assume "\<exists>h \<in> set (DataHolders ?s). fv_masterIP ?p = rn_IP h"
    then obtain h where h: "h \<in> set (DataHolders ?s)" "fv_masterIP ?p = rn_IP h" by blast
    then have "rn_Reachable h" "h \<in> snd ` set (RedisNodes ?s)" by (auto simp: DataHolders_def)
    then show ?thesis using h(2) range GetRedisState_IP
      by (force simp: failover_gather_def gathered_nodes probe unreachable_redis_def split: sum.splits)
  qed
  then show ?thesis using pod_map_live by fastforce
qed


section \<open>The commands of a pass\<close>

text \<open>The evidence of a death: the kubelet's view of the pod, or a window without an answer in which every
  replica that answers, and at least one, reports its link down.\<close>

definition death_evidence :: "failover_env \<Rightarrow> 'a failover_cr_scheme \<Rightarrow> ReplicationState \<Rightarrow> failoverIntent \<Rightarrow> failover_state \<Rightarrow> bool" where
  "death_evidence env lr state intent st \<longleftrightarrow>
     (let pod = failoverMasterPodView (ft_Pods st) intent; links = replica_links state (fi_masterIP intent)
      in \<not> mv_present pod \<or> \<not> mv_ready pod \<or> mv_terminating pod \<or>
         \<not> (case map_of (RedisNodes state) (fi_masterIP intent) of None \<Rightarrow> False | Some rn \<Rightarrow> rn_Reachable rn) \<and>
         (case fx_MasterDownSince (fst (ft_Status st)) of None \<Rightarrow> False
          | Some since \<Rightarrow> int64 (fz_DownAfterMilliseconds (failoverSpecOrDefault lr) * 1000000) \<le> Sub (fe_Now env) since) \<and>
         links \<noteq> [] \<and> list_all (\<lambda>l. l = linkStatusDown) links)"

lemma detect_death_dead:
  assumes "detect_death env lr state intent st = (True, soon, st1)"
  shows "st1 = st \<and> fi_masterName intent \<noteq> [] \<and> death_evidence env lr state intent st"
  using assms by (auto simp: detect_death_def death_evidence_def planMasterDeath_def Let_def
      split: masterDeathAction.splits if_splits option.splits)

lemma detect_death_pods: "detect_death env lr state intent st = (dead, soon, st1) \<Longrightarrow> ft_Pods st1 = ft_Pods st"
  by (auto simp: detect_death_def Let_def split: masterDeathAction.splits if_splits)

definition elects_now :: "failover_env \<Rightarrow> 'a failover_cr_scheme \<Rightarrow> ReplicationState \<Rightarrow> failoverIntent \<Rightarrow> failover_state \<Rightarrow> bool" where
  "elects_now env lr state intent st \<longleftrightarrow>
     (fi_masterName intent = [] \<or> death_evidence env lr state intent st) \<and> failover_elects (failover_decision env lr state intent st)"

text \<open>A promotion resumes the recorded intent or executes an election; a pod is told to follow the live master, which
  it does not follow, or, once the next master is recorded, when it is the outgoing one.\<close>

definition failover_justified :: "failover_env \<Rightarrow> 'a failover_cr_scheme \<Rightarrow> failover_state \<Rightarrow> failover_cmd \<Rightarrow> bool" where
  "failover_justified env lr st c =
     (let state = failover_gather env (ft_Pods st); intent = resolveFailoverIntent (buildFailoverPodViews (ft_Pods st) (Some state));
          elected = fv_masterIP (failover_decision env lr state intent st)
      in case c of
           Promote ip \<Rightarrow> needsPromotion state ip \<and>
             (ip \<noteq> [] \<and> ip = fi_masterIP intent \<or> elects_now env lr state intent st \<and> ip = elected)
         | Follow ip m \<Rightarrow> ip \<noteq> m \<and>
             (m \<noteq> [] \<and> m = determineFailoverLiveMaster state (fi_masterIP intent) \<and> m = fi_masterIP intent \<and>
              list_ex (\<lambda>(a, rn). a = ip \<and> rn_Reachable rn \<and> (rn_Role rn = roleMaster \<or> rn_MasterHost rn \<noteq> m)) (RedisNodes state) \<or>
              elects_now env lr state intent st \<and> m = elected \<and> ip = fi_masterIP intent))"

lemma elect_failover_commands:
  assumes "elect_failover env state intent plan st = (err, st', cs, evs)"
  obtains pods' where "stampFailoverAssignments (fe_Calls env) (podNameForIP (ft_Pods st) (fv_masterIP plan)) (fv_masterIP plan)
      (int64 (fi_maxEpoch intent + 1)) (masterStartAuthorizedFor (fv_action plan)) (ft_Pods st) = (None, pods')" "ft_Pods st' = pods'"
    "set cs \<subseteq> {Promote (fv_masterIP plan), Follow (fi_masterIP intent) (fv_masterIP plan)}"
    "Promote (fv_masterIP plan) \<in> set cs \<Longrightarrow> needsPromotion state (fv_masterIP plan)"
    "Follow (fi_masterIP intent) (fv_masterIP plan) \<in> set cs \<Longrightarrow> fi_masterIP intent \<noteq> fv_masterIP plan"
  | "cs = []" "err \<noteq> None"
proof -
  let ?s = "stampFailoverAssignments (fe_Calls env) (podNameForIP (ft_Pods st) (fv_masterIP plan)) (fv_masterIP plan)
      (int64 (fi_maxEpoch intent + 1)) (masterStartAuthorizedFor (fv_action plan)) (ft_Pods st)"
  obtain e pods' where s: "?s = (e, pods')" by (cases ?s)
  show thesis
  proof (cases e)
    case None
    then have r: "elect_failover env state intent plan st = (err, st', cs, evs)" "?s = (None, pods')" using assms s by simp_all
    show thesis
    proof (rule that(1) [OF r(2)])
      show "ft_Pods st' = pods'"
        using r(1) by (auto simp: elect_failover_def Let_def r(2) split: prod.splits option.splits)
    qed (use r(1) in \<open>auto simp: elect_failover_def Let_def r(2) promoteFailoverMaster_def planFailoverFence_def
        split: prod.splits option.splits if_splits\<close>)
  next
    case (Some x)
    then show thesis using assms s that(2) by (auto simp: elect_failover_def Let_def)
  qed
qed


lemma executeFailoverPlan_idle:
  assumes "executeFailoverPlan env state intent plan st = (err, st', cs, evs)" "\<not> failover_elects plan"
  shows "cs = [] \<and> ft_Pods st' = ft_Pods st"
  using assms by (cases "fv_action plan") (auto simp: executeFailoverPlan_def failover_elects_def Let_def split: prod.splits)

lemma run_engine_cases:
  assumes "run_engine env lr state intent st = (eng, err, st', cs, evs)"
  obtains (idle) "cs = []" "ft_Pods st' = ft_Pods st"
  | (resume) "fi_masterIP intent \<noteq> []" "needsPromotion state (fi_masterIP intent)" "cs = [Promote (fi_masterIP intent)]" "ft_Pods st' = ft_Pods st"
  | (elect) "elects_now env lr state intent st" "elect_failover env state intent (failover_decision env lr state intent st) st = (err, st', cs, evs)"
  | (heal) st1 acted where "fi_masterName intent \<noteq> []" "determineFailoverLiveMaster state (fi_masterIP intent) \<noteq> []" "ft_Pods st1 = ft_Pods st"
      "heal_live env state intent (determineFailoverLiveMaster state (fi_masterIP intent)) st1 = (acted, st', cs)"
proof (cases "fi_masterIP intent \<noteq> [] \<and> needsPromotion state (fi_masterIP intent)")
  case True
  then show thesis using assms resume
    by (auto simp: run_engine_def promoteFailoverMaster_def Let_def split: prod.splits option.splits if_splits)
next
  case False
  let ?plan = "failover_decision env lr state intent st"
  obtain dead soon st1 where d: "detect_death env lr state intent st = (dead, soon, st1)" by (rule prod_cases3)
  show thesis
  proof (cases "fi_masterName intent = [] \<or> dead")
    case True
    have st1: "st1 = st \<and> (fi_masterName intent = [] \<or> death_evidence env lr state intent st)"
    proof (cases "fi_masterName intent = []")
      case False
      then have "dead = True" using True by simp
      then show ?thesis using d detect_death_dead by blast
    qed (use d in \<open>simp add: detect_death_def\<close>)
    obtain e2 s2 c2 v2 where x2: "executeFailoverPlan env state intent ?plan st = (e2, s2, c2, v2)" by (rule prod_cases4)
    then have x: "executeFailoverPlan env state intent ?plan st = (err, st', cs, evs)"
      using assms(1) d True st1 unfolding run_engine_def Let_def if_not_P [OF False] by simp
    show thesis
    proof (cases "failover_elects ?plan")
      case e: True
      with x have "elect_failover env state intent ?plan st = (err, st', cs, evs)"
        by (auto simp: executeFailoverPlan_def failover_elects_def Let_def)
      with e show thesis using elect st1 by (simp add: elects_now_def)
    qed (use x executeFailoverPlan_idle idle in blast)
  next
    case no: False
    obtain a2 s2 c2 where h: "heal_live env state intent (determineFailoverLiveMaster state (fi_masterIP intent)) st1 = (a2, s2, c2)"
      by (rule prod_cases3)
    have live: "ev_liveMasterIP (engine_view state intent) = determineFailoverLiveMaster state (fi_masterIP intent)"
      by (simp add: engine_view_def Let_def)
    show thesis
    proof (cases "determineFailoverLiveMaster state (fi_masterIP intent) = []")
      case True
      then show thesis using assms no d idle detect_death_pods [OF d] unfolding run_engine_def Let_def if_not_P [OF False] live by simp
    next
      case l: False
      then have "s2 = st'" "c2 = cs"
        using assms no d h unfolding run_engine_def Let_def if_not_P [OF False] live by auto
      then show thesis using heal [of st1 a2] no h l detect_death_pods [OF d] by simp
    qed
  qed
qed

lemma elects_now_cong:
  assumes "ft_Pods st1 = ft_Pods st" "ft_Status st1 = ft_Status st"
  shows "elects_now env lr state intent st1 = elects_now env lr state intent st"
    "failover_decision env lr state intent st1 = failover_decision env lr state intent st"
  by (simp_all add: assms elects_now_def failover_decision_def death_evidence_def)

lemma pass_engine:
  assumes "reconcileFailoverAssignments env lr b st = (eng, err, st', cs, evs)" "cs \<noteq> [] \<or> st' \<noteq> st"
  defines "state \<equiv> failover_gather env (ft_Pods st)"
  defines "intent \<equiv> resolveFailoverIntent (buildFailoverPodViews (ft_Pods st) (Some state))"
  obtains st1 eng1 evs1 where "ft_Pods st1 = ft_Pods st" "ft_Status st1 = ft_Status st" "run_engine env lr state intent st1 = (eng1, err, st', cs, evs1)"
proof -
  obtain x written ev where a: "reportOperatorAuth (fe_AuthWrite env) (replicationAuthFailures (Some state)) (ft_Auth st) = (x, written, ev)"
    by (rule prod_cases3)
  define st1 where "st1 = (case written of None \<Rightarrow> st | Some c \<Rightarrow> st\<lparr>ft_Auth := Some c\<rparr>)"
  have same: "ft_Pods st1 = ft_Pods st" "ft_Status st1 = ft_Status st" by (simp_all add: st1_def split: option.split)
  obtain eng1 r where r: "run_engine env lr state intent st1 = (eng1, r)" by (rule prod.exhaust)
  have "r = (err, st', cs, snd (snd (snd r)))"
    using assms(1,2) a r unfolding reconcileFailoverAssignments_def state_def [symmetric] intent_def [symmetric] Let_def st1_def [symmetric]
    by (auto simp: st1_def [symmetric] split: if_splits option.splits prod.splits)
  with r same that show thesis by metis
qed

text \<open>C5: Every command of a pass of the failover engine is justified, and none is sent before the bootstrap: a
  pod that answers as a replica is promoted only when the recorded assignments name it as the master, or when it is
  elected while no master is assigned or the assigned one is dead by the evidence of the kubelet or of a full window
  without an answer that its replicas confirm; a pod is told to follow another one only when that one is the live
  assigned master, which the pod does not follow, or when the pod is the outgoing master of an election. No pod is told
  to follow itself.\<close>

theorem failover_commands_justified:
  assumes "reconcileFailoverAssignments env lr b st = (eng, err, st', cs, evs)"
  shows "list_all (failover_justified env lr st) cs \<and> (b \<longrightarrow> cs = [])"
proof (cases "cs = []")
  case False
  let ?s = "failover_gather env (ft_Pods st)" and ?i = "resolveFailoverIntent (buildFailoverPodViews (ft_Pods st) (Some (failover_gather env (ft_Pods st))))"
  obtain st1 eng1 evs1 where e: "ft_Pods st1 = ft_Pods st" "ft_Status st1 = ft_Status st" "run_engine env lr ?s ?i st1 = (eng1, err, st', cs, evs1)"
    using pass_engine [OF assms disjI1, OF False] by blast
  note cong = elects_now_cong [OF e(1,2)]
  have "list_all (failover_justified env lr st) cs" using e(3)
  proof (cases rule: run_engine_cases)
    case idle
    then show ?thesis by simp
  next
    case resume
    then show ?thesis by (simp add: failover_justified_def Let_def)
  next
    case elect
    from elect(2) show ?thesis
    proof (cases rule: elect_failover_commands)
      case 1
      then show ?thesis using elect(1) by (auto simp: list_all_iff failover_justified_def Let_def cong)
    next
      case 2
      then show ?thesis by simp
    qed
  next
    case (heal st2 acted)
    moreover have live: "determineFailoverLiveMaster ?s (fi_masterIP ?i) = fi_masterIP ?i"
      using heal(2) by (auto simp: determineFailoverLiveMaster_def split: if_splits option.splits)
    ultimately have "list_all (\<lambda>c. \<exists>ip \<in> set (planFailoverRepoints ?s (fi_masterIP ?i)). c = Follow ip (fi_masterIP ?i)) cs"
      by (auto simp: heal_live_def Let_def list_all_iff)
    moreover have "failover_justified env lr st (Follow ip (fi_masterIP ?i))" if "ip \<in> set (planFailoverRepoints ?s (fi_masterIP ?i))" for ip
      using that live heal(2) by (force simp: planFailoverRepoints_def failover_justified_def Let_def list_ex_iff)
    ultimately show ?thesis by (auto simp: list_all_iff)
  qed
  moreover have "\<not> b" using assms False by (auto simp: reconcileFailoverAssignments_def)
  ultimately show ?thesis by blast
qed simp


lemma int64_id: "min_int64 \<le> x \<Longrightarrow> x \<le> max_int64 \<Longrightarrow> int64 x = x"
  by (simp add: int64_def min_int64_def max_int64_def)

lemma podNameForIP_unique:
  assumes "distinct (map pq_PodIP (filter (\<lambda>p. pq_PodIP p \<noteq> []) pods))" "p \<in> set pods" "pq_PodIP p \<noteq> []"
  shows "podNameForIP pods (pq_PodIP p) = pq_Name p"
  using assms by (induction pods) (auto simp: podNameForIP_def split: option.splits if_splits)

lemma intent_state: "resolveFailoverIntent (buildFailoverPodViews pods x) = resolveFailoverIntent (buildFailoverPodViews pods None)"
proof -
  have "resolve_pod (pod_view x p) = resolve_pod (pod_view None p)" for p
    by (simp add: fun_eq_iff resolve_pod_def pod_view_def Let_def)
  then show ?thesis by (simp add: resolveFailoverIntent_def buildFailoverPodViews_def fold_map comp_def)
qed

lemma heal_keeps_intent:
  assumes "heal_live env state (resolveFailoverIntent (buildFailoverPodViews (ft_Pods st) None)) live st = (acted, st', cs)"
    and names: "distinct (map pq_Name (ft_Pods st))" "list_all (\<lambda>p. pq_Name p \<noteq> []) (ft_Pods st)"
    and some: "fi_masterName (resolveFailoverIntent (buildFailoverPodViews (ft_Pods st) None)) \<noteq> []"
  shows "recorded_master (ft_Pods st') = recorded_master (ft_Pods st)"
proof -
  let ?i = "resolveFailoverIntent (buildFailoverPodViews (ft_Pods st) None)"
  define ss where "ss = (if failoverTransitionSettled ?i state (role_labels (ft_Pods st))
    then planFailoverReauth (buildFailoverPodViews (ft_Pods st) (Some state)) ?i live else [])"
  have "st' = fst (snd (heal_live env state ?i live st))" using assms(1) by simp
  then have ss: "ft_Pods st' = snd (stamp_all (fe_Calls env) ss (ft_Pods st))"
    by (simp add: heal_live_def Let_def ss_def)
  have "distinct (map vw_name (buildFailoverPodViews (ft_Pods st) (Some state)))"
    using names(1) by (simp add: buildFailoverPodViews_def comp_def)
  then have w: "distinct (map tp_podName ss)" "list_all (\<lambda>s. tp_role s = roleReplica \<and> tp_podName s \<noteq> fi_masterName ?i) ss"
    using planFailoverReauth_stamps by (auto simp: ss_def)
  have "stamp_all (fe_Calls env) ss (ft_Pods st) = (fst (stamp_all (fe_Calls env) ss (ft_Pods st)), ft_Pods st')" using ss by simp
  from stamp_all_touched [OF this names(1) w(1)] show ?thesis
    using replica_stamps_keep_intent [OF names _ w(2) some] unfolding recorded_master_def by blast
qed

text \<open>C6: Whatever a pass of the failover engine commands, the assignments on the pods name one master at its end, the
  one all its promotions and repoints are about: the intent is recorded before it is executed, and an operator that
  stops there resumes it.\<close>

theorem failover_intent_recorded:
  assumes pass: "reconcileFailoverAssignments env lr b st = (eng, err, st', cs, evs)"
    and names: "distinct (map pq_Name (ft_Pods st))" "list_all (\<lambda>p. pq_Name p \<noteq> []) (ft_Pods st)"
    and ips: "distinct (map pq_PodIP (filter (\<lambda>p. pq_PodIP p \<noteq> []) (ft_Pods st)))"
    and probe: "fe_Probe env = GetRedisState infoCmd" and range: "set (fe_Range env (pod_map (ft_Pods st))) = set (pod_map (ft_Pods st))"
    and room: "fi_maxEpoch (resolveFailoverIntent (buildFailoverPodViews (ft_Pods st) None)) < max_int64"
  shows "list_all (\<lambda>c. cmd_master c = recorded_master (ft_Pods st')) cs"
proof (cases "cs = []")
  case False
  let ?s = "failover_gather env (ft_Pods st)" and ?i = "resolveFailoverIntent (buildFailoverPodViews (ft_Pods st) None)"
  obtain st1 eng1 evs1 where e: "ft_Pods st1 = ft_Pods st" "ft_Status st1 = ft_Status st" "run_engine env lr ?s ?i st1 = (eng1, err, st', cs, evs1)"
    using pass_engine [OF pass disjI1, OF False] unfolding intent_state [of _ "Some _"] by blast
  from e(3) show ?thesis
  proof (cases rule: run_engine_cases)
    case idle
    then show ?thesis by simp
  next
    case resume
    then show ?thesis by (simp add: cmd_master_def recorded_master_def e(1))
  next
    case elect
    let ?ip = "fv_masterIP (failover_decision env lr ?s ?i st1)"
    obtain p where p: "p \<in> set (ft_Pods st)" "live_pod p" "pq_PodIP p = ?ip"
      using elected_live [OF probe, of st1] elect(1) range unfolding e(1) elects_now_def by blast
    have n: "podNameForIP (ft_Pods st1) ?ip = pq_Name p" using podNameForIP_unique [OF ips p(1)] p e(1) by simp
    have "list_all (\<lambda>v. vw_name v \<noteq> []) (buildFailoverPodViews (ft_Pods st) None)"
      using names(2) by (simp add: buildFailoverPodViews_def list_all_iff)
    then have i64: "int64 (fi_maxEpoch ?i + 1) = fi_maxEpoch ?i + 1"
      using int64_id [of "fi_maxEpoch ?i + 1"] maxEpoch_nonneg room by (fastforce simp: min_int64_def)
    from elect(2) show ?thesis
    proof (cases rule: elect_failover_commands)
      case (1 pods')
      have "stampFailoverAssignments (fe_Calls env) (pq_Name p) (pq_PodIP p) (fi_maxEpoch ?i + 1)
          (masterStartAuthorizedFor (fv_action (failover_decision env lr ?s ?i st1))) (ft_Pods st) = (None, pods')"
        using 1(1) n i64 e(1) p(3) by simp
      from intent_after [OF this names p(1,2) refl] have "recorded_master pods' = ?ip"
        unfolding recorded_master_def using room p(3) by simp
      with 1(2,3) show ?thesis by (auto simp: list_all_iff cmd_master_def)
    qed (use False in simp)
  next
    case (heal st2 acted)
    moreover have "determineFailoverLiveMaster ?s (fi_masterIP ?i) = fi_masterIP ?i"
      using heal(2) by (auto simp: determineFailoverLiveMaster_def split: if_splits option.splits)
    moreover have "ft_Pods st2 = ft_Pods st" using heal(3) e(1) by simp
    ultimately have "recorded_master (ft_Pods st') = fi_masterIP ?i" "list_all (\<lambda>c. cmd_master c = fi_masterIP ?i) cs"
      using heal_keeps_intent [of env ?s st2 "fi_masterIP ?i" acted st' cs] names
      by (simp_all add: recorded_master_def) (auto simp: heal_live_def Let_def list_all_iff cmd_master_def)
    then show ?thesis by simp
  qed
qed simp


definition failover_pod_example :: "string \<Rightarrow> string \<Rightarrow> bool \<Rightarrow> string \<Rightarrow> failover_pod" where
  "failover_pod_example name ip ready role = instance_pod.extend (example_instance_pod name ip role)
     \<lparr>fo_Statuses = [(''redis'', ready, 0)],
      fo_Annotations = [AnnotationAssignedRole \<mapsto> role, AnnotationAssignedMasterIP \<mapsto> (if role = roleMaster then [] else ''1''),
        AnnotationAssignmentEpoch \<mapsto> ''1'']\<rparr>"

definition failover_info_example :: "string \<Rightarrow> go_error + string" where
  "failover_info_example addr =
     (if addr = ''2:6379''
      then Inr (info_text [(''role'', ''slave''), (''master_host'', ''1''), (''master_link_status'', ''down''), (''slave_repl_offset'', ''9''),
        (''master_replid'', ''ab''), (''master_replid2'', ''00'')] [(0, 3)])
      else Inl (Errorf ''EOF''))"

definition failover_env_example :: failover_env where
  "failover_env_example =
     \<lparr>fe_List = None, fe_Secret = (\<lambda>_. Inl NotFound), fe_Probe = GetRedisState failover_info_example, fe_Range = (\<lambda>m. m),
      fe_Calls = \<lparr>pk_Get = (\<lambda>_. None), pk_Patch = (\<lambda>_. None), pk_SlaveOf = (\<lambda>_. None)\<rparr>, fe_AuthWrite = None,
      fe_MarkerWrite = Written, fe_TransitionWrite = Written, fe_ConditionWrite = Written,
      fe_Now = 100 * second, fe_SetTime = 100 * second, fe_PlanNow = 100 * second, fe_MarkTime = 100 * second\<rparr>"

definition failover_cr_example :: failover_cr where
  "failover_cr_example = sentinel_cr.extend sentinel_cr_example \<lparr>lx_Failover = None\<rparr>"

definition failover_state_example :: failover_state where
  "failover_state_example =
     (let s = \<lparr>fx_MasterDownSince = None, fx_TransitionSince = None, fx_AssignmentEpoch = 1\<rparr>
      in \<lparr>ft_Pods = [failover_pod_example ''c-redis-0'' ''1'' False roleMaster, failover_pod_example ''c-redis-1'' ''2'' True roleReplica],
          ft_Status = (s, s), ft_Condition = (None, None), ft_Auth = None\<rparr>)"

definition failover_pass_example where
  "failover_pass_example = reconcileFailoverAssignments failover_env_example failover_cr_example False failover_state_example"

lemmas failover_example_defs = failover_pod_example_def failover_cr_example_def failover_state_example_def sentinel_cr_example_def
  instance_pod.defs sentinel_cr.defs sentinel_instance.defs

lemma failover_pass_example_commands:
  "fst (snd (snd (snd failover_pass_example))) = [Promote ''2'', Follow ''1'' ''2''] \<and>
   recorded_master (ft_Pods (fst (snd (snd failover_pass_example)))) = ''2''"
  by code_simp


theorem failover_commands_justified_witness:
  "list_all (failover_justified failover_env_example failover_cr_example failover_state_example) [Promote ''2'', Follow ''1'' ''2'']"
proof -
  obtain eng err st' cs evs where r: "failover_pass_example = (eng, err, st', cs, evs)" by (rule prod_cases5)
  then have "cs = [Promote ''2'', Follow ''1'' ''2'']" using failover_pass_example_commands unfolding r by simp
  with r failover_commands_justified show ?thesis unfolding failover_pass_example_def by blast
qed

theorem failover_intent_recorded_witness:
  "list_all (\<lambda>c. cmd_master c = recorded_master (ft_Pods (fst (snd (snd failover_pass_example)))))
     (fst (snd (snd (snd failover_pass_example)))) \<and> fst (snd (snd (snd failover_pass_example))) = [Promote ''2'', Follow ''1'' ''2'']"
proof -
  obtain eng err st' cs evs where r: "failover_pass_example = (eng, err, st', cs, evs)" by (rule prod_cases5)
  have "distinct (map pq_Name (ft_Pods failover_state_example))" "list_all (\<lambda>p. pq_Name p \<noteq> []) (ft_Pods failover_state_example)"
    "distinct (map pq_PodIP (filter (\<lambda>p. pq_PodIP p \<noteq> []) (ft_Pods failover_state_example)))"
    "fi_maxEpoch (resolveFailoverIntent (buildFailoverPodViews (ft_Pods failover_state_example) None)) < max_int64"
    by code_simp+
  moreover have "fe_Probe failover_env_example = GetRedisState failover_info_example"
    "set (fe_Range failover_env_example (pod_map (ft_Pods failover_state_example))) = set (pod_map (ft_Pods failover_state_example))"
    by (simp_all add: failover_env_example_def)
  ultimately have "list_all (\<lambda>c. cmd_master c = recorded_master (ft_Pods st')) cs"
    using failover_intent_recorded [OF r [unfolded failover_pass_example_def]] by blast
  then show ?thesis using failover_pass_example_commands unfolding r by simp
qed

section \<open>The permission to start as a master\<close>

definition authorized_epoch :: "failover_pod \<Rightarrow> string" where
  "authorized_epoch p = go_lookup (fo_Annotations p) AnnotationMasterStartAuthorizedEpoch"

lemma stamp_keeps_authorization: "\<not> tp_authorizeMasterStart s \<Longrightarrow> authorized_epoch (stamp_pod s p) = authorized_epoch p"
  by (simp add: authorized_epoch_def stamp_pod_def stamp_annotations_def go_lookup_def Let_def annotations_distinct [symmetric])

lemma touched_authorization:
  assumes "touched ss p p'" "authorized_epoch p' \<noteq> authorized_epoch p"
  shows "list_ex (\<lambda>s. tp_authorizeMasterStart s \<and> tp_podName s = pq_Name p) ss"
  using assms stamp_keeps_authorization by (fastforce simp: touched_def list_ex_iff)

lemma touched_Nil: "list_all2 (touched []) ps ps"
  by (simp add: list_all2_same touched_def)

text \<open>The stamps of a pass; only those of a seed authorize.\<close>

definition seeds_now :: "failover_env \<Rightarrow> 'a failover_cr_scheme \<Rightarrow> ReplicationState \<Rightarrow> failoverIntent \<Rightarrow> failover_state \<Rightarrow> bool" where
  "seeds_now env lr state intent st \<longleftrightarrow> elects_now env lr state intent st \<and>
     fv_action (failover_decision env lr state intent st) = failoverSeed"

definition stamps_justified :: "failover_env \<Rightarrow> 'a failover_cr_scheme \<Rightarrow> ReplicationState \<Rightarrow> failoverIntent \<Rightarrow> failover_state \<Rightarrow> failoverStamp list \<Rightarrow> bool" where
  "stamps_justified env lr state intent st ss \<longleftrightarrow> list_all (\<lambda>s. tp_authorizeMasterStart s \<longrightarrow>
     seeds_now env lr state intent st \<and> tp_podName s = podNameForIP (ft_Pods st) (fv_masterIP (failover_decision env lr state intent st))) ss"

lemma elect_failover_stamps:
  assumes "elect_failover env state intent plan st = (err, st', cs, evs)" "distinct (map pq_Name (ft_Pods st))"
  shows "list_all2 (touched (map (assignment_stamp (podNameForIP (ft_Pods st) (fv_masterIP plan)) (fv_masterIP plan)
      (int64 (fi_maxEpoch intent + 1)) (masterStartAuthorizedFor (fv_action plan))) (filter live_pod (ft_Pods st)))) (ft_Pods st) (ft_Pods st')"
proof -
  let ?s = "stampFailoverAssignments (fe_Calls env) (podNameForIP (ft_Pods st) (fv_masterIP plan)) (fv_masterIP plan)
      (int64 (fi_maxEpoch intent + 1)) (masterStartAuthorizedFor (fv_action plan)) (ft_Pods st)"
  obtain e pods' where s: "?s = (e, pods')" by (rule prod.exhaust)
  have "ft_Pods st' = pods'"
    using assms(1) by (cases e) (auto simp: elect_failover_def Let_def s split: prod.splits option.splits)
  then show ?thesis using stampFailoverAssignments_touched [OF s assms(2)] by simp
qed

lemma reauth_not_authorized: "list_all (\<lambda>s. \<not> tp_authorizeMasterStart s) (planFailoverReauth vs intent live)"
proof -
  have "reauth_stamp intent live v = Some s \<Longrightarrow> \<not> tp_authorizeMasterStart s" for v s
    by (auto simp: reauth_stamp_def Let_def split: if_splits)
  then show ?thesis by (fastforce simp: planFailoverReauth_def list_all_iff map_filter_def)
qed

lemma heal_live_stamps:
  assumes "heal_live env state intent live st = (acted, st', cs)" "distinct (map pq_Name (ft_Pods st))"
  obtains ss where "list_all2 (touched ss) (ft_Pods st) (ft_Pods st')" "list_all (\<lambda>s. \<not> tp_authorizeMasterStart s) ss"
proof -
  define ss where "ss = (if failoverTransitionSettled intent state (role_labels (ft_Pods st))
    then planFailoverReauth (buildFailoverPodViews (ft_Pods st) (Some state)) intent live else [])"
  have "st' = fst (snd (heal_live env state intent live st))" using assms(1) by simp
  then have "stamp_all (fe_Calls env) ss (ft_Pods st) = (fst (stamp_all (fe_Calls env) ss (ft_Pods st)), ft_Pods st')"
    by (simp add: heal_live_def Let_def ss_def)
  moreover have "distinct (map vw_name (buildFailoverPodViews (ft_Pods st) (Some state)))"
    using assms(2) by (simp add: buildFailoverPodViews_def comp_def)
  then have "distinct (map tp_podName ss)" using planFailoverReauth_stamps by (auto simp: ss_def)
  ultimately have "list_all2 (touched ss) (ft_Pods st) (ft_Pods st')" using stamp_all_touched assms(2) by blast
  moreover have "list_all (\<lambda>s. \<not> tp_authorizeMasterStart s) ss" using reauth_not_authorized by (simp add: ss_def)
  ultimately show thesis by (rule that)
qed


lemma run_engine_stamps:
  assumes "run_engine env lr state intent st = (eng, err, st', cs, evs)" "distinct (map pq_Name (ft_Pods st))"
  obtains ss where "list_all2 (touched ss) (ft_Pods st) (ft_Pods st')" "stamps_justified env lr state intent st ss"
  using assms(1)
proof (cases rule: run_engine_cases)
  case idle
  then show thesis using that [of "[]"] touched_Nil by (simp add: stamps_justified_def)
next
  case resume
  then show thesis using that [of "[]"] touched_Nil by (simp add: stamps_justified_def)
next
  case elect
  show thesis
    by (rule that [OF elect_failover_stamps [OF elect(2) assms(2)]])
      (use elect(1) in \<open>auto simp: stamps_justified_def list_all_iff seeds_now_def assignment_stamp_def masterStartAuthorizedFor_def\<close>)
next
  case (heal st1 acted)
  from heal_live_stamps [OF heal(4)] heal(3) assms(2) obtain ss where
    "list_all2 (touched ss) (ft_Pods st) (ft_Pods st')" "list_all (\<lambda>s. \<not> tp_authorizeMasterStart s) ss" by metis
  then show thesis using that [of ss] by (simp add: stamps_justified_def list_all_iff)
qed

lemma seeds_now_empty:
  assumes "seeds_now env lr state intent st"
  shows "DataHolders state = [] \<and> AuthFailedRedisNodes state = [] \<and> determineFailoverLiveMaster state (fi_masterIP intent) = []"
proof -
  have a: "lp_action (as_recovery (failover_decision env lr state intent st)) = recoverySeedNoData"
    using assms by (simp add: seeds_now_def as_recovery_def)
  have e: "failover_elects (failover_decision env lr state intent st)" using assms by (simp add: seeds_now_def elects_now_def)
  then have r: "elects (as_recovery (failover_decision env lr state intent st))" by (simp add: elects_as_recovery)
  show ?thesis
    using failover.seeds [OF a [unfolded failover_decision_def]] failover.verified [OF r [unfolded failover_decision_def]]
      planFailover_elects [OF e [unfolded failover_decision_def]] by blast
qed



definition seed_env_example :: failover_env where
  "seed_env_example = failover_env_example\<lparr>fe_Probe := GetRedisState info_example\<rparr>"

definition seed_pass_example where
  "seed_pass_example = reconcileFailoverAssignments seed_env_example failover_cr_example False failover_state_example"

lemma seed_pass_example_authorizes:
  "map authorized_epoch (ft_Pods failover_state_example) = [[], []] \<and>
   map authorized_epoch (ft_Pods (fst (snd (snd seed_pass_example)))) = [''2'', []]"
  by code_simp


section \<open>The bootstrap\<close>

lemma stamp_initial_cleared:
  assumes "stamp_initial env pod0 ip st = (err, mem, False, st')"
  shows "stampFailoverAssignments (fb_Calls env) pod0 ip
    (int64 (fi_maxEpoch (resolveFailoverIntent (buildFailoverPodViews (ft_Pods st) None)) + 1)) True (ft_Pods st) = (None, ft_Pods st')"
proof -
  let ?s = "stampFailoverAssignments (fb_Calls env) pod0 ip
    (int64 (fi_maxEpoch (resolveFailoverIntent (buildFailoverPodViews (ft_Pods st) None)) + 1)) True (ft_Pods st)"
  obtain e pods' where s: "?s = (e, pods')" by (rule prod.exhaust)
  with assms have "e = None \<and> ft_Pods st' = pods'"
    by (cases e) (auto simp: stamp_initial_def Let_def reload_def split: prod.splits option.splits if_splits)
  with s show ?thesis by simp
qed



definition failover_boot_example :: failover_boot_env where
  "failover_boot_example =
     \<lparr>fb_Latest = None, fb_GetSTS = Inr sentinel_sts_example, fb_GetPod0 = None, fb_List = None,
      fb_Calls = \<lparr>pk_Get = (\<lambda>_. None), pk_Patch = (\<lambda>_. None), pk_SlaveOf = (\<lambda>_. None)\<rparr>,
      fb_TransitionWrite = Written, fb_MarkTime = 100 * second, fb_ClearWrite = Written, fb_Refetch = None\<rparr>"

definition failover_boot_run where
  "failover_boot_run = bootstrapFailover failover_boot_example failover_cr_example True failover_state_example"

lemma failover_boot_run_flags: "fst failover_boot_run = None \<and> fst (snd failover_boot_run) = False \<and> fst (snd (snd failover_boot_run)) = False"
  by code_simp


end
