(* ===== verification/Defaults.thy ===== *)
theory Defaults
  imports Cluster_Topology Failover
begin

text \<open>
  The specification of an instance and its defaults: \<open>api/v1alpha1/littlered_defaults.go\<close>, with the types of
  \<open>littlered_types.go\<close> as far as they are defaulted, validated or dispatched on.

  A quantity is the text it is parsed from, a resource list a partial map, and a list that is nil is \<open>None\<close>. Fields
  that no modelled code reads (the pod template but for its security context, the pull secrets, the labels) are left out.
  The default image of the exporter is parsed from a Dockerfile that is embedded at build time: its text is a parameter.
\<close>

section \<open>The specification\<close>

type_synonym resource_list = "string \<rightharpoonup> string"

record ResourceRequirements =
  qr_Requests :: "resource_list option"
  qr_Limits :: "resource_list option"

record ImageSpec =
  im_Registry :: string
  im_Path :: string
  im_Tag :: string
  im_PullPolicy :: string

record ConfigSpec =
  cf_Maxmemory :: string
  cf_MaxmemoryPolicy :: string
  cf_Timeout :: int
  cf_TCPKeepalive :: "int option"
  cf_Raw :: string

record ExporterSpec =
  xp_Registry :: string
  xp_Path :: string
  xp_Tag :: string
  xp_Resources :: ResourceRequirements

record MetricsSpec =
  mx_Enabled :: "bool option"
  mx_Exporter :: ExporterSpec
  mx_MonitorEnabled :: bool
  mx_Interval :: string
  mx_ScrapeTimeout :: string

record PodSecurityContext =
  sy_RunAsNonRoot :: "bool option"
  sy_RunAsUser :: "int option"
  sy_RunAsGroup :: "int option"
  sy_FSGroup :: "int option"

record TLSSpec =
  tl_Enabled :: bool
  tl_ExistingSecret :: string
  tl_CACertSecret :: string
  tl_ClientAuth :: bool

record ShardAntiAffinitySpec =
  sa_TopologyKey :: string
  sa_WhenUnsatisfiable :: string

record full_sentinel_spec = SentinelSpec +
  sf_MasterName :: string
  sf_Resources :: ResourceRequirements

record LittleRedSpec =
  lq_Mode :: string
  lq_AppName :: string
  lq_Image :: ImageSpec
  lq_Resources :: ResourceRequirements
  lq_Config :: ConfigSpec
  lq_AuthEnabled :: bool
  lq_AuthSecret :: string
  lq_TLS :: TLSSpec
  lq_Metrics :: MetricsSpec
  lq_UpdateStrategy :: string
  lq_ServiceType :: string
  lq_SecurityContext :: "PodSecurityContext option"
  lq_Sentinel :: "full_sentinel_spec option"
  lq_Cluster :: "ClusterSpec option"
  lq_Failover :: "FailoverSpec option"
  lq_Placement :: "ShardAntiAffinitySpec option option"
  lq_Fast :: "duration option"
  lq_Steady :: "duration option"
  lq_PDBCreate :: "bool option"

section \<open>The image of the exporter\<close>

fun last_index :: "char \<Rightarrow> string \<Rightarrow> int" where
  "last_index c [] = -1"
| "last_index c (x # xs) = (let i = last_index c xs in if i \<ge> 0 then i + 1 else if x = c then 0 else -1)"

fun first_index :: "char \<Rightarrow> string \<Rightarrow> int" where
  "first_index c [] = -1"
| "first_index c (x # xs) = (if x = c then 0 else let i = first_index c xs in if i \<ge> 0 then i + 1 else -1)"

fun from_line :: "string list \<Rightarrow> string" where
  "from_line [] = []"
| "from_line (l # ls) =
     (let line = TrimSpace l
      in if HasPrefix line ''FROM '' then TrimSpace (drop 5 line) else from_line ls)"

definition split_tag :: "string \<Rightarrow> string \<times> string" where
  "split_tag ref =
     (let i = last_index (CHR '':'') ref
      in if i > last_index (CHR ''/'') ref then (take (nat i) ref, drop (nat i + 1) ref) else (ref, []))"

definition strip_registry :: "string \<Rightarrow> string" where
  "strip_registry ref =
     (let i = first_index (CHR ''/'') ref; host = take (nat i) ref
      in if i \<ge> 0 \<and> (list_ex (\<lambda>c. c = CHR ''.'' \<or> c = CHR '':'') host \<or> host = ''localhost'') then drop (nat i + 1) ref else ref)"

text \<open>\<open>None\<close> is the panic.\<close>

definition parseExporterImage :: "string \<Rightarrow> (string \<times> string) option" where
  "parseExporterImage dockerfile =
     (let (ref, tag) = split_tag (from_line (Split (CHR 0x0A) dockerfile)); path = strip_registry ref
      in if path = [] \<or> tag = [] then None else Some (path, tag))"

section \<open>The defaults\<close>

definition or_default :: "string \<Rightarrow> string \<Rightarrow> string" where
  "or_default d s = (if s = [] then d else s)"

definition or_num :: "int \<Rightarrow> int \<Rightarrow> int" where
  "or_num d n = (if n = 0 then d else n)"

definition or_some :: "'a \<Rightarrow> 'a option \<Rightarrow> 'a option" where
  "or_some d v = (if v = None then Some d else v)"

definition ensure_key :: "string \<Rightarrow> string \<Rightarrow> resource_list \<Rightarrow> resource_list" where
  "ensure_key k d m = (case m k of None \<Rightarrow> m(k \<mapsto> d) | Some _ \<Rightarrow> m)"

definition or_empty :: "resource_list option \<Rightarrow> resource_list" where
  "or_empty l = (case l of None \<Rightarrow> Map.empty | Some m \<Rightarrow> m)"

definition setDefaultResources :: "ResourceRequirements \<Rightarrow> ResourceRequirements" where
  "setDefaultResources r =
     \<lparr>qr_Requests = Some (ensure_key ''memory'' ''512Mi'' (ensure_key ''cpu'' ''128m'' (or_empty (qr_Requests r)))),
      qr_Limits = Some (ensure_key ''memory'' ''512Mi'' (or_empty (qr_Limits r)))\<rparr>"

definition setDefaultExporterResources :: "bool \<Rightarrow> ResourceRequirements \<Rightarrow> ResourceRequirements" where
  "setDefaultExporterResources mainHasCPULimit r =
     (let limits = (if mainHasCPULimit then ensure_key ''cpu'' ''100m'' (or_empty (qr_Limits r)) else or_empty (qr_Limits r))
      in \<lparr>qr_Requests = Some (ensure_key ''memory'' ''32Mi'' (ensure_key ''cpu'' ''50m'' (or_empty (qr_Requests r)))),
          qr_Limits = Some (ensure_key ''memory'' ''64Mi'' limits)\<rparr>)"

definition setDefaultSentinelResources :: "bool \<Rightarrow> ResourceRequirements \<Rightarrow> ResourceRequirements" where
  "setDefaultSentinelResources mainHasCPULimit r =
     (let limits = (if mainHasCPULimit then ensure_key ''cpu'' ''100m'' (or_empty (qr_Limits r)) else or_empty (qr_Limits r))
      in \<lparr>qr_Requests = Some (ensure_key ''memory'' ''64Mi'' (ensure_key ''cpu'' ''100m'' (or_empty (qr_Requests r)))),
          qr_Limits = Some (ensure_key ''memory'' ''64Mi'' limits)\<rparr>)"

definition defaultPodSecurityContext :: PodSecurityContext where
  "defaultPodSecurityContext =
     \<lparr>sy_RunAsNonRoot = Some True, sy_RunAsUser = Some 999, sy_RunAsGroup = Some 999, sy_FSGroup = Some 999\<rparr>"

definition ImageSpec_SetDefaults :: "ImageSpec \<Rightarrow> ImageSpec" where
  "ImageSpec_SetDefaults i =
     i\<lparr>im_Registry := or_default ''docker.io'' (im_Registry i), im_Path := or_default ''library/redis'' (im_Path i),
       im_Tag := or_default ''8.4.2'' (im_Tag i), im_PullPolicy := or_default ''IfNotPresent'' (im_PullPolicy i)\<rparr>"

definition ConfigSpec_SetDefaults :: "ConfigSpec \<Rightarrow> ConfigSpec" where
  "ConfigSpec_SetDefaults c =
     c\<lparr>cf_MaxmemoryPolicy := or_default ''noeviction'' (cf_MaxmemoryPolicy c), cf_TCPKeepalive := or_some 300 (cf_TCPKeepalive c)\<rparr>"

definition TCPKeepaliveOrDefault :: "ConfigSpec \<Rightarrow> int" where
  "TCPKeepaliveOrDefault c = (case cf_TCPKeepalive c of None \<Rightarrow> 300 | Some v \<Rightarrow> v)"

definition ExporterSpec_SetDefaults :: "string \<times> string \<Rightarrow> string \<Rightarrow> bool \<Rightarrow> ExporterSpec \<Rightarrow> ExporterSpec" where
  "ExporterSpec_SetDefaults exporter mainRegistry mainHasCPULimit e =
     e\<lparr>xp_Registry := or_default (or_default ''docker.io'' mainRegistry) (xp_Registry e),
       xp_Path := or_default (fst exporter) (xp_Path e), xp_Tag := or_default (snd exporter) (xp_Tag e),
       xp_Resources := setDefaultExporterResources mainHasCPULimit (xp_Resources e)\<rparr>"

definition MetricsSpec_SetDefaults :: "string \<times> string \<Rightarrow> string \<Rightarrow> bool \<Rightarrow> MetricsSpec \<Rightarrow> MetricsSpec" where
  "MetricsSpec_SetDefaults exporter mainRegistry mainHasCPULimit m =
     m\<lparr>mx_Exporter := ExporterSpec_SetDefaults exporter mainRegistry mainHasCPULimit (mx_Exporter m),
       mx_Interval := or_default ''30s'' (mx_Interval m), mx_ScrapeTimeout := or_default ''10s'' (mx_ScrapeTimeout m)\<rparr>"

definition SentinelSpec_SetDefaults :: "bool \<Rightarrow> full_sentinel_spec \<Rightarrow> full_sentinel_spec" where
  "SentinelSpec_SetDefaults mainHasCPULimit s =
     s\<lparr>ss_Quorum := or_num 2 (ss_Quorum s), ss_DownAfterMilliseconds := or_num 30000 (ss_DownAfterMilliseconds s),
       ss_FailoverTimeout := or_num 180000 (ss_FailoverTimeout s), ss_ParallelSyncs := or_num 1 (ss_ParallelSyncs s),
       sf_Resources := setDefaultSentinelResources mainHasCPULimit (sf_Resources s)\<rparr>"

definition FailoverSpec_SetDefaults :: "FailoverSpec \<Rightarrow> FailoverSpec" where
  "FailoverSpec_SetDefaults f =
     f\<lparr>fz_Replicas := or_some 2 (fz_Replicas f), fz_DownAfterMilliseconds := or_num 5000 (fz_DownAfterMilliseconds f),
       fz_MinReplicasToWrite := or_some 1 (fz_MinReplicasToWrite f)\<rparr>"

definition PlacementSpec_SetDefaults :: "ShardAntiAffinitySpec option \<Rightarrow> ShardAntiAffinitySpec option" where
  "PlacementSpec_SetDefaults =
     map_option (\<lambda>a. a\<lparr>sa_TopologyKey := or_default ''kubernetes.io/hostname'' (sa_TopologyKey a),
                       sa_WhenUnsatisfiable := or_default ''ScheduleAnyway'' (sa_WhenUnsatisfiable a)\<rparr>)"

definition empty_resources :: ResourceRequirements where
  "empty_resources = \<lparr>qr_Requests = None, qr_Limits = None\<rparr>"

definition empty_sentinel :: full_sentinel_spec where
  "empty_sentinel = \<lparr>ss_Quorum = 0, ss_DownAfterMilliseconds = 0, ss_FailoverTimeout = 0, ss_ParallelSyncs = 0,
     ss_AllowUnsafeRebootstrapOnDeadlock = False, sf_MasterName = [], sf_Resources = empty_resources\<rparr>"

definition empty_cluster :: ClusterSpec where
  "empty_cluster = \<lparr>cs_Shards = 0, cs_ReplicasPerShard = None, cs_ClusterNodeTimeout = 0, cs_FailoverGracePeriod = 0,
     cs_ReshardKeyBatchSize = 0, cs_ReshardMaxKeysPerReconcile = 0, cs_ReshardMigrateTimeoutMillis = 0\<rparr>"

definition empty_failover :: FailoverSpec where
  "empty_failover = \<lparr>fz_Replicas = None, fz_DownAfterMilliseconds = 0, fz_MinReplicasToWrite = None, fz_AllowUnsafe = False\<rparr>"

definition present :: "bool \<Rightarrow> 'a \<Rightarrow> 'a option \<Rightarrow> 'a option" where
  "present needed d v = (if needed \<and> v = None then Some d else v)"

definition hasCPULimit :: "ResourceRequirements \<Rightarrow> bool" where
  "hasCPULimit r \<longleftrightarrow> or_empty (qr_Limits r) ''cpu'' \<noteq> None"

definition SetDefaults :: "string \<times> string \<Rightarrow> LittleRedSpec \<Rightarrow> LittleRedSpec" where
  "SetDefaults exporter spec =
     (let mode = or_default ''standalone'' (lq_Mode spec); image = ImageSpec_SetDefaults (lq_Image spec);
          resources = setDefaultResources (lq_Resources spec); cpu = hasCPULimit resources
      in spec\<lparr>lq_Mode := mode, lq_AppName := or_default ''littlered'' (lq_AppName spec), lq_Image := image,
           lq_Resources := resources, lq_Config := ConfigSpec_SetDefaults (lq_Config spec),
           lq_Metrics := MetricsSpec_SetDefaults exporter (im_Registry image) cpu (lq_Metrics spec),
           lq_ServiceType := or_default ''ClusterIP'' (lq_ServiceType spec),
           lq_UpdateStrategy := or_default ''RollingUpdate'' (lq_UpdateStrategy spec),
           lq_SecurityContext := or_some defaultPodSecurityContext (lq_SecurityContext spec),
           lq_Sentinel := map_option (SentinelSpec_SetDefaults cpu) (present (mode = ''sentinel'') empty_sentinel (lq_Sentinel spec)),
           lq_Cluster := map_option ClusterSpec_SetDefaults (present (mode = ''cluster'') empty_cluster (lq_Cluster spec)),
           lq_Failover := map_option FailoverSpec_SetDefaults (present (mode = ''failover'') empty_failover (lq_Failover spec)),
           lq_Placement := map_option PlacementSpec_SetDefaults (lq_Placement spec)\<rparr>)"

section \<open>What the defaults do\<close>

text \<open>A field that is set is kept: a text that is not empty, a number that is not 0, a pointer that is not nil, an
  entry of a resource list.\<close>

definition text_kept :: "string \<Rightarrow> string \<Rightarrow> bool" where
  "text_kept a b \<longleftrightarrow> a = [] \<or> b = a"

definition num_kept :: "int \<Rightarrow> int \<Rightarrow> bool" where
  "num_kept a b \<longleftrightarrow> a = 0 \<or> b = a"

definition ptr_kept :: "('a \<Rightarrow> 'a \<Rightarrow> bool) \<Rightarrow> 'a option \<Rightarrow> 'a option \<Rightarrow> bool" where
  "ptr_kept R a b \<longleftrightarrow> (case a of None \<Rightarrow> True | Some x \<Rightarrow> (case b of None \<Rightarrow> False | Some y \<Rightarrow> R x y))"

definition resources_kept :: "ResourceRequirements \<Rightarrow> ResourceRequirements \<Rightarrow> bool" where
  "resources_kept a b \<longleftrightarrow> or_empty (qr_Requests a) \<subseteq>\<^sub>m or_empty (qr_Requests b) \<and> or_empty (qr_Limits a) \<subseteq>\<^sub>m or_empty (qr_Limits b)"

definition image_kept :: "ImageSpec \<Rightarrow> ImageSpec \<Rightarrow> bool" where
  "image_kept a b \<longleftrightarrow> text_kept (im_Registry a) (im_Registry b) \<and> text_kept (im_Path a) (im_Path b) \<and>
     text_kept (im_Tag a) (im_Tag b) \<and> text_kept (im_PullPolicy a) (im_PullPolicy b)"

definition config_kept :: "ConfigSpec \<Rightarrow> ConfigSpec \<Rightarrow> bool" where
  "config_kept a b \<longleftrightarrow> cf_Maxmemory b = cf_Maxmemory a \<and> text_kept (cf_MaxmemoryPolicy a) (cf_MaxmemoryPolicy b) \<and>
     cf_Timeout b = cf_Timeout a \<and> ptr_kept (=) (cf_TCPKeepalive a) (cf_TCPKeepalive b) \<and> cf_Raw b = cf_Raw a"

definition exporter_kept :: "ExporterSpec \<Rightarrow> ExporterSpec \<Rightarrow> bool" where
  "exporter_kept a b \<longleftrightarrow> text_kept (xp_Registry a) (xp_Registry b) \<and> text_kept (xp_Path a) (xp_Path b) \<and>
     text_kept (xp_Tag a) (xp_Tag b) \<and> resources_kept (xp_Resources a) (xp_Resources b)"

definition metrics_kept :: "MetricsSpec \<Rightarrow> MetricsSpec \<Rightarrow> bool" where
  "metrics_kept a b \<longleftrightarrow> mx_Enabled b = mx_Enabled a \<and> exporter_kept (mx_Exporter a) (mx_Exporter b) \<and>
     mx_MonitorEnabled b = mx_MonitorEnabled a \<and> text_kept (mx_Interval a) (mx_Interval b) \<and>
     text_kept (mx_ScrapeTimeout a) (mx_ScrapeTimeout b)"

definition sentinel_kept :: "full_sentinel_spec \<Rightarrow> full_sentinel_spec \<Rightarrow> bool" where
  "sentinel_kept a b \<longleftrightarrow> num_kept (ss_Quorum a) (ss_Quorum b) \<and> num_kept (ss_DownAfterMilliseconds a) (ss_DownAfterMilliseconds b) \<and>
     num_kept (ss_FailoverTimeout a) (ss_FailoverTimeout b) \<and> num_kept (ss_ParallelSyncs a) (ss_ParallelSyncs b) \<and>
     ss_AllowUnsafeRebootstrapOnDeadlock b = ss_AllowUnsafeRebootstrapOnDeadlock a \<and> sf_MasterName b = sf_MasterName a \<and>
     resources_kept (sf_Resources a) (sf_Resources b)"

definition cluster_kept :: "ClusterSpec \<Rightarrow> ClusterSpec \<Rightarrow> bool" where
  "cluster_kept a b \<longleftrightarrow> num_kept (cs_Shards a) (cs_Shards b) \<and> ptr_kept (=) (cs_ReplicasPerShard a) (cs_ReplicasPerShard b) \<and>
     num_kept (cs_ClusterNodeTimeout a) (cs_ClusterNodeTimeout b) \<and> num_kept (cs_FailoverGracePeriod a) (cs_FailoverGracePeriod b) \<and>
     cs_ReshardKeyBatchSize b = cs_ReshardKeyBatchSize a \<and> cs_ReshardMaxKeysPerReconcile b = cs_ReshardMaxKeysPerReconcile a \<and>
     cs_ReshardMigrateTimeoutMillis b = cs_ReshardMigrateTimeoutMillis a"

definition failover_kept :: "FailoverSpec \<Rightarrow> FailoverSpec \<Rightarrow> bool" where
  "failover_kept a b \<longleftrightarrow> ptr_kept (=) (fz_Replicas a) (fz_Replicas b) \<and> num_kept (fz_DownAfterMilliseconds a) (fz_DownAfterMilliseconds b) \<and>
     ptr_kept (=) (fz_MinReplicasToWrite a) (fz_MinReplicasToWrite b) \<and> fz_AllowUnsafe b = fz_AllowUnsafe a"

definition placement_kept :: "ShardAntiAffinitySpec option \<Rightarrow> ShardAntiAffinitySpec option \<Rightarrow> bool" where
  "placement_kept = ptr_kept (\<lambda>a b. text_kept (sa_TopologyKey a) (sa_TopologyKey b) \<and>
     text_kept (sa_WhenUnsatisfiable a) (sa_WhenUnsatisfiable b))"

definition spec_kept :: "LittleRedSpec \<Rightarrow> LittleRedSpec \<Rightarrow> bool" where
  "spec_kept a b \<longleftrightarrow> text_kept (lq_Mode a) (lq_Mode b) \<and> text_kept (lq_AppName a) (lq_AppName b) \<and> image_kept (lq_Image a) (lq_Image b) \<and>
     resources_kept (lq_Resources a) (lq_Resources b) \<and> config_kept (lq_Config a) (lq_Config b) \<and>
     lq_AuthEnabled b = lq_AuthEnabled a \<and> lq_AuthSecret b = lq_AuthSecret a \<and> lq_TLS b = lq_TLS a \<and>
     metrics_kept (lq_Metrics a) (lq_Metrics b) \<and> text_kept (lq_UpdateStrategy a) (lq_UpdateStrategy b) \<and>
     text_kept (lq_ServiceType a) (lq_ServiceType b) \<and> ptr_kept (=) (lq_SecurityContext a) (lq_SecurityContext b) \<and>
     ptr_kept sentinel_kept (lq_Sentinel a) (lq_Sentinel b) \<and> ptr_kept cluster_kept (lq_Cluster a) (lq_Cluster b) \<and>
     ptr_kept failover_kept (lq_Failover a) (lq_Failover b) \<and> ptr_kept placement_kept (lq_Placement a) (lq_Placement b) \<and>
     lq_Fast b = lq_Fast a \<and> lq_Steady b = lq_Steady a \<and> lq_PDBCreate b = lq_PDBCreate a"

text \<open>What a pass dereferences or divides by is there.\<close>

definition spec_complete :: "LittleRedSpec \<Rightarrow> bool" where
  "spec_complete s \<longleftrightarrow> lq_Mode s \<noteq> [] \<and> lq_AppName s \<noteq> [] \<and> im_Registry (lq_Image s) \<noteq> [] \<and> im_Path (lq_Image s) \<noteq> [] \<and>
     im_Tag (lq_Image s) \<noteq> [] \<and> cf_TCPKeepalive (lq_Config s) \<noteq> None \<and> lq_SecurityContext s \<noteq> None \<and>
     or_empty (qr_Limits (lq_Resources s)) ''memory'' \<noteq> None \<and>
     (lq_Mode s \<noteq> ''sentinel'' \<or> lq_Sentinel s \<noteq> None) \<and> (lq_Mode s \<noteq> ''cluster'' \<or> lq_Cluster s \<noteq> None) \<and>
     (lq_Mode s \<noteq> ''failover'' \<or> lq_Failover s \<noteq> None) \<and>
     (case lq_Sentinel s of None \<Rightarrow> True | Some p \<Rightarrow> ss_Quorum p \<noteq> 0) \<and>
     (case lq_Cluster s of None \<Rightarrow> True | Some c \<Rightarrow> cs_Shards c \<noteq> 0 \<and> cs_ReplicasPerShard c \<noteq> None) \<and>
     (case lq_Failover s of None \<Rightarrow> True | Some f \<Rightarrow> fz_Replicas f \<noteq> None \<and> fz_DownAfterMilliseconds f \<noteq> 0 \<and> fz_MinReplicasToWrite f \<noteq> None)"

lemmas kept_defs = text_kept_def num_kept_def ptr_kept_def resources_kept_def
lemmas or_defs = or_default_def or_num_def or_some_def

lemma ensure_key_keeps [intro]: "m \<subseteq>\<^sub>m m' \<Longrightarrow> m \<subseteq>\<^sub>m ensure_key k d m'"
  by (force simp: ensure_key_def map_le_def dom_def split: option.splits)

lemma ensure_key_get: "ensure_key k d m j = (if j = k \<and> m k = None then Some d else m j)"
  by (auto simp: ensure_key_def split: option.splits)

lemma resources_kept_all:
  "resources_kept r (setDefaultResources r)" "resources_kept r (setDefaultExporterResources b r)" "resources_kept r (setDefaultSentinelResources b r)"
  by (auto simp: resources_kept_def setDefaultResources_def setDefaultExporterResources_def setDefaultSentinelResources_def or_empty_def
      intro!: ensure_key_keeps split: option.splits)

lemma ensure_key_id: "m k \<noteq> None \<Longrightarrow> ensure_key k d m = m"
  by (auto simp: ensure_key_def)

lemma ensure_key_has: "ensure_key k d m k \<noteq> None" "m j \<noteq> None \<Longrightarrow> ensure_key k d m j \<noteq> None"
  by (simp_all add: ensure_key_get)

lemmas ensure_simps = ensure_key_id ensure_key_has or_empty_def

lemma resources_fixed:
  "setDefaultResources (setDefaultResources r) = setDefaultResources r"
  "setDefaultExporterResources b (setDefaultExporterResources b r) = setDefaultExporterResources b r"
  "setDefaultSentinelResources b (setDefaultSentinelResources b r) = setDefaultSentinelResources b r"
  by (simp_all add: setDefaultResources_def setDefaultExporterResources_def setDefaultSentinelResources_def Let_def ensure_simps)

lemma or_fixed [simp]: "or_default d (or_default d s) = or_default d s" "or_num k (or_num k n) = or_num k n" "or_some x (or_some x v) = or_some x v"
  by (simp_all add: or_defs)

lemma or_kept [simp]: "text_kept s (or_default d s)" "num_kept n (or_num k n)" "ptr_kept (=) v (or_some x v)"
  by (auto simp: or_defs kept_defs split: option.splits)

lemma parts_fixed:
  "ImageSpec_SetDefaults (ImageSpec_SetDefaults i) = ImageSpec_SetDefaults i"
  "ConfigSpec_SetDefaults (ConfigSpec_SetDefaults c) = ConfigSpec_SetDefaults c"
  "MetricsSpec_SetDefaults x g b (MetricsSpec_SetDefaults x g b m) = MetricsSpec_SetDefaults x g b m"
  "SentinelSpec_SetDefaults b (SentinelSpec_SetDefaults b s) = SentinelSpec_SetDefaults b s"
  "ClusterSpec_SetDefaults (ClusterSpec_SetDefaults k) = ClusterSpec_SetDefaults k"
  "FailoverSpec_SetDefaults (FailoverSpec_SetDefaults f) = FailoverSpec_SetDefaults f"
  "PlacementSpec_SetDefaults (PlacementSpec_SetDefaults p) = PlacementSpec_SetDefaults p"
  by (simp_all add: ImageSpec_SetDefaults_def ConfigSpec_SetDefaults_def MetricsSpec_SetDefaults_def ExporterSpec_SetDefaults_def
      SentinelSpec_SetDefaults_def ClusterSpec_SetDefaults_def FailoverSpec_SetDefaults_def PlacementSpec_SetDefaults_def
      resources_fixed option.map_comp comp_def)

lemma parts_kept:
  "image_kept i (ImageSpec_SetDefaults i)" "config_kept c (ConfigSpec_SetDefaults c)" "metrics_kept m (MetricsSpec_SetDefaults x g b m)"
  "sentinel_kept s (SentinelSpec_SetDefaults b s)" "failover_kept f (FailoverSpec_SetDefaults f)"
  by (simp_all add: image_kept_def config_kept_def metrics_kept_def exporter_kept_def sentinel_kept_def failover_kept_def
      ImageSpec_SetDefaults_def ConfigSpec_SetDefaults_def MetricsSpec_SetDefaults_def ExporterSpec_SetDefaults_def
      SentinelSpec_SetDefaults_def FailoverSpec_SetDefaults_def resources_kept_all)

lemma cluster_part_kept: "cluster_kept k (ClusterSpec_SetDefaults k)"
  by (auto simp: cluster_kept_def ClusterSpec_SetDefaults_def kept_defs split: option.splits)

lemma placement_part_kept: "placement_kept p (PlacementSpec_SetDefaults p)"
  by (cases p) (simp_all add: placement_kept_def PlacementSpec_SetDefaults_def ptr_kept_def)

lemma present_fixed: "(\<And>x. f (f x) = f x) \<Longrightarrow> map_option f (present n d (map_option f (present n d v))) = map_option f (present n d v)"
  by (cases v) (auto simp: present_def)

lemma present_kept: "(\<And>x. R x (f x)) \<Longrightarrow> ptr_kept R v (map_option f (present n d v))"
  by (cases v) (auto simp: present_def ptr_kept_def)

lemma hasCPULimit_fixed: "hasCPULimit (setDefaultResources (setDefaultResources r)) = hasCPULimit (setDefaultResources r)"
  by (simp add: resources_fixed)

text \<open>C40: The defaults of a specification are filled in once and for all: filling them in again changes nothing, every field
  that is set is kept, and what a pass dereferences (the section of the mode, its counts and its quorum, the security
  context, the memory limit) is there.\<close>

theorem SetDefaults_fills:
  "SetDefaults x (SetDefaults x s) = SetDefaults x s \<and> spec_kept s (SetDefaults x s) \<and> spec_complete (SetDefaults x s)"
proof (intro conjI)
  show "SetDefaults x (SetDefaults x s) = SetDefaults x s"
    by (simp add: SetDefaults_def Let_def parts_fixed present_fixed resources_fixed option.map_comp comp_def)
  show "spec_kept s (SetDefaults x s)"
    by (simp add: SetDefaults_def Let_def spec_kept_def parts_kept cluster_part_kept present_kept resources_kept_all)
      (simp add: ptr_kept_def placement_part_kept split: option.splits)
  show "spec_complete (SetDefaults x s)"
    by (auto simp: SetDefaults_def Let_def spec_complete_def present_def or_defs ImageSpec_SetDefaults_def ConfigSpec_SetDefaults_def
        setDefaultResources_def ensure_key_get or_empty_def SentinelSpec_SetDefaults_def ClusterSpec_SetDefaults_def FailoverSpec_SetDefaults_def
        empty_sentinel_def empty_cluster_def empty_failover_def split: option.splits)
qed

text \<open>The specification without a failover section is the one that \<open>failoverSpecOrDefault\<close> fills in.\<close>

lemma failoverSpecOrDefault_defaults: "lx_Failover lr = None \<Longrightarrow> failoverSpecOrDefault lr = FailoverSpec_SetDefaults empty_failover"
  by (simp add: failoverSpecOrDefault_def FailoverSpec_SetDefaults_def empty_failover_def or_defs)

section \<open>The image reference\<close>

definition dockerfile_text :: "string list \<Rightarrow> string \<Rightarrow> string list \<Rightarrow> string" where
  "dockerfile_text before ref after = Join (before @ (''FROM '' @ ref) # after) [CHR 0x0A]"

lemma first_index_append: "c \<notin> set a \<Longrightarrow> first_index c (a @ c # b) = int (length a)"
  by (induction a) (auto simp: Let_def)

lemma last_index_none: "c \<notin> set b \<Longrightarrow> last_index c b = -1"
  by (induction b) (auto simp: Let_def)

lemma last_index_append: "c \<notin> set b \<Longrightarrow> last_index c (a @ c # b) = int (length a)"
  by (induction a) (auto simp: Let_def last_index_none)

lemma last_index_prefix: "c \<notin> set b \<Longrightarrow> last_index c (a @ b) < int (length a)"
  by (induction a) (auto simp: Let_def last_index_none)

lemma split_tag_colon:
  assumes "CHR '':'' \<notin> set tag" "CHR ''/'' \<notin> set tag"
  shows "split_tag (r @ CHR '':'' # tag) = (r, tag)"
proof -
  have "last_index (CHR '':'') (r @ CHR '':'' # tag) = int (length r)" by (rule last_index_append [OF assms(1)])
  moreover have "last_index (CHR ''/'') (r @ CHR '':'' # tag) < int (length r)" using last_index_prefix [of "CHR ''/''" "CHR '':'' # tag" r] assms(2) by simp
  ultimately show ?thesis by (simp add: split_tag_def Let_def)
qed

lemma strip_registry_host:
  assumes "CHR ''/'' \<notin> set host" "list_ex (\<lambda>c. c = CHR ''.'' \<or> c = CHR '':'') host \<or> host = ''localhost''"
  shows "strip_registry (host @ CHR ''/'' # path) = path"
  using first_index_append [OF assms(1), of path] assms(2) by (auto simp: strip_registry_def Let_def)

lemma from_line_first:
  assumes "list_all (\<lambda>l. \<not> HasPrefix (TrimSpace l) ''FROM '') before" "list_all (\<lambda>c. \<not> is_space c) ref" "ref \<noteq> []"
  shows "from_line (before @ (''FROM '' @ ref) # after) = ref"
proof -
  have r: "TrimSpace ref = ref" using TrimSpace_solid_prefix [OF assms(2,3), of "[]"] by simp
  have "TrimSpace (''FROM '' @ ref) = ''FROM '' @ ref"
  proof -
    have d: "dropWhile is_space (rev ref @ w) = rev ref @ w" for w
      using assms(2,3) by (cases "rev ref") (auto simp: list_all_iff rev_swap)
    show ?thesis using d [of "rev ''FROM ''"] by (simp add: TrimSpace_def is_space_def)
  qed
  with assms(1) r show ?thesis by (induction before) (simp_all add: HasPrefix_def Let_def)
qed

text \<open>The image of the exporter is read back from a Dockerfile whose first \<open>FROM\<close> line names it with its registry.\<close>

lemma parseExporterImage_roundtrip:
  assumes "list_all (\<lambda>l. \<not> HasPrefix (TrimSpace l) ''FROM '') before" "list_all (\<lambda>l. CHR 0x0A \<notin> set l) (before @ after)"
    and "CHR ''/'' \<notin> set host" "list_ex (\<lambda>c. c = CHR ''.'' \<or> c = CHR '':'') host \<or> host = ''localhost''"
    and "path \<noteq> []" "tag \<noteq> []" "CHR '':'' \<notin> set tag" "CHR ''/'' \<notin> set tag" "list_all (\<lambda>c. \<not> is_space c) (host @ path @ tag)"
  shows "parseExporterImage (dockerfile_text before (host @ CHR ''/'' # path @ CHR '':'' # tag) after) = Some (path, tag)"
proof -
  let ?ref = "host @ CHR ''/'' # path @ CHR '':'' # tag"
  have solid: "list_all (\<lambda>c. \<not> is_space c) ?ref" using assms(9) by (simp add: is_space_def)
  then have "CHR 0x0A \<notin> set (''FROM '' @ ?ref)" by (auto simp: list_all_iff is_space_def)
  then have "Split (CHR 0x0A) (dockerfile_text before ?ref after) = before @ (''FROM '' @ ?ref) # after"
    unfolding dockerfile_text_def using assms(2) by (intro Split_Join) auto
  then have "from_line (Split (CHR 0x0A) (dockerfile_text before ?ref after)) = ?ref"
    using from_line_first [OF assms(1) solid] by simp
  moreover have "split_tag ?ref = (host @ CHR ''/'' # path, tag)" using split_tag_colon [OF assms(7,8), of "host @ CHR ''/'' # path"] by simp
  ultimately show ?thesis using strip_registry_host [OF assms(3,4)] assms(5,6) by (simp add: parseExporterImage_def)
qed

end
