(* ===== verification/Reconcile.thy ===== *)
theory Reconcile
  imports Defaults Cluster_Reconcile
begin

text \<open>
  The entry of the operator: \<open>Reconcile\<close> of \<open>internal/controller/littlered_controller.go\<close> with the validation, the
  deletion and the standalone mode, on top of the passes of the other modes.

  The store is the object with its status. The summary of the status is shared by the modes; the cluster mode keeps
  its own conditions in \<open>is_Cluster\<close> and shares the phase. The condition \<open>ConfigValid\<close> that a pass sets in
  memory is part of the model where the pass writes that memory back (standalone) or reads the status anew (sentinel,
  failover), not in the cluster mode. The text of an error is represented by what it is rendered from.
\<close>

section \<open>The object\<close>

record littlered_object =
  ob_Name :: string
  ob_Namespace :: string
  ob_UID :: string
  ob_Generation :: int
  ob_Deleted :: bool
  ob_Finalizer :: bool
  ob_DisablePolling :: bool
  ob_DisableEvents :: bool
  ob_Spec :: LittleRedSpec

text \<open>What the passes of the modes read of it.\<close>

definition cr_of :: "littlered_object \<Rightarrow> failover_cr" where
  "cr_of ob =
     (let s = ob_Spec ob
      in \<lparr>lr_UID = ob_UID ob, lr_Mode = lq_Mode s, lr_MasterName = map_option sf_MasterName (lq_Sentinel s),
          li_Name = ob_Name ob, li_Namespace = ob_Namespace ob, li_AuthEnabled = lq_AuthEnabled s, li_AuthSecret = lq_AuthSecret s,
          li_Sentinel = map_option SentinelSpec.truncate (lq_Sentinel s), lc_Generation = ob_Generation ob,
          lc_DisablePolling = ob_DisablePolling ob, lc_DisableEvents = ob_DisableEvents ob, lc_Fast = lq_Fast s, lc_Steady = lq_Steady s,
          lc_PDBCreate = lq_PDBCreate s, lc_MetricsEnabled = mx_Enabled (lq_Metrics s), lc_ServiceMonitor = mx_MonitorEnabled (lq_Metrics s),
          lx_Failover = lq_Failover s\<rparr>)"

record instance_store =
  is_Object :: littlered_object
  is_Sentinel :: sentinel_store
  is_Failover :: failover_state
  is_FailoverMonitor :: bool
  is_Cluster :: cluster_status

abbreviation is_Summary :: "instance_store \<Rightarrow> sentinel_summary" where
  "is_Summary w \<equiv> sw_Summary (is_Sentinel w)"

definition with_summary :: "sentinel_summary \<Rightarrow> instance_store \<Rightarrow> instance_store" where
  "with_summary s w = w\<lparr>is_Sentinel := (is_Sentinel w)\<lparr>sw_Summary := s\<rparr>\<rparr>"

section \<open>The validation\<close>

datatype validation_error =
    TooFewShards int
  | TooFewReplicas int
  | NegativeMinReplicas int
  | NegativeReplicas int
  | NoSecretName string
  | SecretNotFound string
  | SecretUnreadable api_error
  | SecretWithoutKey string string
  | PlacementOutsideCluster string
  | PlacementAction string

definition Validate :: "LittleRedSpec \<Rightarrow> validation_error option" where
  "Validate spec =
     (case (if lq_Mode spec = ''cluster'' then lq_Cluster spec else None) of
        Some c \<Rightarrow> (if cs_Shards c < 3 then Some (TooFewShards (cs_Shards c)) else None)
      | None \<Rightarrow>
          (case (if lq_Mode spec = ''failover'' then lq_Failover spec else None) of
             None \<Rightarrow> None
           | Some f \<Rightarrow>
               (case fz_Replicas f of
                  Some n \<Rightarrow>
                    (if n < 1 then Some (TooFewReplicas n)
                     else case fz_MinReplicasToWrite f of
                         Some m \<Rightarrow> (if m < 0 then Some (NegativeMinReplicas m) else None)
                       | None \<Rightarrow> None)
                | None \<Rightarrow>
                    (case fz_MinReplicasToWrite f of
                       Some m \<Rightarrow> (if m < 0 then Some (NegativeMinReplicas m) else None)
                     | None \<Rightarrow> None))))"

type_synonym secrets = "string \<Rightarrow> api_error + (string \<rightharpoonup> string)"

text \<open>A secret must be there and have the keys, in their order.\<close>

definition check_secret :: "secrets \<Rightarrow> string \<Rightarrow> string list \<Rightarrow> validation_error option" where
  "check_secret secrets name keys =
     (case secrets name of
        Inl NotFound \<Rightarrow> Some (SecretNotFound name)
      | Inl e \<Rightarrow> Some (SecretUnreadable e)
      | Inr data \<Rightarrow> map_option (SecretWithoutKey name) (find (\<lambda>k. data k = None) keys))"

definition validate_auth :: "secrets \<Rightarrow> LittleRedSpec \<Rightarrow> validation_error option" where
  "validate_auth secrets spec =
     (if \<not> lq_AuthEnabled spec then None
      else if lq_AuthSecret spec = [] then Some (NoSecretName ''auth.existingSecret'')
      else check_secret secrets (lq_AuthSecret spec) [''password''])"

definition validate_tls :: "secrets \<Rightarrow> TLSSpec \<Rightarrow> validation_error option" where
  "validate_tls secrets tls =
     (if \<not> tl_Enabled tls then None
      else if tl_ExistingSecret tls = [] then Some (NoSecretName ''tls.existingSecret'')
      else case check_secret secrets (tl_ExistingSecret tls) [''tls.crt'', ''tls.key''] of
          Some e \<Rightarrow> Some e
        | None \<Rightarrow>
            if \<not> tl_ClientAuth tls then None
            else if tl_CACertSecret tls = [] then Some (NoSecretName ''tls.caCertSecret'')
            else check_secret secrets (tl_CACertSecret tls) [''ca.crt''])"

definition validateClusterSpec :: "ClusterSpec option \<Rightarrow> validation_error option" where
  "validateClusterSpec cluster =
     (case cluster of
        None \<Rightarrow> None
      | Some c \<Rightarrow>
          if cs_Shards c < 3 then Some (TooFewShards (cs_Shards c))
          else case cs_ReplicasPerShard c of
              None \<Rightarrow> None
            | Some n \<Rightarrow> if n < 0 then Some (NegativeReplicas n) else None)"

definition validatePlacementSpec :: "LittleRedSpec \<Rightarrow> validation_error option" where
  "validatePlacementSpec spec =
     (case lq_Placement spec of
        None \<Rightarrow> None
      | Some None \<Rightarrow> None
      | Some (Some a) \<Rightarrow>
          if lq_Mode spec \<noteq> ''cluster'' then Some (PlacementOutsideCluster (lq_Mode spec))
          else if sa_WhenUnsatisfiable a = [] \<or> sa_WhenUnsatisfiable a = ''ScheduleAnyway'' \<or> sa_WhenUnsatisfiable a = ''DoNotSchedule'' then None
          else Some (PlacementAction (sa_WhenUnsatisfiable a)))"

definition validateSpec :: "secrets \<Rightarrow> LittleRedSpec \<Rightarrow> validation_error option" where
  "validateSpec secrets spec =
     (case validate_auth secrets spec of
        Some e \<Rightarrow> Some e
      | None \<Rightarrow>
          (case validate_tls secrets (lq_TLS spec) of
             Some e \<Rightarrow> Some e
           | None \<Rightarrow>
               (case (if lq_Mode spec = ''cluster'' then validateClusterSpec (lq_Cluster spec) else None) of
                  Some e \<Rightarrow> Some e
                | None \<Rightarrow> validatePlacementSpec spec)))"

section \<open>The standalone mode\<close>

datatype standalone_resource = StandaloneConfigMap | StandaloneStatefulSet | StandaloneService | DeletedPDB | StandaloneServiceMonitor

record standalone_env =
  sb_Apply :: "standalone_resource \<Rightarrow> api_error option"
  sb_GetSTS :: "api_error + int \<times> int"
  sb_StatusWrite :: "api_error option"

definition standalone_summary :: "api_error + int \<times> int \<Rightarrow> int \<Rightarrow> sentinel_summary \<Rightarrow> api_error + sentinel_summary" where
  "standalone_summary sts generation s =
     map_sum id (\<lambda>s'. s'\<lparr>su_ObservedGeneration := generation,
         su_Status := (if su_Phase s' = PhaseRunning then ''Ready'' else phase_name (su_Phase s'))\<rparr>)
       (case sts of
          Inl NotFound \<Rightarrow> Inr (s\<lparr>su_Phase := PhasePending, su_RedisReady := 0, su_RedisTotal := 1\<rparr>)
        | Inl e \<Rightarrow> Inl e
        | Inr (ready, tot) \<Rightarrow>
            let s1 = s\<lparr>su_RedisReady := ready, su_RedisTotal := tot\<rparr>
            in Inr (if ready = tot \<and> ready > 0
               then s1\<lparr>su_Phase := PhaseRunning, su_Ready := Some (True, ''AllPodsReady''), su_Initialized := Some (True, ''Initialized'')\<rparr>
               else s1\<lparr>su_Phase := PhaseInitializing, su_Ready := Some (False, ''PodsNotReady'')\<rparr>))"

text \<open>The status in memory is compared with a pointer to its copy, which never equals it: it is written by every pass.\<close>

definition updateStatus ::
    "standalone_env \<Rightarrow> failover_cr \<Rightarrow> sentinel_summary \<Rightarrow> instance_store \<Rightarrow> ctrl_result \<times> pass_error option \<times> instance_store" where
  "updateStatus env lr mem w =
     (case standalone_summary (sb_GetSTS env) (lc_Generation lr) mem of
        Inl e \<Rightarrow> (NoRequeue, Some (FromApi e), w)
      | Inr now \<Rightarrow>
          (case sb_StatusWrite env of
             Some Conflict \<Rightarrow> (RequeueAfter second, None, w)
           | Some e \<Rightarrow> (NoRequeue, Some (FromApi e), w)
           | None \<Rightarrow>
               let w' = with_summary now w; (fast, steady) = GetRequeueIntervals lr
               in (RequeueAfter (if su_Phase now \<noteq> PhaseRunning
                     then requeueAfterNotRunning (su_Phase now) (ox_Condition (sw_Operation (is_Sentinel w)))
                            (fs_Forsaken (sw_Capture (is_Sentinel w))) fast steady
                     else steady), None, w')))"

fun apply_standalone :: "(standalone_resource \<Rightarrow> api_error option) \<Rightarrow> standalone_resource list \<Rightarrow> api_error option \<times> standalone_resource list" where
  "apply_standalone f [] = (None, [])"
| "apply_standalone f (x # xs) =
     (case (case x of DeletedPDB \<Rightarrow> ignore_not_found (f x) | _ \<Rightarrow> f x) of
        Some e \<Rightarrow> (Some e, [x])
      | None \<Rightarrow> (case apply_standalone f xs of (err, ys) \<Rightarrow> (err, x # ys)))"

definition reconcileStandalone ::
    "standalone_env \<Rightarrow> failover_cr \<Rightarrow> sentinel_summary \<Rightarrow> instance_store \<Rightarrow>
     ctrl_result \<times> pass_error option \<times> instance_store \<times> standalone_resource list" where
  "reconcileStandalone env lr mem w =
     (let mem1 = (if su_Phase mem = PhaseUnset then mem\<lparr>su_Phase := PhasePending\<rparr> else mem)
      in case apply_standalone (sb_Apply env) [StandaloneConfigMap, StandaloneStatefulSet, StandaloneService, DeletedPDB] of
           (Some e, xs) \<Rightarrow> (NoRequeue, Some (FromApi e), w, xs)
         | (None, xs) \<Rightarrow>
             (case updateStatus env lr mem1 w of
                (res, err, w') \<Rightarrow>
                  (res, err, w', xs @ (if metrics_IsEnabled lr \<and> lc_ServiceMonitor lr then [StandaloneServiceMonitor] else []))))"


section \<open>The entry\<close>

datatype reconcile_step =
    StandaloneStep standalone_resource
  | SentinelStep sentinel_step
  | ClusterStep cluster_cmd
  | FailoverStep failover_step

record reconcile_env =
  rx_Get :: "api_error option"
  rx_Secret :: secrets
  rx_FailedWrite :: status_write
  rx_TerminatingWrite :: "api_error option"
  rx_RemoveFinalizer :: "api_error option"
  rx_AddFinalizer :: "api_error option"
  rx_FlagWrite :: status_write
  rx_FlagRefetch :: "api_error option"
  rx_Standalone :: standalone_env
  rx_Sentinel :: sentinel_pass_env
  rx_Cluster :: cluster_env
  rx_Failover :: failover_pass_env

type_synonym 'r reconcile_result = "go_panic + ctrl_result \<times> pass_error option \<times> instance_store \<times> reconcile_step list \<times> 'r"

definition setFailedStatus :: "status_write \<Rightarrow> string \<Rightarrow> instance_store \<Rightarrow> ctrl_result \<times> pass_error option \<times> instance_store" where
  "setFailedStatus out reason w =
     (case out of
        ReadFailed e \<Rightarrow> (NoRequeue, Some (FromGo e), w)
      | WriteFailed e \<Rightarrow> (NoRequeue, Some (FromGo e), w)
      | Written \<Rightarrow>
          (NoRequeue, None,
           (with_summary ((is_Summary w)\<lparr>su_Phase := PhaseFailed, su_ObservedGeneration := ob_Generation (is_Object w),
               su_ConfigValid := Some (False, reason), su_Ready := Some (False, reason)\<rparr>) w)
             \<lparr>is_Cluster := (is_Cluster w)\<lparr>ct_Ready := False, mt_NotReady := Some (reason, [])\<rparr>\<rparr>))"

definition stop_monitors :: "bool \<Rightarrow> bool \<Rightarrow> instance_store \<Rightarrow> instance_store" where
  "stop_monitors sentinel failover w =
     w\<lparr>is_Sentinel := (is_Sentinel w)\<lparr>sw_Monitor := sw_Monitor (is_Sentinel w) \<and> \<not> sentinel\<rparr>,
       is_FailoverMonitor := is_FailoverMonitor w \<and> \<not> failover\<rparr>"

text \<open>The updates of the object write the specification with its defaults.\<close>

definition reconcileDelete :: "reconcile_env \<Rightarrow> littlered_object \<Rightarrow> instance_store \<Rightarrow> ctrl_result \<times> pass_error option \<times> instance_store" where
  "reconcileDelete env ob w =
     (let w1 = (if rx_TerminatingWrite env = None then with_summary ((is_Summary w)\<lparr>su_Phase := PhaseTerminating\<rparr>) w else w)
      in case (if rx_TerminatingWrite env = Some Conflict then None else rx_TerminatingWrite env) of
           Some e \<Rightarrow> (NoRequeue, Some (FromApi e), w1)
         | None \<Rightarrow>
             (case rx_RemoveFinalizer env of
                Some e \<Rightarrow> (NoRequeue, Some (FromApi e), w1)
              | None \<Rightarrow> (NoRequeue, None, stop_monitors True True (w1\<lparr>is_Object := ob\<lparr>ob_Finalizer := False\<rparr>\<rparr>))))"

definition reconcile_failover_mode ::
    "failover_pass_env \<Rightarrow> failover_cr \<Rightarrow> instance_store \<Rightarrow> go_panic + ctrl_result \<times> pass_error option \<times> instance_store \<times> failover_step list" where
  "reconcile_failover_mode env lr w =
     (case reconcileFailover env lr \<lparr>fw_Summary = is_Summary w, fw_State = is_Failover w, fw_Monitor = is_FailoverMonitor w\<rparr> of
        Inl p \<Rightarrow> Inl p
      | Inr (res, err, f, steps) \<Rightarrow>
          Inr (res, err, (with_summary (fw_Summary f) w)\<lparr>is_Failover := fw_State f, is_FailoverMonitor := fw_Monitor f\<rparr>, steps))"

definition reconcile_cluster_mode ::
    "cluster_env \<Rightarrow> 'r redis_ops \<Rightarrow> littlered_object \<Rightarrow> instance_store \<Rightarrow> 'r \<Rightarrow>
     go_panic + ctrl_result \<times> pass_error option \<times> instance_store \<times> cluster_cmd list \<times> 'r" where
  "reconcile_cluster_mode env ops ob w r =
     (case reconcileCluster env ops (ob_Name ob) (lq_Cluster (ob_Spec ob))
             ((is_Cluster w)\<lparr>mt_Phase := su_Phase (is_Summary w), mt_Status := su_Status (is_Summary w)\<rparr>) r of
        Inl p \<Rightarrow> Inl p
      | Inr ((res, err), (_, stored), cs, r') \<Rightarrow>
          Inr (res, map_option FromApi err,
            (with_summary ((is_Summary w)\<lparr>su_Phase := mt_Phase stored, su_Status := mt_Status stored\<rparr>) w)\<lparr>is_Cluster := stored\<rparr>, cs, r'))"

definition dispatch ::
    "reconcile_env \<Rightarrow> 'r redis_ops \<Rightarrow> littlered_object \<Rightarrow> sentinel_summary \<Rightarrow> instance_store \<Rightarrow> 'r \<Rightarrow> 'r reconcile_result" where
  "dispatch env ops ob mem w r =
     (let mode = lq_Mode (ob_Spec ob)
      in if mode = ''standalone''
         then (case reconcileStandalone (rx_Standalone env) (cr_of ob) mem w of
                 (res, err, w', xs) \<Rightarrow> Inr (res, err, w', map StandaloneStep xs, r))
         else if mode = ''sentinel''
         then map_sum id (\<lambda>(res, err, s, xs). (res, err, w\<lparr>is_Sentinel := s\<rparr>, map SentinelStep xs, r))
                (reconcileSentinel (rx_Sentinel env) (cr_of ob) (is_Sentinel w))
         else if mode = ''cluster''
         then map_sum id (\<lambda>(res, err, w', cs, r'). (res, err, w', map ClusterStep cs, r'))
                (reconcile_cluster_mode (rx_Cluster env) ops ob w r)
         else if mode = ''failover''
         then map_sum id (\<lambda>(res, err, w', xs). (res, err, w', map FailoverStep xs, r))
                (reconcile_failover_mode (rx_Failover env) (cr_of ob) w)
         else (case setFailedStatus (rx_FailedWrite env) ''InvalidMode'' w of (res, err, w') \<Rightarrow> Inr (res, err, w', [], r)))"

text \<open>The bootstrap flag of a new instance; the object is read again then, without its defaults.\<close>

definition init_flag :: "reconcile_env \<Rightarrow> littlered_object \<Rightarrow> instance_store \<Rightarrow> pass_error option \<times> littlered_object \<times> instance_store" where
  "init_flag env ob w =
     (let mode = lq_Mode (ob_Spec ob)
      in if (mode = ''sentinel'' \<or> mode = ''failover'') \<and> su_Phase (is_Summary w) = PhaseUnset \<and> \<not> su_BootstrapRequired (is_Summary w)
         then (case rx_FlagWrite env of
                 ReadFailed e \<Rightarrow> (Some (FromGo (wrapf ''failed to initialize bootstrap flag'' e)), ob, w)
               | WriteFailed e \<Rightarrow> (Some (FromGo (wrapf ''failed to initialize bootstrap flag'' e)), ob, w)
               | Written \<Rightarrow>
                   let w' = with_summary ((is_Summary w)\<lparr>su_BootstrapRequired := True\<rparr>) w
                   in (map_option FromApi (rx_FlagRefetch env), is_Object w, w'))
         else (None, ob, w))"

definition reconcile_valid ::
    "reconcile_env \<Rightarrow> 'r redis_ops \<Rightarrow> littlered_object \<Rightarrow> instance_store \<Rightarrow> 'r \<Rightarrow> 'r reconcile_result" where
  "reconcile_valid env ops ob w r =
     (let mode = lq_Mode (ob_Spec ob); w1 = stop_monitors (mode \<noteq> ''sentinel'') (mode \<noteq> ''failover'') w
      in case init_flag env ob w1 of
           (Some e, _, w2) \<Rightarrow> Inr (NoRequeue, Some e, w2, [], r)
         | (None, ob', w2) \<Rightarrow>
             dispatch env ops ob' ((is_Summary w2)\<lparr>su_ConfigValid := Some (True, ''ConfigurationValid'')\<rparr>) w2 r)"

definition Reconcile ::
    "reconcile_env \<Rightarrow> string \<times> string \<Rightarrow> 'r redis_ops \<Rightarrow> instance_store \<Rightarrow> 'r \<Rightarrow> 'r reconcile_result" where
  "Reconcile env exporter ops w r =
     (let stored = is_Object w; ob = stored\<lparr>ob_Spec := SetDefaults exporter (ob_Spec stored)\<rparr>
      in case rx_Get env of
           Some NotFound \<Rightarrow> Inr (NoRequeue, None, w, [], r)
         | Some e \<Rightarrow> Inr (NoRequeue, Some (FromApi e), w, [], r)
         | None \<Rightarrow>
             if Validate (ob_Spec ob) \<noteq> None
             then (case setFailedStatus (rx_FailedWrite env) ''UnsupportedConfiguration'' w of (res, err, w') \<Rightarrow> Inr (res, err, w', [], r))
             else if ob_Deleted ob
             then (case reconcileDelete env ob w of (res, err, w') \<Rightarrow> Inr (res, err, w', [], r))
             else if \<not> ob_Finalizer ob
             then (case rx_AddFinalizer env of
                     Some e \<Rightarrow> Inr (NoRequeue, Some (FromApi e), w, [], r)
                   | None \<Rightarrow> Inr (RequeueNow, None, w\<lparr>is_Object := ob\<lparr>ob_Finalizer := True\<rparr>\<rparr>, [], r))
             else if validateSpec (rx_Secret env) (ob_Spec ob) \<noteq> None
             then (case setFailedStatus (rx_FailedWrite env) ''ValidationFailed'' w of (res, err, w') \<Rightarrow> Inr (res, err, w', [], r))
             else reconcile_valid env ops ob w r)"

section \<open>What a pass may do\<close>

definition step_of_mode :: "string \<Rightarrow> reconcile_step \<Rightarrow> bool" where
  "step_of_mode mode s \<longleftrightarrow>
     mode = (case s of StandaloneStep _ \<Rightarrow> ''standalone'' | SentinelStep _ \<Rightarrow> ''sentinel'' | ClusterStep _ \<Rightarrow> ''cluster'' | FailoverStep _ \<Rightarrow> ''failover'')"

abbreviation defaulted :: "string \<times> string \<Rightarrow> instance_store \<Rightarrow> LittleRedSpec" where
  "defaulted x w \<equiv> SetDefaults x (ob_Spec (is_Object w))"

lemma with_summary_simps [simp]:
  "is_Summary (with_summary s w) = s" "is_Object (with_summary s w) = is_Object w" "is_Cluster (with_summary s w) = is_Cluster w"
  "is_Failover (with_summary s w) = is_Failover w" "is_FailoverMonitor (with_summary s w) = is_FailoverMonitor w"
  "sw_Monitor (is_Sentinel (with_summary s w)) = sw_Monitor (is_Sentinel w)"
  by (simp_all add: with_summary_def)

lemma stop_monitors_simps [simp]:
  "is_Summary (stop_monitors a b w) = is_Summary w" "is_Object (stop_monitors a b w) = is_Object w"
  "sw_Monitor (is_Sentinel (stop_monitors a b w)) = (sw_Monitor (is_Sentinel w) \<and> \<not> a)"
  "is_FailoverMonitor (stop_monitors a b w) = (is_FailoverMonitor w \<and> \<not> b)"
  by (simp_all add: stop_monitors_def)

lemma SetDefaults_mode: "lq_Mode (SetDefaults x s) = or_default ''standalone'' (lq_Mode s)"
  by (simp add: SetDefaults_def Let_def)

text \<open>The results of a pass, in the order of its exits.\<close>

lemma Reconcile_cases [consumes 1, case_names Unread Invalid Deleted Finalizer Rejected Valid]:
  assumes "Reconcile env x ops w r = Inr (res, err, w', steps, r')"
  defines "ob \<equiv> (is_Object w)\<lparr>ob_Spec := defaulted x w\<rparr>"
  obtains "w' = w" "steps = []" "r' = r"
  | "Validate (defaulted x w) \<noteq> None" "setFailedStatus (rx_FailedWrite env) ''UnsupportedConfiguration'' w = (res, err, w')" "steps = []" "r' = r"
  | "Validate (defaulted x w) = None" "ob_Deleted (is_Object w)" "reconcileDelete env ob w = (res, err, w')" "steps = []" "r' = r"
  | "\<not> ob_Finalizer (is_Object w)" "w' = w\<lparr>is_Object := ob\<lparr>ob_Finalizer := True\<rparr>\<rparr>" "steps = []" "r' = r"
  | "validateSpec (rx_Secret env) (defaulted x w) \<noteq> None" "setFailedStatus (rx_FailedWrite env) ''ValidationFailed'' w = (res, err, w')" "steps = []" "r' = r"
  | "rx_Get env = None" "Validate (defaulted x w) = None" "\<not> ob_Deleted (is_Object w)" "ob_Finalizer (is_Object w)"
      "validateSpec (rx_Secret env) (defaulted x w) = None" "reconcile_valid env ops ob w r = Inr (res, err, w', steps, r')"
proof (cases "rx_Get env")
  case None
  show thesis
  proof (cases "Validate (defaulted x w) \<noteq> None")
    case True
    then show thesis using assms None that(2) by (auto simp: Reconcile_def Let_def split: prod.splits)
  next
    case valid: False
    show thesis
    proof (cases "ob_Deleted (is_Object w)")
      case True
      then show thesis using assms None valid that(3) by (auto simp: Reconcile_def Let_def split: prod.splits)
    next
      case live: False
      show thesis
      proof (cases "ob_Finalizer (is_Object w)")
        case False
        then show thesis using assms None valid live that(1,4) by (auto simp: Reconcile_def Let_def split: option.splits)
      next
        case fin: True
        show thesis
        proof (cases "validateSpec (rx_Secret env) (defaulted x w) = None")
          case True
          then show thesis using assms None valid live fin that(6) by (simp add: Reconcile_def Let_def)
        next
          case False
          then show thesis using assms None valid live fin that(5) by (auto simp: Reconcile_def Let_def split: prod.splits)
        qed
      qed
    qed
  qed
next
  case (Some e)
  then show thesis using assms that(1) by (cases e) (auto simp: Reconcile_def Let_def)
qed

lemma standalone_phase_set:
  "standalone_summary sts g s = Inr s' \<Longrightarrow> su_Phase s' \<noteq> PhaseUnset"
  by (auto simp: standalone_summary_def Let_def split: sum.splits api_error.splits if_splits)

lemma updateStatus_monitors:
  "updateStatus env lr mem w = (res, err, w') \<Longrightarrow> sw_Monitor (is_Sentinel w') = sw_Monitor (is_Sentinel w) \<and> is_FailoverMonitor w' = is_FailoverMonitor w"
  by (auto simp: updateStatus_def Let_def split: sum.splits option.splits api_error.splits prod.splits)

lemma reconcileStandalone_monitors:
  "reconcileStandalone env lr mem w = (res, err, w', xs) \<Longrightarrow> sw_Monitor (is_Sentinel w') = sw_Monitor (is_Sentinel w) \<and> is_FailoverMonitor w' = is_FailoverMonitor w"
  by (auto simp: reconcileStandalone_def Let_def dest: updateStatus_monitors split: option.splits prod.splits)

lemma dispatch_mode:
  assumes "dispatch env ops ob mem w r = Inr (res, err, w', steps, r')"
  shows "list_all (step_of_mode (lq_Mode (ob_Spec ob))) steps \<and>
    (lq_Mode (ob_Spec ob) \<noteq> ''sentinel'' \<longrightarrow> sw_Monitor (is_Sentinel w') = sw_Monitor (is_Sentinel w)) \<and>
    (lq_Mode (ob_Spec ob) \<noteq> ''failover'' \<longrightarrow> is_FailoverMonitor w' = is_FailoverMonitor w)"
proof -
  consider "lq_Mode (ob_Spec ob) = ''standalone''" | "lq_Mode (ob_Spec ob) = ''sentinel''" | "lq_Mode (ob_Spec ob) = ''cluster''"
    | "lq_Mode (ob_Spec ob) = ''failover''" | "lq_Mode (ob_Spec ob) \<notin> {''standalone'', ''sentinel'', ''cluster'', ''failover''}" by blast
  then show ?thesis
  proof cases
    case 1
    then show ?thesis using assms by (auto simp: dispatch_def step_of_mode_def list_all_iff dest: reconcileStandalone_monitors split: prod.splits)
  next
    case 2
    then show ?thesis using assms
      by (cases "reconcileSentinel (rx_Sentinel env) (cr_of ob) (is_Sentinel w)") (auto simp: dispatch_def step_of_mode_def list_all_iff)
  next
    case 3
    then show ?thesis using assms
      by (cases "reconcile_cluster_mode (rx_Cluster env) ops ob w r")
        (auto simp: dispatch_def step_of_mode_def list_all_iff reconcile_cluster_mode_def split: sum.splits)
  next
    case 4
    then show ?thesis using assms
      by (cases "reconcile_failover_mode (rx_Failover env) (cr_of ob) w")
        (auto simp: dispatch_def step_of_mode_def list_all_iff reconcile_failover_mode_def split: sum.splits)
  next
    case 5
    then show ?thesis using assms by (auto simp: dispatch_def setFailedStatus_def split: prod.splits status_write.splits)
  qed
qed


lemma init_flag_mode:
  assumes "init_flag env ((is_Object w0)\<lparr>ob_Spec := defaulted x w0\<rparr>) w = (e, ob', w')" "is_Object w = is_Object w0"
  shows "lq_Mode (ob_Spec ob') = lq_Mode (defaulted x w0) \<and> sw_Monitor (is_Sentinel w') = sw_Monitor (is_Sentinel w) \<and>
    is_FailoverMonitor w' = is_FailoverMonitor w \<and> is_Object w' = is_Object w"
  using assms by (auto simp: init_flag_def Let_def SetDefaults_mode or_default_def split: if_splits status_write.splits)

lemma reconcile_valid_mode:
  assumes "reconcile_valid env ops ((is_Object w)\<lparr>ob_Spec := defaulted x w\<rparr>) w r = Inr (res, err, w', steps, r')"
  shows "list_all (step_of_mode (lq_Mode (defaulted x w))) steps \<and>
    (sw_Monitor (is_Sentinel w') \<longrightarrow> lq_Mode (defaulted x w) = ''sentinel'') \<and> (is_FailoverMonitor w' \<longrightarrow> lq_Mode (defaulted x w) = ''failover'')"
proof -
  define w1 where "w1 = stop_monitors (lq_Mode (defaulted x w) \<noteq> ''sentinel'') (lq_Mode (defaulted x w) \<noteq> ''failover'') w"
  obtain e ob' w2 where f: "init_flag env ((is_Object w)\<lparr>ob_Spec := defaulted x w\<rparr>) w1 = (e, ob', w2)" by (rule prod_cases3)
  note m = init_flag_mode [OF f]
  show ?thesis
  proof (cases e)
    case None
    then have "dispatch env ops ob' ((is_Summary w2)\<lparr>su_ConfigValid := Some (True, ''ConfigurationValid'')\<rparr>) w2 r = Inr (res, err, w', steps, r')"
      using assms f by (simp add: reconcile_valid_def Let_def w1_def)
    from dispatch_mode [OF this] m show ?thesis by (auto simp: w1_def)
  next
    case (Some a)
    then show ?thesis using assms f m by (auto simp: reconcile_valid_def Let_def w1_def)
  qed
qed

lemma Reconcile_gated_base:
  assumes "Reconcile env x ops w r = Inr (res, err, w', steps, r')"
  shows "(steps = [] \<and> r' = r) \<or> \<not> ob_Deleted (is_Object w)"
  using assms by (cases rule: Reconcile_cases) auto

text \<open>C1: A pass applies a resource, sends a command or changes the data of the servers only for an object that was read, is
  not being deleted, has the finalizer and passes both validations; then everything it does belongs to the
  mode of the specification, and at its end no monitor of another mode runs.\<close>

theorem Reconcile_gated:
  assumes "Reconcile env x ops w r = Inr (res, err, w', steps, r')" "steps \<noteq> [] \<or> r' \<noteq> r"
  shows "rx_Get env = None \<and> \<not> ob_Deleted (is_Object w) \<and> ob_Finalizer (is_Object w) \<and> Validate (defaulted x w) = None \<and>
    validateSpec (rx_Secret env) (defaulted x w) = None \<and> list_all (step_of_mode (lq_Mode (defaulted x w))) steps \<and>
    (sw_Monitor (is_Sentinel w') \<longrightarrow> lq_Mode (defaulted x w) = ''sentinel'') \<and> (is_FailoverMonitor w' \<longrightarrow> lq_Mode (defaulted x w) = ''failover'')"
  using assms(1)
proof (cases rule: Reconcile_cases)
  case Valid
  then show ?thesis using reconcile_valid_mode [OF Valid(6)] by simp
qed (use assms(2) in auto)

section \<open>The deletion\<close>

text \<open>C18: A deleted object whose specification is supported loses its finalizer, and its monitors stop, as soon as the updates of a pass
  succeed; one whose specification is not supported keeps it, whatever the outcomes. Neither sends a command.\<close>

theorem deletion_releases:
  assumes "Reconcile env x ops w r = Inr (res, err, w', steps, r')" "ob_Deleted (is_Object w)" "ob_Finalizer (is_Object w)" "rx_Get env = None"
  shows "steps = [] \<and> r' = r \<and>
    (if Validate (defaulted x w) = None
     then rx_TerminatingWrite env \<in> {None, Some Conflict} \<and> rx_RemoveFinalizer env = None \<longrightarrow>
       \<not> ob_Finalizer (is_Object w') \<and> \<not> sw_Monitor (is_Sentinel w') \<and> \<not> is_FailoverMonitor w' \<and> err = None
     else is_Object w' = is_Object w)"
proof -
  have "steps = [] \<and> r' = r" using Reconcile_gated_base [OF assms(1)] assms(2) by blast
  then show ?thesis using assms
    by (auto simp: Reconcile_def Let_def setFailedStatus_def reconcileDelete_def with_summary_def
      split: status_write.splits option.splits prod.splits if_splits)
qed


section \<open>An instance that failed\<close>

text \<open>Passes with any outcomes, and edits of the object that leave it in the sentinel mode.\<close>

inductive sentinel_run :: "string \<times> string \<Rightarrow> 'r redis_ops \<Rightarrow> instance_store \<Rightarrow> reconcile_step list \<Rightarrow> instance_store \<Rightarrow> bool"
  for x ops w where
  Start: "sentinel_run x ops w [] w"
| Pass: "sentinel_run x ops w ss w1 \<Longrightarrow> Reconcile env x ops w1 r = Inr (res, err, w2, steps, r') \<Longrightarrow> sentinel_run x ops w (ss @ steps) w2"
| Edit: "sentinel_run x ops w ss w1 \<Longrightarrow> lq_Mode (ob_Spec ob) = ''sentinel'' \<Longrightarrow> sentinel_run x ops w ss (w1\<lparr>is_Object := ob\<rparr>)"

definition registrations :: "reconcile_step list \<Rightarrow> redis_cmd list" where
  "registrations ss = concat (map (\<lambda>s. case s of SentinelStep t \<Rightarrow> seeds_of [t] | _ \<Rightarrow> []) ss)"

lemma registrations_simps [simp]: "registrations [] = []" "registrations (a @ b) = registrations a @ registrations b"
  "registrations (map SentinelStep ts) = seeds_of ts"
  by (simp_all add: registrations_def seeds_of_def comp_def)

definition past_start :: "instance_store \<Rightarrow> bool" where
  "past_start w \<longleftrightarrow> lq_Mode (ob_Spec (is_Object w)) = ''sentinel'' \<and> su_Phase (is_Summary w) \<noteq> PhaseUnset \<and> \<not> su_BootstrapRequired (is_Summary w)"

definition marked_invalid :: "instance_store \<Rightarrow> bool" where
  "marked_invalid w \<longleftrightarrow> (case su_ConfigValid (is_Summary w) of Some (False, _) \<Rightarrow> True | _ \<Rightarrow> False)"

lemma reconcileSentinel_no_flag:
  assumes "reconcileSentinel env lr w = Inr (res, err, w', steps)" "\<not> su_BootstrapRequired (sw_Summary w)"
  shows "seeds_of steps = []"
  using assms(1)
proof (cases rule: reconcileSentinel_cases)
  case (Steady mem xs)
  then obtain steps' where "label_and_heal env lr mem w = Inr (res, err, w', steps')" "steps = map Applied xs @ steps'"
    by (cases "label_and_heal env lr mem w") auto
  with label_and_heal_steps [OF this(1)] show ?thesis by simp
qed (use assms(2) in auto)

lemma failed_status_past:
  assumes "setFailedStatus out reason w = (res, err, w')" "past_start w"
  shows "past_start w' \<and> (marked_invalid w \<longrightarrow> marked_invalid w')"
  using assms by (auto simp: setFailedStatus_def past_start_def marked_invalid_def split: status_write.splits)

lemma deleted_past:
  assumes "reconcileDelete env ob w = (res, err, w')" "past_start w" "lq_Mode (ob_Spec ob) = ''sentinel''"
  shows "past_start w' \<and> (marked_invalid w \<longrightarrow> marked_invalid w')"
  using assms by (auto simp: reconcileDelete_def Let_def past_start_def marked_invalid_def split: option.splits if_splits)

lemma valid_past:
  assumes "reconcile_valid env ops ((is_Object w)\<lparr>ob_Spec := defaulted x w\<rparr>) w r = Inr (res, err, w', steps, r')" "past_start w"
  shows "past_start w' \<and> (marked_invalid w \<longrightarrow> marked_invalid w') \<and> registrations steps = []"
proof -
  have mode: "lq_Mode (defaulted x w) = ''sentinel''" using assms(2) by (simp add: SetDefaults_mode or_default_def past_start_def)
  define w1 where "w1 = stop_monitors False True w"
  have "init_flag env ((is_Object w)\<lparr>ob_Spec := defaulted x w\<rparr>) w1 = (None, (is_Object w)\<lparr>ob_Spec := defaulted x w\<rparr>, w1)"
    using assms(2) by (simp add: init_flag_def Let_def w1_def past_start_def)
  then obtain s' xs where s: "reconcileSentinel (rx_Sentinel env) (cr_of ((is_Object w)\<lparr>ob_Spec := defaulted x w\<rparr>)) (is_Sentinel w1) = Inr (res, err, s', xs)"
    "w' = w1\<lparr>is_Sentinel := s'\<rparr>" "steps = map SentinelStep xs"
    using assms(1) mode unfolding reconcile_valid_def dispatch_def Let_def
    by (cases "reconcileSentinel (rx_Sentinel env) (cr_of ((is_Object w)\<lparr>ob_Spec := defaulted x w\<rparr>)) (is_Sentinel w1)")
      (auto simp: w1_def)
  have "seeds_of xs = []" using reconcileSentinel_no_flag [OF s(1)] assms(2) by (simp add: w1_def past_start_def)
  moreover have "summary_step (is_Summary w) (sw_Summary s')" using reconcileSentinel_step [OF s(1)] by (simp add: w1_def)
  ultimately show ?thesis using assms(2) s(2,3) by (auto simp: past_start_def marked_invalid_def summary_step_def w1_def)
qed

lemma Reconcile_past:
  assumes "Reconcile env x ops w r = Inr (res, err, w', steps, r')" "past_start w"
  shows "past_start w' \<and> (marked_invalid w \<longrightarrow> marked_invalid w') \<and> registrations steps = []"
proof -
  have mode: "lq_Mode (defaulted x w) = ''sentinel''" using assms(2) by (simp add: SetDefaults_mode or_default_def past_start_def)
  from assms(1) show ?thesis
  proof (cases rule: Reconcile_cases)
    case Unread
    then show ?thesis using assms(2) by simp
  next
    case Invalid
    then show ?thesis using failed_status_past [OF Invalid(2) assms(2)] by simp
  next
    case Deleted
    then show ?thesis using deleted_past [OF Deleted(3) assms(2)] mode by simp
  next
    case Finalizer
    then show ?thesis using assms(2) mode by (simp add: past_start_def marked_invalid_def)
  next
    case Rejected
    then show ?thesis using failed_status_past [OF Rejected(2) assms(2)] by simp
  next
    case Valid
    then show ?thesis using valid_past [OF Valid(6) assms(2)] by blast
  qed
qed


section \<open>Examples\<close>

definition spec_example :: "string \<Rightarrow> bool \<Rightarrow> LittleRedSpec" where
  "spec_example mode auth =
     \<lparr>lq_Mode = mode, lq_AppName = [], lq_Image = \<lparr>im_Registry = [], im_Path = [], im_Tag = [], im_PullPolicy = []\<rparr>,
      lq_Resources = empty_resources,
      lq_Config = \<lparr>cf_Maxmemory = [], cf_MaxmemoryPolicy = [], cf_Timeout = 0, cf_TCPKeepalive = None, cf_Raw = []\<rparr>,
      lq_AuthEnabled = auth, lq_AuthSecret = [], lq_TLS = \<lparr>tl_Enabled = False, tl_ExistingSecret = [], tl_CACertSecret = [], tl_ClientAuth = False\<rparr>,
      lq_Metrics = \<lparr>mx_Enabled = None, mx_Exporter = \<lparr>xp_Registry = [], xp_Path = [], xp_Tag = [], xp_Resources = empty_resources\<rparr>,
        mx_MonitorEnabled = False, mx_Interval = [], mx_ScrapeTimeout = []\<rparr>,
      lq_UpdateStrategy = [], lq_ServiceType = [], lq_SecurityContext = None, lq_Sentinel = None, lq_Cluster = None, lq_Failover = None,
      lq_Placement = None, lq_Fast = None, lq_Steady = None, lq_PDBCreate = None\<rparr>"

definition object_example :: "string \<Rightarrow> bool \<Rightarrow> bool \<Rightarrow> littlered_object" where
  "object_example mode auth deleted =
     \<lparr>ob_Name = ''c'', ob_Namespace = ''n'', ob_UID = ''u'', ob_Generation = 1, ob_Deleted = deleted, ob_Finalizer = True,
      ob_DisablePolling = False, ob_DisableEvents = False, ob_Spec = spec_example mode auth\<rparr>"

definition cluster_status_example :: cluster_status where
  "cluster_status_example =
     \<lparr>mt_Phase = PhaseUnset, mt_Status = [], mt_NotReady = None, mt_Cluster = None, ct_State = [], ct_Nodes = [], ct_OrphanedReplicas = [],
      ct_WipeDeadlockSince = None, ct_RedisReady = 0, ct_RedisTotal = 0, ct_Ready = False, ct_Blocked = None, ct_Auth = None\<rparr>"

definition store_example :: "littlered_object \<Rightarrow> instance_store" where
  "store_example ob = \<lparr>is_Object = ob, is_Sentinel = sentinel_store_example, is_Failover = failover_state_example, is_FailoverMonitor = True,
     is_Cluster = cluster_status_example\<rparr>"

definition reconcile_env_example :: reconcile_env where
  "reconcile_env_example =
     \<lparr>rx_Get = None, rx_Secret = (\<lambda>_. Inl NotFound), rx_FailedWrite = Written, rx_TerminatingWrite = None, rx_RemoveFinalizer = None,
      rx_AddFinalizer = None, rx_FlagWrite = Written, rx_FlagRefetch = None,
      rx_Standalone = \<lparr>sb_Apply = (\<lambda>_. None), sb_GetSTS = Inr (1, 1), sb_StatusWrite = None\<rparr>,
      rx_Sentinel = sentinel_pass_example, rx_Cluster = cluster_env_example 3 100,
      rx_Failover = \<lparr>fq_Apply = (\<lambda>_. None), fq_Boot = failover_boot_example, fq_Engine = failover_env_example, fq_LabelList = None,
        fq_LabelUpdate = (\<lambda>_. None), fq_Channel = True, fq_Latest = None, fq_GetSTS = Inr (3, 3), fq_StatusWrite = None, fq_Refetch = None\<rparr>\<rparr>"

definition exporter_example :: "string \<times> string" where
  "exporter_example = (''oliver006/redis_exporter'', ''v1.89.0'')"

lemma specs_valid_example:
  "Validate (SetDefaults exporter_example (spec_example [] False)) = None"
  "validateSpec (\<lambda>_. Inl NotFound) (SetDefaults exporter_example (spec_example [] False)) = None"
  "Validate (SetDefaults exporter_example (spec_example ''sentinel'' False)) = None"
  "validateSpec (\<lambda>_. Inl NotFound) (SetDefaults exporter_example (spec_example ''sentinel'' False)) = None"
  "validateSpec (\<lambda>_. Inl NotFound) (SetDefaults exporter_example (spec_example ''sentinel'' True)) = Some (NoSecretName ''auth.existingSecret'')"
  "mx_MonitorEnabled (lq_Metrics (SetDefaults exporter_example (spec_example [] False))) = False"
  by code_simp+

lemma standalone_pass_example:
  "case reconcileStandalone (rx_Standalone reconcile_env_example)
      (cr_of ((object_example [] False False)\<lparr>ob_Spec := SetDefaults exporter_example (spec_example [] False)\<rparr>))
      ((is_Summary w)\<lparr>su_ConfigValid := Some (True, ''ConfigurationValid'')\<rparr>) w of
     (res, err, w', xs) \<Rightarrow> err = None \<and> xs = [StandaloneConfigMap, StandaloneStatefulSet, StandaloneService, DeletedPDB]"
  by (simp add: reconcileStandalone_def updateStatus_def reconcile_env_example_def standalone_summary_def Let_def ignore_not_found_def
    cr_of_def metrics_IsEnabled_def specs_valid_example split: prod.split)

theorem Reconcile_gated_witness:
  "\<exists>res err w' steps r'.
     Reconcile reconcile_env_example exporter_example two_nodes (store_example (object_example [] False False)) ([], []) =
       Inr (res, err, w', steps, r') \<and>
     length steps = 4 \<and> list_all (step_of_mode ''standalone'') steps \<and> \<not> is_FailoverMonitor w'"
proof -
  define w where "w = store_example (object_example [] False False)"
  define ob where "ob = (is_Object w)\<lparr>ob_Spec := defaulted exporter_example w\<rparr>"
  have spec: "defaulted exporter_example w = SetDefaults exporter_example (spec_example [] False)" "\<not> ob_Deleted (is_Object w)" "ob_Finalizer (is_Object w)"
    by (simp_all add: w_def store_example_def object_example_def)
  have mode: "lq_Mode (defaulted exporter_example w) = ''standalone''" by (simp add: spec SetDefaults_mode spec_example_def or_default_def)
  have env: "rx_Get reconcile_env_example = None" "rx_Secret reconcile_env_example = (\<lambda>_. Inl NotFound)"
    by (simp_all add: reconcile_env_example_def)
  define w1 where "w1 = stop_monitors True True w"
  obtain res err w' xs where p: "reconcileStandalone (rx_Standalone reconcile_env_example) (cr_of ob)
      ((is_Summary w1)\<lparr>su_ConfigValid := Some (True, ''ConfigurationValid'')\<rparr>) w1 = (res, err, w', xs)" by (rule prod_cases4)
  have ob: "ob = (object_example [] False False)\<lparr>ob_Spec := SetDefaults exporter_example (spec_example [] False)\<rparr>"
    by (simp add: ob_def spec) (simp add: w_def store_example_def)
  have xs: "length xs = 4" using standalone_pass_example [of w1] p by (simp add: ob)
  have r: "Reconcile reconcile_env_example exporter_example two_nodes w ([], []) = Inr (res, err, w', map StandaloneStep xs, ([], []))"
    using p mode spec
    by (simp add: Reconcile_def Let_def env specs_valid_example reconcile_valid_def init_flag_def dispatch_def ob_def w1_def)
  have "map StandaloneStep xs \<noteq> [] \<or> ([], []) \<noteq> ([] :: string list, [] :: string list)" using xs by auto
  from Reconcile_gated [OF r this] r xs mode show ?thesis by (auto simp: w_def)
qed

theorem deletion_releases_witness:
  "\<exists>res err w'.
     Reconcile reconcile_env_example exporter_example two_nodes (store_example (object_example [] False True)) ([], []) =
       Inr (res, err, w', [], ([], [])) \<and> \<not> ob_Finalizer (is_Object w') \<and> err = None"
proof -
  define w where "w = store_example (object_example [] False True)"
  have spec: "defaulted exporter_example w = SetDefaults exporter_example (spec_example [] False)" "ob_Deleted (is_Object w)" "ob_Finalizer (is_Object w)"
    by (simp_all add: w_def store_example_def object_example_def)
  have env: "rx_Get reconcile_env_example = None" "rx_TerminatingWrite reconcile_env_example = None" "rx_RemoveFinalizer reconcile_env_example = None"
    by (simp_all add: reconcile_env_example_def)
  obtain res err w' where d: "reconcileDelete reconcile_env_example ((is_Object w)\<lparr>ob_Spec := defaulted exporter_example w\<rparr>) w = (res, err, w')"
    by (rule prod_cases3)
  have r: "Reconcile reconcile_env_example exporter_example two_nodes w ([], []) = Inr (res, err, w', [], ([], []))"
    using d spec by (simp add: Reconcile_def Let_def env specs_valid_example)
  from deletion_releases [OF r spec(2,3) env(1)] r spec env show ?thesis by (simp add: specs_valid_example w_def)
qed

definition failed_store :: "bool \<Rightarrow> instance_store" where
  "failed_store auth = with_summary (summary_example\<lparr>su_Phase := PhaseFailed, su_BootstrapRequired := False,
      su_ConfigValid := Some (False, ''ValidationFailed'')\<rparr>) (store_example (object_example ''sentinel'' auth False))"

lemma sentinel_pass_returns:
  "case reconcileSentinel sentinel_pass_example
      (cr_of ((object_example ''sentinel'' False False)\<lparr>ob_Spec := SetDefaults exporter_example (spec_example ''sentinel'' False)\<rparr>))
      (is_Sentinel (stop_monitors False True (failed_store False))) of
     Inl _ \<Rightarrow> False | Inr (res, err, s, xs) \<Rightarrow> xs \<noteq> []"
  by code_simp


end
